(* ===== verification/Prelude.thy ===== *)
theory Prelude
  imports Main "HOL-Library.Sublist"
begin

text \<open>
  Shared vocabulary of the development: Python values that every component uses.

  A Python \<open>str\<close> is a sequence of Unicode code points, so \<open>pystr\<close> is a list of naturals and
  \<open>lit\<close> injects an ASCII literal. An exception is a value of \<open>py_error\<close>, and a fallible function
  returns \<open>py_error + 'a\<close>. The generic list lemmas used by several components are stated here.
\<close>

named_theorems pystr_simps \<open>rewriting Python string operations\<close>
named_theorems size_simps \<open>UTF-8 sizes of composed strings\<close>
named_theorems result_simps \<open>unfolding of fallible computations\<close>

section \<open>Strings and literals\<close>

type_synonym pystr = "nat list"

definition lit :: "string \<Rightarrow> pystr" where
  "lit s = map of_char s"

lemma lit_inject [simp]: "lit s = lit t \<longleftrightarrow> s = t"
  by (auto simp: lit_def inj_map_eq_map [OF inj_of_char] inj_on_def)

lemma lit_Nil [simp]: "lit [] = []"
  by (simp add: lit_def)

lemma lit_eq_Nil [simp]: "lit s = [] \<longleftrightarrow> s = []"
  by (simp add: lit_def)

lemma Nil_eq_lit [simp]: "[] = lit s \<longleftrightarrow> s = []"
  by (auto simp: lit_def)

lemma lit_append: "lit (s @ t) = lit s @ lit t"
  by (simp add: lit_def)

lemma length_lit [simp]: "length (lit s) = length s"
  by (simp add: lit_def)

lemma lit_ascii: "c \<in> set (lit s) \<Longrightarrow> c < 256"
  by (auto simp: lit_def)

section \<open>Exceptions and fallible results\<close>

datatype py_error =
    TypeError pystr
  | ValueError pystr
  | UnicodeEncodeError
  | RuntimeError pystr
  | KeyError
  | OtherError pystr pystr \<comment> \<open>an exception of another class: the class name and the message\<close>
  | RaisedBy pystr \<comment> \<open>an exception raised by a collaborator that is a parameter of the model\<close>

text \<open>\<open>UnicodeEncodeError\<close> is a subclass of \<open>ValueError\<close>; this is the handler
  \<open>except (TypeError, ValueError)\<close>.\<close>

fun type_or_value_error :: "py_error \<Rightarrow> bool" where
  "type_or_value_error (TypeError _) = True"
| "type_or_value_error (ValueError _) = True"
| "type_or_value_error UnicodeEncodeError = True"
| "type_or_value_error (RuntimeError _) = False"
| "type_or_value_error KeyError = False"
| "type_or_value_error (OtherError _ _) = False"
| "type_or_value_error (RaisedBy _) = False"

text \<open>A value whose type the code tests: one of the expected type, or something else.\<close>

datatype 'a dyn = Val 'a | OtherType

type_synonym 'a result = "py_error + 'a"

definition bindr :: "'a result \<Rightarrow> ('a \<Rightarrow> 'b result) \<Rightarrow> 'b result" where
  "bindr m f = (case m of Inl e \<Rightarrow> Inl e | Inr x \<Rightarrow> f x)"

definition raise_if :: "bool \<Rightarrow> py_error \<Rightarrow> unit result" where
  "raise_if c e = (if c then Inl e else Inr ())"

lemma bindr_simps [simp]:
  "bindr (Inl e) f = Inl e"
  "bindr (Inr x) f = f x"
  by (simp_all add: bindr_def)

lemma bindr_Inr_iff: "bindr m f = Inr y \<longleftrightarrow> (\<exists>x. m = Inr x \<and> f x = Inr y)"
  by (cases m) auto

lemma bindr_Inl_iff: "bindr m f = Inl e \<longleftrightarrow> m = Inl e \<or> (\<exists>x. m = Inr x \<and> f x = Inl e)"
  by (cases m) auto

lemma raise_if_Inr [simp]: "raise_if c e = Inr u \<longleftrightarrow> \<not> c"
  by (simp add: raise_if_def)

lemma raise_if_Inl [simp]: "raise_if c e = Inl e' \<longleftrightarrow> c \<and> e' = e"
  by (auto simp: raise_if_def)

lemma bindr_raise_if_Inr [simp]:
  "bindr (raise_if c e) f = Inr y \<longleftrightarrow> \<not> c \<and> f () = Inr y"
  by (simp add: raise_if_def)

text \<open>\<open>for x in xs: body\<close> with a body that may raise and carries an accumulator.\<close>

fun foldr_r :: "('a \<Rightarrow> 's \<Rightarrow> 's result) \<Rightarrow> 'a list \<Rightarrow> 's \<Rightarrow> 's result" where
  "foldr_r f [] s = Inr s"
| "foldr_r f (x # xs) s = bindr (f x s) (foldr_r f xs)"

text \<open>A validation loop: every element is checked, the first failure is raised.\<close>

fun check_all :: "('a \<Rightarrow> unit result) \<Rightarrow> 'a list \<Rightarrow> unit result" where
  "check_all f [] = Inr ()"
| "check_all f (x # xs) = bindr (f x) (\<lambda>_. check_all f xs)"

lemma check_all_Inr: "check_all f xs = Inr u \<longleftrightarrow> (\<forall>x \<in> set xs. f x = Inr ())"
  by (induction xs) (auto simp: bindr_Inr_iff)

lemma check_all_Inl: "check_all f xs = Inl e \<Longrightarrow> \<exists>x \<in> set xs. f x = Inl e"
  by (induction xs) (auto simp: bindr_Inl_iff)

text \<open>\<open>[f(x) for x in xs]\<close> with a body that may raise.\<close>

fun map_r :: "('a \<Rightarrow> 'b result) \<Rightarrow> 'a list \<Rightarrow> 'b list result" where
  "map_r f [] = Inr []"
| "map_r f (x # xs) = bindr (f x) (\<lambda>y. bindr (map_r f xs) (\<lambda>ys. Inr (y # ys)))"

lemma map_r_Inr: "map_r f xs = Inr ys \<longleftrightarrow> list_all2 (\<lambda>x y. f x = Inr y) xs ys"
  by (induction xs arbitrary: ys) (auto simp: bindr_Inr_iff list_all2_Cons1)

lemma foldr_r_invariant:
  assumes "foldr_r f xs s = Inr t" and "P s"
    and "\<And>x s s'. x \<in> set xs \<Longrightarrow> P s \<Longrightarrow> f x s = Inr s' \<Longrightarrow> P s'"
  shows "P t"
  using assms
proof (induction xs arbitrary: s)
  case Nil
  then show ?case by simp
next
  case (Cons x xs)
  from Cons.prems(1) obtain s' where s': "f x s = Inr s'" and rest: "foldr_r f xs s' = Inr t"
    by (auto simp: bindr_Inr_iff)
  have "P s'" by (rule Cons.prems(3) [OF _ Cons.prems(2) s']) simp
  with rest show ?case
    by (rule Cons.IH) (use Cons.prems(3) in auto)
qed

lemma foldr_r_append:
  "foldr_r f (xs @ ys) s = bindr (foldr_r f xs s) (foldr_r f ys)"
proof (induction xs arbitrary: s)
  case (Cons x xs)
  then show ?case by (cases "f x s") auto
qed simp

text \<open>A loop that appends \<open>h x\<close> to one of its variables computes the concatenation.\<close>

lemma foldr_r_accumulate:
  assumes "foldr_r f xs s = Inr t"
    and "\<And>x s s'. x \<in> set xs \<Longrightarrow> f x s = Inr s' \<Longrightarrow> g s' = g s @ h x"
  shows "g t = g s @ concat (map h xs)"
  using assms
proof (induction xs arbitrary: s)
  case (Cons x xs)
  from Cons.prems(1) obtain s' where s': "f x s = Inr s'" and rest: "foldr_r f xs s' = Inr t"
    by (auto simp: bindr_Inr_iff)
  have "g t = g s' @ concat (map h xs)"
    using rest Cons.prems(2) by (intro Cons.IH) auto
  with Cons.prems(2) [OF _ s'] show ?case by simp
qed simp

text \<open>A check made for every element holds of every element of a completed loop.\<close>

lemma foldr_r_each:
  assumes "foldr_r f xs s = Inr t" and "x \<in> set xs"
    and "\<And>x s s'. f x s = Inr s' \<Longrightarrow> Q x"
  shows "Q x"
  using assms
proof (induction xs arbitrary: s)
  case (Cons y xs)
  from Cons.prems(1) obtain s' where s': "f y s = Inr s'" and rest: "foldr_r f xs s' = Inr t"
    by (auto simp: bindr_Inr_iff)
  show ?case
    using Cons.prems(2) Cons.prems(3) [OF s'] Cons.IH [OF rest _ Cons.prems(3)] by auto
qed simp

text \<open>A loop that rejects a key already in its set and adds the key has seen distinct keys.\<close>

lemma foldr_r_distinct:
  assumes "foldr_r f xs s = Inr t"
    and "\<And>x s s'. f x s = Inr s' \<Longrightarrow> k x \<notin> S s \<and> S s' = insert (k x) (S s)"
  shows "distinct (map k xs) \<and> set (map k xs) \<inter> S s = {} \<and> S t = S s \<union> set (map k xs)"
  using assms
proof (induction xs arbitrary: s)
  case (Cons x xs)
  from Cons.prems(1) obtain s' where s': "f x s = Inr s'" and rest: "foldr_r f xs s' = Inr t"
    by (auto simp: bindr_Inr_iff)
  from Cons.IH [OF rest Cons.prems(2)] Cons.prems(2) [OF s'] show ?case by auto
qed simp

section \<open>Order-preserving removal of duplicates\<close>

text \<open>
  The loop \<open>if value not in seen: seen.add(value); result.append(value)\<close>; its result is the
  list of first occurrences.
\<close>

fun uniq_from :: "'a set \<Rightarrow> 'a list \<Rightarrow> 'a list" where
  "uniq_from seen [] = []"
| "uniq_from seen (x # xs) =
     (if x \<in> seen then uniq_from seen xs else x # uniq_from (insert x seen) xs)"

definition uniq :: "'a list \<Rightarrow> 'a list" where
  "uniq xs = uniq_from {} xs"

lemma set_uniq_from [simp]: "set (uniq_from seen xs) = set xs - seen"
  by (induction xs arbitrary: seen) auto

lemma distinct_uniq_from [simp]: "distinct (uniq_from seen xs)"
  by (induction xs arbitrary: seen) auto

lemma set_uniq [simp]: "set (uniq xs) = set xs"
  by (simp add: uniq_def)

lemma distinct_uniq [simp]: "distinct (uniq xs)"
  by (simp add: uniq_def)

lemma uniq_Nil [simp]: "uniq [] = []"
  by (simp add: uniq_def)

lemma uniq_eq_Nil [simp]: "uniq xs = [] \<longleftrightarrow> xs = []"
  by (metis set_empty set_uniq)

lemma uniq_from_distinct: "distinct xs \<Longrightarrow> set xs \<inter> seen = {} \<Longrightarrow> uniq_from seen xs = xs"
  by (induction xs arbitrary: seen) auto

lemma uniq_distinct: "distinct xs \<Longrightarrow> uniq xs = xs"
  by (simp add: uniq_def uniq_from_distinct)

lemma subseq_uniq_from: "subseq (uniq_from seen xs) xs"
  by (induction xs arbitrary: seen) auto

lemma subseq_uniq: "subseq (uniq xs) xs"
  by (simp add: uniq_def subseq_uniq_from)

lemma uniq_from_snoc:
  "uniq_from seen (xs @ [x]) =
     uniq_from seen xs @ (if x \<in> seen \<union> set xs then [] else [x])"
  by (induction xs arbitrary: seen) auto

lemma sum_list_subseq_le:
  fixes f :: "'a \<Rightarrow> nat"
  shows "subseq xs ys \<Longrightarrow> sum_list (map f xs) \<le> sum_list (map f ys)"
  by (induction rule: list_emb.induct) auto

section \<open>Guards that return None\<close>

lemma guard_None_Some [result_simps]:
  "(if c then None else x) = Some y \<longleftrightarrow> \<not> c \<and> x = Some y"
  "(case m of None \<Rightarrow> None | Some z \<Rightarrow> f z) = Some y \<longleftrightarrow> (\<exists>z. m = Some z \<and> f z = Some y)"
  by (auto split: option.splits)

section \<open>Lists read by position\<close>

lemma list_all2_each: "list_all2 P xs ys \<Longrightarrow> x \<in> set xs \<Longrightarrow> \<exists>y \<in> set ys. P x y"
  by (induction rule: list_all2_induct) auto

lemma nth_drop_Suc: "i < length xs \<Longrightarrow> drop i xs = xs ! i # drop (Suc i) xs"
  by (simp add: Cons_nth_drop_Suc)

lemma takeWhile_dropWhile_length:
  "length (takeWhile P xs) + length (dropWhile P xs) = length xs"
  by (metis length_append takeWhile_dropWhile_id)

lemma dropWhile_idem [simp]: "dropWhile P (dropWhile P xs) = dropWhile P xs"
  by (induction xs) auto

end
