(* ===== verification/Py_Text.thy ===== *)
theory Py_Text
  imports Prelude
begin

text \<open>
  The part of Python's \<open>str\<close> that the sources use: character classes, \<open>strip\<close>, \<open>split\<close>,
  \<open>splitlines\<close>, \<open>join\<close>, prefix tests and the length of the UTF-8 encoding, with the laws the
  components rely on (round trips between splitting and joining, and size bounds).
\<close>

section \<open>Character classes\<close>

text \<open>Characters for which \<open>str.isspace\<close> holds; \<open>str.strip()\<close> removes them.\<close>

definition py_isspace :: "nat \<Rightarrow> bool" where
  "py_isspace c \<longleftrightarrow>
     (9 \<le> c \<and> c \<le> 13) \<or> (28 \<le> c \<and> c \<le> 32) \<or> c = 133 \<or> c = 160 \<or> c = 5760 \<or>
     (8192 \<le> c \<and> c \<le> 8202) \<or> c = 8232 \<or> c = 8233 \<or> c = 8239 \<or> c = 8287 \<or> c = 12288"

text \<open>Line boundaries of \<open>str.splitlines\<close>.\<close>

definition py_linebreak :: "nat \<Rightarrow> bool" where
  "py_linebreak c \<longleftrightarrow>
     (10 \<le> c \<and> c \<le> 13) \<or> (28 \<le> c \<and> c \<le> 30) \<or> c = 133 \<or> c = 8232 \<or> c = 8233"

text \<open>The Unicode category \<open>Cc\<close>.\<close>

definition py_control :: "nat \<Rightarrow> bool" where
  "py_control c \<longleftrightarrow> c < 32 \<or> (127 \<le> c \<and> c < 160)"

text \<open>Lone surrogates, which have no UTF-8 encoding.\<close>

definition py_surrogate :: "nat \<Rightarrow> bool" where
  "py_surrogate c \<longleftrightarrow> 55296 \<le> c \<and> c \<le> 57343"

lemma linebreak_isspace: "py_linebreak c \<Longrightarrow> py_isspace c"
  by (auto simp: py_linebreak_def py_isspace_def)

section \<open>Stripping\<close>

definition rstrip_on :: "('a \<Rightarrow> bool) \<Rightarrow> 'a list \<Rightarrow> 'a list" where
  "rstrip_on P s = rev (dropWhile P (rev s))"

definition strip_on :: "('a \<Rightarrow> bool) \<Rightarrow> 'a list \<Rightarrow> 'a list" where
  "strip_on P s = rstrip_on P (dropWhile P s)"

definition strip :: "pystr \<Rightarrow> pystr" where
  "strip s = strip_on py_isspace s"

definition rstrip :: "pystr \<Rightarrow> pystr" where
  "rstrip s = rstrip_on py_isspace s"

lemma rstrip_on_Nil [simp]: "rstrip_on P [] = []"
  by (simp add: rstrip_on_def)

lemma strip_on_Nil [simp]: "strip_on P [] = []"
  by (simp add: strip_on_def)

lemma strip_Nil [simp]: "strip [] = []"
  by (simp add: strip_def)

lemma rstrip_Nil [simp]: "rstrip [] = []"
  by (simp add: rstrip_def)

lemma rstrip_on_snoc [simp]:
  "rstrip_on P (s @ [c]) = (if P c then rstrip_on P s else s @ [c])"
  by (simp add: rstrip_on_def)

lemma rstrip_on_eq_Nil: "rstrip_on P s = [] \<longleftrightarrow> (\<forall>c \<in> set s. P c)"
  by (induction s rule: rev_induct) auto

lemma rstrip_on_prefix: "prefix (rstrip_on P s) s"
proof (induction s rule: rev_induct)
  case (snoc x xs)
  then show ?case by (cases "P x") (auto intro: prefix_prefix)
qed simp

lemma rstrip_on_idem [simp]: "rstrip_on P (rstrip_on P s) = rstrip_on P s"
  by (induction s rule: rev_induct) auto

lemma rstrip_on_id: "s = [] \<or> \<not> P (last s) \<Longrightarrow> rstrip_on P s = s"
  by (cases s rule: rev_cases) auto

lemma last_rstrip_on: "rstrip_on P s \<noteq> [] \<Longrightarrow> \<not> P (last (rstrip_on P s))"
  by (induction s rule: rev_induct) auto

lemma dropWhile_eq_Nil: "dropWhile P s = [] \<longleftrightarrow> (\<forall>c \<in> set s. P c)"
  by simp

lemma strip_on_eq_Nil: "strip_on P s = [] \<longleftrightarrow> (\<forall>c \<in> set s. P c)"
proof -
  have "(\<forall>c \<in> set (dropWhile P s). P c) \<longleftrightarrow> (\<forall>c \<in> set s. P c)"
    by (induction s) auto
  then show ?thesis by (simp add: strip_on_def rstrip_on_eq_Nil)
qed

lemma sublist_strip_on: "sublist (strip_on P s) s"
proof -
  have "sublist (rstrip_on P (dropWhile P s)) (dropWhile P s)"
    using rstrip_on_prefix by (rule prefix_imp_sublist)
  moreover have "sublist (dropWhile P s) s"
    by (metis sublist_append_leftI takeWhile_dropWhile_id)
  ultimately show ?thesis
    unfolding strip_on_def by (rule sublist_order.order_trans)
qed

lemma set_strip_on: "c \<in> set (strip_on P s) \<Longrightarrow> c \<in> set s"
  by (metis set_mono_sublist sublist_strip_on subset_iff)

lemma hd_rstrip_on:
  assumes "rstrip_on P s \<noteq> []"
  shows "hd (rstrip_on P s) = hd s"
proof -
  obtain zs where "s = rstrip_on P s @ zs"
    using rstrip_on_prefix prefix_def by blast
  with assms show ?thesis by (metis hd_append2)
qed

lemma strip_on_ends:
  assumes "strip_on P s \<noteq> []"
  shows "\<not> P (hd (strip_on P s))" and "\<not> P (last (strip_on P s))"
proof -
  show "\<not> P (last (strip_on P s))"
    using assms last_rstrip_on unfolding strip_on_def by blast
  have "dropWhile P s \<noteq> []" using assms unfolding strip_on_def by fastforce
  then have "\<not> P (hd (dropWhile P s))" by (rule hd_dropWhile)
  then show "\<not> P (hd (strip_on P s))"
    using assms hd_rstrip_on unfolding strip_on_def by metis
qed

lemma strip_on_id: "s = [] \<or> \<not> P (hd s) \<and> \<not> P (last s) \<Longrightarrow> strip_on P s = s"
  by (cases s) (auto simp: strip_on_def rstrip_on_id)

lemma strip_on_idem [simp]: "strip_on P (strip_on P s) = strip_on P s"
  by (rule strip_on_id) (use strip_on_ends in blast)

lemma strip_idem [simp]: "strip (strip s) = strip s"
  by (simp add: strip_def)

text \<open>A token without any character of \<open>P\<close> is what stripping leaves alone.\<close>

lemma strip_on_none: "(\<forall>c \<in> set s. \<not> P c) \<Longrightarrow> strip_on P s = s"
  by (rule strip_on_id) (cases s; auto)

lemma strip_on_sandwich:
  assumes "\<forall>c \<in> set a. P c" and "\<forall>c \<in> set b. P c"
  shows "strip_on P (a @ s @ b) = strip_on P s"
proof -
  have "dropWhile P (a @ s @ b) = dropWhile P (s @ b)"
    using assms(1) by (induction a) auto
  moreover have "rstrip_on P (x @ b) = rstrip_on P x" for x
    using assms(2) by (induction b rule: rev_induct) (auto simp flip: append_assoc)
  moreover have "dropWhile P (s @ b) = (if \<forall>c \<in> set s. P c then [] else dropWhile P s @ b)"
    using assms(2) by (auto simp: dropWhile_append)
  moreover have "(\<forall>c \<in> set s. P c) \<Longrightarrow> rstrip_on P (dropWhile P s) = []"
    unfolding strip_on_def [symmetric] strip_on_eq_Nil .
  ultimately show ?thesis
    by (simp add: strip_on_def)
qed

lemma strip_on_decomp:
  obtains a b where "s = a @ strip_on P s @ b" "\<forall>c \<in> set a. P c" "\<forall>c \<in> set b. P c"
proof -
  have r: "\<exists>b. x = rstrip_on P x @ b \<and> (\<forall>c \<in> set b. P c)" for x
  proof -
    have "x = rstrip_on P x @ rev (takeWhile P (rev x))"
      unfolding rstrip_on_def by (metis rev_append rev_rev_ident takeWhile_dropWhile_id)
    then show ?thesis by (metis set_rev set_takeWhileD)
  qed
  obtain b where b: "dropWhile P s = strip_on P s @ b" "\<forall>c \<in> set b. P c"
    using r [of "dropWhile P s"] by (auto simp: strip_on_def)
  have "s = takeWhile P s @ strip_on P s @ b"
    using b(1) by (metis takeWhile_dropWhile_id)
  moreover have "\<forall>c \<in> set (takeWhile P s). P c"
    by (auto dest: set_takeWhileD)
  ultimately show ?thesis
    using b(2) by (rule that)
qed

section \<open>Splitting and joining\<close>

text \<open>\<open>s.split(sep)\<close> for a one-character separator: never empty, empty pieces kept.\<close>

fun cons_head :: "'a \<Rightarrow> 'a list list \<Rightarrow> 'a list list" where
  "cons_head x [] = [[x]]"
| "cons_head x (l # ls) = (x # l) # ls"

fun split_on :: "nat \<Rightarrow> pystr \<Rightarrow> pystr list" where
  "split_on c [] = [[]]"
| "split_on c (x # xs) =
     (if x = c then [] # split_on c xs else cons_head x (split_on c xs))"

text \<open>
  \<open>s.splitlines()\<close>: \<open>\r\n\<close> is one boundary (the flag records a carriage return just read),
  and a boundary at the end of the string opens no further line.
\<close>

fun splitlines_from :: "bool \<Rightarrow> pystr \<Rightarrow> pystr list" where
  "splitlines_from cr [] = []"
| "splitlines_from cr (x # xs) =
     (if cr \<and> x = 10 then splitlines_from False xs
      else if py_linebreak x then [] # splitlines_from (x = 13) xs
      else cons_head x (splitlines_from False xs))"

definition splitlines :: "pystr \<Rightarrow> pystr list" where
  "splitlines s = splitlines_from False s"

text \<open>\<open>sep.join(parts)\<close>.\<close>

fun py_join :: "pystr \<Rightarrow> pystr list \<Rightarrow> pystr" where
  "py_join sep [] = []"
| "py_join sep [x] = x"
| "py_join sep (x # y # zs) = x @ sep @ py_join sep (y # zs)"

definition join_lines :: "pystr list \<Rightarrow> pystr" where
  "join_lines ls = py_join [10] ls"

definition split_nl :: "pystr \<Rightarrow> pystr list" where
  "split_nl s = split_on 10 s"

lemma join_lines_simps [simp]:
  "join_lines [] = []"
  "join_lines [x] = x"
  "join_lines (x # y # zs) = x @ 10 # join_lines (y # zs)"
  by (simp_all add: join_lines_def)

lemma join_lines_Cons: "ls \<noteq> [] \<Longrightarrow> join_lines (x # ls) = x @ 10 # join_lines ls"
  by (cases ls) auto

lemma join_lines_append:
  "xs \<noteq> [] \<Longrightarrow> ys \<noteq> [] \<Longrightarrow> join_lines (xs @ ys) = join_lines xs @ 10 # join_lines ys"
proof (induction xs)
  case (Cons x xs)
  then show ?case by (cases xs) (auto simp: join_lines_Cons)
qed simp

lemma cons_head_not_Nil [simp]: "cons_head x ls \<noteq> []"
  by (cases ls) auto

lemma length_cons_head: "ls \<noteq> [] \<Longrightarrow> length (cons_head x ls) = length ls"
  by (cases ls) auto

lemma split_on_not_Nil [simp]: "split_on c s \<noteq> []"
  by (induction s) auto

lemma split_nl_not_Nil [simp]: "split_nl s \<noteq> []"
  by (simp add: split_nl_def)

lemma join_cons_head: "ls \<noteq> [] \<Longrightarrow> join_lines (cons_head x ls) = x # join_lines ls"
  by (cases ls rule: remdups_adj.cases) auto

lemma join_split_nl [simp]: "join_lines (split_nl s) = s"
  unfolding split_nl_def
  by (induction s) (auto simp: join_cons_head join_lines_Cons)

lemma split_nl_no_nl: "l \<in> set (split_nl s) \<Longrightarrow> 10 \<notin> set l"
  unfolding split_nl_def
proof (induction s arbitrary: l)
  case (Cons x xs)
  then show ?case
    by (cases "split_on 10 xs") (auto split: if_splits)
qed simp

lemma split_nl_line: "10 \<notin> set x \<Longrightarrow> split_nl x = [x]"
  unfolding split_nl_def by (induction x) auto

lemma split_nl_line_nl: "10 \<notin> set x \<Longrightarrow> split_nl (x @ 10 # s) = x # split_nl s"
  unfolding split_nl_def by (induction x) auto

lemma split_join_lines:
  "ls \<noteq> [] \<Longrightarrow> \<forall>l \<in> set ls. 10 \<notin> set l \<Longrightarrow> split_nl (join_lines ls) = ls"
  by (induction ls rule: induct_list012) (auto simp: split_nl_line split_nl_line_nl)

lemma split_nl_append_nl:
  "split_nl (s @ 10 # t) = split_nl s @ split_nl t"
proof -
  have "join_lines (split_nl s @ split_nl t) = s @ 10 # t"
    by (simp add: join_lines_append)
  moreover have "\<forall>l \<in> set (split_nl s @ split_nl t). 10 \<notin> set l"
    by (auto dest: split_nl_no_nl)
  ultimately show ?thesis
    by (metis split_join_lines append_is_Nil_conv split_nl_not_Nil)
qed

section \<open>Lines\<close>

definition no_breaks :: "pystr \<Rightarrow> bool" where
  "no_breaks s \<longleftrightarrow> (\<forall>c \<in> set s. \<not> py_linebreak c)"

lemma no_breaks_Nil [simp]: "no_breaks []"
  by (simp add: no_breaks_def)

lemma no_breaks_append [simp]: "no_breaks (s @ t) \<longleftrightarrow> no_breaks s \<and> no_breaks t"
  by (auto simp: no_breaks_def)

lemma no_breaks_Cons [simp]: "no_breaks (c # s) \<longleftrightarrow> \<not> py_linebreak c \<and> no_breaks s"
  by (auto simp: no_breaks_def)

lemma no_breaks_no_nl: "no_breaks s \<Longrightarrow> 10 \<notin> set s"
proof
  assume "no_breaks s" "10 \<in> set s"
  then have "\<not> py_linebreak 10" unfolding no_breaks_def by blast
  then show False by (simp add: py_linebreak_def)
qed

lemma no_breaks_strip_on: "no_breaks s \<Longrightarrow> no_breaks (strip_on P s)"
  by (auto simp: no_breaks_def dest: set_strip_on)

lemma no_breaks_strip: "no_breaks s \<Longrightarrow> no_breaks (strip s)"
  by (simp add: strip_def no_breaks_strip_on)

lemma splitlines_from_no_breaks: "l \<in> set (splitlines_from cr s) \<Longrightarrow> no_breaks l"
proof (induction s arbitrary: cr l)
  case (Cons x xs)
  have "l \<in> set (cons_head x (splitlines_from False xs)) \<Longrightarrow> \<not> py_linebreak x \<Longrightarrow> no_breaks l"
    using Cons.IH [of _ False] by (cases "splitlines_from False xs") auto
  with Cons show ?case by (auto split: if_splits)
qed simp

lemma splitlines_no_breaks: "l \<in> set (splitlines s) \<Longrightarrow> no_breaks l"
  by (simp add: splitlines_def splitlines_from_no_breaks)

lemma splitlines_Nil [simp]: "splitlines [] = []"
  by (simp add: splitlines_def)

lemma splitlines_from_line:
  "no_breaks x \<Longrightarrow> x \<noteq> [] \<Longrightarrow> splitlines_from cr x = [x]"
proof (induction x arbitrary: cr)
  case (Cons c x)
  then show ?case by (cases "x = []") (auto simp: py_linebreak_def)
qed simp

lemma splitlines_from_line_nl:
  "no_breaks x \<Longrightarrow> x \<noteq> [] \<or> \<not> cr \<Longrightarrow>
     splitlines_from cr (x @ 10 # s) = x # splitlines_from False s"
proof (induction x arbitrary: cr)
  case (Cons c x)
  then show ?case by (auto simp: py_linebreak_def)
qed (simp add: py_linebreak_def)

lemma splitlines_line: "no_breaks x \<Longrightarrow> x \<noteq> [] \<Longrightarrow> splitlines x = [x]"
  by (simp add: splitlines_def splitlines_from_line)

lemma splitlines_line_nl: "no_breaks x \<Longrightarrow> splitlines (x @ 10 # s) = x # splitlines s"
  by (simp add: splitlines_def splitlines_from_line_nl)

lemma splitlines_nl [simp]: "splitlines (10 # s) = [] # splitlines s"
  using splitlines_line_nl [of "[]"] by simp

text \<open>Splitting a joined text gives the lines back, up to one final empty line.\<close>

lemma splitlines_join:
  assumes "\<forall>l \<in> set ls. no_breaks l"
  shows "splitlines (join_lines ls) = (if ls \<noteq> [] \<and> last ls = [] then butlast ls else ls)"
  using assms
proof (induction ls)
  case (Cons x ls)
  then show ?case
    by (cases ls) (auto simp: splitlines_line splitlines_line_nl splitlines_nl join_lines_Cons)
qed simp

lemma splitlines_append_nl:
  assumes "\<forall>l \<in> set ls. no_breaks l" and "ls \<noteq> []"
  shows "splitlines (join_lines ls @ 10 # s) = ls @ splitlines s"
  using assms
proof (induction ls)
  case (Cons x ls)
  then show ?case
    by (cases "ls = []") (auto simp: splitlines_line_nl join_lines_Cons)
qed simp

lemma splitlines_from_cr:
  "s = [] \<or> hd s \<noteq> 10 \<Longrightarrow> splitlines_from cr s = splitlines_from False s"
  by (cases s) auto

lemma splitlines_append_end:
  assumes "s \<noteq> []" and "\<not> py_linebreak (last s)"
  shows "splitlines_from cr (s @ 10 # t) = splitlines_from cr s @ splitlines_from False t"
  using assms
proof (induction s arbitrary: cr)
  case (Cons x s)
  show ?case
  proof (cases "s = []")
    case True
    with Cons.prems have "\<not> py_linebreak x" "x \<noteq> 10" by (auto simp: py_linebreak_def)
    with True show ?thesis by (simp add: py_linebreak_def)
  next
    case False
    with Cons.prems have last: "\<not> py_linebreak (last s)" by simp
    have "splitlines_from False s \<noteq> []"
      using False by (cases s) auto
    then have "cons_head x (splitlines_from False s @ u) = cons_head x (splitlines_from False s) @ u"
      for u by (cases "splitlines_from False s") auto
    with Cons.IH [OF False last] show ?thesis by simp
  qed
qed simp

lemma splitlines_append:
  "s \<noteq> [] \<Longrightarrow> \<not> py_linebreak (last s) \<Longrightarrow> splitlines (s @ 10 # t) = splitlines s @ splitlines t"
  by (simp add: splitlines_def splitlines_append_end)

section \<open>Prefixes and substrings\<close>

definition startswith :: "pystr \<Rightarrow> pystr \<Rightarrow> bool" where
  "startswith s p \<longleftrightarrow> take (length p) s = p"

definition endswith :: "pystr \<Rightarrow> pystr \<Rightarrow> bool" where
  "endswith s p \<longleftrightarrow> length p \<le> length s \<and> drop (length s - length p) s = p"

definition removeprefix :: "pystr \<Rightarrow> pystr \<Rightarrow> pystr" where
  "removeprefix s p = (if startswith s p then drop (length p) s else s)"

text \<open>\<open>p in s\<close>.\<close>

fun contains :: "pystr \<Rightarrow> pystr \<Rightarrow> bool" where
  "contains [] p \<longleftrightarrow> p = []"
| "contains (x # xs) p \<longleftrightarrow> startswith (x # xs) p \<or> contains xs p"

lemma startswith_iff: "startswith s p \<longleftrightarrow> (\<exists>r. s = p @ r)"
  unfolding startswith_def by (metis append_eq_conv_conj append_take_drop_id)

lemma startswith_append [simp]: "startswith (p @ r) p"
  by (auto simp: startswith_iff)

lemma startswith_Nil [simp]: "startswith s []"
  by (simp add: startswith_def)

lemma removeprefix_append [simp]: "removeprefix (p @ r) p = r"
  by (simp add: removeprefix_def)

lemma contains_iff: "contains s p \<longleftrightarrow> sublist p s"
  by (induction s) (auto simp: startswith_iff sublist_Cons_right prefix_def)

section \<open>Decimal numbers\<close>

text \<open>\<open>str(n)\<close> of a natural number.\<close>

fun digits :: "nat \<Rightarrow> pystr" where
  "digits n = (if n < 10 then [48 + n] else digits (n div 10) @ [48 + n mod 10])"

declare digits.simps [simp del]

lemma digits_not_Nil [simp]: "digits n \<noteq> []"
  by (subst digits.simps) simp

lemma digits_range: "c \<in> set (digits n) \<Longrightarrow> 48 \<le> c \<and> c \<le> 57"
proof (induction n rule: digits.induct)
  case (1 n)
  from 1(2) consider "n < 10" "c = 48 + n"
    | "\<not> n < 10" "c \<in> set (digits (n div 10))" | "\<not> n < 10" "c = 48 + n mod 10"
    by (subst (asm) digits.simps) (auto split: if_splits)
  then show ?case
    by cases (use 1(1) in auto)
qed

text \<open>Reading the digits back; \<open>digits\<close> is therefore injective.\<close>

definition undigits :: "pystr \<Rightarrow> nat" where
  "undigits s = foldl (\<lambda>a c. 10 * a + (c - 48)) 0 s"

lemma undigits_digits [simp]: "undigits (digits n) = n"
proof (induction n rule: digits.induct)
  case (1 n)
  then show ?case
    by (subst digits.simps) (auto simp: undigits_def)
qed

lemma digits_inject [simp]: "digits m = digits n \<longleftrightarrow> m = n"
  by (metis undigits_digits)

section \<open>UTF-8 sizes\<close>

definition utf8_width :: "nat \<Rightarrow> nat" where
  "utf8_width c = (if c < 128 then 1 else if c < 2048 then 2 else if c < 65536 then 3 else 4)"

definition psize :: "pystr \<Rightarrow> nat" where
  "psize s = sum_list (map utf8_width s)"

text \<open>\<open>len(s.encode("utf-8"))\<close>.\<close>

definition encode_len :: "pystr \<Rightarrow> nat result" where
  "encode_len s = (if \<exists>c \<in> set s. py_surrogate c then Inl UnicodeEncodeError else Inr (psize s))"

lemma utf8_width_pos [simp]: "0 < utf8_width c"
  by (simp add: utf8_width_def)

lemma utf8_width_ascii [simp]: "c < 128 \<Longrightarrow> utf8_width c = 1"
  by (simp add: utf8_width_def)

lemma psize_simps [simp]:
  "psize [] = 0"
  "psize (c # s) = utf8_width c + psize s"
  "psize (s @ t) = psize s + psize t"
  "psize (rev s) = psize s"
  by (simp_all add: psize_def sum_list_rev flip: rev_map)

lemma utf8_width_nl [simp]: "utf8_width 10 = 1"
  by (simp add: utf8_width_def)

lemma psize_ge_length: "length s \<le> psize s"
proof (induction s)
  case (Cons c s)
  then show ?case by (simp add: utf8_width_def)
qed simp

lemma psize_sublist: "sublist s t \<Longrightarrow> psize s \<le> psize t"
  by (auto simp: sublist_def)

lemma psize_strip_on: "psize (strip_on P s) \<le> psize s"
  by (rule psize_sublist [OF sublist_strip_on])

lemma psize_strip: "psize (strip s) \<le> psize s"
  by (simp add: strip_def psize_strip_on)

lemma psize_rstrip: "psize (rstrip s) \<le> psize s"
  unfolding rstrip_def by (rule psize_sublist [OF prefix_imp_sublist [OF rstrip_on_prefix]])

lemma psize_join_lines:
  "psize (join_lines ls) = sum_list (map psize ls) + (length ls - 1)"
  by (induction ls rule: induct_list012) auto

lemma psize_join_lines_Suc:
  "psize (join_lines ls) + (if ls = [] then 0 else 1) = sum_list (map (\<lambda>l. psize l + 1) ls)"
  by (induction ls rule: induct_list012) auto

lemma psize_join_subseq:
  assumes "subseq xs ys"
  shows "psize (join_lines xs) \<le> psize (join_lines ys)"
proof -
  have "sum_list (map (\<lambda>l. psize l + 1) xs) \<le> sum_list (map (\<lambda>l. psize l + 1) ys)"
    using assms by (rule sum_list_subseq_le)
  with psize_join_lines_Suc [of xs] psize_join_lines_Suc [of ys] show ?thesis
    using assms by (cases "xs = []"; cases "ys = []") auto
qed

lemma psize_cons_head: "ls \<noteq> [] \<Longrightarrow> psize (join_lines (cons_head x ls)) = utf8_width x + psize (join_lines ls)"
  by (simp add: join_cons_head)

lemma psize_splitlines_from: "psize (join_lines (splitlines_from cr s)) \<le> psize s"
proof (induction s arbitrary: cr)
  case (Cons x xs)
  have w: "1 \<le> utf8_width x"
    using utf8_width_pos [of x] by linarith
  have brk: "psize (join_lines ([] # ls)) \<le> psize (join_lines ls) + 1" for ls
    by (cases ls) auto
  have chr: "psize (join_lines (cons_head x ls)) = utf8_width x + psize (join_lines ls)" for ls
    by (cases "ls = []") (auto simp: psize_cons_head)
  show ?case
    using Cons.IH [of False] Cons.IH [of "x = 13"] w
      brk [of "splitlines_from (x = 13) xs"] chr [of "splitlines_from False xs"]
    by simp
qed simp

lemma psize_splitlines: "psize (join_lines (splitlines s)) \<le> psize s"
  by (simp add: splitlines_def psize_splitlines_from)

end
