(* ===== verification/Wire.thy ===== *)
theory Wire
  imports Py_Text
begin

text \<open>
  The messages of the internal Worker protocol (src/api/memory/inference/v1/inference.proto) as
  records. A field of a message carries a short prefix for its message, because the record fields
  of a theory share one name space; otherwise the names are those of the protocol. A message field
  that may be absent (\<open>HasField\<close>) is an option.
\<close>

record evidence_source =
  es_source_ref :: pystr
  es_role :: pystr
  es_actor_kind :: pystr
  es_actor_ref :: pystr
  es_text :: pystr

record evidence_outcome =
  eo_outcome_ref :: pystr
  eo_episode_ref :: pystr
  eo_actor_kind :: pystr
  eo_actor_ref :: pystr
  eo_text :: pystr

record evidence_recollection =
  er_version_ref :: pystr
  er_application :: pystr
  er_text :: pystr

record evidence_episode =
  ee_episode_ref :: pystr
  ee_session_ref :: pystr
  ee_origin :: pystr
  ee_sources :: "evidence_source list"
  ee_formation_role :: pystr

record window_evidence =
  episodes :: "evidence_episode list"
  outcomes :: "evidence_outcome list"
  recollections :: "evidence_recollection list"

record window_request =
  job_ref :: pystr
  window_text :: pystr
  allowed_target_refs :: "pystr list"
  allowed_basis_refs :: "pystr list"
  evidence :: "window_evidence option"

end
