(* ===== verification/Tagged_Grammar.thy ===== *)
theory Tagged_Grammar
  imports Py_Text
begin

text \<open>
  The tagged-text contract between the Worker and the Core. \<open>go_trim\<close> is the Worker's
  \<open>_GO_TRIM_SPACE\<close>; \<open>ParseTaggedText\<close> is the Core's parser of the text the Worker
  returns (src/internal/core/consolidation/parser.go), the consumer for which the Worker's repairs
  and filters are written. The Worker reads lines with \<open>str.splitlines\<close> in some passes and with
  \<open>split("\n")\<close> in others, the Core only at line feeds; the last section relates the two views.
\<close>

section \<open>Trimming and lines\<close>

text \<open>\<open>_GO_TRIM_SPACE\<close>, the characters that Go's \<open>unicode.IsSpace\<close> accepts.\<close>

definition go_space :: "nat \<Rightarrow> bool" where
  "go_space c \<longleftrightarrow>
     (9 \<le> c \<and> c \<le> 13) \<or> c = 32 \<or> c = 133 \<or> c = 160 \<or> c = 5760 \<or>
     (8192 \<le> c \<and> c \<le> 8202) \<or> c = 8232 \<or> c = 8233 \<or> c = 8239 \<or> c = 8287 \<or> c = 12288"

definition go_trim :: "pystr \<Rightarrow> pystr" where
  "go_trim s = strip_on go_space s"

lemma go_trim_Nil [simp]: "go_trim [] = []"
  by (simp add: go_trim_def)

lemma go_trim_idem [simp]: "go_trim (go_trim s) = go_trim s"
  by (simp add: go_trim_def)

lemma go_space_isspace: "go_space c \<Longrightarrow> py_isspace c"
  by (auto simp: go_space_def py_isspace_def)

lemma go_space_nl [simp]: "go_space 10"
  by (simp add: go_space_def)

text \<open>Space- or tab- or CR-trimmed lines, \<open>line.strip(" \t\r")\<close>.\<close>

definition blank3 :: "nat \<Rightarrow> bool" where
  "blank3 c \<longleftrightarrow> c = 32 \<or> c = 9 \<or> c = 13"

definition strip3 :: "pystr \<Rightarrow> pystr" where
  "strip3 s = strip_on blank3 s"

lemma strip3_Nil [simp]: "strip3 [] = []"
  by (simp add: strip3_def)

text \<open>The nonblank lines of a list, trimmed.\<close>

definition trimmed :: "pystr list \<Rightarrow> pystr list" where
  "trimmed ls = filter (\<lambda>l. l \<noteq> []) (map go_trim ls)"

lemma trimmed_simps [simp]:
  "trimmed [] = []"
  "trimmed (l # ls) = (if go_trim l = [] then trimmed ls else go_trim l # trimmed ls)"
  "trimmed (ls @ ms) = trimmed ls @ trimmed ms"
  by (simp_all add: trimmed_def)

lemma trimmed_fixed: "m \<in> set (trimmed ls) \<Longrightarrow> m \<noteq> [] \<and> go_trim m = m"
  by (auto simp: trimmed_def)

lemma trimmed_idem: "trimmed (trimmed ls) = trimmed ls"
  by (induction ls) auto

text \<open>A line view of the Core's grammar (\<open>strings.Split\<close> at line feeds, then trimmed).\<close>

definition core_lines :: "pystr \<Rightarrow> pystr list" where
  "core_lines t = trimmed (split_nl t)"

text \<open>The Worker's view of meaningful lines (\<open>str.splitlines\<close>, then trimmed).\<close>

definition py_lines :: "pystr \<Rightarrow> pystr list" where
  "py_lines t = trimmed (splitlines t)"

section \<open>The Core's parser\<close>

record change =
  Target :: pystr
  Application :: pystr
  Operation :: pystr
  Text :: pystr
  BasisRefs :: "pystr list"

definition MaxTaggedTextBytes :: nat where "MaxTaggedTextBytes = 64 * 1024"
definition MaxChangeTextBytes :: nat where "MaxChangeTextBytes = 4 * 1024"

definition validApplication :: "pystr \<Rightarrow> bool" where
  "validApplication a \<longleftrightarrow>
     a \<in> {lit ''SELF'', lit ''OTHER'', lit ''RELATION'', lit ''SITUATION''}"

definition stableRef :: "pystr \<Rightarrow> bool" where
  "stableRef r \<longleftrightarrow> r \<noteq> [] \<and> (\<forall>c \<in> set r. \<not> go_space c \<and> \<not> py_control c)"

definition existingStableRef :: "pystr \<Rightarrow> bool" where
  "existingStableRef r \<longleftrightarrow> stableRef r \<and> r \<noteq> lit ''NEW''"

definition core_reserved :: "pystr set" where
  "core_reserved = {lit ''TARGET'', lit ''APPLICATION'', lit ''CHANGE'', lit ''BASIS'', lit ''NEW'',
     lit ''NEW_RECOLLECTION'', lit ''NEW_DISPOSITION''}"

definition stableBasisRef :: "pystr \<Rightarrow> bool" where
  "stableBasisRef r \<longleftrightarrow> stableRef r \<and> r \<notin> core_reserved"

text \<open>\<open>parseOperation\<close>: the operation and its inline text, \<open>None\<close> for an error.\<close>

definition parseOperation :: "pystr \<Rightarrow> (pystr \<times> pystr) option" where
  "parseOperation line =
     (let inline = (\<lambda>op. let text = go_trim (removeprefix line (op @ lit '' '')) in
        if text = [] \<or> MaxChangeTextBytes < psize text then None else Some (op, text))
      in if startswith line (lit ''TEXT '') then inline (lit ''TEXT'')
         else if startswith line (lit ''ADAPT '') then inline (lit ''ADAPT'')
         else if line \<in> {lit ''KEEP'', lit ''REENACT'', lit ''INHIBIT''} then Some (line, [])
         else None)"

text \<open>
  The operation of the block at the head of \<open>ls\<close>: a separate \<open>TEXT\<close> or \<open>ADAPT\<close> line takes the next
  line as its text; otherwise \<open>parseOperation\<close> reads the line. With it, the index of \<open>BASIS\<close>.
\<close>

definition block_operation :: "pystr list \<Rightarrow> (pystr \<times> pystr \<times> nat) option" where
  "block_operation ls =
     (if ls ! 5 \<in> {lit ''TEXT'', lit ''ADAPT''}
      then (if MaxChangeTextBytes < psize (ls ! 6) then None else Some (ls ! 5, ls ! 6, 7))
      else map_option (\<lambda>(operation, body). (operation, body, 6)) (parseOperation (ls ! 5)))"

definition new_targets :: "pystr set" where
  "new_targets = {lit ''NEW_RECOLLECTION'', lit ''NEW_DISPOSITION''}"

text \<open>
  One block of the loop at the head of the remaining lines: the change it denotes and the lines
  after it. \<open>seen\<close> holds the existing targets met so far.
\<close>

definition parse_block :: "pystr set \<Rightarrow> pystr list \<Rightarrow> (change \<times> pystr list) option" where
  "parse_block seen ls =
     (if length ls < 8 then None
      else if ls ! 0 \<noteq> lit ''TARGET'' \<or> ls ! 2 \<noteq> lit ''APPLICATION'' \<or> ls ! 4 \<noteq> lit ''CHANGE'' then None
      else if ls ! 1 \<notin> new_targets \<and> (\<not> existingStableRef (ls ! 1) \<or> ls ! 1 \<in> seen) then None
      else if \<not> validApplication (ls ! 3) then None
      else case block_operation ls of None \<Rightarrow> None
         | Some (operation, body, basis_marker) \<Rightarrow>
             if length ls \<le> basis_marker \<or> ls ! basis_marker \<noteq> lit ''BASIS'' then None
             else let rest = drop (Suc basis_marker) ls;
                      basis = takeWhile (\<lambda>l. l \<noteq> lit ''TARGET'') rest
             in if basis = [] \<or> \<not> distinct basis \<or> (\<exists>b \<in> set basis. \<not> stableBasisRef b) then None
                else Some (\<lparr>Target = ls ! 1, Application = ls ! 3, Operation = operation,
                            Text = body, BasisRefs = basis\<rparr>,
                           dropWhile (\<lambda>l. l \<noteq> lit ''TARGET'') rest))"

lemma parse_block_SomeD:
  assumes "parse_block seen ls = Some (c, rest)"
  obtains k where "8 \<le> length ls" "ls ! 0 = lit ''TARGET''" "ls ! 1 = Target c"
    "ls ! 2 = lit ''APPLICATION''" "ls ! 3 = Application c" "ls ! 4 = lit ''CHANGE''"
    "Target c \<in> new_targets \<or> existingStableRef (Target c) \<and> Target c \<notin> seen"
    "validApplication (Application c)"
    "block_operation ls = Some (Operation c, Text c, k)"
    "k < length ls" "ls ! k = lit ''BASIS''"
    "BasisRefs c = takeWhile (\<lambda>l. l \<noteq> lit ''TARGET'') (drop (Suc k) ls)"
    "BasisRefs c \<noteq> []" "distinct (BasisRefs c)" "\<forall>b \<in> set (BasisRefs c). stableBasisRef b"
    "rest = dropWhile (\<lambda>l. l \<noteq> lit ''TARGET'') (drop (Suc k) ls)"
proof -
  from assms obtain operation body k where *: "block_operation ls = Some (operation, body, k)"
    unfolding parse_block_def by (auto split: if_splits option.splits)
  with assms show ?thesis
    by (intro that [of k]) (auto simp: parse_block_def Let_def simp del: One_nat_def split: if_splits)
qed

lemma parse_block_length:
  assumes "parse_block seen ls = Some (c, rest)"
  shows "length rest < length ls"
proof -
  from assms obtain k where "8 \<le> length ls"
    and rest: "rest = dropWhile (\<lambda>l. l \<noteq> lit ''TARGET'') (drop (Suc k) ls)"
    by (rule parse_block_SomeD)
  have "length rest \<le> length (drop (Suc k) ls)"
    unfolding rest by (rule length_dropWhile_le)
  with \<open>8 \<le> length ls\<close> show ?thesis by simp
qed

function parse_blocks :: "pystr set \<Rightarrow> pystr list \<Rightarrow> change list option" where
  "parse_blocks seen ls =
     (if ls = [] then Some []
      else case parse_block seen ls of None \<Rightarrow> None
        | Some (c, rest) \<Rightarrow>
            map_option (Cons c)
              (parse_blocks
                (if Target c \<in> new_targets then seen
                 else insert (Target c) seen) rest))"
  by pat_completeness auto
termination
  by (relation "measure (\<lambda>(seen, ls). length ls)") (auto dest: parse_block_length)

declare parse_blocks.simps [simp del]

text \<open>\<open>strings.ReplaceAll(text, "\r\n", "\n")\<close>.\<close>

fun replace_crlf :: "pystr \<Rightarrow> pystr" where
  "replace_crlf (a # b # s) = (if a = 13 \<and> b = 10 then 10 # replace_crlf s else a # replace_crlf (b # s))"
| "replace_crlf s = s"

definition ParseTaggedText :: "pystr \<Rightarrow> change list option" where
  "ParseTaggedText text =
     (if MaxTaggedTextBytes < psize text then None
      else let t = go_trim (replace_crlf text) in
        if t = [] then Some [] else parse_blocks {} (trimmed (split_nl t)))"

section \<open>The two views of a text's lines\<close>

lemma go_trim_space_left: "go_space c \<Longrightarrow> go_trim (c # s) = go_trim s"
  by (simp add: go_trim_def strip_on_def)

lemma go_trim_space_right: "go_space c \<Longrightarrow> go_trim (s @ [c]) = go_trim s"
  using strip_on_sandwich [of "[]" go_space "[c]" s] by (simp add: go_trim_def)

lemma trimmed_blank: "set E \<subseteq> {[]} \<Longrightarrow> trimmed E = []"
  by (induction E) auto

lemma trimmed_cons_head_space: "go_space c \<Longrightarrow> trimmed (cons_head c ls) = trimmed ls"
  by (cases ls) (auto simp: go_trim_space_left)

lemma core_lines_space_left: "go_space c \<Longrightarrow> core_lines (c # s) = core_lines s"
  by (simp add: core_lines_def split_nl_def trimmed_cons_head_space)

lemma core_lines_spaces_left: "\<forall>c \<in> set a. go_space c \<Longrightarrow> core_lines (a @ s) = core_lines s"
  by (induction a) (auto simp: core_lines_space_left)

lemma split_nl_snoc:
  assumes "c \<noteq> 10"
  shows "split_nl (s @ [c]) = butlast (split_nl s) @ [last (split_nl s) @ [c]]"
  unfolding split_nl_def
proof (induction s)
  case (Cons x s)
  have "cons_head x (butlast ls @ [last ls @ [c]]) =
      butlast (cons_head x ls) @ [last (cons_head x ls) @ [c]]" if "ls \<noteq> []" for ls
    using that by (cases ls) auto
  with Cons show ?case by simp
qed (use assms in simp)

lemma core_lines_space_right:
  assumes "go_space c"
  shows "core_lines (s @ [c]) = core_lines s"
proof (cases "c = 10")
  case True
  then show ?thesis
    by (simp add: core_lines_def split_nl_append_nl) (simp add: split_nl_def)
next
  case False
  have "trimmed (split_nl s) = trimmed (butlast (split_nl s) @ [last (split_nl s)])"
    by simp
  also have "\<dots> = trimmed (butlast (split_nl s) @ [last (split_nl s) @ [c]])"
    by (simp only: trimmed_simps go_trim_space_right [OF assms])
  finally show ?thesis
    unfolding core_lines_def split_nl_snoc [OF False] by (rule sym)
qed

lemma core_lines_spaces_right: "\<forall>c \<in> set b. go_space c \<Longrightarrow> core_lines (s @ b) = core_lines s"
proof (induction b rule: rev_induct)
  case (snoc c b)
  then show ?case
    using core_lines_space_right [of c "s @ b"] by simp
qed simp

lemma core_lines_sandwich:
  "\<forall>c \<in> set a. go_space c \<Longrightarrow> \<forall>c \<in> set b. go_space c \<Longrightarrow> core_lines (a @ m @ b) = core_lines m"
  by (simp only: core_lines_spaces_left core_lines_spaces_right)

lemma core_lines_go_trim [simp]: "core_lines (go_trim s) = core_lines s"
proof -
  obtain a b where s: "s = a @ go_trim s @ b" and ab: "\<forall>c \<in> set a. go_space c" "\<forall>c \<in> set b. go_space c"
    unfolding go_trim_def by (rule strip_on_decomp)
  show ?thesis
    using core_lines_sandwich [OF ab, of "go_trim s"] unfolding s [symmetric] by (rule sym)
qed

definition crlf_line :: "pystr \<Rightarrow> pystr \<Rightarrow> bool" where
  "crlf_line l l' \<longleftrightarrow> l = l' \<or> l = l' @ [13]"

lemma split_on_Cons_crlf:
  assumes "list_all2 crlf_line (split_on 10 s) (split_on 10 t)"
  shows "list_all2 crlf_line (split_on 10 (a # s)) (split_on 10 (a # t))"
proof -
  have "list_all2 crlf_line (cons_head a ls) (cons_head a ls')" if "list_all2 crlf_line ls ls'" for ls ls'
    using that by (cases ls; cases ls') (auto simp: crlf_line_def)
  with assms show ?thesis by (simp add: crlf_line_def)
qed

lemma split_nl_replace_crlf: "list_all2 crlf_line (split_on 10 s) (split_on 10 (replace_crlf s))"
proof (induction s rule: replace_crlf.induct)
  case (1 a b s)
  show ?case
  proof (cases "a = 13 \<and> b = 10")
    case True
    with 1(1) show ?thesis by (simp add: crlf_line_def)
  next
    case False
    then have "replace_crlf (a # b # s) = a # replace_crlf (b # s)" by simp
    with split_on_Cons_crlf [OF 1(2) [OF False]] show ?thesis by simp
  qed
qed (simp_all add: crlf_line_def)

lemma go_trim_crlf: "crlf_line l l' \<Longrightarrow> go_trim l = go_trim l'"
  by (auto simp: crlf_line_def go_trim_space_right go_space_def)

lemma core_lines_replace_crlf [simp]: "core_lines (replace_crlf s) = core_lines s"
proof -
  have "trimmed ls = trimmed ls'" if "list_all2 crlf_line ls ls'" for ls ls'
    using that by (induction rule: list_all2_induct) (auto dest: go_trim_crlf)
  from this [OF split_nl_replace_crlf] show ?thesis
    by (simp add: core_lines_def split_nl_def)
qed

text \<open>The Core parses the nonblank trimmed lines of the text between line feeds.\<close>

lemma ParseTaggedText_core_lines:
  "ParseTaggedText t =
     (if MaxTaggedTextBytes < psize t then None else parse_blocks {} (core_lines t))"
proof (cases "go_trim (replace_crlf t) = []")
  case True
  then have "core_lines t = []"
    by (metis core_lines_go_trim core_lines_replace_crlf core_lines_def split_nl_line list.set(1)
        empty_iff trimmed_simps(1,2) go_trim_Nil)
  then show ?thesis using True by (simp add: ParseTaggedText_def parse_blocks.simps)
next
  case False
  then show ?thesis
    by (simp add: ParseTaggedText_def flip: core_lines_def)
qed

text \<open>Reading at every Python line boundary cuts each of the Core's lines into pieces.\<close>

lemma splitlines_from_append_nl:
  "\<exists>E. set E \<subseteq> {[]} \<and> splitlines_from cr (l @ 10 # s) = splitlines_from cr l @ E @ splitlines_from False s"
proof (induction l arbitrary: cr)
  case Nil
  show ?case
    by (cases cr) (auto simp: py_linebreak_def intro: exI [of _ "[]"] exI [of _ "[[]]"])
next
  case (Cons x l)
  show ?case
  proof (cases "l = [] \<or> py_linebreak x \<or> cr \<and> x = 10")
    case True
    then show ?thesis
      using Cons.IH [of "x = 13"] Cons.IH [of False]
      by (auto simp: py_linebreak_def intro: exI [of _ "[]"])
  next
    case False
    obtain E where E: "set E \<subseteq> {[]}"
      and eq: "splitlines_from False (l @ 10 # s) = splitlines_from False l @ E @ splitlines_from False s"
      using Cons.IH by blast
    have "splitlines_from False l \<noteq> []" using False by (cases l) auto
    then have "cons_head x (splitlines_from False l @ u) = cons_head x (splitlines_from False l) @ u" for u
      by (cases "splitlines_from False l") auto
    with False E eq show ?thesis by auto
  qed
qed

lemma py_lines_append_nl: "py_lines (l @ 10 # s) = py_lines l @ py_lines s"
proof -
  obtain E where "set E \<subseteq> {[]}" "splitlines_from False (l @ 10 # s) = splitlines_from False l @ E @ splitlines_from False s"
    using splitlines_from_append_nl by blast
  then show ?thesis by (simp add: py_lines_def splitlines_def trimmed_blank)
qed

lemma py_lines_Nil [simp]: "py_lines [] = []"
  by (simp add: py_lines_def)

lemma py_lines_join: "py_lines (join_lines ls) = concat (map py_lines ls)"
  by (induction ls rule: induct_list012) (auto simp: py_lines_append_nl)

lemma trimmed_splitlines_cr: "trimmed (splitlines_from True s) = trimmed (splitlines_from False s)"
  by (cases s) (auto simp: py_linebreak_def)

lemma py_lines_space_left: "go_space c \<Longrightarrow> py_lines (c # s) = py_lines s"
  using trimmed_splitlines_cr [of s]
  by (cases "c = 13") (auto simp: py_lines_def splitlines_def trimmed_cons_head_space)

lemma splitlines_from_snoc_break:
  assumes "py_linebreak c"
  shows "\<exists>E. set E \<subseteq> {[]} \<and> splitlines_from cr (s @ [c]) = splitlines_from cr s @ E"
proof (induction s arbitrary: cr)
  case (Cons x s)
  show ?case
  proof (cases "s = [] \<or> py_linebreak x \<or> cr \<and> x = 10")
    case True
    then show ?thesis
      using Cons.IH [of "x = 13"] Cons.IH [of False] assms
      by (auto intro: exI [of _ "[]"] simp: py_linebreak_def)
  next
    case False
    obtain E where E: "set E \<subseteq> {[]}" and eq: "splitlines_from False (s @ [c]) = splitlines_from False s @ E"
      using Cons.IH by blast
    have "splitlines_from False s \<noteq> []" using False by (cases s) auto
    then have "cons_head x (splitlines_from False s @ E) = cons_head x (splitlines_from False s) @ E"
      by (cases "splitlines_from False s") auto
    with False E eq show ?thesis by auto
  qed
qed (use assms in \<open>auto intro: exI [of _ "[]"]\<close>)

lemma splitlines_from_snoc:
  assumes "\<not> py_linebreak c"
  shows "splitlines_from cr (s @ [c]) = splitlines_from cr s @ [[c]] \<or>
    splitlines_from cr s \<noteq> [] \<and> splitlines_from cr (s @ [c]) =
      butlast (splitlines_from cr s) @ [last (splitlines_from cr s) @ [c]]"
    (is "?P cr s (s @ [c])")
proof (induction s arbitrary: cr)
  case Nil
  show ?case using assms by (auto simp: py_linebreak_def)
next
  case (Cons x s)
  consider "cr \<and> x = 10 \<or> py_linebreak x" | "s = []" "\<not> py_linebreak x" "\<not> (cr \<and> x = 10)"
    | "s \<noteq> []" "\<not> py_linebreak x" "\<not> (cr \<and> x = 10)" by blast
  then show ?case
  proof cases
    case 1
    then show ?thesis using Cons.IH [of False] Cons.IH [of "x = 13"] by auto
  next
    case 2
    then show ?thesis using assms by simp
  next
    case 3
    then have "splitlines_from False s \<noteq> []" by (cases s) auto
    with 3 Cons.IH [of False] show ?thesis
      by (cases "splitlines_from False s") (auto split: if_splits)
  qed
qed

lemma trimmed_splitlines_snoc:
  assumes "go_space c" and "\<not> py_linebreak c"
  shows "trimmed (splitlines_from cr (s @ [c])) = trimmed (splitlines_from cr s)"
  using splitlines_from_snoc [OF assms(2), of cr s]
proof
  assume "splitlines_from cr (s @ [c]) = splitlines_from cr s @ [[c]]"
  then show ?thesis using go_trim_space_left [OF assms(1), of "[]"] by simp
next
  assume *: "splitlines_from cr s \<noteq> [] \<and> splitlines_from cr (s @ [c]) =
    butlast (splitlines_from cr s) @ [last (splitlines_from cr s) @ [c]]"
  then have "trimmed (splitlines_from cr (s @ [c])) =
      trimmed (butlast (splitlines_from cr s) @ [last (splitlines_from cr s)])"
    by (simp only: trimmed_simps go_trim_space_right [OF assms(1)])
  with * show ?thesis by simp
qed

lemma py_lines_space_right: "go_space c \<Longrightarrow> py_lines (s @ [c]) = py_lines s"
  using splitlines_from_snoc_break [of c False s] trimmed_splitlines_snoc [of c False s]
  by (cases "py_linebreak c") (auto simp: py_lines_def splitlines_def trimmed_blank)

lemma py_lines_go_trim [simp]: "py_lines (go_trim s) = py_lines s"
proof -
  obtain a b where s: "s = a @ go_trim s @ b" and a: "\<forall>c \<in> set a. go_space c" and b: "\<forall>c \<in> set b. go_space c"
    unfolding go_trim_def by (rule strip_on_decomp)
  have "py_lines (a @ t) = py_lines t" for t
    using a by (induction a) (auto simp: py_lines_space_left)
  moreover have "py_lines (t @ b) = py_lines t" for t
    using b
  proof (induction b rule: rev_induct)
    case (snoc c b)
    then show ?case using py_lines_space_right [of c "t @ b"] by simp
  qed simp
  ultimately have "py_lines (a @ go_trim s @ b) = py_lines (go_trim s)" by simp
  then show ?thesis unfolding s [symmetric] by (rule sym)
qed

lemma py_lines_core_lines: "py_lines t = concat (map py_lines (core_lines t))"
proof -
  have "concat (map py_lines ls) = concat (map py_lines (trimmed ls))" for ls
  proof (induction ls)
    case (Cons l ls)
    have "py_lines l = py_lines (go_trim l)" by simp
    with Cons show ?case by (cases "go_trim l = []") auto
  qed simp
  then show ?thesis
    using py_lines_join [of "split_nl t"] by (simp add: core_lines_def)
qed

lemma py_lines_single:
  assumes "no_breaks m"
  shows "py_lines m = (if go_trim m = [] then [] else [go_trim m])"
proof (cases "m = []")
  case False
  with assms have "splitlines m = [m]" by (simp add: splitlines_line)
  then show ?thesis by (simp add: py_lines_def)
qed simp

text \<open>On a text whose lines hold no further boundary the two views agree.\<close>

lemma py_lines_join_trimmed: "\<forall>l \<in> set ls. no_breaks l \<Longrightarrow> py_lines (join_lines ls) = trimmed ls"
  unfolding py_lines_join by (induction ls) (auto simp: py_lines_single)

lemma core_lines_join: "ls \<noteq> [] \<Longrightarrow> \<forall>l \<in> set ls. 10 \<notin> set l \<Longrightarrow> core_lines (join_lines ls) = trimmed ls"
  by (simp add: core_lines_def split_join_lines)

lemma core_lines_Nil [simp]: "core_lines [] = []"
  by (simp add: core_lines_def split_nl_def)

lemma core_lines_append_nl: "core_lines (s @ 10 # t) = core_lines s @ core_lines t"
  by (simp add: core_lines_def split_nl_append_nl)

section \<open>Blocks that introduce a new memory\<close>

definition text_block :: "pystr \<Rightarrow> pystr \<Rightarrow> pystr \<Rightarrow> pystr list \<Rightarrow> pystr list" where
  "text_block target application body refs =
     [lit ''TARGET'', target, lit ''APPLICATION'', application, lit ''CHANGE'', lit ''TEXT'', body,
      lit ''BASIS''] @ refs"

abbreviation text_change :: "pystr \<Rightarrow> pystr \<Rightarrow> pystr \<Rightarrow> pystr list \<Rightarrow> change" where
  "text_change target application body refs \<equiv>
     \<lparr>Target = target, Application = application, Operation = lit ''TEXT'', Text = body, BasisRefs = refs\<rparr>"

lemma text_block_not_Nil [simp]: "text_block target application body refs \<noteq> []"
  by (simp add: text_block_def)

lemma stableBasisRef_not_target: "stableBasisRef r \<Longrightarrow> r \<noteq> lit ''TARGET''"
  by (auto simp: stableBasisRef_def core_reserved_def)

lemma takeWhile_stable_refs:
  assumes "\<forall>r \<in> set refs. stableBasisRef r" and "rest = [] \<or> hd rest = lit ''TARGET''"
  shows "takeWhile (\<lambda>l. l \<noteq> lit ''TARGET'') (refs @ rest) = refs"
    and "dropWhile (\<lambda>l. l \<noteq> lit ''TARGET'') (refs @ rest) = rest"
  using assms by (induction refs; cases rest; auto dest: stableBasisRef_not_target)+

lemma parse_block_text:
  assumes "target \<in> new_targets" "validApplication application" "psize body \<le> MaxChangeTextBytes"
    "refs \<noteq> []" "distinct refs" "\<forall>r \<in> set refs. stableBasisRef r" "rest = [] \<or> hd rest = lit ''TARGET''"
  shows "parse_block seen (text_block target application body refs @ rest) =
     Some (text_change target application body refs, rest)"
proof -
  have "block_operation (text_block target application body refs @ rest) = Some (lit ''TEXT'', body, 7)"
    using assms(3) by (simp add: block_operation_def text_block_def)
  moreover have "length (text_block target application body refs @ rest) \<ge> 8"
    by (simp add: text_block_def)
  ultimately show ?thesis
    using assms(1,2,4-6) takeWhile_stable_refs [OF assms(6,7)]
    by (simp add: parse_block_def text_block_def Let_def)
qed

lemma parse_blocks_text:
  assumes "target \<in> new_targets" "validApplication application" "psize body \<le> MaxChangeTextBytes"
    "refs \<noteq> []" "distinct refs" "\<forall>r \<in> set refs. stableBasisRef r" "rest = [] \<or> hd rest = lit ''TARGET''"
  shows "parse_blocks seen (text_block target application body refs @ rest) =
     map_option (Cons (text_change target application body refs)) (parse_blocks seen rest)"
  using parse_block_text [OF assms, of seen] assms(1)
  by (subst parse_blocks.simps) simp

lemma stableRef_facts:
  assumes "stableRef r"
  shows "r \<noteq> []" and "go_trim r = r" and "10 \<notin> set r"
proof -
  show "r \<noteq> []" using assms by (simp add: stableRef_def)
  show "go_trim r = r"
    unfolding go_trim_def using assms by (intro strip_on_none) (simp add: stableRef_def)
  show "10 \<notin> set r" using assms by (auto simp: stableRef_def)
qed

lemma lit_no_space:
  assumes "\<forall>c \<in> set s. (of_char c :: nat) > 32 \<and> (of_char c :: nat) < 127"
  shows "go_trim (lit s) = lit s" and "no_breaks (lit s)"
proof -
  show "go_trim (lit s) = lit s"
    unfolding go_trim_def using assms by (intro strip_on_none) (auto simp: lit_def go_space_def)
  show "no_breaks (lit s)"
    using assms by (auto simp: lit_def no_breaks_def py_linebreak_def)
qed

lemma marker_lines [simp]:
  "go_trim (lit ''TARGET'') = lit ''TARGET''" "no_breaks (lit ''TARGET'')"
  "go_trim (lit ''APPLICATION'') = lit ''APPLICATION''" "no_breaks (lit ''APPLICATION'')"
  "go_trim (lit ''CHANGE'') = lit ''CHANGE''" "no_breaks (lit ''CHANGE'')"
  "go_trim (lit ''TEXT'') = lit ''TEXT''" "no_breaks (lit ''TEXT'')"
  "go_trim (lit ''ADAPT'') = lit ''ADAPT''" "no_breaks (lit ''ADAPT'')"
  "go_trim (lit ''BASIS'') = lit ''BASIS''" "no_breaks (lit ''BASIS'')"
  "go_trim (lit ''NEW_RECOLLECTION'') = lit ''NEW_RECOLLECTION''" "no_breaks (lit ''NEW_RECOLLECTION'')"
  "go_trim (lit ''NEW_DISPOSITION'') = lit ''NEW_DISPOSITION''" "no_breaks (lit ''NEW_DISPOSITION'')"
  "go_trim (lit ''SELF'') = lit ''SELF''" "no_breaks (lit ''SELF'')"
  "go_trim (lit ''OTHER'') = lit ''OTHER''" "no_breaks (lit ''OTHER'')"
  "go_trim (lit ''RELATION'') = lit ''RELATION''" "no_breaks (lit ''RELATION'')"
  "go_trim (lit ''SITUATION'') = lit ''SITUATION''" "no_breaks (lit ''SITUATION'')"
  by (rule lit_no_space, simp)+

lemma validApplication_line: "validApplication a \<Longrightarrow> go_trim a = a \<and> no_breaks a \<and> a \<noteq> []"
  by (auto simp: validApplication_def)

lemma trimmed_id: "\<forall>l \<in> set ls. l \<noteq> [] \<and> go_trim l = l \<Longrightarrow> trimmed ls = ls"
  by (induction ls) auto

subsection \<open>The contract of a binder\<close>

text \<open>
  A binder turns a model's plain-text body into one tagged block for a new memory, with the target,
  the application and the Basis refs supplied by the program: it returns the empty text (no change)
  or exactly the block, whose body is one trimmed line within the Core's bounds.
\<close>

locale block_binder =
  fixes bind :: "pystr \<Rightarrow> pystr result" and body_of :: "pystr \<Rightarrow> pystr"
    and target :: pystr and application :: pystr and refs :: "pystr list"
  assumes target_new: "target \<in> new_targets"
    and bind_shape: "bind body = Inr t \<Longrightarrow> t \<noteq> [] \<Longrightarrow>
      t = join_lines (text_block target application (body_of body) refs)"
    and bind_body: "bind body = Inr t \<Longrightarrow> t \<noteq> [] \<Longrightarrow>
      body_of body \<noteq> [] \<and> no_breaks (body_of body) \<and> go_trim (body_of body) = body_of body \<and>
      psize (body_of body) \<le> MaxChangeTextBytes"
    and bind_size: "bind body = Inr t \<Longrightarrow> psize t \<le> MaxTaggedTextBytes"
    and bind_refs: "bind body = Inr t \<Longrightarrow> t \<noteq> [] \<Longrightarrow>
      refs \<noteq> [] \<and> distinct refs \<and> (\<forall>r \<in> set refs. stableRef r)"
begin

lemma bound_core_lines:
  assumes "bind body = Inr t" and "t \<noteq> []" and "validApplication application"
  shows "core_lines t = text_block target application (body_of body) refs"
proof -
  let ?b = "text_block target application (body_of body) refs"
  have refs: "\<forall>r \<in> set refs. r \<noteq> [] \<and> go_trim r = r \<and> 10 \<notin> set r"
    using bind_refs [OF assms(1,2)] stableRef_facts by blast
  have target: "go_trim target = target \<and> no_breaks target \<and> target \<noteq> []"
    using target_new by (auto simp: new_targets_def)
  have ok: "\<forall>l \<in> set ?b. l \<noteq> [] \<and> go_trim l = l \<and> 10 \<notin> set l"
    using refs target bind_body [OF assms(1,2)] validApplication_line [OF assms(3)]
    by (simp add: text_block_def no_breaks_no_nl)
  then have "core_lines (join_lines ?b) = trimmed ?b"
    by (intro core_lines_join) auto
  also have "\<dots> = ?b" using ok by (intro trimmed_id) blast
  finally show ?thesis using bind_shape [OF assms(1,2)] by simp
qed

text \<open>What is bound, the Core reads back as one change with the program's own refs.\<close>

lemma bound_parses_with:
  assumes "bind body = Inr t" and "t \<noteq> []" and "validApplication application"
    and "set refs \<inter> core_reserved = {}" and "rest = [] \<or> hd rest = lit ''TARGET''"
  shows "parse_blocks seen (core_lines t @ rest) =
    map_option (Cons (text_change target application (body_of body) refs)) (parse_blocks seen rest)"
proof -
  have refs: "refs \<noteq> []" "distinct refs" "\<forall>r \<in> set refs. stableBasisRef r"
    using bind_refs [OF assms(1,2)] assms(4) by (auto simp: stableBasisRef_def)
  show ?thesis
    unfolding bound_core_lines [OF assms(1-3)]
    using bind_body [OF assms(1,2)]
    by (intro parse_blocks_text target_new assms(3) refs assms(5)) blast
qed

lemma bound_parses:
  assumes "bind body = Inr t" and "t \<noteq> []" and "validApplication application"
    and "set refs \<inter> core_reserved = {}"
  shows "ParseTaggedText t = Some [text_change target application (body_of body) refs]"
  using bound_parses_with [OF assms, of "[]" "{}"] bind_size [OF assms(1)]
  by (simp add: ParseTaggedText_core_lines parse_blocks.simps)

end

end
