(* ===== verification/Source_Materials.thy ===== *)
theory Source_Materials
  imports Wire Tagged_Grammar
begin

text \<open>
  Model of src/worker/python/src/memory_core_worker/source_materials.py: the reader that turns the
  typed evidence of a window into Recollection materials, with every check in its order, and the
  binder that turns a model's plain text into a tagged block whose refs the program supplies.
  The two \<open>isinstance\<close> tests of the source are discharged by the types of the model.
\<close>

section \<open>Constants and elementary validation\<close>

definition MAX_STABLE_REF_BYTES :: nat where "MAX_STABLE_REF_BYTES = 384"
definition MAX_SOURCE_TEXT_BYTES :: nat where "MAX_SOURCE_TEXT_BYTES = 64 * 1024"
definition MAX_CHANGE_TEXT_BYTES :: nat where "MAX_CHANGE_TEXT_BYTES = 4 * 1024"
definition MAX_TAGGED_TEXT_BYTES :: nat where "MAX_TAGGED_TEXT_BYTES = 64 * 1024"

definition ORIGINS :: "pystr set" where
  "ORIGINS = {lit ''current'', lit ''related'', lit ''revision_anchor''}"

definition ROLES :: "pystr set" where
  "ROLES = {lit ''situation'', lit ''agent_act''}"

definition ACTOR_KINDS :: "pystr set" where
  "ACTOR_KINDS = {lit ''agent'', lit ''user'', lit ''system'', lit ''tool'', lit ''external''}"

definition APPLICATIONS :: "pystr set" where
  "APPLICATIONS = {lit ''self'', lit ''other'', lit ''relation'', lit ''situation''}"

definition RESERVED_PROTOCOL_LINES :: "pystr set" where
  "RESERVED_PROTOCOL_LINES = {lit ''TARGET'', lit ''APPLICATION'', lit ''CHANGE'', lit ''TEXT'',
     lit ''BASIS'', lit ''NEW_RECOLLECTION'', lit ''NEW_DISPOSITION'', lit ''SELF'', lit ''OTHER'',
     lit ''RELATION'', lit ''SITUATION'', lit ''NO_MEMORY'', lit ''NO_CHANGE''}"

definition RESERVED_BASIS_REFS :: "pystr set" where
  "RESERVED_BASIS_REFS = {lit ''TARGET'', lit ''APPLICATION'', lit ''CHANGE'', lit ''BASIS'',
     lit ''NEW'', lit ''NEW_RECOLLECTION'', lit ''NEW_DISPOSITION''}"

definition utf8_size :: "pystr \<Rightarrow> pystr \<Rightarrow> nat result" where
  "utf8_size value label =
     (case encode_len value of
        Inl _ \<Rightarrow> Inl (ValueError (label @ lit '' is not valid UTF-8''))
      | Inr n \<Rightarrow> Inr n)"

definition validate_source_text :: "pystr \<Rightarrow> unit result" where
  "validate_source_text text =
     bindr (raise_if (text = []) (ValueError (lit ''source text is required''))) (\<lambda>_.
     bindr (utf8_size text (lit ''source text'')) (\<lambda>n.
     raise_if (MAX_SOURCE_TEXT_BYTES < n) (ValueError (lit ''source text exceeds 64 KiB''))))"

definition validate_required_ref :: "pystr \<Rightarrow> pystr \<Rightarrow> unit result" where
  "validate_required_ref ref label =
     bindr (raise_if (ref = []) (ValueError (label @ lit '' is required''))) (\<lambda>_.
     bindr (utf8_size ref label) (\<lambda>n.
     raise_if (MAX_STABLE_REF_BYTES < n) (ValueError (label @ lit '' exceeds 384 bytes''))))"

definition validate_optional_ref :: "pystr \<Rightarrow> pystr \<Rightarrow> unit result" where
  "validate_optional_ref ref label =
     (if ref \<noteq> [] then validate_required_ref ref label else Inr ())"

definition validate_basis_ref :: "pystr \<Rightarrow> pystr \<Rightarrow> unit result" where
  "validate_basis_ref ref label =
     bindr (validate_required_ref ref label) (\<lambda>_.
     bindr (raise_if (\<exists>c \<in> set ref. py_isspace c \<or> py_control c)
              (ValueError (label @ lit '' is not a valid tagged-text ref''))) (\<lambda>_.
     raise_if (ref \<in> RESERVED_BASIS_REFS) (ValueError (label @ lit '' is reserved tagged-text syntax''))))"

section \<open>Binding a plain-text body\<close>

record recollection_material =
  rm_episode_ref :: pystr
  rm_source_ref :: pystr
  rm_text :: pystr
  rm_context_text :: pystr
  rm_basis_refs :: "pystr list"
  rm_existing_recollections :: "pystr list"

text \<open>The nonblank lines of a body, each stripped.\<close>

definition body_lines :: "pystr \<Rightarrow> pystr list" where
  "body_lines body = filter (\<lambda>l. l \<noteq> []) (map strip (splitlines body))"

definition bind_recollection :: "recollection_material \<Rightarrow> pystr \<Rightarrow> pystr result" where
  "bind_recollection m body =
     (let stripped = strip body in
      if stripped = lit ''NO_MEMORY'' then Inr []
      else if stripped = [] then Inl (ValueError (lit ''recollection body is required''))
      else if contains body (lit ''```'')
        then Inl (ValueError (lit ''recollection body must not contain a code fence''))
      else let meaningful = body_lines body in
      if lit ''NO_MEMORY'' \<in> set meaningful
        then Inl (ValueError (lit ''NO_MEMORY cannot be mixed with recollection text''))
      else if \<exists>l \<in> set meaningful. l \<in> RESERVED_PROTOCOL_LINES
        then Inl (ValueError (lit ''recollection body must not contain protocol lines''))
      else let normalized = py_join (lit '' '') meaningful in
      if normalized = [] then Inl (ValueError (lit ''recollection body is required''))
      else bindr (utf8_size normalized (lit ''recollection body'')) (\<lambda>n.
        if MAX_CHANGE_TEXT_BYTES < n then Inl (ValueError (lit ''recollection body exceeds 4 KiB''))
        else if rm_basis_refs m = [] \<or> \<not> distinct (rm_basis_refs m)
          then Inl (ValueError (lit ''recollection material requires unique Episode Basis refs''))
        else bindr (check_all (\<lambda>ref. validate_basis_ref ref (lit ''basis ref'')) (rm_basis_refs m)) (\<lambda>_.
          let tagged_text = join_lines (text_block (lit ''NEW_RECOLLECTION'') (lit ''OTHER'') normalized (rm_basis_refs m)) in
          bindr (utf8_size tagged_text (lit ''tagged text'')) (\<lambda>k.
            if MAX_TAGGED_TEXT_BYTES < k then Inl (ValueError (lit ''bound tagged text exceeds 64 KiB''))
            else Inr tagged_text))))"

section \<open>Reading the typed evidence\<close>

type_synonym copied_source = "pystr \<times> pystr \<times> pystr \<times> pystr" \<comment> \<open>ref, role, actor kind, text\<close>
type_synonym source_state = "pystr \<times> pystr \<Rightarrow> (pystr \<times> pystr \<times> pystr) option"

text \<open>The local variables of the loop over the sources of one Episode.\<close>

record source_acc =
  sa_links :: "(pystr \<times> pystr) set"
  sa_has_situation :: bool
  sa_has_agent_act :: bool
  sa_copied :: "copied_source list"
  sa_state :: source_state

definition read_source :: "pystr \<Rightarrow> evidence_source \<Rightarrow> source_acc \<Rightarrow> source_acc result" where
  "read_source session_ref source acc =
     bindr (validate_required_ref (es_source_ref source) (lit ''source ref'')) (\<lambda>_.
     bindr (raise_if (es_role source \<notin> ROLES) (ValueError (lit ''unknown evidence source role''))) (\<lambda>_.
     bindr (raise_if (es_actor_kind source \<notin> ACTOR_KINDS) (ValueError (lit ''unknown evidence actor kind''))) (\<lambda>_.
     bindr (validate_required_ref (es_actor_ref source) (lit ''actor ref'')) (\<lambda>_.
     bindr (validate_source_text (es_text source)) (\<lambda>_.
     let link = (es_role source, es_source_ref source) in
     bindr (raise_if (link \<in> sa_links acc) (ValueError (lit ''duplicate source role link in Episode''))) (\<lambda>_.
     let identity = (session_ref, es_source_ref source);
         immutable = (es_actor_kind source, es_actor_ref source, es_text source);
         previous = sa_state acc identity in
     bindr (raise_if (previous \<noteq> None \<and> previous \<noteq> Some immutable)
              (ValueError (lit ''same-session source identity conflict''))) (\<lambda>_.
     bindr (raise_if (es_role source \<noteq> lit ''situation'' \<and> es_actor_kind source \<noteq> lit ''agent'')
              (ValueError (lit ''agent_act requires an agent actor''))) (\<lambda>_.
     Inr (acc\<lparr>sa_links := insert link (sa_links acc),
              sa_state := (sa_state acc)(identity \<mapsto> immutable),
              sa_has_situation := sa_has_situation acc \<or> es_role source = lit ''situation'',
              sa_has_agent_act := sa_has_agent_act acc \<or> es_role source \<noteq> lit ''situation'',
              sa_copied := sa_copied acc @
                [(es_source_ref source, es_role source, es_actor_kind source, es_text source)]\<rparr>)))))))))"

text \<open>The local variables of the loop over Episodes.\<close>

record episode_acc =
  ea_episode_refs :: "pystr set"
  ea_state :: source_state
  ea_context :: "(pystr \<times> copied_source list) list"
  ea_current :: "(pystr \<times> pystr \<times> pystr) list"

definition user_situations :: "pystr \<Rightarrow> copied_source list \<Rightarrow> (pystr \<times> pystr \<times> pystr) list" where
  "user_situations episode_ref copied =
     map (\<lambda>(source_ref, role, actor_kind, text). (episode_ref, source_ref, text))
       (filter (\<lambda>(source_ref, role, actor_kind, text).
          role = lit ''situation'' \<and> actor_kind = lit ''user'') copied)"

text \<open>The checks of one Episode before its sources are read.\<close>

definition check_episode :: "pystr list \<Rightarrow> pystr set \<Rightarrow> evidence_episode \<Rightarrow> unit result" where
  "check_episode allowed_basis episode_refs episode =
     bindr (validate_required_ref (ee_episode_ref episode) (lit ''episode ref'')) (\<lambda>_.
     bindr (validate_optional_ref (ee_session_ref episode) (lit ''session ref'')) (\<lambda>_.
     bindr (raise_if (ee_episode_ref episode \<in> episode_refs) (ValueError (lit ''duplicate episode ref''))) (\<lambda>_.
     bindr (raise_if (ee_episode_ref episode \<notin> set allowed_basis)
              (ValueError (lit ''Episode ref lacks Basis permission''))) (\<lambda>_.
     bindr (raise_if (ee_origin episode \<notin> ORIGINS) (ValueError (lit ''unknown evidence origin''))) (\<lambda>_.
     bindr (if ee_origin episode \<in> {lit ''current'', lit ''related''}
            then validate_basis_ref (ee_episode_ref episode) (lit ''recollection Episode Basis ref'')
            else Inr ()) (\<lambda>_.
     raise_if (ee_sources episode = []) (ValueError (lit ''Episode sources are required''))))))))"

text \<open>The effect of one Episode on the loop's variables, once its sources are read.\<close>

definition keep_episode :: "evidence_episode \<Rightarrow> source_acc \<Rightarrow> episode_acc \<Rightarrow> episode_acc" where
  "keep_episode episode src acc =
     acc\<lparr>ea_episode_refs := insert (ee_episode_ref episode) (ea_episode_refs acc),
         ea_state := sa_state src,
         ea_context := ea_context acc @
           (if ee_origin episode \<in> {lit ''current'', lit ''related''}
            then [(ee_origin episode, sa_copied src)] else []),
         ea_current := ea_current acc @
           (if ee_origin episode = lit ''current''
            then user_situations (ee_episode_ref episode) (sa_copied src) else [])\<rparr>"

definition read_episode :: "pystr list \<Rightarrow> evidence_episode \<Rightarrow> episode_acc \<Rightarrow> episode_acc result" where
  "read_episode allowed_basis episode acc =
     bindr (check_episode allowed_basis (ea_episode_refs acc) episode) (\<lambda>_.
     bindr (foldr_r (read_source (ee_session_ref episode)) (ee_sources episode)
              \<lparr>sa_links = {}, sa_has_situation = False, sa_has_agent_act = False, sa_copied = [],
               sa_state = ea_state acc\<rparr>) (\<lambda>src.
     bindr (raise_if (\<not> sa_has_situation src \<or> \<not> sa_has_agent_act src)
              (ValueError (lit ''Episode must contain Situation and actual AgentAct''))) (\<lambda>_.
     Inr (keep_episode episode src acc))))"

text \<open>The loop over the existing Recollections: the refs met so far and the texts kept.\<close>

definition read_recollection ::
  "pystr list \<Rightarrow> evidence_recollection \<Rightarrow> pystr set \<times> pystr list \<Rightarrow> (pystr set \<times> pystr list) result" where
  "read_recollection allowed_targets recollection acc =
     (let (refs, existing) = acc; text = strip (er_text recollection) in
      bindr (validate_required_ref (er_version_ref recollection) (lit ''Recollection version ref'')) (\<lambda>_.
      bindr (raise_if (er_version_ref recollection \<in> refs) (ValueError (lit ''duplicate existing Recollection''))) (\<lambda>_.
      bindr (raise_if (er_version_ref recollection \<notin> set allowed_targets)
               (ValueError (lit ''existing Recollection lacks Target permission''))) (\<lambda>_.
      bindr (raise_if (er_application recollection \<notin> APPLICATIONS)
               (ValueError (lit ''invalid existing Recollection application''))) (\<lambda>_.
      bindr (raise_if (text = []) (ValueError (lit ''existing Recollection text is required''))) (\<lambda>_.
      bindr (utf8_size text (lit ''existing Recollection text'')) (\<lambda>n.
      bindr (raise_if (MAX_CHANGE_TEXT_BYTES < n)
               (ValueError (lit ''existing Recollection text exceeds 4 KiB''))) (\<lambda>_.
      Inr (insert (er_version_ref recollection) refs, existing @ [text])))))))))"

definition read_outcome ::
  "pystr set \<Rightarrow> evidence_outcome \<Rightarrow> pystr set \<Rightarrow> pystr set result" where
  "read_outcome episode_refs outcome outcome_refs =
     bindr (validate_required_ref (eo_outcome_ref outcome) (lit ''outcome ref'')) (\<lambda>_.
     bindr (validate_required_ref (eo_episode_ref outcome) (lit ''outcome episode ref'')) (\<lambda>_.
     bindr (raise_if (eo_outcome_ref outcome \<in> outcome_refs) (ValueError (lit ''duplicate outcome ref''))) (\<lambda>_.
     bindr (raise_if (eo_episode_ref outcome \<notin> episode_refs)
              (ValueError (lit ''Outcome references an unknown Episode''))) (\<lambda>_.
     bindr (raise_if (eo_actor_kind outcome \<notin> ACTOR_KINDS) (ValueError (lit ''unknown Outcome actor kind''))) (\<lambda>_.
     bindr (validate_required_ref (eo_actor_ref outcome) (lit ''Outcome actor ref'')) (\<lambda>_.
     bindr (validate_source_text (eo_text outcome)) (\<lambda>_.
     Inr (insert (eo_outcome_ref outcome) outcome_refs))))))))"

text \<open>\<open>str.upper\<close>, on the ASCII role names it is applied to.\<close>

definition upper :: "pystr \<Rightarrow> pystr" where
  "upper s = map (\<lambda>c. if 97 \<le> c \<and> c \<le> 122 then c - 32 else c) s"

definition quote_lines :: "pystr \<Rightarrow> pystr list" where
  "quote_lines text = map (\<lambda>line. lit ''> '' @ line) (split_nl text)"

definition render_context_episode :: "pystr \<times> copied_source list \<Rightarrow> pystr" where
  "render_context_episode e =
     (let (origin, sources) = e in
      join_lines ((if origin = lit ''current'' then lit ''CURRENT_EPISODE'' else lit ''RELATED_EPISODE'') #
        concat (map (\<lambda>(_, role, actor_kind, text).
          (upper role @ lit '' '' @ actor_kind) # quote_lines text) sources)))"

definition render_context :: "(pystr \<times> copied_source list) list \<Rightarrow> pystr" where
  "render_context eps = py_join [10, 10] (map render_context_episode eps)"

definition current_refs :: "evidence_episode list \<Rightarrow> pystr list" where
  "current_refs eps = map ee_episode_ref (filter (\<lambda>e. ee_origin e = lit ''current'') eps)"

definition recollection_materials :: "window_request \<Rightarrow> recollection_material list result" where
  "recollection_materials request =
     (case evidence request of
        None \<Rightarrow> Inl (ValueError (lit ''typed evidence is required''))
      | Some ev \<Rightarrow>
     let allowed_targets = allowed_target_refs request; allowed_basis = allowed_basis_refs request in
     bindr (raise_if (\<not> distinct allowed_targets) (ValueError (lit ''duplicate allowed target ref''))) (\<lambda>_.
     bindr (raise_if (\<not> distinct allowed_basis) (ValueError (lit ''duplicate allowed basis ref''))) (\<lambda>_.
     bindr (raise_if (lit ''NEW_RECOLLECTION'' \<notin> set allowed_targets)
              (ValueError (lit ''NEW_RECOLLECTION target permission is required''))) (\<lambda>_.
     bindr (check_all (\<lambda>ref. validate_required_ref ref (lit ''allowed basis ref'')) allowed_basis) (\<lambda>_.
     bindr (foldr_r (read_recollection allowed_targets) (recollections ev) ({}, [])) (\<lambda>(_, existing).
     bindr (raise_if (episodes ev = []) (ValueError (lit ''typed evidence requires Episodes''))) (\<lambda>_.
     bindr (foldr_r (read_episode allowed_basis) (episodes ev)
              \<lparr>ea_episode_refs = {}, ea_state = Map.empty, ea_context = [], ea_current = []\<rparr>) (\<lambda>eps.
     bindr (raise_if (\<not> (\<exists>e \<in> set (episodes ev). ee_origin e = lit ''current''))
              (ValueError (lit ''typed evidence requires a current Episode''))) (\<lambda>_.
     bindr (foldr_r (read_outcome (ea_episode_refs eps)) (outcomes ev) {}) (\<lambda>_.
     let basis_refs = current_refs (episodes ev); context_text = render_context (ea_context eps) in
     Inr (map (\<lambda>(episode_ref, source_ref, text).
            \<lparr>rm_episode_ref = episode_ref, rm_source_ref = source_ref, rm_text = text,
             rm_context_text = context_text, rm_basis_refs = basis_refs,
             rm_existing_recollections = existing\<rparr>) (ea_current eps))))))))))))"

section \<open>What the checks guarantee\<close>

lemma utf8_size_Inr: "utf8_size s l = Inr n \<longleftrightarrow> n = psize s \<and> (\<forall>c \<in> set s. \<not> py_surrogate c)"
  by (auto simp: utf8_size_def encode_len_def)

lemma validate_required_ref_Inr:
  "validate_required_ref r l = Inr u \<longleftrightarrow>
     r \<noteq> [] \<and> psize r \<le> MAX_STABLE_REF_BYTES \<and> (\<forall>c \<in> set r. \<not> py_surrogate c)"
  by (auto simp: validate_required_ref_def bindr_Inr_iff utf8_size_Inr)

lemma validate_source_text_Inr:
  "validate_source_text t = Inr u \<longleftrightarrow>
     t \<noteq> [] \<and> psize t \<le> MAX_SOURCE_TEXT_BYTES \<and> (\<forall>c \<in> set t. \<not> py_surrogate c)"
  by (auto simp: validate_source_text_def bindr_Inr_iff utf8_size_Inr)

lemma validate_basis_ref_Inr:
  "validate_basis_ref r l = Inr u \<longleftrightarrow>
     validate_required_ref r l = Inr () \<and> (\<forall>c \<in> set r. \<not> py_isspace c \<and> \<not> py_control c) \<and>
     r \<notin> RESERVED_BASIS_REFS"
  by (auto simp: validate_basis_ref_def bindr_Inr_iff)

text \<open>The Worker's check of a Basis ref is at least as strict as the Core's.\<close>

lemma validated_basis_ref_stable: "validate_basis_ref r l = Inr u \<Longrightarrow> stableBasisRef r"
  by (auto simp: validate_basis_ref_Inr validate_required_ref_Inr stableBasisRef_def stableRef_def
      RESERVED_BASIS_REFS_def core_reserved_def dest: go_space_isspace)

lemma body_lines_line: "l \<in> set (body_lines body) \<Longrightarrow> l \<noteq> [] \<and> no_breaks l \<and> strip l = l"
  by (auto simp: body_lines_def intro: no_breaks_strip splitlines_no_breaks)

lemma py_join_ends:
  assumes "\<forall>l \<in> set ls. l \<noteq> [] \<and> \<not> P (hd l) \<and> \<not> P (last l)" and "ls \<noteq> []"
  shows "py_join sep ls \<noteq> [] \<and> \<not> P (hd (py_join sep ls)) \<and> \<not> P (last (py_join sep ls))"
  using assms by (induction ls rule: induct_list012) auto

lemma py_join_no_breaks: "no_breaks sep \<Longrightarrow> \<forall>l \<in> set ls. no_breaks l \<Longrightarrow> no_breaks (py_join sep ls)"
  by (induction ls rule: induct_list012) auto

lemma strip_ends: "strip l = l \<Longrightarrow> l \<noteq> [] \<Longrightarrow> \<not> py_isspace (hd l) \<and> \<not> py_isspace (last l)"
  by (metis strip_def strip_on_ends)

lemma go_trim_ends: "\<not> py_isspace (hd s) \<Longrightarrow> \<not> py_isspace (last s) \<Longrightarrow> go_trim s = s"
  unfolding go_trim_def by (rule strip_on_id) (auto dest: go_space_isspace)

lemma body_line_trimmed:
  assumes "body_lines body \<noteq> []"
  shows "py_join (lit '' '') (body_lines body) \<noteq> []"
    and "no_breaks (py_join (lit '' '') (body_lines body))"
    and "go_trim (py_join (lit '' '') (body_lines body)) = py_join (lit '' '') (body_lines body)"
proof -
  have lines: "\<forall>l \<in> set (body_lines body). l \<noteq> [] \<and> \<not> py_isspace (hd l) \<and> \<not> py_isspace (last l)"
    using body_lines_line strip_ends by blast
  note ends = py_join_ends [OF lines assms]
  show "py_join (lit '' '') (body_lines body) \<noteq> []" using ends by blast
  show "go_trim (py_join (lit '' '') (body_lines body)) = py_join (lit '' '') (body_lines body)"
    using ends go_trim_ends by blast
  have "no_breaks (lit '' '')" by (simp add: lit_def py_linebreak_def)
  then show "no_breaks (py_join (lit '' '') (body_lines body))"
    using body_lines_line by (intro py_join_no_breaks) blast+
qed

lemma bind_recollection_Inr:
  assumes "bind_recollection m body = Inr t" and "t \<noteq> []"
  shows "t = join_lines (text_block (lit ''NEW_RECOLLECTION'') (lit ''OTHER'')
            (py_join (lit '' '') (body_lines body)) (rm_basis_refs m))"
    and "body_lines body \<noteq> []" "set (body_lines body) \<inter> RESERVED_PROTOCOL_LINES = {}"
    and "psize (py_join (lit '' '') (body_lines body)) \<le> MAX_CHANGE_TEXT_BYTES"
    and "psize t \<le> MAX_TAGGED_TEXT_BYTES"
    and "rm_basis_refs m \<noteq> []" "distinct (rm_basis_refs m)"
    and "\<forall>r \<in> set (rm_basis_refs m). validate_basis_ref r (lit ''basis ref'') = Inr ()"
  using assms
  by (auto simp: bind_recollection_def Let_def bindr_Inr_iff utf8_size_Inr check_all_Inr split: if_splits)

section \<open>What the reader returns\<close>

lemma read_source_Inr:
  "read_source session source acc = Inr acc' \<Longrightarrow>
     sa_copied acc' = sa_copied acc @
       [(es_source_ref source, es_role source, es_actor_kind source, es_text source)]"
  by (auto simp: read_source_def Let_def bindr_Inr_iff)

lemma read_sources_copied:
  assumes "foldr_r (read_source session) sources acc = Inr acc'"
  shows "sa_copied acc' = sa_copied acc @
    map (\<lambda>s. (es_source_ref s, es_role s, es_actor_kind s, es_text s)) sources"
  using foldr_r_accumulate [OF assms, of sa_copied, OF read_source_Inr]
  by (simp add: concat_map_singleton)

text \<open>The user's Situation sources of one Episode, as the source of the evidence has them.\<close>

definition situation_texts :: "evidence_episode \<Rightarrow> (pystr \<times> pystr \<times> pystr) list" where
  "situation_texts e =
     (if ee_origin e = lit ''current''
      then map (\<lambda>s. (ee_episode_ref e, es_source_ref s, es_text s))
        (filter (\<lambda>s. es_role s = lit ''situation'' \<and> es_actor_kind s = lit ''user'') (ee_sources e))
      else [])"

lemma user_situations_map:
  "user_situations ref (map (\<lambda>s. (es_source_ref s, es_role s, es_actor_kind s, es_text s)) ss) =
     map (\<lambda>s. (ref, es_source_ref s, es_text s))
       (filter (\<lambda>s. es_role s = lit ''situation'' \<and> es_actor_kind s = lit ''user'') ss)"
  by (induction ss) (auto simp: user_situations_def)

lemma check_episode_Inr:
  assumes "check_episode allowed refs e = Inr u"
  shows "ee_episode_ref e \<notin> refs" and "ee_episode_ref e \<in> set allowed"
    and "ee_origin e = lit ''current'' \<longrightarrow>
      validate_basis_ref (ee_episode_ref e) (lit ''recollection Episode Basis ref'') = Inr ()"
  using assms by (auto simp: check_episode_def bindr_Inr_iff)

lemma read_episode_Inr:
  assumes "read_episode allowed e acc = Inr acc'"
  shows "check_episode allowed (ea_episode_refs acc) e = Inr ()"
    and "ea_episode_refs acc' = insert (ee_episode_ref e) (ea_episode_refs acc)"
    and "ea_current acc' = ea_current acc @ situation_texts e"
proof -
  from assms obtain src where "check_episode allowed (ea_episode_refs acc) e = Inr ()"
    and sources: "foldr_r (read_source (ee_session_ref e)) (ee_sources e)
       \<lparr>sa_links = {}, sa_has_situation = False, sa_has_agent_act = False, sa_copied = [],
        sa_state = ea_state acc\<rparr> = Inr src" and acc': "acc' = keep_episode e src acc"
    by (auto simp: read_episode_def bindr_Inr_iff)
  then show "check_episode allowed (ea_episode_refs acc) e = Inr ()"
    "ea_episode_refs acc' = insert (ee_episode_ref e) (ea_episode_refs acc)"
    by (simp_all add: keep_episode_def)
  show "ea_current acc' = ea_current acc @ situation_texts e"
    using acc' read_sources_copied [OF sources]
    by (simp add: keep_episode_def situation_texts_def user_situations_map)
qed

lemma recollection_materials_Inr:
  assumes "recollection_materials request = Inr ms"
  obtains ev existing eps where "evidence request = Some ev"
    "distinct (allowed_target_refs request)" "distinct (allowed_basis_refs request)"
    "lit ''NEW_RECOLLECTION'' \<in> set (allowed_target_refs request)"
    "\<exists>e \<in> set (episodes ev). ee_origin e = lit ''current''"
    "foldr_r (read_episode (allowed_basis_refs request)) (episodes ev)
       \<lparr>ea_episode_refs = {}, ea_state = Map.empty, ea_context = [], ea_current = []\<rparr> = Inr eps"
    "ms = map (\<lambda>(episode_ref, source_ref, text).
            \<lparr>rm_episode_ref = episode_ref, rm_source_ref = source_ref, rm_text = text,
             rm_context_text = render_context (ea_context eps),
             rm_basis_refs = current_refs (episodes ev),
             rm_existing_recollections = existing\<rparr>) (ea_current eps)"
  using assms
  by (auto simp: recollection_materials_def Let_def bindr_Inr_iff split: option.splits)

lemma read_episodes_Inr:
  assumes "foldr_r (read_episode allowed) eps
       \<lparr>ea_episode_refs = {}, ea_state = st, ea_context = [], ea_current = []\<rparr> = Inr acc"
  shows "distinct (map ee_episode_ref eps)"
    and "ea_current acc = concat (map situation_texts eps)"
    and "\<forall>r \<in> set (current_refs eps). r \<in> set allowed \<and>
      validate_basis_ref r (lit ''recollection Episode Basis ref'') = Inr ()"
    and "distinct (current_refs eps)"
proof -
  have "ee_episode_ref e \<notin> ea_episode_refs s \<and>
      ea_episode_refs s' = insert (ee_episode_ref e) (ea_episode_refs s)"
    if "read_episode allowed e s = Inr s'" for e s s'
    using read_episode_Inr(1,2) [OF that] check_episode_Inr(1) by blast
  then show dist: "distinct (map ee_episode_ref eps)"
    using foldr_r_distinct [OF assms, of ee_episode_ref ea_episode_refs] by blast
  show "ea_current acc = concat (map situation_texts eps)"
    using foldr_r_accumulate [OF assms, of ea_current situation_texts] read_episode_Inr(3) by simp
  have "ee_episode_ref e \<in> set allowed \<and> (ee_origin e = lit ''current'' \<longrightarrow>
      validate_basis_ref (ee_episode_ref e) (lit ''recollection Episode Basis ref'') = Inr ())"
    if "e \<in> set eps" for e
    using assms that by (rule foldr_r_each) (blast dest: read_episode_Inr(1) check_episode_Inr(2,3))
  then show "\<forall>r \<in> set (current_refs eps). r \<in> set allowed \<and>
      validate_basis_ref r (lit ''recollection Episode Basis ref'') = Inr ()"
    by (auto simp: current_refs_def)
  show "distinct (current_refs eps)"
    using dist unfolding current_refs_def by (metis distinct_map_filter)
qed

text \<open>
  C15: the materials are exactly the user's Situation sources of the current Episodes, in order, and
  all carry the same Basis: the refs of the current Episodes, which are present, distinct, permitted
  and acceptable to the Core.
\<close>

theorem recollection_materials_faithful:
  assumes "recollection_materials request = Inr ms"
  shows "\<exists>ev. evidence request = Some ev \<and>
    map (\<lambda>m. (rm_episode_ref m, rm_source_ref m, rm_text m)) ms = concat (map situation_texts (episodes ev)) \<and>
    (\<forall>m \<in> set ms. rm_basis_refs m = current_refs (episodes ev)) \<and>
    current_refs (episodes ev) \<noteq> [] \<and> distinct (current_refs (episodes ev)) \<and>
    (\<forall>r \<in> set (current_refs (episodes ev)). r \<in> set (allowed_basis_refs request) \<and> stableBasisRef r)"
proof -
  from assms obtain ev existing eps where ev: "evidence request = Some ev"
    and cur: "\<exists>e \<in> set (episodes ev). ee_origin e = lit ''current''"
    and fold: "foldr_r (read_episode (allowed_basis_refs request)) (episodes ev)
       \<lparr>ea_episode_refs = {}, ea_state = Map.empty, ea_context = [], ea_current = []\<rparr> = Inr eps"
    and ms: "ms = map (\<lambda>(episode_ref, source_ref, text).
            \<lparr>rm_episode_ref = episode_ref, rm_source_ref = source_ref, rm_text = text,
             rm_context_text = render_context (ea_context eps),
             rm_basis_refs = current_refs (episodes ev),
             rm_existing_recollections = existing\<rparr>) (ea_current eps)"
    by (rule recollection_materials_Inr)
  note eps = read_episodes_Inr [OF fold]
  have "map (\<lambda>m. (rm_episode_ref m, rm_source_ref m, rm_text m)) ms = ea_current eps"
    unfolding ms by (induction "ea_current eps") (auto simp: o_def case_prod_unfold)
  moreover have "current_refs (episodes ev) \<noteq> []"
    using cur by (auto simp: current_refs_def filter_empty_conv)
  ultimately show ?thesis
    using ev ms eps validated_basis_ref_stable by auto
qed

definition example_source :: "pystr \<Rightarrow> pystr \<Rightarrow> pystr \<Rightarrow> evidence_source" where
  "example_source ref role actor = \<lparr>es_source_ref = ref, es_role = role, es_actor_kind = actor,
     es_actor_ref = lit ''a'', es_text = lit ''hi''\<rparr>"

definition example_episode :: "pystr \<Rightarrow> evidence_episode" where
  "example_episode ref = \<lparr>ee_episode_ref = ref, ee_session_ref = lit ''s'', ee_origin = lit ''current'',
     ee_sources = [example_source (lit ''u'') (lit ''situation'') (lit ''user''),
                   example_source (lit ''g'') (lit ''agent_act'') (lit ''agent'')],
     ee_formation_role = []\<rparr>"

definition example_request :: window_request where
  "example_request = \<lparr>job_ref = lit ''j'', window_text = [],
     allowed_target_refs = [lit ''NEW_RECOLLECTION''], allowed_basis_refs = [lit ''e1''],
     evidence = Some \<lparr>episodes = [example_episode (lit ''e1'')], outcomes = [], recollections = []\<rparr>\<rparr>"

lemmas read_eval = raise_if_def utf8_size_def encode_len_def py_surrogate_def
  utf8_width_def validate_required_ref_def validate_optional_ref_def validate_basis_ref_def
  validate_source_text_def py_isspace_def py_control_def MAX_STABLE_REF_BYTES_def MAX_SOURCE_TEXT_BYTES_def

lemma example_request_materials:
  "\<exists>c. recollection_materials example_request =
     Inr [\<lparr>rm_episode_ref = lit ''e1'', rm_source_ref = lit ''u'', rm_text = lit ''hi'',
       rm_context_text = c, rm_basis_refs = [lit ''e1''], rm_existing_recollections = []\<rparr>]"
proof -
  have refs: "validate_required_ref r l = Inr ()"
    if "r \<in> {lit ''e1'', lit ''s'', lit ''u'', lit ''g'', lit ''a''}" for r l
    using that by (auto simp: read_eval) (auto simp: lit_def)
  have basis: "validate_basis_ref (lit ''e1'') l = Inr ()" for l
    by (simp add: validate_basis_ref_def refs RESERVED_BASIS_REFS_def) (simp add: read_eval lit_def)
  have src: "validate_source_text (lit ''hi'') = Inr ()"
    by (simp add: read_eval lit_def)
  show ?thesis
    by (simp add: recollection_materials_def example_request_def example_episode_def example_source_def
        read_episode_def check_episode_def read_source_def keep_episode_def validate_optional_ref_def
        refs basis src ORIGINS_def ROLES_def ACTOR_KINDS_def current_refs_def user_situations_def
        raise_if_def Let_def)
qed

theorem recollection_materials_faithful_witness:
  "current_refs (episodes \<lparr>episodes = [example_episode (lit ''e1'')], outcomes = [], recollections = []\<rparr>)
     = [lit ''e1''] \<and> stableBasisRef (lit ''e1'')"
proof -
  obtain c where c: "recollection_materials example_request =
     Inr [\<lparr>rm_episode_ref = lit ''e1'', rm_source_ref = lit ''u'', rm_text = lit ''hi'',
       rm_context_text = c, rm_basis_refs = [lit ''e1''], rm_existing_recollections = []\<rparr>]"
    using example_request_materials by blast
  show ?thesis
    using recollection_materials_faithful [OF c]
    by (auto simp: example_request_def example_episode_def current_refs_def)
qed

interpretation rb: block_binder "bind_recollection m" "\<lambda>body. py_join (lit '' '') (body_lines body)"
  "lit ''NEW_RECOLLECTION''" "lit ''OTHER''" "rm_basis_refs m" for m
proof
  show "lit ''NEW_RECOLLECTION'' \<in> new_targets" by (simp add: new_targets_def)
next
  fix body t assume b: "bind_recollection m body = Inr t" "t \<noteq> []"
  note facts = bind_recollection_Inr [OF b]
  show "t = join_lines (text_block (lit ''NEW_RECOLLECTION'') (lit ''OTHER'')
      (py_join (lit '' '') (body_lines body)) (rm_basis_refs m))" by (fact facts(1))
  show "py_join (lit '' '') (body_lines body) \<noteq> [] \<and> no_breaks (py_join (lit '' '') (body_lines body)) \<and>
      go_trim (py_join (lit '' '') (body_lines body)) = py_join (lit '' '') (body_lines body) \<and>
      psize (py_join (lit '' '') (body_lines body)) \<le> MaxChangeTextBytes"
    using facts(4) body_line_trimmed [OF facts(2)]
    by (simp add: MAX_CHANGE_TEXT_BYTES_def MaxChangeTextBytes_def)
  show "rm_basis_refs m \<noteq> [] \<and> distinct (rm_basis_refs m) \<and> (\<forall>r \<in> set (rm_basis_refs m). stableRef r)"
    using facts(6-8) validated_basis_ref_stable by (auto simp: stableBasisRef_def)
next
  fix body t assume "bind_recollection m body = Inr t"
  then show "psize t \<le> MaxTaggedTextBytes"
    using bind_recollection_Inr(5) [of m body t]
    by (cases "t = []") (auto simp: MAX_TAGGED_TEXT_BYTES_def MaxTaggedTextBytes_def)
qed

lemma bound_refs_not_reserved:
  "bind_recollection m body = Inr t \<Longrightarrow> t \<noteq> [] \<Longrightarrow> set (rm_basis_refs m) \<inter> core_reserved = {}"
  using bind_recollection_Inr(8) [of m body t] validated_basis_ref_stable
  by (fastforce simp: stableBasisRef_def)

text \<open>
  C12: a nonempty bound text is exactly one change for the Core: a new Recollection about the other
  party whose text is the model's lines joined by blanks and whose Basis is the material's own refs.
\<close>

theorem bind_recollection_roundtrip:
  assumes "bind_recollection m body = Inr t" and "t \<noteq> []"
  shows "ParseTaggedText t = Some [\<lparr>Target = lit ''NEW_RECOLLECTION'', Application = lit ''OTHER'',
     Operation = lit ''TEXT'', Text = py_join (lit '' '') (body_lines body), BasisRefs = rm_basis_refs m\<rparr>]"
  using bound_refs_not_reserved [OF assms]
  by (intro rb.bound_parses [OF assms]) (simp_all add: validApplication_def)

lemmas body_eval = body_lines_def strip_def strip_on_def rstrip_on_def splitlines_def py_isspace_def
  py_linebreak_def lit_def

lemmas bind_eval = body_eval Let_def startswith_def utf8_size_def encode_len_def py_surrogate_def
  utf8_width_def text_block_def validate_basis_ref_def validate_required_ref_def raise_if_def
  py_control_def RESERVED_PROTOCOL_LINES_def RESERVED_BASIS_REFS_def MAX_CHANGE_TEXT_BYTES_def
  MAX_TAGGED_TEXT_BYTES_def MAX_STABLE_REF_BYTES_def

definition example_material :: recollection_material where
  "example_material = \<lparr>rm_episode_ref = lit ''ep-1'', rm_source_ref = lit ''src-1'',
     rm_text = lit ''I live in Paris.'', rm_context_text = [], rm_basis_refs = [lit ''ep-1''],
     rm_existing_recollections = []\<rparr>"

theorem bind_recollection_roundtrip_witness:
  "ParseTaggedText (lit ''TARGET'' @ [10] @ lit ''NEW_RECOLLECTION'' @ [10] @ lit ''APPLICATION'' @ [10] @
      lit ''OTHER'' @ [10] @ lit ''CHANGE'' @ [10] @ lit ''TEXT'' @ [10] @ lit ''Lives in Paris.'' @ [10] @
      lit ''BASIS'' @ [10] @ lit ''ep-1'') =
    Some [\<lparr>Target = lit ''NEW_RECOLLECTION'', Application = lit ''OTHER'', Operation = lit ''TEXT'',
       Text = lit ''Lives in Paris.'', BasisRefs = [lit ''ep-1'']\<rparr>]"
proof -
  let ?t = "lit ''TARGET'' @ [10] @ lit ''NEW_RECOLLECTION'' @ [10] @ lit ''APPLICATION'' @ [10] @
      lit ''OTHER'' @ [10] @ lit ''CHANGE'' @ [10] @ lit ''TEXT'' @ [10] @ lit ''Lives in Paris.'' @ [10] @
      lit ''BASIS'' @ [10] @ lit ''ep-1''"
  have bound: "bind_recollection example_material (lit '' Lives in Paris. '') = Inr ?t"
    by (simp add: bind_recollection_def example_material_def bind_eval)
  have body: "py_join (lit '' '') (body_lines (lit '' Lives in Paris. '')) = lit ''Lives in Paris.''"
    by (simp add: body_eval)
  show ?thesis
    using bind_recollection_roundtrip [OF bound] by (simp add: body example_material_def)
qed

end
