(* ===== verification/Py_Regex.thy ===== *)
theory Py_Regex
  imports Py_Text
begin

text \<open>
  The fragment of Python's \<open>re\<close> that the sources use, as a backtracking matcher: literals, character
  classes with greedy \<open>+\<close>, groups, alternatives, \<open>?\<close>, and \<open>^\<close> and \<open>$\<close> in MULTILINE mode. A
  matcher state is whether the position starts a line, the text that remains and the groups
  captured so far (latest first); the continuation is what must match afterwards, so that a choice
  is retried when the rest of the pattern fails.
\<close>

datatype regex =
    RLit pystr
  | RSeq regex regex
  | RAlt regex regex
  | ROpt regex
  | RPlus "nat \<Rightarrow> bool"
  | RGroup regex
  | RBol
  | REol

type_synonym mstate = "bool \<times> pystr \<times> pystr list"

fun plus_match :: "(nat \<Rightarrow> bool) \<Rightarrow> (mstate \<Rightarrow> mstate option) \<Rightarrow> pystr list \<Rightarrow> pystr \<Rightarrow> mstate option" where
  "plus_match P k caps [] = None"
| "plus_match P k caps (x # xs) =
     (if P x then (case plus_match P k caps xs of Some r \<Rightarrow> Some r | None \<Rightarrow> k (x = 10, xs, caps))
      else None)"

primrec rmatch :: "regex \<Rightarrow> (mstate \<Rightarrow> mstate option) \<Rightarrow> mstate \<Rightarrow> mstate option" where
  "rmatch (RLit l) k = (\<lambda>(bol, s, caps).
     if startswith s l then k (if l = [] then bol else last l = 10, drop (length l) s, caps) else None)"
| "rmatch (RSeq a b) k = rmatch a (rmatch b k)"
| "rmatch (RAlt a b) k = (\<lambda>st. case rmatch a k st of Some r \<Rightarrow> Some r | None \<Rightarrow> rmatch b k st)"
| "rmatch (ROpt a) k = (\<lambda>st. case rmatch a k st of Some r \<Rightarrow> Some r | None \<Rightarrow> k st)"
| "rmatch (RPlus P) k = (\<lambda>(bol, s, caps). plus_match P k caps s)"
| "rmatch (RGroup a) k = (\<lambda>(bol, s, caps).
     rmatch a (\<lambda>(bol', s', caps'). k (bol', s', take (length s - length s') s # caps')) (bol, s, caps))"
| "rmatch RBol k = (\<lambda>(bol, s, caps). if bol then k (bol, s, caps) else None)"
| "rmatch REol k = (\<lambda>(bol, s, caps). if s = [] \<or> hd s = 10 then k (bol, s, caps) else None)"

text \<open>
  \<open>re.findall\<close> for a pattern with one group: the group of every match, scanning from left to right
  and continuing after each match (one character further after an empty one).
\<close>

function findall_from :: "regex \<Rightarrow> bool \<Rightarrow> pystr \<Rightarrow> pystr list" where
  "findall_from r bol s =
     (case rmatch r Some (bol, s, []) of
        Some (bol', s', caps) \<Rightarrow>
          hd caps # (if length s' < length s then findall_from r bol' s'
                     else case s of [] \<Rightarrow> [] | x # xs \<Rightarrow> findall_from r (x = 10) xs)
      | None \<Rightarrow> (case s of [] \<Rightarrow> [] | x # xs \<Rightarrow> findall_from r (x = 10) xs))"
  by pat_completeness auto
termination
  by (relation "measure (\<lambda>(r, bol, s). length s)") auto

declare findall_from.simps [simp del]

definition findall :: "regex \<Rightarrow> pystr \<Rightarrow> pystr list" where
  "findall r s = findall_from r True s"

text \<open>A pattern that starts with \<open>^\<close> is only tried at the start of a line.\<close>

lemma findall_skip_line:
  assumes "10 \<notin> set x"
  shows "findall_from (RSeq RBol r) False (x @ 10 # s) = findall_from (RSeq RBol r) True s"
    and "findall_from (RSeq RBol r) False x = []"
  using assms by (induction x) (subst findall_from.simps; simp)+

section \<open>Matching inside one line\<close>

text \<open>
  \<open>line_tail t\<close>: \<open>t\<close> is what follows a line, that is nothing or a line feed and more. The lemmas
  run the matcher over a line \<open>l\<close> followed by such a tail.
\<close>

definition line_tail :: "pystr \<Rightarrow> bool" where
  "line_tail t \<longleftrightarrow> t = [] \<or> hd t = 10"

lemma startswith_line:
  assumes "10 \<notin> set p" and "line_tail t"
  shows "startswith (l @ t) p \<longleftrightarrow> startswith l p"
proof
  assume "startswith (l @ t) p"
  then obtain r where r: "l @ t = p @ r" by (auto simp: startswith_iff)
  show "startswith l p"
  proof (cases "length p \<le> length l")
    case True
    have "take (length p) (l @ t) = p" using r by simp
    with True show ?thesis by (simp add: startswith_def)
  next
    case False
    with r obtain u where u: "p = l @ u" "u \<noteq> []" "t = u @ r"
      by (auto simp: append_eq_append_conv2)
    with assms have "hd u = 10" by (simp add: line_tail_def)
    with u assms(1) show ?thesis by (metis hd_in_set Un_iff set_append)
  qed
qed (auto simp: startswith_iff)

lemma startswith_drop_line: "startswith l p \<Longrightarrow> drop (length p) (l @ t) = drop (length p) l @ t"
  by (auto simp: startswith_iff)

lemma rmatch_lit_line:
  assumes "10 \<notin> set p" and "p \<noteq> []" and "line_tail t"
  shows "rmatch (RSeq (RLit p) r) k (b, l @ t, caps) =
    (if startswith l p then rmatch r k (False, drop (length p) l @ t, caps) else None)"
proof -
  have last: "last p \<noteq> 10" using assms(1,2) last_in_set by metis
  show ?thesis
  proof (cases "startswith l p")
    case True
    then obtain m where "l = p @ m" by (auto simp: startswith_iff)
    with last assms(2) show ?thesis by (simp add: startswith_iff)
  next
    case False
    with assms show ?thesis by (simp add: startswith_line)
  qed
qed

text \<open>\<open>\r?\n\<close> at the end of a line.\<close>

lemma rmatch_crlf_line:
  assumes "10 \<notin> set l" and "line_tail t"
  shows "rmatch (RSeq (ROpt (RLit [13])) (RSeq (RLit [10]) r)) k (b, l @ t, caps) =
    (if l \<in> {[], [13]} \<and> t \<noteq> [] then rmatch r k (True, tl t, caps) else None)"
proof (cases l)
  case Nil
  with assms show ?thesis
    by (cases t) (auto simp: startswith_def line_tail_def)
next
  case (Cons x l')
  with assms show ?thesis
    by (cases l'; cases t) (auto simp: startswith_def line_tail_def split: option.split)
qed

text \<open>\<open>\r?$\<close>.\<close>

lemma rmatch_cr_eol:
  assumes "10 \<notin> set l" and "line_tail t"
  shows "rmatch (RSeq (ROpt (RLit [13])) REol) Some (b, l @ t, caps) =
    (if l = [] then Some (b, t, caps) else if l = [13] then Some (False, t, caps) else None)"
proof (cases l)
  case Nil
  with assms show ?thesis by (cases t) (auto simp: startswith_def line_tail_def)
next
  case (Cons x l')
  with assms show ?thesis
    by (cases l'; cases t) (auto simp: startswith_def line_tail_def)
qed

lemma rmatch_group_lit_line:
  assumes "10 \<notin> set p" and "p \<noteq> []" and "line_tail t"
  shows "rmatch (RSeq (RGroup (RLit p)) r) k (b, l @ t, caps) =
    (if startswith l p then rmatch r k (False, drop (length p) l @ t, p # caps) else None)"
proof -
  have last: "last p \<noteq> 10" using assms(1,2) last_in_set by metis
  show ?thesis
  proof (cases "startswith l p")
    case True
    then obtain m where "l = p @ m" by (auto simp: startswith_iff)
    with last assms(2) show ?thesis by (simp add: startswith_iff)
  next
    case False
    with assms show ?thesis by (simp add: startswith_line)
  qed
qed

lemma rmatch_group_alt:
  "rmatch (RSeq (RGroup (RAlt a b)) r) k st =
     (case rmatch (RSeq (RGroup a) r) k st of Some x \<Rightarrow> Some x | None \<Rightarrow> rmatch (RSeq (RGroup b) r) k st)"
  by (cases st) (simp split: option.split)

text \<open>\<open>^E\r?\n\<close> at the start of a line that is followed by another.\<close>

lemma line_tail_simps [simp]: "line_tail []" "line_tail (10 # s)"
  by (simp_all add: line_tail_def)

lemma rmatch_header_line:
  assumes "10 \<notin> set E" and "E \<noteq> []" and "10 \<notin> set l"
  shows "rmatch (RSeq RBol (RSeq (RLit E) (RSeq (ROpt (RLit [13])) (RSeq (RLit [10]) r)))) k (True, l @ 10 # s, caps) =
    (if l \<in> {E, E @ [13]} then rmatch r k (True, s, caps) else None)"
proof -
  have nl: "10 \<notin> set (drop (length E) l)" using assms(3) by (meson in_set_dropD)
  have bol: "rmatch (RSeq RBol q) k (True, u, caps) = rmatch q k (True, u, caps)" for q u
    by simp
  show ?thesis
    unfolding bol rmatch_lit_line [OF assms(1,2) line_tail_simps(2)] rmatch_crlf_line [OF nl line_tail_simps(2)]
    by (auto simp: startswith_iff simp del: rmatch.simps)
qed

lemma rmatch_header_last:
  assumes "10 \<notin> set E" and "E \<noteq> []" and "10 \<notin> set l"
  shows "rmatch (RSeq RBol (RSeq (RLit E) (RSeq (ROpt (RLit [13])) (RSeq (RLit [10]) r)))) k (b, l, caps) = None"
proof -
  have nl: "10 \<notin> set (drop (length E) l)" using assms(3) by (meson in_set_dropD)
  have bol: "rmatch (RSeq RBol q) k (b, u, caps) = (if b then rmatch q k (True, u, caps) else None)" for q u
    by simp
  show ?thesis
    using rmatch_lit_line [OF assms(1,2) line_tail_simps(1), of "RSeq (ROpt (RLit [13])) (RSeq (RLit [10]) r)" k True l caps]
      rmatch_crlf_line [OF nl line_tail_simps(1), of r k False caps]
    unfolding bol by (simp del: rmatch.simps)
qed

end
