(* ===== verification/Disposition_Materials.thy ===== *)
theory Disposition_Materials
  imports Source_Materials Py_Regex Prompts
begin

text \<open>
  Model of src/worker/python/src/memory_core_worker/disposition_materials.py: the reader that accepts
  one Core-qualified causal window as a formation job, the text shown to the model for it, and the
  binder of the model's one-line answer.
\<close>

section \<open>Reading the rendered window\<close>

definition ELIGIBLE_NEW_PATTERN :: regex where
  "ELIGIBLE_NEW_PATTERN =
     RSeq RBol (RSeq (RLit (lit ''ELIGIBLE_NEW_DISPOSITION NEW_DISPOSITION''))
       (RSeq (ROpt (RLit [13])) (RSeq (RLit [10])
       (RSeq (RLit (lit ''APPLICATION ''))
       (RSeq (RGroup (RAlt (RLit (lit ''SELF'')) (RLit (lit ''RELATION''))))
       (RSeq (ROpt (RLit [13])) REol))))))"

definition EXISTING_PATTERN :: regex where
  "EXISTING_PATTERN =
     RSeq RBol (RSeq (RAlt (RLit (lit ''ACTIVE_DISPOSITION_HINT''))
                       (RAlt (RLit (lit ''ELIGIBLE_DISPOSITION'')) (RLit (lit ''ELIGIBLE_ADAPTATION''))))
       (RSeq (RLit (lit '' '')) (RSeq (RPlus (\<lambda>c. c \<noteq> 10))
       (RSeq (ROpt (RLit [13])) (RSeq (RLit [10])
       (RSeq (RLit (lit ''APPLICATION '')) (RSeq (RAlt (RLit (lit ''SELF'')) (RLit (lit ''RELATION'')))
       (RSeq (ROpt (RLit [13])) (RSeq (RLit [10])
       (RSeq (RLit (lit ''TEXT '')) (RSeq (RGroup (RPlus (\<lambda>c. c \<noteq> 13 \<and> c \<noteq> 10))) REol)))))))))))"

definition constitution_text :: "pystr \<Rightarrow> pystr" where
  "constitution_text window =
     (let lines = splitlines window in
      if length lines < 2 \<or> lines ! 0 \<noteq> lit ''CONSTITUTION'' then lit ''UNKNOWN''
      else if lines ! 1 = lit ''UNKNOWN'' then lit ''UNKNOWN''
      else if lit ''END_CONSTITUTION'' \<notin> set (drop 2 lines) then lit ''UNKNOWN''
      else let quoted = map (drop 2) (filter (\<lambda>l. startswith l (lit ''> ''))
                          (takeWhile (\<lambda>l. l \<noteq> lit ''END_CONSTITUTION'') (drop 2 lines)));
               value = strip (join_lines quoted)
      in if value = [] then lit ''UNKNOWN'' else value)"

definition existing_disposition_texts :: "pystr \<Rightarrow> pystr list" where
  "existing_disposition_texts window = uniq (map strip (findall EXISTING_PATTERN window))"

section \<open>The formation material\<close>

record disposition_experience =
  dx_condition :: pystr
  dx_response :: pystr
  dx_outcome :: pystr

record formation_material =
  fm_application :: pystr
  fm_constitution :: pystr
  fm_experiences :: "disposition_experience list"
  fm_existing :: "pystr list"
  fm_basis_refs :: "pystr list"

text \<open>The loop that pairs each relevant Episode with its one non-Agent Outcome; \<open>None\<close> declines.\<close>

fun pair_outcomes ::
  "pystr set \<Rightarrow> evidence_outcome list \<Rightarrow> (pystr \<Rightarrow> (pystr \<times> pystr) option) \<Rightarrow>
     (pystr \<Rightarrow> (pystr \<times> pystr) option) option" where
  "pair_outcomes relevant [] paired = Some paired"
| "pair_outcomes relevant (out # outs) paired =
     (if eo_episode_ref out \<notin> relevant then pair_outcomes relevant outs paired
      else if eo_outcome_ref out = [] \<or> strip (eo_text out) = [] \<or> eo_actor_kind out = [] \<or>
              eo_actor_kind out = lit ''agent'' \<or> paired (eo_episode_ref out) \<noteq> None
      then None
      else pair_outcomes relevant outs
             (paired(eo_episode_ref out \<mapsto> (eo_outcome_ref out, strip (eo_text out)))))"

definition conditions_of :: "evidence_episode \<Rightarrow> pystr list" where
  "conditions_of e = map (\<lambda>s. strip (es_text s))
     (filter (\<lambda>s. es_role s = lit ''situation'' \<and> es_actor_kind s \<noteq> lit ''agent'' \<and> strip (es_text s) \<noteq> [])
       (ee_sources e))"

definition responses_of :: "evidence_episode \<Rightarrow> pystr list" where
  "responses_of e = map (\<lambda>s. strip (es_text s))
     (filter (\<lambda>s. es_role s = lit ''agent_act'' \<and> es_actor_kind s = lit ''agent'' \<and> strip (es_text s) \<noteq> [])
       (ee_sources e))"

text \<open>The loop that turns the relevant Episodes into experiences and Basis refs.\<close>

fun read_experiences ::
  "pystr set \<Rightarrow> (pystr \<Rightarrow> (pystr \<times> pystr) option) \<Rightarrow> evidence_episode list \<Rightarrow>
     (disposition_experience list \<times> pystr list) option" where
  "read_experiences allowed paired [] = Some ([], [])"
| "read_experiences allowed paired (e # es) =
     (if ee_episode_ref e = [] \<or> ee_episode_ref e \<notin> allowed then None
      else case paired (ee_episode_ref e) of
        None \<Rightarrow> None
      | Some (outcome_ref, outcome_text) \<Rightarrow>
          if outcome_ref \<notin> allowed \<or> conditions_of e = [] \<or> responses_of e = [] then None
          else case read_experiences allowed paired es of
            None \<Rightarrow> None
          | Some (xs, refs) \<Rightarrow>
              Some (\<lparr>dx_condition = join_lines (conditions_of e),
                     dx_response = join_lines (responses_of e), dx_outcome = outcome_text\<rparr> # xs,
                    [ee_episode_ref e, outcome_ref] @ refs))"

definition formation_anchors :: "window_evidence \<Rightarrow> evidence_episode list" where
  "formation_anchors ev = filter (\<lambda>e. ee_formation_role e = lit ''anchor'') (episodes ev)"

definition formation_candidates :: "window_evidence \<Rightarrow> evidence_episode list" where
  "formation_candidates ev = filter (\<lambda>e. ee_formation_role e = lit ''candidate'') (episodes ev)"

definition disposition_formation_material :: "window_request \<Rightarrow> formation_material option" where
  "disposition_formation_material request =
     (case evidence request of None \<Rightarrow> None | Some ev \<Rightarrow>
      if count_list (allowed_target_refs request) (lit ''NEW_DISPOSITION'') \<noteq> 1 then None
      else let applications = findall ELIGIBLE_NEW_PATTERN (window_text request) in
      if length applications \<noteq> 1 then None
      else if \<not> distinct (allowed_basis_refs request) then None
      else let anchors = formation_anchors ev; candidates = formation_candidates ev in
      if length anchors \<noteq> 1 \<or> candidates = [] \<or> ee_origin (anchors ! 0) \<noteq> lit ''current'' \<or>
         (\<exists>e \<in> set candidates. ee_origin e \<notin> {lit ''current'', lit ''related''}) then None
      else let relevant = anchors ! 0 # candidates; sessions = map ee_session_ref relevant in
      if (\<exists>s \<in> set sessions. s = []) \<or> \<not> distinct sessions then None
      else case pair_outcomes (set (map ee_episode_ref relevant)) (outcomes ev) Map.empty of
        None \<Rightarrow> None
      | Some paired \<Rightarrow>
          (case read_experiences (set (allowed_basis_refs request)) paired relevant of
             None \<Rightarrow> None
           | Some (experiences, basis_refs) \<Rightarrow>
               Some \<lparr>fm_application = applications ! 0,
                     fm_constitution = constitution_text (window_text request),
                     fm_experiences = experiences,
                     fm_existing = existing_disposition_texts (window_text request),
                     fm_basis_refs = basis_refs\<rparr>))"

definition experience_lines :: "disposition_experience \<Rightarrow> pystr list" where
  "experience_lines x =
     [lit ''EXPERIENCE'', lit ''USER_CONDITION''] @ quote_lines (dx_condition x) @
     [lit ''AGENT_RESPONSE''] @ quote_lines (dx_response x) @
     [lit ''USER_OUTCOME''] @ quote_lines (dx_outcome x) @ [lit ''EXPERIENCE_END'']"

definition build_disposition_formation_input :: "formation_material \<Rightarrow> pystr" where
  "build_disposition_formation_input m =
     join_lines ([FORMATION_RULES, lit ''CONSTITUTION_BEGIN''] @ quote_lines (fm_constitution m) @
       [lit ''CONSTITUTION_END'', lit ''EXISTING_DISPOSITIONS_BEGIN''] @
       (if fm_existing m \<noteq> [] then concat (map quote_lines (fm_existing m)) else [lit ''NONE'']) @
       [lit ''EXISTING_DISPOSITIONS_END'', lit ''EXPERIENCES_BEGIN''] @
       concat (map experience_lines (fm_experiences m)) @ [lit ''EXPERIENCES_END''])"

section \<open>Binding the model's answer\<close>

definition RESERVED_OUTPUT_LINES :: "pystr set" where
  "RESERVED_OUTPUT_LINES = {lit ''TARGET'', lit ''APPLICATION'', lit ''CHANGE'', lit ''TEXT'',
     lit ''BASIS'', lit ''NEW_RECOLLECTION'', lit ''NEW_DISPOSITION''}"

definition validate_formation_ref :: "pystr \<Rightarrow> unit result" where
  "validate_formation_ref ref =
     bindr (if ref = [] then Inl (ValueError (lit ''invalid disposition Basis ref''))
            else bindr (utf8_size ref (lit ''basis ref'')) (\<lambda>n.
              raise_if (MAX_STABLE_REF_BYTES < n) (ValueError (lit ''invalid disposition Basis ref'')))) (\<lambda>_.
     raise_if (\<exists>c \<in> set ref. py_isspace c \<or> py_control c)
       (ValueError (lit ''invalid disposition Basis ref'')))"

definition bind_disposition :: "formation_material \<Rightarrow> pystr \<Rightarrow> pystr result" where
  "bind_disposition m body =
     (let value = strip body in
      if value = lit ''NO_CHANGE'' then Inr []
      else if value = [] then Inl (ValueError (lit ''disposition body is required''))
      else if length (splitlines value) \<noteq> 1
        then Inl (ValueError (lit ''disposition body must contain exactly one line''))
      else if value \<in> RESERVED_OUTPUT_LINES \<or> startswith value (lit ''{'') \<or>
              startswith value (lit ''['') \<or> startswith value (lit ''```'')
        then Inl (ValueError (lit ''disposition body must be plain text''))
      else bindr (utf8_size value (lit ''disposition body'')) (\<lambda>n.
        if MAX_CHANGE_TEXT_BYTES < n then Inl (ValueError (lit ''disposition body exceeds 4 KiB''))
        else if fm_basis_refs m = [] \<or> \<not> distinct (fm_basis_refs m)
          then Inl (ValueError (lit ''disposition material requires unique Basis refs''))
        else bindr (check_all validate_formation_ref (fm_basis_refs m)) (\<lambda>_.
          let tagged = join_lines (text_block (lit ''NEW_DISPOSITION'') (fm_application m) value
                         (fm_basis_refs m)) in
          bindr (utf8_size tagged (lit ''tagged disposition'')) (\<lambda>k.
            if MAX_TAGGED_TEXT_BYTES < k then Inl (ValueError (lit ''bound tagged disposition exceeds 64 KiB''))
            else Inr tagged))))"

section \<open>The offers of a window, line by line\<close>

text \<open>
  What \<open>ELIGIBLE_NEW_PATTERN\<close> finds, stated on the lines between line feeds: a header line followed by
  an application line, each optionally ended by one carriage return.
\<close>

definition crlf_forms :: "pystr \<Rightarrow> pystr set" where
  "crlf_forms l = {l, l @ [13]}"

definition offer_of :: "pystr \<Rightarrow> pystr option" where
  "offer_of l =
     (if l \<in> crlf_forms (lit ''APPLICATION SELF'') then Some (lit ''SELF'')
      else if l \<in> crlf_forms (lit ''APPLICATION RELATION'') then Some (lit ''RELATION'') else None)"

definition offer_header :: "pystr \<Rightarrow> bool" where
  "offer_header l \<longleftrightarrow> l \<in> crlf_forms (lit ''ELIGIBLE_NEW_DISPOSITION NEW_DISPOSITION'')"

fun offers :: "pystr list \<Rightarrow> pystr list" where
  "offers (l1 # l2 # ls) =
     (case offer_of l2 of
        Some a \<Rightarrow> if offer_header l1 then a # offers (l2 # ls) else offers (l2 # ls)
      | None \<Rightarrow> offers (l2 # ls))"
| "offers ls = []"

lemma lit_no_nl: "(\<forall>c \<in> set s. (of_char c :: nat) \<noteq> 10) \<Longrightarrow> 10 \<notin> set (lit s)"
  by (auto simp: lit_def)

lemma drop_lit_eq:
  "startswith l p \<Longrightarrow> drop (length p) l = r \<longleftrightarrow> l = p @ r"
  by (auto simp: startswith_iff)

lemma rmatch_application:
  assumes "10 \<notin> set l" and "line_tail t"
  shows "rmatch (RSeq (RLit (lit ''APPLICATION ''))
       (RSeq (RGroup (RAlt (RLit (lit ''SELF'')) (RLit (lit ''RELATION''))))
       (RSeq (ROpt (RLit [13])) REol))) Some (b, l @ t, []) =
    (case offer_of l of Some a \<Rightarrow> Some (False, t, [a]) | None \<Rightarrow> None)"
proof -
  let ?A = "lit ''APPLICATION ''" and ?S = "lit ''SELF''" and ?R = "lit ''RELATION''"
  have nl: "10 \<notin> set ?A" "10 \<notin> set ?S" "10 \<notin> set ?R"
    by (rule lit_no_nl, simp)+
  have AS: "lit ''APPLICATION SELF'' = ?A @ ?S" "lit ''APPLICATION RELATION'' = ?A @ ?R"
    by (simp_all flip: lit_append)
  show ?thesis
  proof (cases "startswith l ?A")
    case False
    then have "offer_of l = None"
      by (auto simp: offer_of_def crlf_forms_def AS startswith_iff)
    with False show ?thesis
      by (simp add: rmatch_lit_line [OF nl(1) _ assms(2)] del: rmatch.simps)
  next
    case True
    then obtain m where m: "l = ?A @ m" by (auto simp: startswith_iff)
    have "10 \<notin> set m" using assms(1) m by simp
    have tail: "rmatch (RSeq (RGroup (RLit p)) (RSeq (ROpt (RLit [13])) REol)) Some (False, m @ t, []) =
        (if m \<in> crlf_forms p then Some (False, t, [p]) else None)"
      if p: "10 \<notin> set p" "p \<noteq> []" for p
    proof -
      have nl: "10 \<notin> set (drop (length p) m)"
        using \<open>10 \<notin> set m\<close> by (meson in_set_dropD)
      show ?thesis
        unfolding rmatch_group_lit_line [OF p assms(2)] rmatch_cr_eol [OF nl assms(2)]
        by (auto simp: crlf_forms_def startswith_iff)
    qed
    have offer: "offer_of l = (if m \<in> crlf_forms ?S then Some ?S
        else if m \<in> crlf_forms ?R then Some ?R else None)"
      by (simp add: offer_of_def crlf_forms_def AS m)
    have ne: "?A \<noteq> []" "?S \<noteq> []" "?R \<noteq> []" by simp_all
    have dropped: "drop (length ?A) l = m" unfolding m by (rule append_eq_conv_conj [THEN iffD1, THEN conjunct2, symmetric]) (rule refl)
    show ?thesis
      unfolding rmatch_lit_line [OF nl(1) ne(1) assms(2)] dropped rmatch_group_alt
        tail [OF nl(2) ne(2)] tail [OF nl(3) ne(3)] offer
      using True by simp
  qed
qed

lemma rmatch_offer:
  assumes "10 \<notin> set l1" and "10 \<notin> set l2" and "line_tail t"
  shows "rmatch ELIGIBLE_NEW_PATTERN Some (True, l1 @ 10 # l2 @ t, []) =
    (if offer_header l1 then (case offer_of l2 of Some a \<Rightarrow> Some (False, t, [a]) | None \<Rightarrow> None) else None)"
proof -
  have nl: "10 \<notin> set (lit ''ELIGIBLE_NEW_DISPOSITION NEW_DISPOSITION'')" by (rule lit_no_nl) simp
  have ne: "lit ''ELIGIBLE_NEW_DISPOSITION NEW_DISPOSITION'' \<noteq> []" by simp
  show ?thesis
    unfolding ELIGIBLE_NEW_PATTERN_def offer_header_def crlf_forms_def
      rmatch_header_line [OF nl ne assms(1)] rmatch_application [OF assms(2,3)]
    by (rule refl)
qed

lemma findall_line:
  assumes "10 \<notin> set l" and "rmatch (RSeq RBol r) Some (True, l @ t, []) = None" and "line_tail t"
  shows "findall_from (RSeq RBol r) True (l @ t) =
    (if t = [] then [] else findall_from (RSeq RBol r) True (tl t))"
proof (cases l)
  case Nil
  then show ?thesis
    using assms by (subst findall_from.simps) (cases t; auto simp: line_tail_def)
next
  case (Cons x xs)
  have "findall_from (RSeq RBol r) True (l @ t) = findall_from (RSeq RBol r) False (xs @ t)"
    using assms Cons by (subst findall_from.simps) auto
  then show ?thesis
    using assms Cons findall_skip_line [of xs r] by (cases t) (auto simp: line_tail_def)
qed

lemma offers_skip_application: "offer_of l \<noteq> None \<Longrightarrow> offers (l # ls) = offers ls"
proof -
  assume "offer_of l \<noteq> None"
  then have "hd l = 65" by (auto simp: offer_of_def crlf_forms_def lit_def split: if_splits)
  then have "\<not> offer_header l" by (auto simp: offer_header_def crlf_forms_def lit_def)
  then show ?thesis by (cases ls) (auto split: option.split)
qed

lemma findall_offers_lines:
  "ls \<noteq> [] \<Longrightarrow> \<forall>l \<in> set ls. 10 \<notin> set l \<Longrightarrow>
     findall_from ELIGIBLE_NEW_PATTERN True (join_lines ls) = offers ls"
proof (induction ls rule: induct_list012)
  case (2 l)
  have nl: "10 \<notin> set (lit ''ELIGIBLE_NEW_DISPOSITION NEW_DISPOSITION'')" by (rule lit_no_nl) simp
  have ne: "lit ''ELIGIBLE_NEW_DISPOSITION NEW_DISPOSITION'' \<noteq> []" by simp
  have l: "10 \<notin> set l" using 2 by simp
  have "rmatch ELIGIBLE_NEW_PATTERN Some (True, l @ [], []) = None"
    unfolding append_Nil2 ELIGIBLE_NEW_PATTERN_def by (rule rmatch_header_last [OF nl ne l])
  then show ?case
    using findall_line [OF l, of _ "[]"] unfolding ELIGIBLE_NEW_PATTERN_def by simp
next
  case (3 l1 l2 ls)
  let ?t = "if ls = [] then [] else 10 # join_lines ls"
  have nl: "10 \<notin> set l1" "10 \<notin> set l2" using 3(4) by auto
  have joined: "join_lines (l1 # l2 # ls) = l1 @ 10 # l2 @ ?t"
    by (cases ls) auto
  have m: "rmatch ELIGIBLE_NEW_PATTERN Some (True, l1 @ 10 # l2 @ ?t, []) =
      (if offer_header l1 then (case offer_of l2 of Some a \<Rightarrow> Some (False, ?t, [a]) | None \<Rightarrow> None) else None)"
    by (rule rmatch_offer [OF nl]) simp
  obtain r where pat: "ELIGIBLE_NEW_PATTERN = RSeq RBol r"
    by (simp add: ELIGIBLE_NEW_PATTERN_def)
  show ?case
  proof (cases "offer_header l1 \<and> offer_of l2 \<noteq> None")
    case True
    then obtain a where a: "offer_of l2 = Some a" by blast
    have "findall_from ELIGIBLE_NEW_PATTERN True (l1 @ 10 # l2 @ ?t) = a # findall_from ELIGIBLE_NEW_PATTERN False ?t"
      using m True a by (subst findall_from.simps) simp
    moreover have "findall_from ELIGIBLE_NEW_PATTERN False ?t = offers ls"
      using findall_skip_line [of "[]" r] 3(1,4) unfolding pat by (cases "ls = []") auto
    ultimately show ?thesis
      unfolding joined using True a offers_skip_application [of l2 ls] by simp
  next
    case False
    then have none: "rmatch ELIGIBLE_NEW_PATTERN Some (True, l1 @ 10 # l2 @ ?t, []) = None"
      unfolding m by (auto split: option.split)
    have "findall_from ELIGIBLE_NEW_PATTERN True (l1 @ 10 # l2 @ ?t) =
        findall_from ELIGIBLE_NEW_PATTERN True (join_lines (l2 # ls))"
      using findall_line [OF nl(1), of r "10 # l2 @ ?t"] none unfolding pat by (cases ls) auto
    also have "\<dots> = offers (l2 # ls)" using 3(2,4) by simp
    finally show ?thesis
      unfolding joined using False by (auto split: option.split)
  qed
qed simp

lemma findall_eligible_new: "findall ELIGIBLE_NEW_PATTERN window = offers (split_nl window)"
proof -
  have "findall_from ELIGIBLE_NEW_PATTERN True (join_lines (split_nl window)) = offers (split_nl window)"
    by (rule findall_offers_lines) (auto dest: split_nl_no_nl)
  then show ?thesis by (simp add: findall_def)
qed

text \<open>
  the regular expression that looks for the offered application agrees with the reading of the
  window by lines: it finds the application of every header line that is directly followed by an
  application line.
\<close>

lemma eligible_pattern_finds_offers:
  "findall ELIGIBLE_NEW_PATTERN window = offers (split_nl window)"
  by (rule findall_eligible_new)

lemma offers_applications: "set (offers ls) \<subseteq> {lit ''SELF'', lit ''RELATION''}"
proof (induction ls rule: offers.induct)
  case (1 l1 l2 ls)
  then show ?case by (auto simp: offer_of_def split: if_splits)
qed auto

section \<open>The formation gate\<close>

lemma pair_outcomes_sound:
  assumes "pair_outcomes relevant outs p = Some q" and "q k = Some (ref, t)"
  shows "p k = Some (ref, t) \<or>
    (\<exists>out \<in> set outs. eo_episode_ref out = k \<and> eo_outcome_ref out = ref \<and> ref \<noteq> [] \<and>
       strip (eo_text out) = t \<and> t \<noteq> [] \<and> eo_actor_kind out \<noteq> [] \<and> eo_actor_kind out \<noteq> lit ''agent'')"
  using assms
proof (induction outs arbitrary: p)
  case (Cons out outs)
  show ?case
  proof (cases "eo_episode_ref out \<in> relevant")
    case False
    with Cons.prems(1) have "pair_outcomes relevant outs p = Some q" by simp
    from Cons.IH [OF this Cons.prems(2)] show ?thesis by auto
  next
    case True
    let ?p = "p(eo_episode_ref out \<mapsto> (eo_outcome_ref out, strip (eo_text out)))"
    from True Cons.prems(1) have ok: "eo_outcome_ref out \<noteq> []" "strip (eo_text out) \<noteq> []"
      "eo_actor_kind out \<noteq> []" "eo_actor_kind out \<noteq> lit ''agent''"
      and "pair_outcomes relevant outs ?p = Some q" by (auto split: if_splits)
    from Cons.IH [OF this(5) Cons.prems(2)] ok show ?thesis by (auto split: if_splits)
  qed
qed simp

text \<open>What one accepted Episode contributes, given the pairing of Outcomes.\<close>

definition accepted_experience ::
  "pystr set \<Rightarrow> (pystr \<Rightarrow> (pystr \<times> pystr) option) \<Rightarrow> evidence_episode \<Rightarrow> disposition_experience \<Rightarrow> bool" where
  "accepted_experience allowed paired e x \<longleftrightarrow>
     ee_episode_ref e \<noteq> [] \<and> ee_episode_ref e \<in> allowed \<and>
     (\<exists>out. paired (ee_episode_ref e) = Some out \<and> fst out \<in> allowed \<and> dx_outcome x = snd out) \<and>
     conditions_of e \<noteq> [] \<and> responses_of e \<noteq> [] \<and>
     dx_condition x = join_lines (conditions_of e) \<and> dx_response x = join_lines (responses_of e)"

lemma read_experiences_sound:
  assumes "read_experiences allowed paired es = Some (xs, refs)"
  shows "list_all2 (accepted_experience allowed paired) es xs"
    and "refs = concat (map (\<lambda>e. [ee_episode_ref e, fst (the (paired (ee_episode_ref e)))]) es)"
  using assms
  by (induction es arbitrary: xs refs)
    (auto simp: accepted_experience_def split: if_splits option.splits)

lemma disposition_formation_material_SomeD:
  assumes "disposition_formation_material request = Some m"
  obtains ev anchor paired where "evidence request = Some ev" "formation_anchors ev = [anchor]"
    "formation_candidates ev \<noteq> []" "ee_origin anchor = lit ''current''"
    "[] \<notin> set (map ee_session_ref (anchor # formation_candidates ev))"
    "distinct (map ee_session_ref (anchor # formation_candidates ev))"
    "pair_outcomes (set (map ee_episode_ref (anchor # formation_candidates ev))) (outcomes ev) Map.empty = Some paired"
    "read_experiences (set (allowed_basis_refs request)) paired (anchor # formation_candidates ev) =
       Some (fm_experiences m, fm_basis_refs m)"
    "findall ELIGIBLE_NEW_PATTERN (window_text request) = [fm_application m]"
proof -
  let ?apps = "findall ELIGIBLE_NEW_PATTERN (window_text request)"
  note assms [unfolded disposition_formation_material_def Let_def guard_None_Some]
  then obtain ev paired where ev: "evidence request = Some ev"
    and lens: "length (formation_anchors ev) = 1" "length ?apps = 1"
    and rest: "formation_candidates ev \<noteq> []" "ee_origin (formation_anchors ev ! 0) = lit ''current''"
      "[] \<notin> set (map ee_session_ref (formation_anchors ev ! 0 # formation_candidates ev))"
      "distinct (map ee_session_ref (formation_anchors ev ! 0 # formation_candidates ev))"
      "pair_outcomes (set (map ee_episode_ref (formation_anchors ev ! 0 # formation_candidates ev)))
         (outcomes ev) Map.empty = Some paired"
      "read_experiences (set (allowed_basis_refs request)) paired (formation_anchors ev ! 0 # formation_candidates ev) =
         Some (fm_experiences m, fm_basis_refs m)" "fm_application m = ?apps ! 0"
    by (auto simp del: read_experiences.simps)
  from lens obtain anchor app where "formation_anchors ev = [anchor]" "?apps = [app]"
    by (cases "formation_anchors ev"; cases "?apps") auto
  with ev rest show ?thesis by (intro that [of ev anchor paired]) (simp_all del: read_experiences.simps)
qed

text \<open>
  C14: a formation job is accepted only for one anchor of the current window and at least one candidate
  from other, named sessions, and it holds one complete experience per Episode: every Episode has a
  user condition, an Agent response and a paired Outcome whose actor is not the Agent, and every
  Basis ref was offered by the Core.
\<close>

theorem formation_gate:
  assumes "disposition_formation_material request = Some m"
  shows "\<exists>ev anchor. evidence request = Some ev \<and> formation_anchors ev = [anchor] \<and>
    ee_origin anchor = lit ''current'' \<and> 2 \<le> length (fm_experiences m) \<and>
    distinct (map ee_session_ref (anchor # formation_candidates ev)) \<and>
    [] \<notin> set (map ee_session_ref (anchor # formation_candidates ev)) \<and>
    list_all2 (\<lambda>e x. dx_condition x = join_lines (conditions_of e) \<and> conditions_of e \<noteq> [] \<and>
        dx_response x = join_lines (responses_of e) \<and> responses_of e \<noteq> [] \<and>
        (\<exists>out \<in> set (outcomes ev). eo_episode_ref out = ee_episode_ref e \<and>
           eo_actor_kind out \<noteq> lit ''agent'' \<and> dx_outcome x = strip (eo_text out)))
      (anchor # formation_candidates ev) (fm_experiences m) \<and>
    set (fm_basis_refs m) \<subseteq> set (allowed_basis_refs request) \<and>
    fm_application m \<in> {lit ''SELF'', lit ''RELATION''}"
proof -
  from assms obtain ev anchor paired where ev: "evidence request = Some ev" "formation_anchors ev = [anchor]"
    and cands: "formation_candidates ev \<noteq> []" "ee_origin anchor = lit ''current''"
    and sess: "[] \<notin> set (map ee_session_ref (anchor # formation_candidates ev))"
      "distinct (map ee_session_ref (anchor # formation_candidates ev))"
    and pairs: "pair_outcomes (set (map ee_episode_ref (anchor # formation_candidates ev))) (outcomes ev) Map.empty = Some paired"
    and exps: "read_experiences (set (allowed_basis_refs request)) paired (anchor # formation_candidates ev) =
       Some (fm_experiences m, fm_basis_refs m)"
    and app: "findall ELIGIBLE_NEW_PATTERN (window_text request) = [fm_application m]"
    by (rule disposition_formation_material_SomeD)
  let ?es = "anchor # formation_candidates ev" and ?ok = "accepted_experience (set (allowed_basis_refs request)) paired"
  note sound = read_experiences_sound [OF exps]
  have "length ?es = length (fm_experiences m)" using sound(1) by (rule list_all2_lengthD)
  then have two: "2 \<le> length (fm_experiences m)"
    using cands(1) by (cases "formation_candidates ev") auto
  have complete: "list_all2 (\<lambda>e x. dx_condition x = join_lines (conditions_of e) \<and> conditions_of e \<noteq> [] \<and>
        dx_response x = join_lines (responses_of e) \<and> responses_of e \<noteq> [] \<and>
        (\<exists>out \<in> set (outcomes ev). eo_episode_ref out = ee_episode_ref e \<and>
           eo_actor_kind out \<noteq> lit ''agent'' \<and> dx_outcome x = strip (eo_text out)))
      ?es (fm_experiences m)"
    using sound(1) by (rule list_all2_mono)
      (use pair_outcomes_sound [OF pairs] in \<open>fastforce simp: accepted_experience_def\<close>)
  have "\<forall>e \<in> set ?es. ee_episode_ref e \<in> set (allowed_basis_refs request) \<and>
      fst (the (paired (ee_episode_ref e))) \<in> set (allowed_basis_refs request)"
    using list_all2_each [OF sound(1)] unfolding accepted_experience_def by (metis option.sel)
  then have refs: "set (fm_basis_refs m) \<subseteq> set (allowed_basis_refs request)"
    unfolding sound(2) by auto
  have "fm_application m \<in> {lit ''SELF'', lit ''RELATION''}"
    using offers_applications [of "split_nl (window_text request)"] app findall_eligible_new [of "window_text request"] by auto
  with ev cands(2) sess two complete refs show ?thesis by blast
qed

definition example_turn :: "pystr \<Rightarrow> pystr \<Rightarrow> pystr \<Rightarrow> evidence_episode" where
  "example_turn ref session role = (example_episode ref) \<lparr>ee_session_ref := session, ee_formation_role := role\<rparr>"

definition example_outcome :: "pystr \<Rightarrow> pystr \<Rightarrow> evidence_outcome" where
  "example_outcome ref episode = \<lparr>eo_outcome_ref = ref, eo_episode_ref = episode,
     eo_actor_kind = lit ''user'', eo_actor_ref = lit ''u'', eo_text = lit ''ok''\<rparr>"

definition example_formation_request :: window_request where
  "example_formation_request = \<lparr>job_ref = lit ''j'',
     window_text = join_lines [lit ''ELIGIBLE_NEW_DISPOSITION NEW_DISPOSITION'', lit ''APPLICATION SELF''],
     allowed_target_refs = [lit ''NEW_DISPOSITION''],
     allowed_basis_refs = [lit ''e1'', lit ''o1'', lit ''e2'', lit ''o2''],
     evidence = Some \<lparr>episodes = [example_turn (lit ''e1'') (lit ''s1'') (lit ''anchor''),
         example_turn (lit ''e2'') (lit ''s2'') (lit ''candidate'')],
       outcomes = [example_outcome (lit ''o1'') (lit ''e1''), example_outcome (lit ''o2'') (lit ''e2'')],
       recollections = []\<rparr>\<rparr>"

definition example_experience :: disposition_experience where
  "example_experience = \<lparr>dx_condition = lit ''hi'', dx_response = lit ''hi'', dx_outcome = lit ''ok''\<rparr>"

definition example_formation :: formation_material where
  "example_formation = \<lparr>fm_application = lit ''SELF'', fm_constitution = lit ''UNKNOWN'',
     fm_experiences = [example_experience, example_experience],
     fm_existing = existing_disposition_texts (window_text example_formation_request),
     fm_basis_refs = [lit ''e1'', lit ''o1'', lit ''e2'', lit ''o2'']\<rparr>"

lemma example_formation_offer:
  "findall ELIGIBLE_NEW_PATTERN (window_text example_formation_request) = [lit ''SELF'']"
proof -
  have "split_nl (window_text example_formation_request) =
      [lit ''ELIGIBLE_NEW_DISPOSITION NEW_DISPOSITION'', lit ''APPLICATION SELF'']"
    unfolding example_formation_request_def window_request.simps
    by (rule split_join_lines) (auto simp: lit_def)
  then show ?thesis
    by (simp add: findall_eligible_new offer_of_def offer_header_def crlf_forms_def)
qed

lemma example_formation_accepted:
  "disposition_formation_material example_formation_request = Some example_formation"
proof -
  have texts: "strip (lit ''hi'') = lit ''hi''" "strip (lit ''ok'') = lit ''ok''"
    by (simp_all add: body_eval)
  have const: "constitution_text (window_text example_formation_request) = lit ''UNKNOWN''"
    by (simp add: constitution_text_def example_formation_request_def splitlines_def Let_def py_linebreak_def lit_def)
  show ?thesis
    unfolding disposition_formation_material_def example_formation_offer const
    by (simp add: example_formation_request_def example_formation_def
        formation_anchors_def formation_candidates_def example_turn_def example_episode_def
        example_outcome_def example_source_def conditions_of_def responses_of_def texts
        example_experience_def Let_def)
qed

theorem formation_gate_witness:
  "fm_experiences example_formation \<noteq> [] \<and>
   set (fm_basis_refs example_formation) \<subseteq> set (allowed_basis_refs example_formation_request) \<and>
   fm_application example_formation \<in> {lit ''SELF'', lit ''RELATION''}"
  using formation_gate [OF example_formation_accepted] by auto

section \<open>What the binder returns\<close>

lemma splitlines_from_Nil: "splitlines_from cr s = [] \<Longrightarrow> s = [] \<or> s = [10]"
proof (cases s)
  case (Cons c cs)
  assume empty: "splitlines_from cr s = []"
  have "splitlines_from False cs = [] \<Longrightarrow> cs = []" by (cases cs) (auto split: if_splits)
  with empty Cons show ?thesis by (auto split: if_splits)
qed simp

lemma splitlines_from_False_Nil: "splitlines_from False s = [] \<longleftrightarrow> s = []"
  by (cases s) (auto split: if_splits)

lemma splitlines_single:
  assumes "splitlines_from False s = [x]" and "\<not> py_linebreak (last s)"
  shows "no_breaks s"
  using assms
proof (induction s arbitrary: x)
  case (Cons a s)
  show ?case
  proof (cases "py_linebreak a")
    case True
    with Cons.prems have "splitlines_from (a = 13) s = []" by simp
    then have "s = [] \<or> s = [10]" by (rule splitlines_from_Nil)
    with True Cons.prems(2) show ?thesis by (auto simp: py_linebreak_def)
  next
    case False
    with Cons.prems(1) have "cons_head a (splitlines_from False s) = [x]" by simp
    then have "s = [] \<or> (\<exists>y. splitlines_from False s = [y])"
      using splitlines_from_False_Nil [of s] by (cases "splitlines_from False s") auto
    with False Cons.IH Cons.prems(2) show ?thesis by (cases "s = []") auto
  qed
qed simp

lemma strip_one_line:
  assumes "length (splitlines (strip body)) = 1"
  shows "no_breaks (strip body)" and "strip body \<noteq> []"
proof -
  show ne: "strip body \<noteq> []" using assms by auto
  obtain x where "splitlines_from False (strip body) = [x]"
    using assms by (cases "splitlines (strip body)") (auto simp: splitlines_def)
  moreover have "\<not> py_linebreak (last (strip body))"
    using strip_ends [of "strip body"] ne linebreak_isspace by auto
  ultimately show "no_breaks (strip body)" by (rule splitlines_single)
qed

lemma validate_formation_ref_stable: "validate_formation_ref r = Inr u \<Longrightarrow> stableRef r"
  by (auto simp: validate_formation_ref_def stableRef_def bindr_Inr_iff split: if_splits dest: go_space_isspace)

lemma bind_disposition_Inr:
  assumes "bind_disposition m body = Inr t" and "t \<noteq> []"
  shows "t = join_lines (text_block (lit ''NEW_DISPOSITION'') (fm_application m) (strip body) (fm_basis_refs m))"
    and "length (splitlines (strip body)) = 1"
    and "psize (strip body) \<le> MAX_CHANGE_TEXT_BYTES" and "psize t \<le> MAX_TAGGED_TEXT_BYTES"
    and "fm_basis_refs m \<noteq> []" "distinct (fm_basis_refs m)"
    and "\<forall>r \<in> set (fm_basis_refs m). validate_formation_ref r = Inr ()"
  using assms
  by (auto simp: bind_disposition_def Let_def bindr_Inr_iff utf8_size_Inr check_all_Inr split: if_splits)

interpretation db: block_binder "bind_disposition m" strip "lit ''NEW_DISPOSITION''" "fm_application m"
  "fm_basis_refs m" for m
proof
  show "lit ''NEW_DISPOSITION'' \<in> new_targets" by (simp add: new_targets_def)
next
  fix body t assume b: "bind_disposition m body = Inr t" "t \<noteq> []"
  note facts = bind_disposition_Inr [OF b]
  show "t = join_lines (text_block (lit ''NEW_DISPOSITION'') (fm_application m) (strip body) (fm_basis_refs m))"
    by (fact facts(1))
  have "go_trim (strip body) = strip body"
    using strip_ends [of "strip body"] strip_one_line(2) [OF facts(2)] by (intro go_trim_ends) auto
  then show "strip body \<noteq> [] \<and> no_breaks (strip body) \<and> go_trim (strip body) = strip body \<and>
      psize (strip body) \<le> MaxChangeTextBytes"
    using strip_one_line [OF facts(2)] facts(3)
    by (simp add: MAX_CHANGE_TEXT_BYTES_def MaxChangeTextBytes_def)
  show "fm_basis_refs m \<noteq> [] \<and> distinct (fm_basis_refs m) \<and> (\<forall>r \<in> set (fm_basis_refs m). stableRef r)"
    using facts(5-7) validate_formation_ref_stable by blast
next
  fix body t assume "bind_disposition m body = Inr t"
  then show "psize t \<le> MaxTaggedTextBytes"
    using bind_disposition_Inr(4) [of m body t]
    by (cases "t = []") (auto simp: MAX_TAGGED_TEXT_BYTES_def MaxTaggedTextBytes_def)
qed

lemma accepted_application:
  assumes "disposition_formation_material request = Some m"
  shows "fm_application m \<in> {lit ''SELF'', lit ''RELATION''}"
  using assms
  by (rule disposition_formation_material_SomeD)
    (use offers_applications [of "split_nl (window_text request)"] in \<open>auto simp: findall_eligible_new\<close>)

lemma accepted_refs:
  assumes "disposition_formation_material request = Some m"
  shows "set (fm_basis_refs m) \<subseteq> set (allowed_basis_refs request)"
proof -
  obtain ev anchor paired where exps: "read_experiences (set (allowed_basis_refs request)) paired
      (anchor # formation_candidates ev) = Some (fm_experiences m, fm_basis_refs m)"
    using assms by (rule disposition_formation_material_SomeD)
  note sound = read_experiences_sound [OF exps]
  show ?thesis
    using list_all2_each [OF sound(1)] unfolding sound(2) accepted_experience_def by fastforce
qed

text \<open>
  C13: what is bound for an accepted formation job is exactly one change for the Core: a new
  Disposition with the offered application, the model's line as its text and the paired Episode and
  Outcome refs as its Basis. The hypothesis on the offered refs is the Core's own rule for refs: the
  binder does not repeat it.
\<close>

theorem bind_disposition_roundtrip:
  assumes "disposition_formation_material request = Some m"
    and "set (allowed_basis_refs request) \<inter> core_reserved = {}"
    and "bind_disposition m body = Inr t" and "t \<noteq> []"
  shows "ParseTaggedText t = Some [\<lparr>Target = lit ''NEW_DISPOSITION'', Application = fm_application m,
     Operation = lit ''TEXT'', Text = strip body, BasisRefs = fm_basis_refs m\<rparr>]"
  using accepted_application [OF assms(1)] accepted_refs [OF assms(1)] assms(2)
  by (intro db.bound_parses [OF assms(3,4)]) (auto simp: validApplication_def)

theorem bind_disposition_roundtrip_witness:
  "ParseTaggedText (join_lines (text_block (lit ''NEW_DISPOSITION'') (lit ''SELF'') (lit ''Be kind.'')
      [lit ''e1'', lit ''o1'', lit ''e2'', lit ''o2''])) =
    Some [\<lparr>Target = lit ''NEW_DISPOSITION'', Application = lit ''SELF'', Operation = lit ''TEXT'',
       Text = lit ''Be kind.'', BasisRefs = [lit ''e1'', lit ''o1'', lit ''e2'', lit ''o2'']\<rparr>]"
proof -
  let ?t = "join_lines (text_block (lit ''NEW_DISPOSITION'') (lit ''SELF'') (lit ''Be kind.'')
      [lit ''e1'', lit ''o1'', lit ''e2'', lit ''o2''])"
  have bound: "bind_disposition example_formation (lit ''Be kind. '') = Inr ?t"
    by (simp add: bind_disposition_def example_formation_def bind_eval validate_formation_ref_def
        RESERVED_OUTPUT_LINES_def)
  have ne: "?t \<noteq> []" by (simp add: text_block_def lit_def)
  have free: "set (allowed_basis_refs example_formation_request) \<inter> core_reserved = {}"
    by (simp add: example_formation_request_def core_reserved_def)
  have body: "strip (lit ''Be kind. '') = lit ''Be kind.''" by (simp add: body_eval)
  show ?thesis
    using bind_disposition_roundtrip [OF example_formation_accepted free bound ne]
    unfolding body by (simp only: example_formation_def formation_material.simps)
qed

end
