(* ===== verification/Tagged_Reading.thy ===== *)
theory Tagged_Reading
  imports Tagged_Grammar
begin

text \<open>
  The Core's parser as a relation between blocks of lines and changes: a text is accepted exactly
  when its lines are a sequence of well-formed blocks whose existing targets do not repeat. The
  passes of the worker are proved against this reading.
\<close>

section \<open>One block\<close>

definition operation_lines :: "pystr list \<Rightarrow> pystr \<Rightarrow> pystr \<Rightarrow> bool" where
  "operation_lines opl operation body \<longleftrightarrow>
     opl = [operation, body] \<and> operation \<in> {lit ''TEXT'', lit ''ADAPT''} \<and> psize body \<le> MaxChangeTextBytes \<or>
     (\<exists>l. opl = [l] \<and> l \<notin> {lit ''TEXT'', lit ''ADAPT''} \<and> parseOperation l = Some (operation, body))"

definition block_of :: "pystr list \<Rightarrow> change \<Rightarrow> bool" where
  "block_of b c \<longleftrightarrow>
     (\<exists>opl. b = [lit ''TARGET'', Target c, lit ''APPLICATION'', Application c, lit ''CHANGE''] @ opl @
              lit ''BASIS'' # BasisRefs c \<and> operation_lines opl (Operation c) (Text c)) \<and>
     (Target c \<in> new_targets \<or> existingStableRef (Target c)) \<and> validApplication (Application c) \<and>
     BasisRefs c \<noteq> [] \<and> distinct (BasisRefs c) \<and> (\<forall>r \<in> set (BasisRefs c). stableBasisRef r)"

lemma block_of_hd [simp]: "block_of b c \<Longrightarrow> b \<noteq> [] \<and> hd b = lit ''TARGET'' \<and> 8 \<le> length b"
  by (auto simp: block_of_def operation_lines_def Suc_le_eq)

lemma parseOperation_operations:
  "parseOperation l = Some (operation, body) \<Longrightarrow>
     operation \<in> {lit ''TEXT'', lit ''ADAPT'', lit ''KEEP'', lit ''REENACT'', lit ''INHIBIT''}"
  by (auto simp: parseOperation_def Let_def split: if_splits)

lemma block_operation_lines:
  assumes "operation_lines opl operation body" and "opl \<noteq> []"
  shows "block_operation ([t, x, a, y, ch] @ opl @ rest) = Some (operation, body, 5 + length opl)"
  using assms by (auto simp: operation_lines_def block_operation_def)

lemma parse_block_of:
  assumes "block_of b c" and "rest = [] \<or> hd rest = lit ''TARGET''"
    and "Target c \<in> new_targets \<or> Target c \<notin> seen"
  shows "parse_block seen (b @ rest) = Some (c, rest)"
proof -
  from assms(1) obtain opl where b: "b = [lit ''TARGET'', Target c, lit ''APPLICATION'', Application c, lit ''CHANGE''] @
      opl @ lit ''BASIS'' # BasisRefs c" and opl: "operation_lines opl (Operation c) (Text c)"
    by (auto simp: block_of_def)
  have refs: "\<forall>r \<in> set (BasisRefs c). stableBasisRef r" using assms(1) by (simp add: block_of_def)
  note ends = takeWhile_stable_refs [OF refs assms(2)]
  have len: "opl \<noteq> []" "8 \<le> length (b @ rest)"
    using opl block_of_hd [OF assms(1)] by (auto simp: operation_lines_def)
  have "b @ rest = [lit ''TARGET'', Target c, lit ''APPLICATION'', Application c, lit ''CHANGE''] @
      opl @ (lit ''BASIS'' # BasisRefs c @ rest)" using b by simp
  note op = block_operation_lines [OF opl len(1), of "lit ''TARGET''" "Target c" "lit ''APPLICATION''"
      "Application c" "lit ''CHANGE''" "lit ''BASIS'' # BasisRefs c @ rest"]
  have "drop (Suc (5 + length opl)) (b @ rest) = BasisRefs c @ rest" "(b @ rest) ! (5 + length opl) = lit ''BASIS''"
    by (simp_all add: b numeral_eq_Suc nth_append)
  with assms(1,3) op len b show ?thesis
    by (auto simp: parse_block_def block_of_def ends)
qed

lemma parse_block_inv:
  assumes "parse_block seen ls = Some (c, rest)"
  obtains b where "ls = b @ rest" "block_of b c" "rest = [] \<or> hd rest = lit ''TARGET''"
    "Target c \<in> new_targets \<or> Target c \<notin> seen"
proof -
  from assms obtain k where ls: "8 \<le> length ls" "ls ! 0 = lit ''TARGET''" "ls ! 1 = Target c"
    "ls ! 2 = lit ''APPLICATION''" "ls ! 3 = Application c" "ls ! 4 = lit ''CHANGE''"
    and tgt: "Target c \<in> new_targets \<or> existingStableRef (Target c) \<and> Target c \<notin> seen"
    and app: "validApplication (Application c)"
    and op: "block_operation ls = Some (Operation c, Text c, k)"
    and basis: "k < length ls" "ls ! k = lit ''BASIS''"
      "BasisRefs c = takeWhile (\<lambda>l. l \<noteq> lit ''TARGET'') (drop (Suc k) ls)"
      "BasisRefs c \<noteq> []" "distinct (BasisRefs c)" "\<forall>b \<in> set (BasisRefs c). stableBasisRef b"
    and rest: "rest = dropWhile (\<lambda>l. l \<noteq> lit ''TARGET'') (drop (Suc k) ls)"
    by (rule parse_block_SomeD)
  obtain x0 x1 x2 x3 x4 x5 x6 ls' where shape: "ls = x0 # x1 # x2 # x3 # x4 # x5 # x6 # ls'"
    using ls(1) by (auto simp: numeral_eq_Suc Suc_le_length_iff)
  define opl where "opl = take (k - 5) (drop 5 ls)"
  have k: "k = 6 \<or> k = 7" and opl: "operation_lines opl (Operation c) (Text c)"
    using op by (auto simp: block_operation_def operation_lines_def opl_def shape numeral_eq_Suc split: if_splits)
  have split: "ls = take 5 ls @ opl @ drop k ls"
    using k by (elim disjE) (simp_all add: opl_def shape numeral_eq_Suc)
  have "drop k ls = lit ''BASIS'' # drop (Suc k) ls" using basis(1,2) by (simp add: Cons_nth_drop_Suc [symmetric])
  moreover have "drop (Suc k) ls = BasisRefs c @ rest" using basis(3) rest by simp
  moreover have "take 5 ls = [lit ''TARGET'', Target c, lit ''APPLICATION'', Application c, lit ''CHANGE'']"
    using ls(2-6) by (simp add: shape)
  ultimately have "ls = ([lit ''TARGET'', Target c, lit ''APPLICATION'', Application c, lit ''CHANGE''] @ opl @
      lit ''BASIS'' # BasisRefs c) @ rest" using split by simp
  moreover have "block_of ([lit ''TARGET'', Target c, lit ''APPLICATION'', Application c, lit ''CHANGE''] @ opl @
      lit ''BASIS'' # BasisRefs c) c"
    using opl tgt app basis(4-6) by (auto simp: block_of_def)
  moreover have "rest = [] \<or> hd rest = lit ''TARGET''"
    unfolding rest using hd_dropWhile [of "\<lambda>l. l \<noteq> lit ''TARGET''"] by blast
  ultimately show ?thesis using tgt that by blast
qed

lemma block_ofI:
  assumes "operation_lines opl operation body" "target \<in> new_targets \<or> existingStableRef target"
    "validApplication application" "refs \<noteq> []" "distinct refs" "\<forall>r \<in> set refs. stableBasisRef r"
  shows "block_of ([lit ''TARGET'', target, lit ''APPLICATION'', application, lit ''CHANGE''] @ opl @
      lit ''BASIS'' # refs)
    \<lparr>Target = target, Application = application, Operation = operation, Text = body, BasisRefs = refs\<rparr>"
  using assms by (auto simp: block_of_def)

lemma operation_lines_text:
  "operation \<in> {lit ''TEXT'', lit ''ADAPT''} \<Longrightarrow> psize body \<le> MaxChangeTextBytes \<Longrightarrow>
     operation_lines [operation, body] operation body"
  by (simp add: operation_lines_def)

lemma core_lines_of_lines:
  assumes "\<forall>l \<in> set ls. l \<noteq> [] \<and> go_trim l = l \<and> no_breaks l"
  shows "core_lines (join_lines ls) = ls"
proof (cases "ls = []")
  case False
  then have "core_lines (join_lines ls) = trimmed ls"
    using assms no_breaks_no_nl by (intro core_lines_join) blast+
  also have "\<dots> = ls" using assms by (intro trimmed_id) blast
  finally show ?thesis .
qed simp

section \<open>A sequence of blocks\<close>

definition existing :: "change list \<Rightarrow> pystr list" where
  "existing cs = filter (\<lambda>t. t \<notin> new_targets) (map Target cs)"

lemma existing_simps [simp]:
  "existing [] = []"
  "existing (c # cs) = (if Target c \<in> new_targets then existing cs else Target c # existing cs)"
  "existing (cs @ ds) = existing cs @ existing ds"
  by (simp_all add: existing_def)

lemma blocks_hd: "list_all2 block_of bs cs \<Longrightarrow> concat bs = [] \<or> hd (concat bs) = lit ''TARGET''"
  by (cases bs; cases cs) auto

lemma parse_blocks_of:
  assumes "list_all2 block_of bs cs" and "distinct (existing cs)" and "set (existing cs) \<inter> seen = {}"
  shows "parse_blocks seen (concat bs) = Some cs"
  using assms
proof (induction arbitrary: seen rule: list_all2_induct)
  case Nil
  then show ?case by (simp add: parse_blocks.simps)
next
  case (Cons b bs c cs)
  have "parse_block seen (b @ concat bs) = Some (c, concat bs)"
    using Cons.hyps Cons.prems by (intro parse_block_of blocks_hd) (auto split: if_splits)
  moreover have "parse_blocks (if Target c \<in> new_targets then seen else insert (Target c) seen) (concat bs) = Some cs"
    using Cons.prems by (intro Cons.IH) (auto split: if_splits)
  ultimately show ?case
    using block_of_hd [OF Cons.hyps(1)] by (subst parse_blocks.simps) auto
qed

lemma parse_blocks_inv:
  assumes "parse_blocks seen ls = Some cs"
  obtains bs where "ls = concat bs" "list_all2 block_of bs cs" "distinct (existing cs)" "set (existing cs) \<inter> seen = {}"
  using assms
proof (induction seen ls arbitrary: cs thesis rule: parse_blocks.induct)
  case (1 seen ls)
  show ?case
  proof (cases "ls = []")
    case True
    with 1(3) have "cs = []" by (simp add: parse_blocks.simps)
    with True show ?thesis by (intro 1(2) [of "[]"]) auto
  next
    case False
    with 1(3) obtain c rest ds where pb: "parse_block seen ls = Some (c, rest)" and cs: "cs = c # ds"
      and ds: "parse_blocks (if Target c \<in> new_targets then seen else insert (Target c) seen) rest = Some ds"
      by (subst (asm) (2) parse_blocks.simps) (auto split: option.splits)
    from 1(1) [OF False pb refl _ ds] obtain bs where bs: "rest = concat bs" "list_all2 block_of bs ds"
      "distinct (existing ds)"
      "set (existing ds) \<inter> (if Target c \<in> new_targets then seen else insert (Target c) seen) = {}" by blast
    from pb obtain b where b: "ls = b @ rest" "block_of b c" "Target c \<in> new_targets \<or> Target c \<notin> seen"
      by (rule parse_block_inv)
    show ?thesis
      using b bs cs by (intro 1(2) [of "b # bs"]) (auto split: if_splits)
  qed
qed

theorem parse_blocks_iff:
  "parse_blocks seen ls = Some cs \<longleftrightarrow>
     (\<exists>bs. ls = concat bs \<and> list_all2 block_of bs cs) \<and> distinct (existing cs) \<and> set (existing cs) \<inter> seen = {}"
  by (auto intro: parse_blocks_of elim!: parse_blocks_inv)

lemma parse_blocks_append:
  assumes "parse_blocks {} ls = Some cs" and "parse_blocks {} ms = Some ds"
    and "set (existing cs) \<inter> set (existing ds) = {}"
  shows "parse_blocks {} (ls @ ms) = Some (cs @ ds)"
proof -
  from assms(1,2) obtain bs es where "ls = concat bs" "list_all2 block_of bs cs" "distinct (existing cs)"
    "ms = concat es" "list_all2 block_of es ds" "distinct (existing ds)" by (auto elim!: parse_blocks_inv)
  with assms(3) show ?thesis
    by (auto simp: parse_blocks_iff intro!: exI [of _ "bs @ es"] list_all2_appendI)
qed

end
