(* ===== verification/Tagged_Passes.thy ===== *)
theory Tagged_Passes
  imports Disposition_Materials Tagged_Reading
begin

text \<open>
  The text passes of src/worker/python/src/memory_core_worker/service.py that the worker applies to a
  model's answer before and after its focused calls: the repairs of the copied application and of the
  missing first marker, the removal of redundant Basis separators, the removal of new Dispositions
  owned by another lane, the binder of a plain list of recollections and the appender. Each pass is
  related to the Core's parser: what the pass does to a text is stated as what the Core then reads.
\<close>

section \<open>Constants\<close>

definition DEFAULT_MAX_MODEL_INPUT_BYTES :: nat where "DEFAULT_MAX_MODEL_INPUT_BYTES = 256 * 1024"

definition NO_CHANGE_TOKEN :: pystr where "NO_CHANGE_TOKEN = lit ''NO_CHANGE''"

definition MAX_PLAIN_RECOLLECTIONS :: nat where "MAX_PLAIN_RECOLLECTIONS = 32"

section \<open>Binding a plain list of recollections\<close>

text \<open>The loop over the lines: \<open>seen\<close> and \<open>bound\<close> are the local variables of the source.\<close>

fun bind_lines :: "recollection_material \<Rightarrow> pystr list \<Rightarrow> pystr set \<Rightarrow> pystr list \<Rightarrow> pystr list result" where
  "bind_lines m [] seen bound = Inr bound"
| "bind_lines m (line # lines) seen bound =
     (if line \<in> seen then bind_lines m lines seen bound
      else if length bound = MAX_PLAIN_RECOLLECTIONS then Inr bound
      else bindr (bind_recollection m line) (\<lambda>t. bind_lines m lines (insert line seen) (bound @ [t])))"

definition bind_plain_recollections :: "recollection_material \<Rightarrow> pystr \<Rightarrow> pystr list result" where
  "bind_plain_recollections m body =
     (if strip body = lit ''NO_MEMORY'' then Inr []
      else let lines = body_lines body in
        if lines = [] then Inl (ValueError (lit ''plain Recollection output must contain at least one line''))
        else if lit ''NO_MEMORY'' \<in> set lines
          then Inl (ValueError (lit ''NO_MEMORY cannot be mixed with Recollection text''))
        else bind_lines m lines {} [])"

section \<open>Removing the changes of another lane\<close>

definition owned_change :: "pystr set \<Rightarrow> pystr \<Rightarrow> bool" where
  "owned_change changes operation \<longleftrightarrow>
     operation \<in> changes \<or> (\<exists>change \<in> changes. startswith operation (change @ lit '' ''))"

text \<open>An owned block starts at the head of the meaningful lines \<open>ms\<close>.\<close>

definition owned_header :: "pystr set \<Rightarrow> pystr list \<Rightarrow> bool" where
  "owned_header changes ms \<longleftrightarrow>
     5 < length ms \<and> ms ! 0 = lit ''TARGET'' \<and> ms ! 1 = lit ''NEW_DISPOSITION'' \<and>
     ms ! 2 = lit ''APPLICATION'' \<and> ms ! 4 = lit ''CHANGE'' \<and> owned_change changes (ms ! 5)"

definition has_owned_block :: "pystr set \<Rightarrow> pystr list \<Rightarrow> bool" where
  "has_owned_block changes ms \<longleftrightarrow> (\<exists>offset \<in> set [0..<length ms]. owned_header changes (drop offset ms))"

abbreviation starts_block :: "pystr \<Rightarrow> bool" where
  "starts_block line \<equiv> go_trim line = lit ''TARGET''"

text \<open>The slices of the lines between consecutive \<open>TARGET\<close> lines, each with its \<open>TARGET\<close> line first.\<close>

function target_blocks :: "pystr list \<Rightarrow> pystr list list" where
  "target_blocks [] = []"
| "target_blocks (l # ls) =
     (l # takeWhile (\<lambda>x. \<not> starts_block x) ls) # target_blocks (dropWhile (\<lambda>x. \<not> starts_block x) ls)"
  by pat_completeness auto
termination
  by (relation "measure length") (auto simp: less_Suc_eq_le length_dropWhile_le)

text \<open>The loop over the blocks: \<open>None\<close> is the early return of the empty text.\<close>

fun keep_blocks :: "pystr set \<Rightarrow> pystr list list \<Rightarrow> pystr list option" where
  "keep_blocks changes [] = Some []"
| "keep_blocks changes (block # blocks) =
     (let meaningful = trimmed block in
      if length meaningful < 7 \<or> meaningful ! 0 \<noteq> lit ''TARGET'' \<or>
         meaningful ! 2 \<noteq> lit ''APPLICATION'' \<or> meaningful ! 4 \<noteq> lit ''CHANGE'' then None
      else let target = meaningful ! 1; operation = meaningful ! 5 in
        if target = lit ''NEW_DISPOSITION'' \<and> owned_change changes operation
        then keep_blocks changes blocks
        else map_option (\<lambda>kept. block @ kept) (keep_blocks changes blocks))"

definition remove_new_disposition_changes :: "pystr \<Rightarrow> pystr set \<Rightarrow> pystr" where
  "remove_new_disposition_changes text changes =
     (if text = [] then []
      else let lines = splitlines text in
        if \<not> has_owned_block changes (trimmed lines) then text
        else let leading = takeWhile (\<lambda>l. \<not> starts_block l) lines;
                 blocks = dropWhile (\<lambda>l. \<not> starts_block l) lines in
          if blocks = [] \<or> trimmed leading \<noteq> [] then []
          else case keep_blocks changes (target_blocks blocks) of
            None \<Rightarrow> []
          | Some kept \<Rightarrow> go_trim (join_lines kept))"

section \<open>Appending\<close>

definition has_disposition_formation_anchor :: "window_request \<Rightarrow> bool" where
  "has_disposition_formation_anchor request =
     (case evidence request of None \<Rightarrow> False
      | Some ev \<Rightarrow> length (filter (\<lambda>e. ee_formation_role e = lit ''anchor'') (episodes ev)) = 1)"

definition append_tagged_text :: "pystr \<Rightarrow> pystr \<Rightarrow> pystr result" where
  "append_tagged_text primary addition =
     (if addition = [] then Inr primary
      else let combined = (if primary = [] then addition else rstrip primary @ [10] @ addition) in
        bindr (encode_len combined) (\<lambda>n.
          if MAX_TAGGED_TEXT_BYTES < n then Inr primary else Inr combined))"

definition should_process_recollection :: "window_request \<Rightarrow> pystr \<Rightarrow> bool" where
  "should_process_recollection request primary_text =
     (case evidence request of None \<Rightarrow> False
      | Some ev \<Rightarrow>
          if lit ''NEW_RECOLLECTION'' \<notin> set (allowed_target_refs request) then False
          else let primary_lines = set (map go_trim (split_nl primary_text)) in
            if lit ''NEW_RECOLLECTION'' \<in> primary_lines then False
            else \<not> (\<exists>r \<in> set (recollections ev). er_version_ref r \<in> primary_lines))"

section \<open>Repairs of a copied header\<close>

definition meaningful_indices :: "pystr list \<Rightarrow> nat list" where
  "meaningful_indices lines = filter (\<lambda>i. go_trim (lines ! i) \<noteq> []) [0..<length lines]"

definition newline_suffix :: "pystr \<Rightarrow> pystr" where
  "newline_suffix line = (if endswith line [13] then [13] else [])"

definition restore_initial_new_target :: "pystr \<Rightarrow> pystr list \<Rightarrow> pystr" where
  "restore_initial_new_target text allowed_refs =
     (let offered_new = {lit ''NEW_RECOLLECTION'', lit ''NEW_DISPOSITION''} \<inter> set allowed_refs in
      if offered_new = {} then text
      else let lines = split_nl text; meaningful = meaningful_indices lines in
        if length meaningful < 2 then text
        else let target_index = meaningful ! 0; application_index = meaningful ! 1 in
          if go_trim (lines ! target_index) \<notin> offered_new \<or>
             go_trim (lines ! application_index) \<noteq> lit ''APPLICATION'' then text
          else join_lines (take target_index lines @
                 [lit ''TARGET'' @ newline_suffix (lines ! target_index)] @ drop target_index lines))"

text \<open>Does the loop body rewrite the line at this offset of the meaningful lines?\<close>

definition copied_application :: "pystr set \<Rightarrow> pystr list \<Rightarrow> nat list \<Rightarrow> nat \<Rightarrow> bool" where
  "copied_application allowed lines meaningful offset =
     (let parts = split_on 32 (go_trim (lines ! (meaningful ! offset))) in
      length parts = 2 \<and> parts ! 0 = lit ''APPLICATION'' \<and>
      parts ! 1 \<in> {lit ''SELF'', lit ''OTHER'', lit ''RELATION'', lit ''SITUATION''} \<and>
      \<not> (offset = 0 \<or> offset + 1 \<ge> length meaningful) \<and>
      go_trim (lines ! (meaningful ! (offset - 1))) \<in> allowed \<and>
      go_trim (lines ! (meaningful ! (offset + 1))) = lit ''CHANGE'')"

text \<open>The loop stops at the first line it rewrites.\<close>

definition split_copied_inline_application :: "pystr \<Rightarrow> pystr list \<Rightarrow> pystr" where
  "split_copied_inline_application text allowed_refs =
     (let lines = split_nl text; meaningful = meaningful_indices lines in
      case find (copied_application (set allowed_refs) lines meaningful) [0..<length meaningful] of
        None \<Rightarrow> join_lines lines
      | Some offset \<Rightarrow>
          let index = meaningful ! offset; line = lines ! index;
              suffix = newline_suffix line; parts = split_on 32 (go_trim line) in
          join_lines (take index lines @ [lit ''APPLICATION'' @ suffix, parts ! 1 @ suffix] @
            drop (Suc index) lines))"

section \<open>Redundant Basis separators\<close>

fun complete_basis_tail :: "pystr set \<Rightarrow> bool \<Rightarrow> pystr list \<Rightarrow> bool" where
  "complete_basis_tail allowed previous_ref [] = previous_ref"
| "complete_basis_tail allowed previous_ref (line # lines) =
     (let value = strip3 line in
      if value = lit ''TARGET'' then previous_ref
      else if value = [] then complete_basis_tail allowed previous_ref lines
      else if value \<in> allowed then complete_basis_tail allowed True lines
      else if value = lit ''BASIS'' \<and> previous_ref then complete_basis_tail allowed False lines
      else False)"

text \<open>The loop; \<open>seen\<close> is the local variable of the source, \<open>None\<close> outside a Basis list.\<close>

fun dedup_lines :: "pystr set \<Rightarrow> pystr set option \<Rightarrow> pystr list \<Rightarrow> pystr list" where
  "dedup_lines allowed seen [] = []"
| "dedup_lines allowed seen (line # lines) =
     (let value = strip3 line in
      if value = lit ''TARGET'' then line # dedup_lines allowed None lines
      else if value = lit ''BASIS'' then
        (if seen \<noteq> None \<and> seen \<noteq> Some {} \<and> complete_basis_tail allowed False lines
         then dedup_lines allowed seen lines
         else line # dedup_lines allowed (Some {}) lines)
      else case seen of
        Some refs \<Rightarrow>
          if value \<in> allowed then
            (if value \<in> refs then dedup_lines allowed seen lines
             else line # dedup_lines allowed (Some (insert value refs)) lines)
          else if value \<noteq> [] then line # dedup_lines allowed None lines
          else line # dedup_lines allowed seen lines
      | None \<Rightarrow> line # dedup_lines allowed None lines)"

definition deduplicate_basis :: "pystr \<Rightarrow> pystr list \<Rightarrow> pystr" where
  "deduplicate_basis text allowed_refs =
     join_lines (dedup_lines (set allowed_refs) None (split_nl text))"

section \<open>What removal leaves\<close>

lemma concat_target_blocks [simp]: "concat (target_blocks ls) = ls"
  by (induction ls rule: target_blocks.induct) auto

lemma target_blocks_shape:
  assumes "ls = [] \<or> starts_block (hd ls)" and "b \<in> set (target_blocks ls)"
  shows "b \<noteq> [] \<and> starts_block (hd b) \<and> (\<forall>l \<in> set (tl b). \<not> starts_block l)"
  using assms
proof (induction ls rule: target_blocks.induct)
  case (2 l ls)
  have "dropWhile (\<lambda>x. \<not> starts_block x) ls = [] \<or> starts_block (hd (dropWhile (\<lambda>x. \<not> starts_block x) ls))"
    using hd_dropWhile [of "\<lambda>x. \<not> starts_block x" ls] by blast
  from 2(1) [OF this] have tail: "b \<in> set (target_blocks (dropWhile (\<lambda>x. \<not> starts_block x) ls)) \<Longrightarrow> ?case" .
  have head: "\<forall>x \<in> set (takeWhile (\<lambda>x. \<not> starts_block x) ls). \<not> starts_block x"
    using set_takeWhileD by metis
  from 2(3) consider "b = l # takeWhile (\<lambda>x. \<not> starts_block x) ls"
    | "b \<in> set (target_blocks (dropWhile (\<lambda>x. \<not> starts_block x) ls))" by auto
  then show ?case using tail head 2(2) by cases simp_all
qed simp

lemma trimmed_block:
  assumes "b \<noteq> []" "starts_block (hd b)" "\<forall>l \<in> set (tl b). \<not> starts_block l"
  shows "trimmed b \<noteq> []" and "hd (trimmed b) = lit ''TARGET''" and "lit ''TARGET'' \<notin> set (tl (trimmed b))"
proof -
  obtain l ls where b: "b = l # ls" using assms(1) by (cases b) auto
  then have "trimmed b = lit ''TARGET'' # trimmed ls" using assms(2) by simp
  moreover have "lit ''TARGET'' \<notin> set (trimmed ls)" using assms(3) b by (auto simp: trimmed_def)
  ultimately show "trimmed b \<noteq> []" "hd (trimmed b) = lit ''TARGET''" "lit ''TARGET'' \<notin> set (tl (trimmed b))"
    by simp_all
qed

lemma trimmed_takeWhile:
  "trimmed (takeWhile (\<lambda>l. \<not> starts_block l) ls) = takeWhile (\<lambda>l. \<not> starts_block l) (trimmed ls)"
  "trimmed (dropWhile (\<lambda>l. \<not> starts_block l) ls) = dropWhile (\<lambda>l. \<not> starts_block l) (trimmed ls)"
  by (induction ls) auto

lemma trimmed_target_blocks:
  "ls = [] \<or> starts_block (hd ls) \<Longrightarrow> map trimmed (target_blocks ls) = target_blocks (trimmed ls)"
proof (induction ls rule: target_blocks.induct)
  case (2 l ls)
  have "dropWhile (\<lambda>x. \<not> starts_block x) ls = [] \<or> starts_block (hd (dropWhile (\<lambda>x. \<not> starts_block x) ls))"
    using hd_dropWhile [of "\<lambda>x. \<not> starts_block x" ls] by blast
  from 2(1) [OF this] 2(2) show ?case by (simp add: trimmed_takeWhile)
qed simp

lemma trimmed_concat: "trimmed (concat bs) = concat (map trimmed bs)"
  by (induction bs) auto

abbreviation block_owned :: "pystr set \<Rightarrow> pystr list \<Rightarrow> bool" where
  "block_owned changes ms \<equiv> ms ! 1 = lit ''NEW_DISPOSITION'' \<and> owned_change changes (ms ! 5)"

lemma keep_blocks_Some:
  assumes "keep_blocks changes bs = Some kept"
  shows "kept = concat (filter (\<lambda>b. \<not> block_owned changes (trimmed b)) bs)"
    and "\<forall>b \<in> set bs. 7 \<le> length (trimmed b)"
  using assms by (induction bs arbitrary: kept) (auto simp: Let_def not_less split: if_splits)

lemma keep_blocks_wellformed:
  assumes "\<forall>b \<in> set bs. 7 \<le> length (trimmed b) \<and> trimmed b ! 0 = lit ''TARGET'' \<and>
    trimmed b ! 2 = lit ''APPLICATION'' \<and> trimmed b ! 4 = lit ''CHANGE''"
  shows "keep_blocks changes bs = Some (concat (filter (\<lambda>b. \<not> block_owned changes (trimmed b)) bs))"
  using assms by (induction bs) (auto simp: Let_def)

lemma no_owned_header_concat:
  assumes "\<forall>m \<in> set mss. 6 \<le> length m \<and> lit ''TARGET'' \<notin> set (tl m) \<and> \<not> owned_header changes m"
  shows "\<not> owned_header changes (drop k (concat mss))"
  using assms
proof (induction mss arbitrary: k)
  case (Cons m mss)
  then have m: "6 \<le> length m" "lit ''TARGET'' \<notin> set (tl m)" "\<not> owned_header changes m" by auto
  consider "k = 0" | "0 < k" "k < length m" | "length m \<le> k" by linarith
  then show ?case
  proof cases
    case 1
    with m show ?thesis by (auto simp: owned_header_def nth_append)
  next
    case 2
    then have "(m @ concat mss) ! k \<in> set (tl m)"
      by (cases m) (auto simp: nth_append nth_Cons')
    moreover have "drop k (concat (m # mss)) ! 0 = (m @ concat mss) ! k" using 2 by (simp add: nth_append)
    ultimately show ?thesis using m(2) by (metis owned_header_def)
  next
    case 3
    with Cons show ?thesis by auto
  qed
qed (simp add: owned_header_def)

lemma has_owned_blockI: "owned_header changes (drop k ms) \<Longrightarrow> has_owned_block changes ms"
  unfolding has_owned_block_def
  by (cases "k < length ms") (auto simp: owned_header_def)

text \<open>The removal on the meaningful lines: only unowned blocks are left, or nothing.\<close>

lemma remove_cases:
  obtains (unchanged) "remove_new_disposition_changes text changes = text" "\<not> has_owned_block changes (py_lines text)"
  | (dropped) "remove_new_disposition_changes text changes = []"
  | (kept) bs where "trimmed (takeWhile (\<lambda>l. \<not> starts_block l) (splitlines text)) = []"
    "bs = target_blocks (dropWhile (\<lambda>l. \<not> starts_block l) (splitlines text))"
    "\<forall>b \<in> set bs. 7 \<le> length (trimmed b)"
    "remove_new_disposition_changes text changes =
       go_trim (join_lines (concat (filter (\<lambda>b. \<not> block_owned changes (trimmed b)) bs)))"
proof (cases "text = [] \<or> \<not> has_owned_block changes (py_lines text)")
  case True
  then show ?thesis
    by (intro unchanged) (auto simp: remove_new_disposition_changes_def py_lines_def Let_def has_owned_block_def)
next
  case False
  let ?blocks = "dropWhile (\<lambda>l. \<not> starts_block l) (splitlines text)"
  show ?thesis
  proof (cases "remove_new_disposition_changes text changes = []")
    case True
    then show ?thesis by (rule dropped)
  next
    case ne: False
    with False obtain kept where lead: "trimmed (takeWhile (\<lambda>l. \<not> starts_block l) (splitlines text)) = []"
      and k: "keep_blocks changes (target_blocks ?blocks) = Some kept"
      and r: "remove_new_disposition_changes text changes = go_trim (join_lines kept)"
      by (auto simp: remove_new_disposition_changes_def py_lines_def Let_def split: if_splits option.splits)
    from keep_blocks_Some [OF k] lead r show ?thesis by (intro kept [OF _ refl]) auto
  qed
qed

lemma blocks_start: "dropWhile (\<lambda>l. \<not> P l) ls = [] \<or> P (hd (dropWhile (\<lambda>l. \<not> P l) ls))"
  using hd_dropWhile [of "\<lambda>l. \<not> P l" ls] by blast

lemma block_lines_no_breaks:
  assumes "b \<in> set (target_blocks (dropWhile P (splitlines text)))" and "l \<in> set b"
  shows "no_breaks l"
proof -
  have "l \<in> set (concat (target_blocks (dropWhile P (splitlines text))))"
    using assms unfolding set_concat by blast
  then show ?thesis unfolding concat_target_blocks by (auto dest: set_dropWhileD splitlines_no_breaks)
qed

lemma remove_leaves_no_owned:
  "\<not> has_owned_block changes (py_lines (remove_new_disposition_changes text changes))"
proof (cases rule: remove_cases [of "text" changes])
  case unchanged
  then show ?thesis by simp
next
  case dropped
  then show ?thesis by (simp add: has_owned_block_def)
next
  case (kept bs)
  let ?keep = "filter (\<lambda>b. \<not> block_owned changes (trimmed b)) bs"
  have "\<forall>l \<in> set (concat ?keep). no_breaks l"
    using block_lines_no_breaks [of _ "\<lambda>l. \<not> starts_block l" "text"] unfolding kept(2) [symmetric] by auto
  then have "py_lines (join_lines (concat ?keep)) = trimmed (concat ?keep)" by (rule py_lines_join_trimmed)
  moreover have "trimmed (concat ?keep) = concat (map trimmed ?keep)" by (rule trimmed_concat)
  moreover have "6 \<le> length (trimmed b) \<and> lit ''TARGET'' \<notin> set (tl (trimmed b)) \<and> \<not> owned_header changes (trimmed b)"
    if "b \<in> set ?keep" for b
  proof -
    from that have b: "b \<in> set bs" "\<not> block_owned changes (trimmed b)" by auto
    note shape = target_blocks_shape [OF blocks_start b(1) [unfolded kept(2)]]
    have "lit ''TARGET'' \<notin> set (tl (trimmed b))" using shape by (intro trimmed_block(3)) blast+
    moreover have "7 \<le> length (trimmed b)" using kept(3) b(1) by blast
    ultimately show ?thesis using b(2) by (simp add: owned_header_def)
  qed
  ultimately show ?thesis
    using no_owned_header_concat [of "map trimmed ?keep" changes] kept(4)
    by (auto simp: has_owned_block_def)
qed

lemma subseq_concat_filter: "subseq (concat (filter P bs)) (concat bs)"
  by (induction bs) (auto intro: list_emb_append_mono subseq_drop_many)

lemma remove_size: "psize (remove_new_disposition_changes text changes) \<le> psize text"
proof (cases rule: remove_cases [of "text" changes])
  case (kept bs)
  let ?keep = "concat (filter (\<lambda>b. \<not> block_owned changes (trimmed b)) bs)"
  have "subseq ?keep (concat bs)" by (rule subseq_concat_filter)
  also have "subseq (concat bs) (splitlines text)"
    unfolding kept(2) concat_target_blocks by (metis subseq_drop_many subseq_order.refl takeWhile_dropWhile_id)
  finally have "psize (join_lines ?keep) \<le> psize (join_lines (splitlines text))" by (rule psize_join_subseq)
  with psize_splitlines [of "text"] psize_strip_on [of go_space "join_lines ?keep"] kept(4) show ?thesis
    by (simp add: go_trim_def)
qed simp_all

text \<open>
  Removal is final. In the text it returns no line starts an owned block, so removing again
  changes nothing, and the text has not grown.
\<close>

lemma remove_new_disposition_changes_final:
  "\<not> has_owned_block changes (py_lines (remove_new_disposition_changes text changes)) \<and>
   remove_new_disposition_changes (remove_new_disposition_changes text changes) changes =
     remove_new_disposition_changes text changes \<and>
   psize (remove_new_disposition_changes text changes) \<le> psize text"
proof -
  have "remove_new_disposition_changes t changes = t" if "\<not> has_owned_block changes (py_lines t)" for t
    using that by (simp add: remove_new_disposition_changes_def py_lines_def)
  with remove_leaves_no_owned remove_size show ?thesis by blast
qed

subsection \<open>Removal as the Core reads it\<close>

definition owned :: "pystr set \<Rightarrow> change \<Rightarrow> bool" where
  "owned changes c \<longleftrightarrow> Target c = lit ''NEW_DISPOSITION'' \<and> Operation c \<in> changes"

text \<open>The fields of a change do not spell the marker that starts a block.\<close>

definition marker_free :: "change \<Rightarrow> bool" where
  "marker_free c \<longleftrightarrow> Target c \<noteq> lit ''TARGET'' \<and> Text c \<noteq> lit ''TARGET''"

lemma owned_change_operation:
  assumes "changes \<subseteq> {lit ''TEXT'', lit ''ADAPT''}" and "operation_lines opl operation body"
  shows "owned_change changes (hd opl) \<longleftrightarrow> operation \<in> changes"
proof -
  have iff: "owned_change changes l \<longleftrightarrow> l \<in> changes \<or> lit ''TEXT'' \<in> changes \<and> startswith l (lit ''TEXT '') \<or>
      lit ''ADAPT'' \<in> changes \<and> startswith l (lit ''ADAPT '')" for l
  proof -
    have "lit ''TEXT '' = lit ''TEXT'' @ lit '' ''" "lit ''ADAPT '' = lit ''ADAPT'' @ lit '' ''"
      by (simp_all flip: lit_append)
    then show ?thesis using assms(1) by (auto simp: owned_change_def)
  qed
  have excl: "\<not> (startswith l (lit ''TEXT '') \<and> startswith l (lit ''ADAPT ''))" for l
    by (cases l) (auto simp: startswith_def lit_def)
  have plain: "\<not> startswith (lit ''TEXT'') (lit ''TEXT '')" "\<not> startswith (lit ''TEXT'') (lit ''ADAPT '')"
    "\<not> startswith (lit ''ADAPT'') (lit ''TEXT '')" "\<not> startswith (lit ''ADAPT'') (lit ''ADAPT '')"
    by (simp_all add: startswith_def lit_def)
  from assms(2) consider "opl = [operation, body]" "operation \<in> {lit ''TEXT'', lit ''ADAPT''}"
    | l where "opl = [l]" "l \<notin> {lit ''TEXT'', lit ''ADAPT''}" "parseOperation l = Some (operation, body)"
    by (auto simp: operation_lines_def)
  then show ?thesis
  proof cases
    case 1
    then show ?thesis using plain by (auto simp: iff)
  next
    case 2
    have "startswith l (lit ''TEXT '') \<Longrightarrow> operation = lit ''TEXT''"
      "\<not> startswith l (lit ''TEXT '') \<Longrightarrow> startswith l (lit ''ADAPT '') \<Longrightarrow> operation = lit ''ADAPT''"
      "\<not> startswith l (lit ''TEXT '') \<Longrightarrow> \<not> startswith l (lit ''ADAPT '') \<Longrightarrow> operation \<notin> {lit ''TEXT'', lit ''ADAPT''}"
      using 2(3) by (auto simp: parseOperation_def Let_def split: if_splits)
    with 2(1,2) assms(1) excl [of l] show ?thesis
      by (cases "startswith l (lit ''TEXT '')"; cases "startswith l (lit ''ADAPT '')") (auto simp: iff)
  qed
qed

lemma block_of_owned:
  assumes "block_of b c" and "changes \<subseteq> {lit ''TEXT'', lit ''ADAPT''}"
  shows "block_owned changes b \<longleftrightarrow> owned changes c"
proof -
  from assms(1) obtain opl where opl: "b = [lit ''TARGET'', Target c, lit ''APPLICATION'', Application c, lit ''CHANGE''] @
      opl @ lit ''BASIS'' # BasisRefs c" "operation_lines opl (Operation c) (Text c)"
    by (auto simp: block_of_def)
  then have "b ! 1 = Target c" "b ! 5 = hd opl" by (auto simp: operation_lines_def)
  with owned_change_operation [OF assms(2) opl(2)] show ?thesis by (simp add: owned_def)
qed

lemma parseOperation_line: "parseOperation l = Some (operation, body) \<Longrightarrow> l \<noteq> lit ''TARGET''"
proof -
  have "\<not> startswith (lit ''TARGET'') (lit ''TEXT '')" "\<not> startswith (lit ''TARGET'') (lit ''ADAPT '')"
    by (simp_all add: startswith_def lit_def)
  then have "parseOperation (lit ''TARGET'') = None" by (simp add: parseOperation_def)
  then show "parseOperation l = Some (operation, body) \<Longrightarrow> l \<noteq> lit ''TARGET''" by force
qed

lemma block_of_marker_free:
  assumes "block_of b c" and "marker_free c"
  shows "lit ''TARGET'' \<notin> set (tl b)"
proof -
  from assms(1) obtain opl where b: "b = [lit ''TARGET'', Target c, lit ''APPLICATION'', Application c, lit ''CHANGE''] @
      opl @ lit ''BASIS'' # BasisRefs c" and opl: "operation_lines opl (Operation c) (Text c)"
    by (auto simp: block_of_def)
  have "lit ''TARGET'' \<notin> set opl"
    using opl assms(2) parseOperation_line unfolding operation_lines_def marker_free_def by fastforce
  moreover have "lit ''TARGET'' \<notin> set (BasisRefs c)"
    using assms(1) stableBasisRef_not_target by (auto simp: block_of_def)
  moreover have "Application c \<noteq> lit ''TARGET''"
    using assms(1) by (auto simp: block_of_def validApplication_def)
  ultimately show ?thesis using assms(2) by (auto simp: b marker_free_def)
qed

lemma starts_while:
  "ms = [] \<or> starts_block (hd ms) \<Longrightarrow>
     takeWhile (\<lambda>x. \<not> starts_block x) ms = [] \<and> dropWhile (\<lambda>x. \<not> starts_block x) ms = ms"
  by (cases ms) auto

lemma target_blocks_concat:
  assumes "\<forall>b \<in> set bs. b \<noteq> [] \<and> starts_block (hd b) \<and> (\<forall>l \<in> set (tl b). \<not> starts_block l)"
  shows "target_blocks (concat bs) = bs"
  using assms
proof (induction bs)
  case (Cons b bs)
  from Cons.prems have b0: "b \<noteq> []" "\<forall>l \<in> set (tl b). \<not> starts_block l" by auto
  then obtain l ls where b: "b = l # ls" "\<forall>x \<in> set ls. \<not> starts_block x" by (cases b) auto
  have rest: "\<forall>b \<in> set bs. b \<noteq> [] \<and> starts_block (hd b)" using Cons.prems by auto
  have starts: "concat bs = [] \<or> starts_block (hd (concat bs))"
    using rest by (cases bs) (simp_all add: hd_append2)
  from starts_while [OF starts] have "takeWhile (\<lambda>x. \<not> starts_block x) (concat bs) = []"
    "dropWhile (\<lambda>x. \<not> starts_block x) (concat bs) = concat bs" by simp_all
  moreover have "takeWhile (\<lambda>x. \<not> starts_block x) (ls @ concat bs) = ls @ takeWhile (\<lambda>x. \<not> starts_block x) (concat bs)"
    "dropWhile (\<lambda>x. \<not> starts_block x) (ls @ concat bs) = dropWhile (\<lambda>x. \<not> starts_block x) (concat bs)"
    using b(2) by (simp_all add: takeWhile_append2 dropWhile_append2)
  moreover have "target_blocks (concat bs) = bs" using Cons.prems by (intro Cons.IH) simp
  ultimately show ?case using b(1) by simp
qed simp

lemma core_py_lines:
  assumes "\<forall>l \<in> set (core_lines text). no_breaks l"
  shows "py_lines text = core_lines text"
proof -
  have "py_lines l = [l]" if "l \<in> set (core_lines text)" for l
    using assms that trimmed_fixed [of l "split_nl text"] by (simp add: py_lines_single core_lines_def)
  then have "concat (map py_lines ls) = ls" if "set ls \<subseteq> set (core_lines text)" for ls
    using that by (induction ls) auto
  then show ?thesis using py_lines_core_lines [of "text"] by simp
qed

lemma list_all2_filter:
  assumes "list_all2 R bs cs" and "\<And>b c. R b c \<Longrightarrow> P b \<longleftrightarrow> Q c"
  shows "list_all2 R (filter P bs) (filter Q cs)"
  using assms(1) by (induction rule: list_all2_induct) (auto simp: assms(2))

lemma block_of_markers:
  assumes "block_of b c"
  shows "8 \<le> length b" "b ! 0 = lit ''TARGET''" "b ! 2 = lit ''APPLICATION''" "b ! 4 = lit ''CHANGE''"
  using assms block_of_hd [OF assms] by (auto simp: block_of_def)

lemma owned_block_found:
  assumes "b \<in> set bs" and "block_of b c" and "block_owned changes b"
  shows "has_owned_block changes (concat bs)"
proof -
  from assms(1) obtain xs ys where "bs = xs @ b # ys" by (meson split_list)
  then have "drop (length (concat xs)) (concat bs) = b @ concat ys" by simp
  moreover have "owned_header changes (b @ concat ys)"
    using assms(3) block_of_markers [OF assms(2)] by (auto simp: owned_header_def nth_append)
  ultimately show ?thesis using has_owned_blockI by metis
qed

text \<open>The lines of the returned text, when the lines of the given text are the Core's blocks.\<close>

lemma core_lines_remove:
  assumes lines: "py_lines text = concat bs" and blocks: "list_all2 block_of bs cs"
    and free: "\<forall>c \<in> set cs. marker_free c" and ch: "changes \<subseteq> {lit ''TEXT'', lit ''ADAPT''}"
    and owned: "has_owned_block changes (py_lines text)"
  shows "core_lines (remove_new_disposition_changes text changes) =
    concat (filter (\<lambda>b. \<not> block_owned changes b) bs)"
proof -
  let ?drop = "dropWhile (\<lambda>l. \<not> starts_block l) (splitlines text)"
  let ?lbs = "target_blocks ?drop"
  have ne: "concat bs \<noteq> []" using owned lines unfolding has_owned_block_def by (metis empty_iff list.set(1) list.size(3) upt_0)
  have "hd (concat bs) = lit ''TARGET''" using blocks_hd [OF blocks] ne by blast
  then have start: "starts_block (hd (concat bs))" by simp
  have shape: "\<forall>b \<in> set bs. b \<noteq> [] \<and> starts_block (hd b) \<and> (\<forall>l \<in> set (tl b). \<not> starts_block l)"
  proof
    fix b assume b: "b \<in> set bs"
    then obtain c where "c \<in> set cs" "block_of b c" using list_all2_each [OF blocks] by blast
    then have "lit ''TARGET'' \<notin> set (tl b)" "b \<noteq> [] \<and> hd b = lit ''TARGET''"
      using block_of_marker_free free by auto
    moreover have "\<forall>l \<in> set (tl b). go_trim l = l"
    proof
      fix l assume "l \<in> set (tl b)"
      then have "l \<in> set (py_lines text)" 
        using b list.set_sel(2) [of b l] \<open>b \<noteq> [] \<and> hd b = lit ''TARGET''\<close> unfolding lines set_concat by blast
      then show "go_trim l = l" using trimmed_fixed unfolding py_lines_def by blast
    qed
    ultimately show "b \<noteq> [] \<and> starts_block (hd b) \<and> (\<forall>l \<in> set (tl b). \<not> starts_block l)"
      by auto
  qed
  from starts_while [OF disjI2, OF start] have lead: "trimmed (takeWhile (\<lambda>l. \<not> starts_block l) (splitlines text)) = []"
    and drop: "trimmed ?drop = concat bs"
    using lines by (simp_all add: trimmed_takeWhile py_lines_def)
  have map: "map trimmed ?lbs = bs"
    using trimmed_target_blocks [OF blocks_start, of "splitlines text"] target_blocks_concat [OF shape] drop by simp
  let ?keep = "filter (\<lambda>b. \<not> block_owned changes (trimmed b)) ?lbs"
  have wf: "keep_blocks changes ?lbs = Some (concat ?keep)"
  proof (intro keep_blocks_wellformed ballI)
    fix b assume "b \<in> set ?lbs"
    then have "trimmed b \<in> set bs" unfolding map [symmetric] by simp
    then obtain c where "block_of (trimmed b) c" using list_all2_each [OF blocks] by blast
    from block_of_markers [OF this] show "7 \<le> length (trimmed b) \<and> trimmed b ! 0 = lit ''TARGET'' \<and>
        trimmed b ! 2 = lit ''APPLICATION'' \<and> trimmed b ! 4 = lit ''CHANGE''" by simp
  qed
  have "core_lines (join_lines (concat ?keep)) = trimmed (concat ?keep)"
  proof (cases "concat ?keep = []")
    case False
    have "\<forall>l \<in> set (concat ?keep). no_breaks l"
      using block_lines_no_breaks [of _ "\<lambda>l. \<not> starts_block l" "text"] by auto
    with False show ?thesis by (intro core_lines_join) (auto dest: no_breaks_no_nl)
  next
    case True
    then show ?thesis by (simp only: True) simp
  qed
  also have "\<dots> = concat (filter (\<lambda>b. \<not> block_owned changes b) (map trimmed ?lbs))"
    by (simp add: trimmed_concat filter_map o_def)
  finally have result: "core_lines (join_lines (concat ?keep)) = concat (filter (\<lambda>b. \<not> block_owned changes b) bs)"
    unfolding map .
  have "text \<noteq> []" "?drop \<noteq> []" using ne drop lines by (metis py_lines_Nil, metis trimmed_simps(1))
  then have "remove_new_disposition_changes text changes = go_trim (join_lines (concat ?keep))"
    using owned lead wf by (auto simp: remove_new_disposition_changes_def py_lines_def Let_def)
  with result show ?thesis by simp
qed

lemma distinct_existing_filter: "distinct (existing cs) \<Longrightarrow> distinct (existing (filter P cs))"
proof (induction cs)
  case (Cons c cs)
  have "set (existing (filter P cs)) \<subseteq> set (existing cs)" by (auto simp: existing_def)
  with Cons show ?case by (auto split: if_splits)
qed simp

text \<open>
  C6: removal as the Core sees it. Three hypotheses: no line that the Core reads holds a further Python line
  boundary, no field of a change spells the block marker (the two spellings on which the worker and the Core
  disagree), and the operations to remove are among TEXT and ADAPT, as in both calls of the handler. Then, from a text
  the Core accepts, removal takes away exactly the changes that form a new Disposition by one of those operations,
  and keeps every other change with its text and Basis, in order.
\<close>

theorem remove_new_disposition_changes_filters:
  assumes "ParseTaggedText text = Some cs"
    and "\<forall>l \<in> set (core_lines text). no_breaks l" and "\<forall>c \<in> set cs. marker_free c"
    and "changes \<subseteq> {lit ''TEXT'', lit ''ADAPT''}"
  shows "ParseTaggedText (remove_new_disposition_changes text changes) =
    Some (filter (\<lambda>c. \<not> owned changes c) cs)"
proof -
  from assms(1) have size: "psize text \<le> MaxTaggedTextBytes" and parse: "parse_blocks {} (core_lines text) = Some cs"
    by (auto simp: ParseTaggedText_core_lines split: if_splits)
  from parse obtain bs where bs: "core_lines text = concat bs" "list_all2 block_of bs cs" "distinct (existing cs)"
    by (rule parse_blocks_inv)
  note lines = core_py_lines [OF assms(2), unfolded bs(1)]
  have keep: "list_all2 block_of (filter (\<lambda>b. \<not> block_owned changes b) bs) (filter (\<lambda>c. \<not> owned changes c) cs)"
    using bs(2) block_of_owned [OF _ assms(4)] by (intro list_all2_filter) blast+
  have "core_lines (remove_new_disposition_changes text changes) = concat (filter (\<lambda>b. \<not> block_owned changes b) bs)"
  proof (cases "has_owned_block changes (py_lines text)")
    case True
    then show ?thesis by (rule core_lines_remove [OF lines bs(2) assms(3,4)])
  next
    case False
    then have "filter (\<lambda>b. \<not> block_owned changes b) bs = bs"
      using list_all2_each [OF bs(2)] owned_block_found unfolding lines by (intro filter_True) blast
    moreover have "remove_new_disposition_changes text changes = text"
      using False by (simp add: remove_new_disposition_changes_def py_lines_def)
    ultimately show ?thesis using bs(1) by simp
  qed
  moreover have "distinct (existing (filter (\<lambda>c. \<not> owned changes c) cs))"
    using bs(3) by (rule distinct_existing_filter)
  ultimately have "parse_blocks {} (core_lines (remove_new_disposition_changes text changes)) = Some (filter (\<lambda>c. \<not> owned changes c) cs)"
    using keep parse_blocks_of [of _ _ "{}"] by simp
  with size remove_size [of "text" changes] show ?thesis
    by (simp add: ParseTaggedText_core_lines)
qed

definition example_adapt :: change where
  "example_adapt = \<lparr>Target = lit ''NEW_DISPOSITION'', Application = lit ''SELF'', Operation = lit ''ADAPT'',
     Text = lit ''Brief.'', BasisRefs = [lit ''e1'']\<rparr>"

definition example_recollection :: change where
  "example_recollection = text_change (lit ''NEW_RECOLLECTION'') (lit ''OTHER'') (lit ''Tea.'') [lit ''e1'']"

definition example_answer :: pystr where
  "example_answer = join_lines ([lit ''TARGET'', lit ''NEW_DISPOSITION'', lit ''APPLICATION'', lit ''SELF'',
      lit ''CHANGE'', lit ''ADAPT'', lit ''Brief.'', lit ''BASIS'', lit ''e1''] @
     text_block (lit ''NEW_RECOLLECTION'') (lit ''OTHER'') (lit ''Tea.'') [lit ''e1''])"

lemma example_lines [simp]:
  "go_trim (lit ''Brief.'') = lit ''Brief.''" "no_breaks (lit ''Brief.'')"
  "go_trim (lit ''Tea.'') = lit ''Tea.''" "no_breaks (lit ''Tea.'')"
  "go_trim (lit ''e1'') = lit ''e1''" "no_breaks (lit ''e1'')"
  by (rule lit_no_space, simp)+

lemma example_ref: "stableBasisRef (lit ''e1'')"
  by (auto simp: stableBasisRef_def stableRef_def core_reserved_def go_space_def py_control_def lit_def)

lemma example_answer_lines:
  "core_lines example_answer = [lit ''TARGET'', lit ''NEW_DISPOSITION'', lit ''APPLICATION'', lit ''SELF'',
      lit ''CHANGE'', lit ''ADAPT'', lit ''Brief.'', lit ''BASIS'', lit ''e1''] @
     text_block (lit ''NEW_RECOLLECTION'') (lit ''OTHER'') (lit ''Tea.'') [lit ''e1'']"
  unfolding example_answer_def by (rule core_lines_of_lines) (simp add: text_block_def)

lemma example_answer_parses: "ParseTaggedText example_answer = Some [example_adapt, example_recollection]"
proof -
  have sizes: "psize (lit ''Brief.'') \<le> MaxChangeTextBytes" "psize (lit ''Tea.'') \<le> MaxChangeTextBytes"
    by (simp_all add: lit_def MaxChangeTextBytes_def)
  let ?h = "\<lambda>t a. [lit ''TARGET'', t, lit ''APPLICATION'', a, lit ''CHANGE'']"
  have "block_of (?h (lit ''NEW_DISPOSITION'') (lit ''SELF'') @ [lit ''ADAPT'', lit ''Brief.''] @ lit ''BASIS'' # [lit ''e1'']) example_adapt"
    unfolding example_adapt_def
    by (rule block_ofI [OF operation_lines_text])
      (simp_all add: sizes example_ref new_targets_def validApplication_def)
  moreover have "block_of (?h (lit ''NEW_RECOLLECTION'') (lit ''OTHER'') @ [lit ''TEXT'', lit ''Tea.''] @ lit ''BASIS'' # [lit ''e1'']) example_recollection"
    unfolding example_recollection_def
    by (rule block_ofI [OF operation_lines_text])
      (simp_all add: sizes example_ref new_targets_def validApplication_def)
  ultimately have "parse_blocks {} (concat
      [?h (lit ''NEW_DISPOSITION'') (lit ''SELF'') @ [lit ''ADAPT'', lit ''Brief.''] @ lit ''BASIS'' # [lit ''e1''],
       ?h (lit ''NEW_RECOLLECTION'') (lit ''OTHER'') @ [lit ''TEXT'', lit ''Tea.''] @ lit ''BASIS'' # [lit ''e1'']]) =
      Some [example_adapt, example_recollection]"
    by (intro parse_blocks_of) (simp_all add: example_adapt_def example_recollection_def new_targets_def)
  then have "parse_blocks {} (core_lines example_answer) = Some [example_adapt, example_recollection]"
    unfolding example_answer_lines by (simp add: text_block_def)
  moreover have "psize example_answer \<le> MaxTaggedTextBytes"
    by (simp add: example_answer_def text_block_def MaxTaggedTextBytes_def lit_def)
  ultimately show ?thesis by (simp add: ParseTaggedText_core_lines)
qed

theorem remove_new_disposition_changes_filters_witness:
  "ParseTaggedText (remove_new_disposition_changes example_answer {lit ''ADAPT''}) = Some [example_recollection]"
proof -
  have "\<forall>l \<in> set (core_lines example_answer). no_breaks l"
    unfolding example_answer_lines by (simp add: text_block_def)
  moreover have "\<forall>c \<in> set [example_adapt, example_recollection]. marker_free c"
    by (simp add: marker_free_def example_adapt_def example_recollection_def)
  ultimately show ?thesis
    using remove_new_disposition_changes_filters [OF example_answer_parses, of "{lit ''ADAPT''}"]
    by (simp add: owned_def example_adapt_def example_recollection_def)
qed

end
