(* ===== verification/Tagged_Repairs.thy ===== *)
theory Tagged_Repairs
  imports Tagged_Passes
begin

text \<open>
  The three repairs of a model's answer: the copied inline application, the missing first marker and
  the redundant Basis separators. They are conservative, since a text the Core accepts is returned
  as it is, and the removal of separators restores a block whose Basis list was interrupted.
\<close>

section \<open>Redundant separators: conservative\<close>

lemma blank3_go_space: "blank3 c \<Longrightarrow> go_space c"
  by (auto simp: blank3_def go_space_def)

lemma go_trim_strip3: "go_trim (strip3 l) = go_trim l"
proof -
  obtain a b where l: "l = a @ strip3 l @ b" and ab: "\<forall>c \<in> set a. blank3 c" "\<forall>c \<in> set b. blank3 c"
    unfolding strip3_def by (rule strip_on_decomp)
  have "strip_on go_space (a @ strip3 l @ b) = strip_on go_space (strip3 l)"
    using ab by (intro strip_on_sandwich) (auto dest: blank3_go_space)
  then show ?thesis unfolding l [symmetric] go_trim_def by (rule sym)
qed

lemma strip3_stable: "stableBasisRef (strip3 l) \<Longrightarrow> strip3 l = go_trim l"
  using stableRef_facts(2) [of "strip3 l"] by (simp add: stableBasisRef_def go_trim_strip3)

lemma strip3_reads: "strip3 l = m \<Longrightarrow> go_trim l = go_trim m"
  using go_trim_strip3 [of l] by simp

lemma strip3_no_blank: "(\<forall>c \<in> set s. \<not> blank3 c) \<Longrightarrow> strip3 s = s"
  unfolding strip3_def by (rule strip_on_none)

text \<open>
  One line of the loop, by what the Core reads on it. The refs offered as Basis are refs the Core
  accepts, so an offered line is neither blank nor a marker.
\<close>

lemma offered_reads:
  assumes "\<forall>r \<in> allowed. stableBasisRef r" and "strip3 l \<in> allowed"
  shows "strip3 l = go_trim l" and "go_trim l \<noteq> []" and "go_trim l \<notin> core_reserved"
proof -
  have st: "stableBasisRef (strip3 l)" using assms by blast
  show eq: "strip3 l = go_trim l" by (rule strip3_stable [OF st])
  show "go_trim l \<noteq> []" "go_trim l \<notin> core_reserved"
    using st unfolding eq by (auto simp: stableBasisRef_def stableRef_def)
qed

lemma reserved_markers: "{lit ''TARGET'', lit ''APPLICATION'', lit ''CHANGE'', lit ''BASIS''} \<subseteq> core_reserved"
  by (simp add: core_reserved_def)

lemma dedup_blank:
  assumes "\<forall>r \<in> allowed. stableBasisRef r" and "go_trim l = []"
  shows "\<exists>seen' \<in> {seen, None}. dedup_lines allowed seen (l # ls) = l # dedup_lines allowed seen' ls"
proof -
  have "strip3 l \<noteq> lit ''TARGET''" "strip3 l \<noteq> lit ''BASIS''"
    using strip3_reads [of l] assms(2) by force+
  moreover have "strip3 l \<notin> allowed" using offered_reads(2) [OF assms(1)] assms(2) by blast
  ultimately show ?thesis by (cases seen) (auto simp: Let_def)
qed

text \<open>A marker other than \<open>BASIS\<close> ends the list.\<close>

lemma dedup_marker:
  assumes "\<forall>r \<in> allowed. stableBasisRef r" and "go_trim l \<in> core_reserved" "go_trim l \<noteq> lit ''BASIS''"
  shows "dedup_lines allowed seen (l # ls) = l # dedup_lines allowed None ls"
proof -
  have "strip3 l \<noteq> []" using strip3_reads [of l "[]"] assms(2) by (auto simp: core_reserved_def)
  moreover have "strip3 l \<noteq> lit ''BASIS''" using strip3_reads [of l "lit ''BASIS''"] assms(3) by auto
  moreover have "strip3 l \<notin> allowed" using offered_reads(3) [OF assms(1)] assms(2) by blast
  ultimately show ?thesis by (cases seen) (auto simp: Let_def)
qed

lemma dedup_outside:
  "\<exists>seen' \<in> (if go_trim l = lit ''BASIS'' then {None, Some {}} else {None}).
     dedup_lines allowed None (l # ls) = l # dedup_lines allowed seen' ls"
  using strip3_reads [of l "lit ''BASIS''"] by (auto simp: Let_def)

lemma dedup_basis:
  assumes "\<forall>r \<in> allowed. stableBasisRef r" and "go_trim l = lit ''BASIS''" and "seen \<in> {None, Some {}}"
  shows "\<exists>seen' \<in> {None, Some {}}. dedup_lines allowed seen (l # ls) = l # dedup_lines allowed seen' ls"
proof -
  have "strip3 l \<noteq> []" using strip3_reads [of l "[]"] assms(2) by auto
  moreover have "strip3 l \<notin> allowed"
    using offered_reads(3) [OF assms(1), of l] reserved_markers assms(2) by blast
  ultimately show ?thesis using assms(3) by (auto simp: Let_def)
qed

text \<open>The refs collected since the last separator lie in \<open>X\<close>.\<close>

fun within :: "pystr set \<Rightarrow> pystr set option \<Rightarrow> bool" where
  "within X None \<longleftrightarrow> True"
| "within X (Some S) \<longleftrightarrow> S \<subseteq> X"

lemma dedup_ref:
  assumes "\<forall>r \<in> allowed. stableBasisRef r" and "stableBasisRef (go_trim l)"
    and "within X seen" and "go_trim l \<notin> X"
  shows "\<exists>seen'. within (insert (go_trim l) X) seen' \<and>
    dedup_lines allowed seen (l # ls) = l # dedup_lines allowed seen' ls"
proof -
  have res: "go_trim l \<notin> core_reserved" using assms(2) by (simp add: stableBasisRef_def)
  then have ne: "strip3 l \<noteq> lit ''TARGET''" "strip3 l \<noteq> lit ''BASIS''"
    using strip3_reads [of l "lit ''TARGET''"] strip3_reads [of l "lit ''BASIS''"] reserved_markers by auto
  show ?thesis
  proof (cases seen)
    case None
    with ne show ?thesis by (auto intro: exI [of _ None])
  next
    case (Some S)
    show ?thesis
    proof (cases "strip3 l \<in> allowed")
      case True
      with offered_reads(1) [OF assms(1) True] Some ne assms(3,4) show ?thesis
        by (intro exI [of _ "Some (insert (go_trim l) S)"]) (auto simp: Let_def)
    next
      case False
      with Some ne assms(3) show ?thesis
        by (intro exI [of _ "if strip3 l = [] then seen else None"]) (auto simp: Let_def)
    qed
  qed
qed

declare dedup_lines.simps(2) [simp del]

text \<open>A state of the loop from which lines that the Core reads as \<open>ms\<close> are all kept.\<close>

definition keeps :: "pystr set \<Rightarrow> (pystr set option \<Rightarrow> bool) \<Rightarrow> pystr list \<Rightarrow> bool" where
  "keeps allowed P ms \<longleftrightarrow> (\<forall>seen ls. P seen \<longrightarrow> trimmed ls = ms \<longrightarrow> dedup_lines allowed seen ls = ls)"

lemma keeps_step:
  assumes stable: "\<forall>r \<in> allowed. stableBasisRef r" and none: "P None"
    and line: "\<And>seen l ls. P seen \<Longrightarrow> go_trim l = m \<Longrightarrow>
      \<exists>seen'. P' seen' \<and> dedup_lines allowed seen (l # ls) = l # dedup_lines allowed seen' ls"
    and rest: "keeps allowed P' ms"
  shows "keeps allowed P (m # ms)"
  unfolding keeps_def
proof (intro allI impI)
  fix seen ls assume "P seen" "trimmed ls = m # ms"
  then show "dedup_lines allowed seen ls = ls"
  proof (induction ls arbitrary: seen)
    case (Cons l ls)
    show ?case
    proof (cases "go_trim l = []")
      case True
      from dedup_blank [OF stable True, of seen ls] obtain seen' where "seen' \<in> {seen, None}"
        "dedup_lines allowed seen (l # ls) = l # dedup_lines allowed seen' ls" by blast
      moreover have "dedup_lines allowed seen' ls = ls"
        using Cons.IH [of seen'] Cons.prems calculation(1) none True by auto
      ultimately show ?thesis by simp
    next
      case False
      with Cons.prems(2) have "go_trim l = m" "trimmed ls = ms" by auto
      then obtain seen' where "P' seen'" "dedup_lines allowed seen (l # ls) = l # dedup_lines allowed seen' ls"
        using line [OF Cons.prems(1)] by blast
      with \<open>trimmed ls = ms\<close> rest show ?thesis unfolding keeps_def by metis
    qed
  qed simp
qed

lemma keeps_Nil: "\<forall>r \<in> allowed. stableBasisRef r \<Longrightarrow> keeps allowed P []"
  unfolding keeps_def
proof (intro allI impI)
  fix seen ls assume stable: "\<forall>r \<in> allowed. stableBasisRef r" and "trimmed ls = []"
  then show "dedup_lines allowed seen ls = ls"
  proof (induction ls arbitrary: seen)
    case (Cons l ls)
    then have "go_trim l = []" by (auto split: if_splits)
    from dedup_blank [OF stable this, of seen ls] Cons show ?case by (auto split: if_splits)
  qed simp
qed

lemma keeps_refs:
  assumes stable: "\<forall>r \<in> allowed. stableBasisRef r" and "keeps allowed (\<lambda>_. True) ms"
    and "\<forall>r \<in> set refs. stableBasisRef r" and "distinct refs" and "set refs \<inter> X = {}"
  shows "keeps allowed (within X) (refs @ ms)"
  using assms(3-5)
proof (induction refs arbitrary: X)
  case Nil
  then show ?case using assms(2) by (simp add: keeps_def)
next
  case (Cons r refs)
  have rest: "keeps allowed (within (insert r X)) (refs @ ms)"
    using Cons.prems by (intro Cons.IH) auto
  show ?case
    unfolding append_Cons
  proof (rule keeps_step [OF stable _ _ rest])
    fix seen l ls assume "within X seen" "go_trim l = r"
    then show "\<exists>seen'. within (insert r X) seen' \<and> dedup_lines allowed seen (l # ls) = l # dedup_lines allowed seen' ls"
      using dedup_ref [OF stable, of l X seen ls] Cons.prems by simp
  qed simp
qed

lemma keeps_mono: "keeps allowed P ms \<Longrightarrow> (\<And>seen. Q seen \<Longrightarrow> P seen) \<Longrightarrow> keeps allowed Q ms"
  by (auto simp: keeps_def)

text \<open>Outside a list every line is kept; only a \<open>BASIS\<close> line opens one.\<close>

lemma keeps_outside:
  assumes "\<forall>r \<in> allowed. stableBasisRef r" and "keeps allowed (\<lambda>seen. seen \<in> {None, Some {}}) ms"
  shows "keeps allowed (\<lambda>seen. seen = None) (m # ms)"
  using dedup_outside by (intro keeps_step [OF assms(1) _ _ assms(2)]) (fastforce split: if_splits)+

lemma keeps_outside_line:
  assumes "\<forall>r \<in> allowed. stableBasisRef r" and "keeps allowed (\<lambda>seen. seen = None) ms" and "m \<noteq> lit ''BASIS''"
  shows "keeps allowed (\<lambda>seen. seen = None) (m # ms)"
proof (rule keeps_step [OF assms(1) _ _ assms(2)])
  fix seen :: "pystr set option" and l ls assume "seen = None" "go_trim l = m"
  then show "\<exists>seen'. seen' = None \<and> dedup_lines allowed seen (l # ls) = l # dedup_lines allowed seen' ls"
    using dedup_outside [of l allowed ls] assms(3) by auto
qed simp

lemma keeps_marker:
  assumes "\<forall>r \<in> allowed. stableBasisRef r" and "keeps allowed (\<lambda>seen. seen = None) ms"
    and "m \<in> core_reserved" "m \<noteq> lit ''BASIS''"
  shows "keeps allowed (\<lambda>_. True) (m # ms)"
proof (rule keeps_step [OF assms(1) _ _ assms(2)])
  fix seen l ls assume "go_trim l = m"
  then show "\<exists>seen'. seen' = None \<and> dedup_lines allowed seen (l # ls) = l # dedup_lines allowed seen' ls"
    using dedup_marker [OF assms(1), of l seen ls] assms(3,4) by simp
qed simp

lemma keeps_basis:
  assumes "\<forall>r \<in> allowed. stableBasisRef r" and "keeps allowed (within {}) ms"
  shows "keeps allowed (\<lambda>seen. seen \<in> {None, Some {}}) (lit ''BASIS'' # ms)"
proof (rule keeps_step [OF assms(1) _ _ assms(2)])
  fix seen :: "pystr set option" and l ls assume "seen \<in> {None, Some {}}" "go_trim l = lit ''BASIS''"
  then show "\<exists>seen'. within {} seen' \<and> dedup_lines allowed seen (l # ls) = l # dedup_lines allowed seen' ls"
    using dedup_basis [OF assms(1), of l seen ls] within.simps by (metis (no_types) empty_iff empty_subsetI insert_iff)
qed simp

lemma operation_line_not_basis:
  assumes "parseOperation l = Some (operation, body)"
  shows "l \<noteq> lit ''BASIS''" and "l \<noteq> lit ''CHANGE''"
proof -
  have "\<not> startswith (lit ''BASIS'') (lit ''TEXT '')" "\<not> startswith (lit ''BASIS'') (lit ''ADAPT '')"
    "\<not> startswith (lit ''CHANGE'') (lit ''TEXT '')" "\<not> startswith (lit ''CHANGE'') (lit ''ADAPT '')"
    by (simp_all add: startswith_def lit_def)
  then have "parseOperation (lit ''BASIS'') = None" "parseOperation (lit ''CHANGE'') = None"
    by (simp_all add: parseOperation_def)
  with assms show "l \<noteq> lit ''BASIS''" "l \<noteq> lit ''CHANGE''" by force+
qed

lemma keeps_block:
  assumes stable: "\<forall>r \<in> allowed. stableBasisRef r" and rest: "keeps allowed (\<lambda>_. True) ms" and b: "block_of b c"
  shows "keeps allowed (\<lambda>_. True) (b @ ms)"
proof -
  from b obtain opl where shape: "b = [lit ''TARGET'', Target c, lit ''APPLICATION'', Application c, lit ''CHANGE''] @
      opl @ lit ''BASIS'' # BasisRefs c" and opl: "operation_lines opl (Operation c) (Text c)"
    by (auto simp: block_of_def)
  let ?none = "\<lambda>seen :: pystr set option. seen = None" and ?open = "\<lambda>seen :: pystr set option. seen \<in> {None, Some {}}"
  have refs: "keeps allowed (within {}) (BasisRefs c @ ms)"
    using b by (intro keeps_refs [OF stable rest]) (auto simp: block_of_def)
  note basis = keeps_basis [OF stable refs]
  have app: "Application c \<noteq> lit ''BASIS''" using b by (auto simp: block_of_def validApplication_def)
  from opl consider "opl = [Operation c, Text c]" "Operation c \<noteq> lit ''BASIS''"
    | l where "opl = [l]" "l \<noteq> lit ''BASIS''"
    by (auto simp: operation_lines_def dest: operation_line_not_basis(1))
  then have ops: "keeps allowed ?none (opl @ lit ''BASIS'' # BasisRefs c @ ms)"
  proof cases
    case 1
    then show ?thesis using keeps_outside_line [OF stable keeps_outside [OF stable basis] 1(2)] by simp
  next
    case 2
    then show ?thesis using keeps_outside_line [OF stable keeps_mono [OF basis] 2(2)] by simp
  qed
  have change: "keeps allowed ?none (lit ''CHANGE'' # opl @ lit ''BASIS'' # BasisRefs c @ ms)"
    by (rule keeps_outside_line [OF stable ops]) simp
  have "keeps allowed (\<lambda>_. True) (lit ''APPLICATION'' # Application c # lit ''CHANGE'' # opl @ lit ''BASIS'' # BasisRefs c @ ms)"
    by (rule keeps_marker [OF stable keeps_outside_line [OF stable change app]]) (simp_all add: core_reserved_def)
  then have "keeps allowed ?none (Target c # lit ''APPLICATION'' # Application c # lit ''CHANGE'' # opl @ lit ''BASIS'' # BasisRefs c @ ms)"
    by (intro keeps_outside [OF stable]) (rule keeps_mono, simp_all)
  then have "keeps allowed (\<lambda>_. True) (lit ''TARGET'' # Target c # lit ''APPLICATION'' # Application c # lit ''CHANGE'' # opl @ lit ''BASIS'' # BasisRefs c @ ms)"
    by (rule keeps_marker [OF stable]) (simp_all add: core_reserved_def)
  then show ?thesis by (simp add: shape)
qed

lemma keeps_blocks:
  assumes "\<forall>r \<in> allowed. stableBasisRef r" and "list_all2 block_of bs cs"
  shows "keeps allowed (\<lambda>_. True) (concat bs)"
  using assms(2)
proof (induction rule: list_all2_induct)
  case (Cons b bs c cs)
  then show ?case using keeps_block [OF assms(1)] by simp
qed (simp add: keeps_Nil [OF assms(1)])

lemma deduplicate_accepted:
  assumes "parse_blocks {} (core_lines text) = Some cs" and "\<forall>r \<in> set refs. stableBasisRef r"
  shows "deduplicate_basis text refs = text"
proof -
  from assms(1) obtain bs where "core_lines text = concat bs" "list_all2 block_of bs cs" by (rule parse_blocks_inv)
  then have "dedup_lines (set refs) None (split_nl text) = split_nl text"
    using keeps_blocks [OF assms(2)] by (auto simp: keeps_def core_lines_def)
  then show ?thesis by (simp add: deduplicate_basis_def)
qed

section \<open>Copied headers: conservative\<close>

lemma meaningful_values: "map (\<lambda>i. go_trim (lines ! i)) (meaningful_indices lines) = trimmed lines"
proof -
  have "map (\<lambda>i. go_trim (lines ! i)) (filter (\<lambda>i. go_trim (lines ! i) \<noteq> []) is) =
      filter (\<lambda>l. l \<noteq> []) (map (\<lambda>i. go_trim (lines ! i)) is)" for "is"
    by (induction "is") auto
  moreover have "map (\<lambda>i. go_trim (lines ! i)) [0..<length lines] = map go_trim lines"
    by (rule nth_equalityI) auto
  ultimately show ?thesis by (simp add: meaningful_indices_def trimmed_def)
qed

lemma meaningful_value:
  assumes "i < length (meaningful_indices lines)"
  shows "go_trim (lines ! (meaningful_indices lines ! i)) = trimmed lines ! i"
  using assms meaningful_values [of lines] by (metis nth_map)

lemma length_meaningful: "length (meaningful_indices lines) = length (trimmed lines)"
  by (metis length_map meaningful_values)

definition inline_application :: "pystr \<Rightarrow> bool" where
  "inline_application v \<longleftrightarrow> (let parts = split_on 32 v in length parts = 2 \<and> parts ! 0 = lit ''APPLICATION'' \<and>
     parts ! 1 \<in> {lit ''SELF'', lit ''OTHER'', lit ''RELATION'', lit ''SITUATION''})"

lemma copied_application_reads:
  assumes "copied_application allowed lines (meaningful_indices lines) i" and "i < length (trimmed lines)"
  shows "inline_application (trimmed lines ! i)" and "Suc i < length (trimmed lines)"
    and "trimmed lines ! Suc i = lit ''CHANGE''" and "0 < i" and "trimmed lines ! (i - 1) \<in> allowed"
  using assms meaningful_value [of i lines] meaningful_value [of "Suc i" lines] meaningful_value [of "i - 1" lines]
  by (auto simp: copied_application_def inline_application_def length_meaningful Let_def)

lemma split_on_line: "c \<notin> set s \<Longrightarrow> split_on c s = [s]"
  by (induction s) auto

lemma not_inline: "32 \<notin> set v \<Longrightarrow> \<not> inline_application v"
  by (simp add: inline_application_def split_on_line)

lemma no_blank_lits:
  "32 \<notin> set (lit ''TARGET'')" "32 \<notin> set (lit ''APPLICATION'')" "32 \<notin> set (lit ''CHANGE'')"
  "32 \<notin> set (lit ''BASIS'')" "32 \<notin> set (lit ''TEXT'')" "32 \<notin> set (lit ''ADAPT'')"
  "32 \<notin> set (lit ''SELF'')" "32 \<notin> set (lit ''OTHER'')" "32 \<notin> set (lit ''RELATION'')" "32 \<notin> set (lit ''SITUATION'')"
  by (simp_all add: lit_def)

text \<open>In an accepted text the line before \<open>CHANGE\<close> is never an inline application.\<close>

abbreviation split_header :: "pystr \<Rightarrow> pystr \<Rightarrow> bool" where
  "split_header x y \<equiv> y = lit ''CHANGE'' \<longrightarrow> \<not> inline_application x"

lemma split_header_refs:
  "\<forall>r \<in> set refs. stableBasisRef r \<Longrightarrow> successively split_header (x # refs)"
proof (induction refs arbitrary: x)
  case (Cons r refs)
  then have "r \<noteq> lit ''CHANGE''" by (auto simp: stableBasisRef_def core_reserved_def)
  with Cons show ?case by simp
qed simp

lemma split_header_block:
  assumes "block_of b c"
  shows "successively split_header b"
proof -
  from assms obtain opl where shape: "b = [lit ''TARGET'', Target c, lit ''APPLICATION'', Application c, lit ''CHANGE''] @
      opl @ lit ''BASIS'' # BasisRefs c" and opl: "operation_lines opl (Operation c) (Text c)"
    by (auto simp: block_of_def)
  have app: "\<not> inline_application (Application c)" "Application c \<noteq> lit ''CHANGE''"
  proof -
    have "validApplication (Application c)" using assms by (simp add: block_of_def)
    then have "32 \<notin> set (Application c) \<and> Application c \<noteq> lit ''CHANGE''"
      unfolding validApplication_def using no_blank_lits(7-10) by auto
    then show "\<not> inline_application (Application c)" "Application c \<noteq> lit ''CHANGE''" using not_inline by auto
  qed
  have refs: "successively split_header (lit ''BASIS'' # BasisRefs c)"
    using assms by (intro split_header_refs) (simp add: block_of_def)
  have marks: "\<not> inline_application (lit ''TARGET'')" "\<not> inline_application (lit ''CHANGE'')"
    "\<not> inline_application (lit ''TEXT'')" "\<not> inline_application (lit ''ADAPT'')"
    using no_blank_lits by (auto intro!: not_inline)
  from opl have "successively split_header (lit ''CHANGE'' # opl @ lit ''BASIS'' # BasisRefs c)"
    using refs marks by (auto simp: operation_lines_def)
  with app marks show ?thesis by (simp add: shape)
qed

lemma split_header_blocks:
  assumes "list_all2 block_of bs cs"
  shows "successively split_header (concat bs)"
  using assms
proof (induction rule: list_all2_induct)
  case (Cons b bs c cs)
  have "concat bs = [] \<or> hd (concat bs) \<noteq> lit ''CHANGE''" using blocks_hd [OF Cons.hyps(2)] by auto
  with split_header_block [OF Cons.hyps(1)] Cons.IH show ?case
    by (auto simp: successively_append_iff)
qed simp

lemma split_accepted:
  assumes "parse_blocks {} (core_lines text) = Some cs"
  shows "split_copied_inline_application text refs = text"
proof -
  from assms obtain bs where bs: "core_lines text = concat bs" "list_all2 block_of bs cs" by (rule parse_blocks_inv)
  let ?lines = "split_nl text"
  have succ: "successively split_header (trimmed ?lines)"
    using split_header_blocks [OF bs(2)] bs(1) by (simp add: core_lines_def)
  have "\<not> copied_application (set refs) ?lines (meaningful_indices ?lines) i" if "i < length (trimmed ?lines)" for i
    using copied_application_reads [OF _ that, of "set refs"] succ by (auto simp: successively_conv_nth)
  then have "find (copied_application (set refs) ?lines (meaningful_indices ?lines)) [0..<length (meaningful_indices ?lines)] = None"
    by (simp add: find_None_iff length_meaningful)
  then show ?thesis by (simp add: split_copied_inline_application_def)
qed

lemma restore_accepted:
  assumes "parse_blocks {} (core_lines text) = Some cs"
  shows "restore_initial_new_target text refs = text"
proof -
  from assms obtain bs where bs: "core_lines text = concat bs" "list_all2 block_of bs cs" by (rule parse_blocks_inv)
  let ?lines = "split_nl text"
  have "trimmed ?lines ! 0 = lit ''TARGET''" if "2 \<le> length (meaningful_indices ?lines)"
  proof -
    have "concat bs \<noteq> []" using that bs(1) unfolding core_lines_def length_meaningful by (metis list.size(3) not_numeral_le_zero)
    then have "hd (core_lines text) = lit ''TARGET''" "core_lines text \<noteq> []" 
      unfolding bs(1) using blocks_hd [OF bs(2)] by blast+
    then show ?thesis by (simp add: core_lines_def hd_conv_nth)
  qed
  then have "go_trim (?lines ! (meaningful_indices ?lines ! 0)) = lit ''TARGET''" if "2 \<le> length (meaningful_indices ?lines)"
    using that meaningful_value [of 0 ?lines] by force
  then show ?thesis by (auto simp: restore_initial_new_target_def Let_def not_less)
qed

text \<open>
  C7: the repairs are conservative. A text the Core accepts goes through the three repairs of the
  worker unchanged; the hypothesis on the offered Basis refs is that the Core itself accepts them as
  Basis refs.
\<close>

theorem repairs_conservative:
  assumes "ParseTaggedText text = Some cs" and "\<forall>r \<in> set basis_refs. stableBasisRef r"
  shows "deduplicate_basis
    (restore_initial_new_target (split_copied_inline_application text target_refs) target_refs) basis_refs = text"
proof -
  from assms(1) have parse: "parse_blocks {} (core_lines text) = Some cs"
    by (auto simp: ParseTaggedText_core_lines split: if_splits)
  show ?thesis
    by (simp only: split_accepted [OF parse] restore_accepted [OF parse] deduplicate_accepted [OF parse assms(2)])
qed

theorem repairs_conservative_witness:
  "deduplicate_basis (restore_initial_new_target
     (split_copied_inline_application example_answer [lit ''NEW_DISPOSITION'']) [lit ''NEW_DISPOSITION'']) [lit ''e1''] = example_answer"
  using example_ref by (intro repairs_conservative [OF example_answer_parses]) simp

section \<open>Redundant separators: repaired\<close>

lemma stable_strip3:
  assumes "stableBasisRef r"
  shows "strip3 r = r" and "r \<noteq> []" "r \<noteq> lit ''TARGET''" "r \<noteq> lit ''BASIS''"
  using assms blank3_go_space
  by (auto simp: stableBasisRef_def stableRef_def core_reserved_def intro!: strip3_no_blank)

lemma strip3_markers [simp]:
  "strip3 (lit ''TARGET'') = lit ''TARGET''" "strip3 (lit ''APPLICATION'') = lit ''APPLICATION''"
  "strip3 (lit ''CHANGE'') = lit ''CHANGE''" "strip3 (lit ''BASIS'') = lit ''BASIS''"
  "strip3 (lit ''TEXT'') = lit ''TEXT''" "strip3 (lit ''ADAPT'') = lit ''ADAPT''"
  by (simp_all add: strip3_no_blank blank3_def lit_def)

lemma tail_refs:
  assumes "\<forall>r \<in> set g. r \<in> allowed \<and> stableBasisRef r"
  shows "complete_basis_tail allowed previous (g @ rest) = complete_basis_tail allowed (previous \<or> g \<noteq> []) rest"
  using assms by (induction g arbitrary: previous) (auto simp: stable_strip3)

lemma tail_groups:
  assumes "\<forall>g \<in> set gs. g \<noteq> [] \<and> (\<forall>r \<in> set g. r \<in> allowed \<and> stableBasisRef r)"
    and "lit ''BASIS'' \<notin> allowed"
  shows "complete_basis_tail allowed True (concat (map (Cons (lit ''BASIS'')) gs))"
  using assms by (induction gs) (auto simp: tail_refs)

lemma dedup_refs:
  assumes "\<forall>r \<in> set g. r \<in> allowed \<and> stableBasisRef r"
  shows "dedup_lines allowed (Some S) (g @ rest) = uniq_from S g @ dedup_lines allowed (Some (S \<union> set g)) rest"
  using assms
proof (induction g arbitrary: S)
  case (Cons r g)
  then have "r \<in> allowed" "strip3 r = r" "r \<noteq> lit ''TARGET''" "r \<noteq> lit ''BASIS''"
    using stable_strip3 [of r] by auto
  with Cons show ?case by (auto simp: dedup_lines.simps(2) insert_absorb)
qed simp

lemma uniq_from_append: "uniq_from S (xs @ ys) = uniq_from S xs @ uniq_from (S \<union> set xs) ys"
  by (induction xs arbitrary: S) (auto simp: insert_absorb)

lemma dedup_groups:
  assumes "\<forall>g \<in> set gs. g \<noteq> [] \<and> (\<forall>r \<in> set g. r \<in> allowed \<and> stableBasisRef r)"
    and "lit ''BASIS'' \<notin> allowed" and "S \<noteq> {}"
  shows "dedup_lines allowed (Some S) (concat (map (Cons (lit ''BASIS'')) gs)) = uniq_from S (concat gs)"
  using assms
proof (induction gs arbitrary: S)
  case (Cons g gs)
  have g: "g \<noteq> []" "\<forall>r \<in> set g. r \<in> allowed \<and> stableBasisRef r" using Cons.prems by auto
  have "complete_basis_tail allowed False (g @ concat (map (Cons (lit ''BASIS'')) gs))"
    using g Cons.prems tail_groups [of gs allowed] by (simp add: tail_refs)
  with Cons g show ?case by (simp add: dedup_lines.simps(2) dedup_refs uniq_from_append)
qed simp

lemma dedup_none: "go_trim l \<noteq> lit ''BASIS'' \<Longrightarrow> dedup_lines allowed None (l # ls) = l # dedup_lines allowed None ls"
  using dedup_outside [of l allowed ls] by simp

lemma subseq_dedup: "subseq (dedup_lines allowed seen ls) ls"
  by (induction ls arbitrary: seen) (auto simp: dedup_lines.simps(2) Let_def split: option.splits)

lemma deduplicate_size: "psize (deduplicate_basis text refs) \<le> psize text"
  using psize_join_subseq [OF subseq_dedup, of "set refs" None "split_nl text"] by (simp add: deduplicate_basis_def)

lemma stableRef_no_breaks: "stableRef r \<Longrightarrow> no_breaks r"
proof -
  have "py_linebreak c \<Longrightarrow> go_space c \<or> py_control c" for c
    unfolding py_linebreak_def go_space_def py_control_def by linarith
  then show "stableRef r \<Longrightarrow> no_breaks r" unfolding stableRef_def no_breaks_def by blast
qed

lemma dedup_block:
  assumes "target \<in> new_targets" "validApplication application" "go_trim body = body" "body \<noteq> lit ''BASIS''"
    and groups: "\<forall>h \<in> set (g # gs). h \<noteq> [] \<and> (\<forall>r \<in> set h. r \<in> allowed \<and> stableBasisRef r)"
    and basis: "lit ''BASIS'' \<notin> allowed"
  shows "dedup_lines allowed None ([lit ''TARGET'', target, lit ''APPLICATION'', application, lit ''CHANGE'', lit ''TEXT'', body] @
      concat (map (Cons (lit ''BASIS'')) (g # gs))) = text_block target application body (uniq (concat (g # gs)))"
proof -
  have "go_trim target \<noteq> lit ''BASIS''" "go_trim application \<noteq> lit ''BASIS''"
    using assms(1,2) by (auto simp: new_targets_def validApplication_def)
  moreover have "dedup_lines allowed None (lit ''BASIS'' # ls) = lit ''BASIS'' # dedup_lines allowed (Some {}) ls" for ls
    by (simp add: dedup_lines.simps(2))
  ultimately show ?thesis
    using groups basis assms(3,4)
    by (simp add: dedup_none dedup_refs dedup_groups text_block_def uniq_def uniq_from_append)
qed



end
