(* ===== verification/Tagged_Append.thy ===== *)
theory Tagged_Append
  imports Tagged_Repairs
begin

text \<open>
  Appending: a block that the worker adds at the end of an accepted text is read by the Core as one
  more change, and the earlier changes are read as before. The plain list of recollections is bound
  line by line into such blocks.
\<close>

section \<open>Trailing white space\<close>

lemma isspace_cases: "py_isspace c \<Longrightarrow> go_space c \<or> py_control c"
  by (auto simp: py_isspace_def go_space_def py_control_def)

lemma core_lines_last:
  assumes "\<not> go_space c"
  shows "core_lines (s @ [c]) \<noteq> [] \<and> last (last (core_lines (s @ [c]))) = c"
proof -
  obtain xs x where "split_nl s = xs @ [x]" by (metis rev_exhaust split_nl_not_Nil)
  moreover have "c \<noteq> 10" using assms by (auto simp: go_space_def)
  ultimately have split: "split_nl (s @ [c]) = xs @ [x @ [c]]" by (simp add: split_nl_snoc)
  have "go_trim (x @ [c]) \<noteq> [] \<and> last (go_trim (x @ [c])) = c"
  proof -
    have "dropWhile go_space (x @ [c]) = dropWhile go_space x @ [c]"
      using assms by (induction x) auto
    then show ?thesis using assms by (simp add: go_trim_def strip_on_def)
  qed
  then show ?thesis by (simp add: core_lines_def split)
qed

text \<open>\<open>str.rstrip\<close> also removes the separators U+001C to U+001F; an accepted text ends in none.\<close>

lemma core_lines_rstrip:
  assumes "core_lines p = [] \<or> stableRef (last (core_lines p))"
  shows "core_lines (rstrip p) = core_lines p"
  using assms
proof (induction p rule: rev_induct)
  case (snoc c p)
  show ?case
  proof (cases "py_isspace c")
    case True
    have "go_space c"
    proof (rule ccontr)
      assume "\<not> go_space c"
      with core_lines_last [OF this, of p] snoc.prems have "stableRef (last (core_lines (p @ [c])))"
        "last (last (core_lines (p @ [c]))) = c" by auto
      then have "\<not> py_control c" unfolding stableRef_def by (metis last_in_set)
      with True isspace_cases \<open>\<not> go_space c\<close> show False by blast
    qed
    with True snoc show ?thesis by (simp add: rstrip_def core_lines_space_right)
  qed (simp add: rstrip_def)
qed simp

lemma accepted_last:
  assumes "parse_blocks {} ls = Some cs"
  shows "ls = [] \<or> stableRef (last ls)"
proof -
  from assms obtain bs where "ls = concat bs" and bs: "list_all2 block_of bs cs" by (rule parse_blocks_inv)
  from bs have "concat bs = [] \<or> stableRef (last (concat bs))"
  proof (induction rule: list_all2_induct)
    case (Cons b bs c cs)
    have "stableRef (last b)"
      using Cons.hyps(1) last_in_set [of "BasisRefs c"] by (auto simp: block_of_def stableBasisRef_def)
    with Cons.IH block_of_hd [OF Cons.hyps(1)] show ?case by (simp only: concat.simps last_append) auto
  qed simp
  with \<open>ls = concat bs\<close> show ?thesis by simp
qed

section \<open>The appender\<close>

text \<open>The text the appender tries, \<open>combined\<close> in the source.\<close>

definition combined_text :: "pystr \<Rightarrow> pystr \<Rightarrow> pystr" where
  "combined_text primary addition = (if primary = [] then addition else rstrip primary @ [10] @ addition)"

lemma combined_core_lines:
  assumes "parse_blocks {} (core_lines p) = Some cs"
  shows "core_lines (combined_text p a) = core_lines p @ core_lines a"
  using core_lines_rstrip [OF accepted_last [OF assms]]
  by (simp add: combined_text_def core_lines_append_nl)

lemma append_tagged_text_Inr:
  "append_tagged_text p a = Inr t \<longleftrightarrow>
     t = p \<and> (a = [] \<or> a \<noteq> [] \<and> encode_len (combined_text p a) = Inr (psize (combined_text p a)) \<and>
       MAX_TAGGED_TEXT_BYTES < psize (combined_text p a)) \<or>
     t = combined_text p a \<and> a \<noteq> [] \<and> encode_len t = Inr (psize t) \<and> psize t \<le> MAX_TAGGED_TEXT_BYTES"
  by (auto simp: append_tagged_text_def combined_text_def encode_len_def Let_def)

text \<open>
  C9: appending a block. When the Core accepts the earlier text and the addition, and no existing memory is a target
  in both, the appender fails only on a lone surrogate, and the Core reads its result as the earlier changes followed
  by the added ones when the two together are within 64 KiB, and as the earlier changes alone when they are not.
\<close>

theorem append_tagged_text_parses:
  assumes "ParseTaggedText p = Some cs" and "ParseTaggedText a = Some ds" and "set (existing cs) \<inter> set (existing ds) = {}"
  shows "case append_tagged_text p a of
      Inl e \<Rightarrow> e = UnicodeEncodeError \<and> (\<exists>c \<in> set p \<union> set a. py_surrogate c)
    | Inr t \<Rightarrow> ParseTaggedText t = Some (if psize (combined_text p a) \<le> MaxTaggedTextBytes then cs @ ds else cs)"
proof -
  have p: "psize p \<le> MaxTaggedTextBytes" "parse_blocks {} (core_lines p) = Some cs"
    and a: "parse_blocks {} (core_lines a) = Some ds"
    using assms(1,2) by (auto simp: ParseTaggedText_core_lines split: if_splits)
  have both: "parse_blocks {} (core_lines (combined_text p a)) = Some (cs @ ds)"
    using parse_blocks_append [OF p(2) a] assms(3) by (simp add: combined_core_lines [OF p(2)])
  have no_addition: "a = [] \<Longrightarrow> ds = []" using a by (simp add: core_lines_def split_nl_def parse_blocks.simps)
  have chars: "set (combined_text p a) \<subseteq> set p \<union> set a \<union> {10}"
    using set_mono_prefix [OF rstrip_on_prefix [of py_isspace p]] by (auto simp: combined_text_def rstrip_def)
  show ?thesis
  proof (cases "append_tagged_text p a")
    case (Inl e)
    then have "e = UnicodeEncodeError" "\<exists>c \<in> set (combined_text p a). py_surrogate c"
      by (auto simp: append_tagged_text_def combined_text_def encode_len_def Let_def split: if_splits)
    moreover have "\<not> py_surrogate 10" by (simp add: py_surrogate_def)
    ultimately show ?thesis using Inl chars by auto
  next
    case (Inr t)
    then consider "a = []" "t = p" | "a \<noteq> []" "t = p" "MaxTaggedTextBytes < psize (combined_text p a)"
      | "t = combined_text p a" "psize t \<le> MaxTaggedTextBytes"
      by (auto simp: append_tagged_text_Inr MAX_TAGGED_TEXT_BYTES_def MaxTaggedTextBytes_def)
    then show ?thesis
    proof cases
      case 1
      with Inr no_addition [OF 1(1)] assms(1) show ?thesis by simp
    next
      case 2
      with Inr assms(1) show ?thesis by simp
    next
      case 3
      with Inr both show ?thesis by (simp add: ParseTaggedText_core_lines)
    qed
  qed
qed

definition example_block :: pystr where
  "example_block = join_lines (text_block (lit ''NEW_RECOLLECTION'') (lit ''OTHER'') (lit ''Tea.'') [lit ''e1''])"

lemma example_block_parses: "ParseTaggedText example_block = Some [example_recollection]"
proof -
  have "core_lines example_block = text_block (lit ''NEW_RECOLLECTION'') (lit ''OTHER'') (lit ''Tea.'') [lit ''e1'']"
    unfolding example_block_def by (rule core_lines_of_lines) (simp add: text_block_def)
  moreover have "psize example_block \<le> MaxTaggedTextBytes" "psize (lit ''Tea.'') \<le> MaxChangeTextBytes"
    by (simp_all add: example_block_def text_block_def lit_def MaxTaggedTextBytes_def MaxChangeTextBytes_def)
  ultimately show ?thesis
    using parse_blocks_text [of "lit ''NEW_RECOLLECTION''" "lit ''OTHER''" "lit ''Tea.''" "[lit ''e1'']" "[]" "{}"] example_ref
    by (simp add: ParseTaggedText_core_lines new_targets_def validApplication_def example_recollection_def parse_blocks.simps)
qed

theorem append_tagged_text_parses_witness:
  "append_tagged_text example_block example_block = Inr (combined_text example_block example_block) \<and>
   ParseTaggedText (combined_text example_block example_block) = Some [example_recollection, example_recollection]"
proof -
  have "rstrip example_block = example_block"
    by (simp add: rstrip_def rstrip_on_def example_block_def text_block_def lit_def py_isspace_def)
  then have run: "append_tagged_text example_block example_block = Inr (combined_text example_block example_block)"
    by (simp add: append_tagged_text_def combined_text_def example_block_def text_block_def lit_def encode_len_def
        py_surrogate_def MAX_TAGGED_TEXT_BYTES_def Let_def)
  have "psize (combined_text example_block example_block) \<le> MaxTaggedTextBytes"
    using run by (auto simp: append_tagged_text_Inr MAX_TAGGED_TEXT_BYTES_def MaxTaggedTextBytes_def combined_text_def
        example_block_def text_block_def lit_def)
  moreover have "existing [example_recollection] = []" by (simp add: example_recollection_def new_targets_def)
  ultimately show ?thesis
    using append_tagged_text_parses [OF example_block_parses example_block_parses] run by simp
qed

section \<open>A plain list of recollections\<close>

abbreviation recollection_block :: "recollection_material \<Rightarrow> pystr \<Rightarrow> pystr" where
  "recollection_block m line \<equiv>
     join_lines (text_block (lit ''NEW_RECOLLECTION'') (lit ''OTHER'') line (rm_basis_refs m))"

abbreviation recollection_change :: "recollection_material \<Rightarrow> pystr \<Rightarrow> change" where
  "recollection_change m line \<equiv> text_change (lit ''NEW_RECOLLECTION'') (lit ''OTHER'') line (rm_basis_refs m)"

lemma single_body_line:
  assumes "l \<in> set (body_lines body)"
  shows "body_lines l = [l]" and "strip l = l" and "l \<noteq> []" and "no_breaks l"
proof -
  from assms obtain x where x: "x \<in> set (splitlines body)" "l = strip x" "l \<noteq> []"
    by (auto simp: body_lines_def)
  show "strip l = l" "l \<noteq> []" using x by simp_all
  show nb: "no_breaks l" using x splitlines_no_breaks no_breaks_strip by blast
  show "body_lines l = [l]" using splitlines_line [OF nb x(3)] x by (simp add: body_lines_def)
qed

lemma bind_line:
  assumes "l \<in> set (body_lines body)" and "l \<noteq> lit ''NO_MEMORY''" and "bind_recollection m l = Inr t"
  shows "t = recollection_block m l" and "t \<noteq> []"
    and "parse_blocks seen (core_lines t @ rest) = map_option (Cons (recollection_change m l)) (parse_blocks seen rest)
      \<or> \<not> (rest = [] \<or> hd rest = lit ''TARGET'')"
proof -
  note line = single_body_line [OF assms(1)]
  have block: "recollection_block m l \<noteq> []" by (simp add: text_block_def)
  show ne: "t \<noteq> []"
    using assms(2,3) line block by (auto simp: bind_recollection_def bindr_Inr_iff Let_def split: if_splits)
  have join: "py_join (lit '' '') (body_lines l) = l" by (simp add: line(1))
  show "t = recollection_block m l" using rb.bind_shape [OF assms(3) ne] by (simp add: join)
  have "validApplication (lit ''OTHER'')" by (simp add: validApplication_def)
  from rb.bound_parses_with [OF assms(3) ne this bound_refs_not_reserved [OF assms(3) ne], of rest seen]
  show "parse_blocks seen (core_lines t @ rest) = map_option (Cons (recollection_change m l)) (parse_blocks seen rest)
      \<or> \<not> (rest = [] \<or> hd rest = lit ''TARGET'')"
    by (auto simp: join)
qed

lemma bind_lines_Inr:
  assumes "bind_lines m ls seen bound = Inr ts" and "length bound \<le> MAX_PLAIN_RECOLLECTIONS"
    and "set ls \<subseteq> set (body_lines body)" and "lit ''NO_MEMORY'' \<notin> set ls"
  shows "\<exists>new. ts = bound @ map (recollection_block m) new \<and>
    new = take (MAX_PLAIN_RECOLLECTIONS - length bound) (uniq_from seen ls) \<and>
    (\<forall>l \<in> set new. bind_recollection m l = Inr (recollection_block m l))"
  using assms
proof (induction ls arbitrary: seen bound)
  case (Cons l ls)
  consider "l \<in> seen" | "l \<notin> seen" "length bound = MAX_PLAIN_RECOLLECTIONS"
    | "l \<notin> seen" "length bound < MAX_PLAIN_RECOLLECTIONS" using Cons.prems(2) by linarith
  then show ?case
  proof cases
    case 3
    with Cons.prems(1) obtain t where t: "bind_recollection m l = Inr t"
      and rest: "bind_lines m ls (insert l seen) (bound @ [t]) = Inr ts" by (auto simp: bindr_Inr_iff)
    have "t = recollection_block m l" using Cons.prems(3,4) by (intro bind_line(1) [OF _ _ t]) auto
    moreover obtain new where "ts = (bound @ [t]) @ map (recollection_block m) new"
      "new = take (MAX_PLAIN_RECOLLECTIONS - length (bound @ [t])) (uniq_from (insert l seen) ls)"
      "\<forall>l \<in> set new. bind_recollection m l = Inr (recollection_block m l)"
      using Cons.IH [OF rest] 3 Cons.prems(3,4) by auto
    ultimately show ?thesis
      using 3 t by (intro exI [of _ "l # new"]) (auto simp: take_Cons' Suc_diff_Suc)
  qed (use Cons in auto)
qed simp

lemma core_lines_join_texts: "core_lines (join_lines ts) = concat (map core_lines ts)"
  by (induction ts rule: induct_list012) (simp_all add: core_lines_append_nl)

lemma parse_new_blocks:
  assumes "\<forall>x \<in> set xs. parse_blocks {} (core_lines (f x)) = Some [g x] \<and> Target (g x) \<in> new_targets"
  shows "parse_blocks {} (core_lines (join_lines (map f xs))) = Some (map g xs)"
  using assms
proof (induction xs)
  case Nil
  then show ?case by (simp add: parse_blocks.simps)
next
  case (Cons x xs)
  have "existing (map g (x # xs)) = []" using Cons.prems by (auto simp: existing_def filter_empty_conv)
  with Cons parse_blocks_append [of "core_lines (f x)" "[g x]" "core_lines (join_lines (map f xs))" "map g xs"]
  show ?case by (simp add: core_lines_join_texts)
qed

lemma bind_plain_recollections_Inr:
  assumes "bind_plain_recollections m body = Inr ts" and "ts \<noteq> []"
  shows "ts = map (recollection_block m) (take MAX_PLAIN_RECOLLECTIONS (uniq (body_lines body)))"
    and "\<forall>l \<in> set (take MAX_PLAIN_RECOLLECTIONS (uniq (body_lines body))).
      l \<in> set (body_lines body) \<and> l \<noteq> lit ''NO_MEMORY'' \<and> bind_recollection m l = Inr (recollection_block m l)"
proof -
  let ?new = "take MAX_PLAIN_RECOLLECTIONS (uniq (body_lines body))"
  from assms have memory: "lit ''NO_MEMORY'' \<notin> set (body_lines body)"
    and bind: "bind_lines m (body_lines body) {} [] = Inr ts"
    by (auto simp: bind_plain_recollections_def Let_def split: if_splits)
  from bind_lines_Inr [OF bind _ _ memory, of body] have ts: "ts = map (recollection_block m) ?new"
    and each: "\<forall>l \<in> set ?new. bind_recollection m l = Inr (recollection_block m l)"
    by (auto simp: uniq_def)
  show "ts = map (recollection_block m) ?new" by (fact ts)
  show "\<forall>l \<in> set ?new. l \<in> set (body_lines body) \<and> l \<noteq> lit ''NO_MEMORY'' \<and> bind_recollection m l = Inr (recollection_block m l)"
    using each memory by (metis in_set_takeD set_uniq)
qed

text \<open>
  C10: the plain list of recollections. Each distinct nonblank line of the model's answer, up to the bound of 32,
  becomes one block, in order; the Core reads the joined blocks as one new Recollection per line, each with the
  material's own Basis refs, when they are within its limit of 64 KiB together, and rejects them when they are not.
\<close>

theorem bind_plain_recollections_reads:
  assumes "bind_plain_recollections m body = Inr ts" and "ts \<noteq> []"
    and "new = take MAX_PLAIN_RECOLLECTIONS (uniq (body_lines body))"
  shows "ts = map (recollection_block m) new \<and>
    ParseTaggedText (join_lines ts) =
      (if psize (join_lines ts) \<le> MaxTaggedTextBytes then Some (map (recollection_change m) new) else None)"
proof -
  note bound = bind_plain_recollections_Inr [OF assms(1,2), folded assms(3)]
  have nil: "parse_blocks {} [] = Some []" by (simp add: parse_blocks.simps)
  have "parse_blocks {} (core_lines (recollection_block m l)) = Some [recollection_change m l]" if "l \<in> set new" for l
    using bind_line(3) [of l body m "recollection_block m l" "{}" "[]"] bound(2) that nil by simp
  then have "parse_blocks {} (core_lines (join_lines (map (recollection_block m) new))) = Some (map (recollection_change m) new)"
    by (intro parse_new_blocks) (simp add: new_targets_def)
  then show ?thesis using bound(1) by (simp add: ParseTaggedText_core_lines)
qed

theorem bind_plain_recollections_reads_witness:
  "ParseTaggedText (join_lines [recollection_block example_material (lit ''Tea.'')]) =
     Some [recollection_change example_material (lit ''Tea.'')]"
proof -
  have body: "body_lines (lit ''Tea.'') = [lit ''Tea.'']" by (simp add: body_eval)
  have "bind_recollection example_material (lit ''Tea.'') = Inr (recollection_block example_material (lit ''Tea.''))"
    by (simp add: bind_recollection_def example_material_def bind_eval)
  then have run: "bind_plain_recollections example_material (lit ''Tea.'') = Inr [recollection_block example_material (lit ''Tea.'')]"
    by (simp add: bind_plain_recollections_def body MAX_PLAIN_RECOLLECTIONS_def) (simp add: body_eval)
  have "psize (join_lines [recollection_block example_material (lit ''Tea.'')]) \<le> MaxTaggedTextBytes"
    by (simp add: example_material_def text_block_def lit_def MaxTaggedTextBytes_def)
  then show ?thesis using bind_plain_recollections_reads [OF run _ refl]
    by (simp add: body uniq_def MAX_PLAIN_RECOLLECTIONS_def)
qed

end
