(* ===== verification/Feedback.thy ===== *)
theory Feedback
  imports Tagged_Append
begin

text \<open>
  The feedback lane of src/worker/python/src/memory_core_worker/service.py: which Dispositions and
  causal refs the window offers for feedback, which answers hold feedback blocks, and the
  normalisation that binds the operations a model chose to the Episode and Outcome refs the Core
  offered.
\<close>

section \<open>What the window offers\<close>

definition eligible_feedback_targets :: "pystr \<Rightarrow> pystr list \<Rightarrow> pystr list" where
  "eligible_feedback_targets window allowed =
     (let tag = lit ''ELIGIBLE_DISPOSITION '' in
      uniq (filter (\<lambda>ref. ref \<in> set allowed)
        (map (\<lambda>line. strip (drop (length tag) line))
          (filter (\<lambda>line. startswith line tag) (map strip3 (splitlines window))))))"

text \<open>The prefix of the line, if it has one of the two, and the ref after it.\<close>

definition feedback_ref :: "pystr \<Rightarrow> pystr option" where
  "feedback_ref line =
     (if startswith line (lit ''FEEDBACK_EPISODE '') then Some (strip (drop (length (lit ''FEEDBACK_EPISODE '')) line))
      else if startswith line (lit ''FEEDBACK_OUTCOME '') then Some (strip (drop (length (lit ''FEEDBACK_OUTCOME '')) line))
      else None)"

definition eligible_feedback_basis_refs :: "pystr \<Rightarrow> pystr list \<Rightarrow> pystr list" where
  "eligible_feedback_basis_refs window allowed =
     uniq (filter (\<lambda>ref. ref \<in> set allowed)
       (List.map_filter feedback_ref (map strip3 (splitlines window))))"

section \<open>Which blocks an answer holds\<close>

definition contains_target_block :: "pystr \<Rightarrow> pystr list \<Rightarrow> bool" where
  "contains_target_block text targets =
     (let lines = map strip3 (splitlines text) in
      \<exists>index \<in> set [0..<length lines]. lines ! index = lit ''TARGET'' \<and> index + 1 < length lines \<and>
        lines ! (index + 1) \<in> set targets)"

text \<open>The nonblank lines, trimmed of blanks, tabs and carriage returns.\<close>

definition lines3 :: "pystr \<Rightarrow> pystr list" where
  "lines3 text = filter (\<lambda>l. l \<noteq> []) (map strip3 (splitlines text))"

definition contains_only_target_blocks :: "pystr \<Rightarrow> pystr list \<Rightarrow> bool" where
  "contains_only_target_blocks text targets =
     (let lines = lines3 text;
          refs = map (\<lambda>index. lines ! (index + 1))
            (filter (\<lambda>index. lines ! index = lit ''TARGET'' \<and> index + 1 < length lines) [0..<length lines])
      in refs \<noteq> [] \<and> (\<forall>ref \<in> set refs. ref \<in> set targets))"

section \<open>The causal refs of the window\<close>

definition ordered_unique :: "pystr list \<Rightarrow> pystr list" where
  "ordered_unique values = uniq (filter (\<lambda>v. v \<noteq> []) values)"

definition feedback_episodes :: "pystr list \<Rightarrow> pystr set" where
  "feedback_episodes lines = set (map (\<lambda>l. strip (removeprefix l (lit ''FEEDBACK_EPISODE '')))
     (filter (\<lambda>l. startswith l (lit ''FEEDBACK_EPISODE '')) lines))"

text \<open>The loop that fills \<open>outcomes\<close>: a later line for the same Outcome overrides an earlier one.\<close>

fun feedback_outcomes :: "pystr list \<Rightarrow> (pystr \<Rightarrow> pystr option) \<Rightarrow> pystr \<Rightarrow> pystr option" where
  "feedback_outcomes [] outs = outs"
| "feedback_outcomes (line # lines) outs =
     (if \<not> startswith line (lit ''FEEDBACK_OUTCOME '') then feedback_outcomes lines outs
      else let outcome_ref = strip (removeprefix line (lit ''FEEDBACK_OUTCOME '')) in
        case lines of
          [] \<Rightarrow> feedback_outcomes lines outs
        | next # _ \<Rightarrow>
            if \<not> startswith next (lit ''OUTCOME_EPISODE '') then feedback_outcomes lines outs
            else let episode_ref = strip (removeprefix next (lit ''OUTCOME_EPISODE '')) in
              feedback_outcomes lines
                (if outcome_ref \<noteq> [] \<and> episode_ref \<noteq> [] then outs(outcome_ref \<mapsto> episode_ref) else outs))"

definition feedback_basis_map :: "pystr \<Rightarrow> pystr set \<times> (pystr \<Rightarrow> pystr option)" where
  "feedback_basis_map window =
     (let lines = map strip3 (splitlines window) in
      (feedback_episodes lines, feedback_outcomes lines Map.empty))"

section \<open>Normalising an answer\<close>

text \<open>The Basis of a block; \<open>None\<close> is the early return for an Outcome of an Episode not offered.\<close>

definition feedback_basis ::
  "pystr set \<Rightarrow> (pystr \<Rightarrow> pystr option) \<Rightarrow> pystr \<Rightarrow> pystr list \<Rightarrow> pystr list option" where
  "feedback_basis eps outs operation raw_basis =
     (if operation = lit ''REENACT'' then Some (ordered_unique (filter (\<lambda>ref. ref \<in> eps) raw_basis))
      else let chosen = ordered_unique (filter (\<lambda>ref. outs ref \<noteq> None) raw_basis) in
        if \<exists>o1 \<in> set chosen. the (outs o1) \<notin> eps then None
        else Some (ordered_unique (concat (map (\<lambda>o1. [the (outs o1), o1]) chosen))))"

text \<open>The operation of the block at the head: its body and the offset of \<open>BASIS\<close>.\<close>

definition feedback_operation :: "pystr list \<Rightarrow> (pystr \<times> nat) option" where
  "feedback_operation ls =
     (if ls ! 5 = lit ''TEXT''
      then (if length ls \<le> 6 \<or> ls ! 6 = lit ''BASIS'' then None else Some (ls ! 6, 7))
      else if ls ! 5 \<in> {lit ''REENACT'', lit ''INHIBIT''} then Some ([], 6) else None)"

text \<open>One pass of the loop: the lines of the normalised block and the lines that remain.\<close>

definition feedback_block ::
  "pystr set \<Rightarrow> pystr set \<Rightarrow> (pystr \<Rightarrow> pystr option) \<Rightarrow> pystr list \<Rightarrow> (pystr list \<times> pystr list) option" where
  "feedback_block targets eps outs ls =
     (if length ls < 8 \<or> ls ! 0 \<noteq> lit ''TARGET'' \<or> ls ! 1 \<notin> targets \<or> ls ! 2 \<noteq> lit ''APPLICATION'' \<or>
         ls ! 4 \<noteq> lit ''CHANGE'' then None
      else case feedback_operation ls of None \<Rightarrow> None
        | Some (body, marker) \<Rightarrow>
            if length ls \<le> marker \<or> ls ! marker \<noteq> lit ''BASIS'' then None
            else let rest = drop (Suc marker) ls;
                     raw_basis = takeWhile (\<lambda>l. l \<noteq> lit ''TARGET'') rest in
              case feedback_basis eps outs (ls ! 5) raw_basis of None \<Rightarrow> None
              | Some basis \<Rightarrow>
                  if basis = [] then None
                  else Some ([lit ''TARGET'', ls ! 1, lit ''APPLICATION'', ls ! 3, lit ''CHANGE'', ls ! 5] @
                         (if body \<noteq> [] then [body] else []) @ [lit ''BASIS''] @ basis,
                       dropWhile (\<lambda>l. l \<noteq> lit ''TARGET'') rest))"

lemma feedback_block_length:
  assumes "feedback_block targets eps outs ls = Some (block, rest)"
  shows "length rest < length ls"
proof -
  from assms obtain k where "8 \<le> length ls" "rest = dropWhile (\<lambda>l. l \<noteq> lit ''TARGET'') (drop (Suc k) ls)"
    by (auto simp: feedback_block_def Let_def split: if_splits option.splits)
  then show ?thesis using length_dropWhile_le [of "\<lambda>l. l \<noteq> lit ''TARGET''" "drop (Suc k) ls"] by simp
qed

function feedback_blocks ::
  "pystr set \<Rightarrow> pystr set \<Rightarrow> (pystr \<Rightarrow> pystr option) \<Rightarrow> pystr list \<Rightarrow> pystr list option" where
  "feedback_blocks targets eps outs ls =
     (if ls = [] then Some []
      else case feedback_block targets eps outs ls of None \<Rightarrow> None
        | Some (block, rest) \<Rightarrow> map_option (\<lambda>blocks. block @ blocks) (feedback_blocks targets eps outs rest))"
  by pat_completeness auto
termination
  by (relation "measure (\<lambda>(targets, eps, outs, ls). length ls)") (auto dest: feedback_block_length)

declare feedback_blocks.simps [simp del]

definition normalize_feedback_output :: "pystr \<Rightarrow> pystr list \<Rightarrow> pystr \<Rightarrow> pystr" where
  "normalize_feedback_output text target_refs window =
     (let (eps, outs) = feedback_basis_map window in
      case feedback_blocks (set target_refs) eps outs (lines3 text) of
        None \<Rightarrow> []
      | Some blocks \<Rightarrow> join_lines blocks)"

section \<open>What normalisation returns\<close>

text \<open>A feedback change and its lines in a normalised answer.\<close>

definition feedback_lines :: "change \<Rightarrow> pystr list" where
  "feedback_lines c = [lit ''TARGET'', Target c, lit ''APPLICATION'', Application c, lit ''CHANGE'', Operation c] @
     (if Text c \<noteq> [] then [Text c] else []) @ [lit ''BASIS''] @ BasisRefs c"

text \<open>
  A change built from what the Core offered: an eligible target, one of the three feedback
  operations, and a Basis of offered Episodes for a re-enactment, of Outcomes together with their own
  offered Episodes for the other two.
\<close>

definition paired_basis :: "pystr set \<Rightarrow> (pystr \<Rightarrow> pystr option) \<Rightarrow> pystr list \<Rightarrow> bool" where
  "paired_basis eps outs refs \<longleftrightarrow>
     (\<forall>r \<in> set refs. (r \<in> eps \<and> (\<exists>o1 \<in> set refs. outs o1 = Some r)) \<or>
       (\<exists>e \<in> eps. outs r = Some e \<and> e \<in> set refs))"

definition offered_feedback :: "pystr set \<Rightarrow> pystr set \<Rightarrow> (pystr \<Rightarrow> pystr option) \<Rightarrow> change \<Rightarrow> bool" where
  "offered_feedback targets eps outs c \<longleftrightarrow>
     Target c \<in> targets \<and> Operation c \<in> {lit ''TEXT'', lit ''REENACT'', lit ''INHIBIT''} \<and>
     (Text c \<noteq> [] \<longleftrightarrow> Operation c = lit ''TEXT'') \<and>
     BasisRefs c \<noteq> [] \<and> distinct (BasisRefs c) \<and>
     (if Operation c = lit ''REENACT'' then set (BasisRefs c) \<subseteq> eps else paired_basis eps outs (BasisRefs c))"

lemma ordered_unique_facts [simp]:
  "distinct (ordered_unique vs)" "set (ordered_unique vs) = set vs - {[]}"
  by (auto simp: ordered_unique_def)

lemma feedback_basis_Some:
  assumes "feedback_basis eps outs operation raw = Some refs" and "[] \<notin> ran outs"
  shows "distinct refs" and "if operation = lit ''REENACT'' then set refs \<subseteq> eps else paired_basis eps outs refs"
proof -
  show "distinct refs" using assms by (auto simp: feedback_basis_def Let_def split: if_splits)
  show "if operation = lit ''REENACT'' then set refs \<subseteq> eps else paired_basis eps outs refs"
  proof (cases "operation = lit ''REENACT''")
    case True
    with assms show ?thesis by (auto simp: feedback_basis_def)
  next
    case False
    define chosen where "chosen = ordered_unique (filter (\<lambda>ref. outs ref \<noteq> None) raw)"
    have some: "\<exists>e. outs o1 = Some e \<and> e \<noteq> []" if "o1 \<in> set chosen" for o1
      using that assms(2) by (auto simp: chosen_def ran_def)
    have ne: "[] \<notin> set chosen" by (simp add: chosen_def)
    from assms(1) False have ok: "\<forall>o1 \<in> set chosen. the (outs o1) \<in> eps"
      and refs: "refs = ordered_unique (concat (map (\<lambda>o1. [the (outs o1), o1]) chosen))"
      unfolding feedback_basis_def Let_def chosen_def [symmetric] by (auto split: if_splits)
    have mem: "set refs = (\<lambda>o1. the (outs o1)) ` set chosen \<union> set chosen"
    proof -
      have "set (concat (map (\<lambda>o1. [the (outs o1), o1]) chosen)) = (\<lambda>o1. the (outs o1)) ` set chosen \<union> set chosen"
        by (induction chosen) auto
      moreover have "[] \<notin> (\<lambda>o1. the (outs o1)) ` set chosen" using some by fastforce
      ultimately show ?thesis using ne by (simp add: refs)
    qed
    have "paired_basis eps outs refs"
      unfolding paired_basis_def
    proof
      fix r assume "r \<in> set refs"
      then consider o1 where "o1 \<in> set chosen" "r = the (outs o1)" | "r \<in> set chosen" by (auto simp: mem)
      then show "(r \<in> eps \<and> (\<exists>o1 \<in> set refs. outs o1 = Some r)) \<or> (\<exists>e \<in> eps. outs r = Some e \<and> e \<in> set refs)"
      proof cases
        case 1
        then have "r \<in> eps" "outs o1 = Some r" "o1 \<in> set refs" using ok some [OF 1(1)] by (auto simp: mem)
        then show ?thesis by blast
      next
        case 2
        then obtain e where "outs r = Some e" using some by blast
        with 2 ok have "e \<in> eps" "e \<in> set refs" by (force simp: mem)+
        with \<open>outs r = Some e\<close> show ?thesis by blast
      qed
    qed
    with False show ?thesis by simp
  qed
qed

lemma feedback_block_Some:
  assumes "feedback_block targets eps outs ls = Some (block, rest)" and "\<forall>l \<in> set ls. l \<noteq> []" and "[] \<notin> ran outs"
  obtains c where "block = feedback_lines c" "offered_feedback targets eps outs c"
    "ls ! 3 = Application c" "set rest \<subseteq> set ls" "Application c \<in> set ls" "Text c \<noteq> [] \<longrightarrow> Text c \<in> set ls"
proof -
  from assms(1) obtain body marker refs where len: "8 \<le> length ls" and tgt: "ls ! 1 \<in> targets"
    and op: "feedback_operation ls = Some (body, marker)"
    and basis: "feedback_basis eps outs (ls ! 5) (takeWhile (\<lambda>l. l \<noteq> lit ''TARGET'') (drop (Suc marker) ls)) = Some refs"
    and ne: "refs \<noteq> []"
    and block: "block = [lit ''TARGET'', ls ! 1, lit ''APPLICATION'', ls ! 3, lit ''CHANGE'', ls ! 5] @
        (if body \<noteq> [] then [body] else []) @ [lit ''BASIS''] @ refs"
    and rest: "rest = dropWhile (\<lambda>l. l \<noteq> lit ''TARGET'') (drop (Suc marker) ls)"
    by (auto simp: feedback_block_def Let_def split: if_splits option.splits)
  let ?c = "\<lparr>Target = ls ! 1, Application = ls ! 3, Operation = ls ! 5, Text = body, BasisRefs = refs\<rparr>"
  have in_ls: "ls ! 3 \<in> set ls" "ls ! 6 \<in> set ls" using len by simp_all
  have body: "ls ! 5 \<in> {lit ''TEXT'', lit ''REENACT'', lit ''INHIBIT''}" "body \<noteq> [] \<longleftrightarrow> ls ! 5 = lit ''TEXT''"
    "body \<noteq> [] \<longrightarrow> body = ls ! 6"
    using op assms(2) in_ls(2) by (auto simp: feedback_operation_def split: if_splits)
  have "offered_feedback targets eps outs ?c"
    using tgt body ne feedback_basis_Some [OF basis assms(3)] by (simp add: offered_feedback_def)
  moreover have "block = feedback_lines ?c" by (simp add: block feedback_lines_def)
  moreover have "set rest \<subseteq> set ls" unfolding rest by (meson set_dropWhileD set_drop_subset subsetD subsetI)
  moreover have "body \<noteq> [] \<longrightarrow> body \<in> set ls" using body(3) in_ls(2) by blast
  ultimately show ?thesis using that [of ?c] in_ls by simp
qed

lemma feedback_blocks_Some:
  assumes "feedback_blocks targets eps outs ls = Some blocks" and "\<forall>l \<in> set ls. l \<noteq> []" and "[] \<notin> ran outs"
  obtains cs where "blocks = concat (map feedback_lines cs)" "\<forall>c \<in> set cs. offered_feedback targets eps outs c"
    "\<forall>c \<in> set cs. Application c \<in> set ls \<and> (Text c \<noteq> [] \<longrightarrow> Text c \<in> set ls)"
  using assms
proof (induction targets eps outs ls arbitrary: blocks thesis rule: feedback_blocks.induct)
  case (1 targets eps outs ls)
  show ?case
  proof (cases "ls = []")
    case True
    with 1(3) have "blocks = []" by (simp add: feedback_blocks.simps)
    then show ?thesis by (intro 1(2) [of "[]"]) simp_all
  next
    case False
    with 1(3) obtain block rest blocks' where b: "feedback_block targets eps outs ls = Some (block, rest)"
      and bs: "feedback_blocks targets eps outs rest = Some blocks'" "blocks = block @ blocks'"
      by (subst (asm) feedback_blocks.simps) (auto split: option.splits)
    from feedback_block_Some [OF b 1(4,5)] obtain c where c: "block = feedback_lines c"
      "offered_feedback targets eps outs c" "set rest \<subseteq> set ls" "Application c \<in> set ls"
      "Text c \<noteq> [] \<longrightarrow> Text c \<in> set ls" by metis
    from 1(1) [OF False b refl _ bs(1) _ 1(5)] c(3) 1(4) obtain cs where "blocks' = concat (map feedback_lines cs)"
      "\<forall>c \<in> set cs. offered_feedback targets eps outs c"
      "\<forall>c \<in> set cs. Application c \<in> set rest \<and> (Text c \<noteq> [] \<longrightarrow> Text c \<in> set rest)" by blast
    with c bs(2) show ?thesis by (intro 1(2) [of "c # cs"]) auto
  qed
qed

lemma feedback_outcomes_ran: "[] \<notin> ran outs \<Longrightarrow> [] \<notin> ran (feedback_outcomes ls outs)"
proof (induction ls arbitrary: outs)
  case (Cons l ls)
  have "[] \<notin> ran (outs(x \<mapsto> e))" if "e \<noteq> []" for x e
    using that Cons.prems by (auto simp: ran_def split: if_splits)
  with Cons show ?case by (auto simp: Let_def split: list.splits)
qed simp

lemma feedback_basis_map_ran: "feedback_basis_map window = (eps, outs) \<Longrightarrow> [] \<notin> ran outs"
  using feedback_outcomes_ran [of Map.empty "map strip3 (splitlines window)"]
  by (auto simp: feedback_basis_map_def Let_def)

lemma lines3_line: "l \<in> set (lines3 text) \<Longrightarrow> l \<noteq> [] \<and> no_breaks l"
  using splitlines_no_breaks no_breaks_strip_on by (force simp: lines3_def strip3_def)

lemma normalize_feedback_Some:
  assumes "normalize_feedback_output text targets window = t" and "t \<noteq> []"
    and "feedback_basis_map window = (eps, outs)"
  obtains cs where "cs \<noteq> []" "t = join_lines (concat (map feedback_lines cs))"
    "\<forall>c \<in> set cs. offered_feedback (set targets) eps outs c"
    "\<forall>c \<in> set cs. no_breaks (Application c) \<and> no_breaks (Text c)"
proof -
  from assms obtain blocks where b: "feedback_blocks (set targets) eps outs (lines3 text) = Some blocks"
    and t: "t = join_lines blocks"
    by (auto simp: normalize_feedback_output_def split: option.splits)
  have lines: "\<forall>l \<in> set (lines3 text). l \<noteq> []" using lines3_line by blast
  obtain cs where cs: "blocks = concat (map feedback_lines cs)" "\<forall>c \<in> set cs. offered_feedback (set targets) eps outs c"
    "\<forall>c \<in> set cs. Application c \<in> set (lines3 text) \<and> (Text c \<noteq> [] \<longrightarrow> Text c \<in> set (lines3 text))"
    by (rule feedback_blocks_Some [OF b lines feedback_basis_map_ran [OF assms(3)]])
  show ?thesis
  proof (rule that [of cs])
    show "cs \<noteq> []" using assms(2) t cs(1) by auto
    show "\<forall>c \<in> set cs. no_breaks (Application c) \<and> no_breaks (Text c)"
      using cs(3) lines3_line no_breaks_Nil by metis
  qed (use t cs in simp_all)
qed

section \<open>What the Core reads of a normalised answer\<close>

text \<open>
  The refs the Core renders into a window are refs its own parser accepts: eligible targets name
  existing memories, and Episode and Outcome refs are Basis refs.
\<close>

definition stable_offers :: "pystr set \<Rightarrow> pystr set \<Rightarrow> (pystr \<Rightarrow> pystr option) \<Rightarrow> bool" where
  "stable_offers targets eps outs \<longleftrightarrow> (\<forall>t \<in> targets. stableRef t) \<and> (\<forall>e \<in> eps. stableBasisRef e) \<and>
     (\<forall>o1 e. outs o1 = Some e \<longrightarrow> stableBasisRef o1)"

lemma offered_refs_stable:
  assumes "offered_feedback targets eps outs c" and "stable_offers targets eps outs"
  shows "\<forall>r \<in> set (BasisRefs c). stableBasisRef r" and "stableRef (Target c)"
proof -
  show "stableRef (Target c)" using assms by (simp add: offered_feedback_def stable_offers_def)
  show "\<forall>r \<in> set (BasisRefs c). stableBasisRef r"
    using assms by (cases "Operation c = lit ''REENACT''")
      (auto simp: offered_feedback_def stable_offers_def paired_basis_def)
qed

definition trimmed_change :: "change \<Rightarrow> change" where
  "trimmed_change c = c\<lparr>Application := go_trim (Application c), Text := go_trim (Text c)\<rparr>"

lemma operation_lits:
  "parseOperation (lit ''REENACT'') = Some (lit ''REENACT'', [])"
  "parseOperation (lit ''INHIBIT'') = Some (lit ''INHIBIT'', [])"
proof -
  have "\<not> startswith (lit ''REENACT'') (lit ''TEXT '')" "\<not> startswith (lit ''REENACT'') (lit ''ADAPT '')"
    "\<not> startswith (lit ''INHIBIT'') (lit ''TEXT '')" "\<not> startswith (lit ''INHIBIT'') (lit ''ADAPT '')"
    by (simp_all add: startswith_def lit_def)
  then show "parseOperation (lit ''REENACT'') = Some (lit ''REENACT'', [])"
    "parseOperation (lit ''INHIBIT'') = Some (lit ''INHIBIT'', [])" by (simp_all add: parseOperation_def)
qed

lemma operation_trims [simp]:
  "go_trim (lit ''REENACT'') = lit ''REENACT''" "no_breaks (lit ''REENACT'')"
  "go_trim (lit ''INHIBIT'') = lit ''INHIBIT''" "no_breaks (lit ''INHIBIT'')"
  by (rule lit_no_space, simp)+

lemma trimmed_feedback_lines:
  assumes "offered_feedback targets eps outs c" and "stable_offers targets eps outs"
  shows "trimmed (feedback_lines c) = [lit ''TARGET'', Target c, lit ''APPLICATION''] @
    (if go_trim (Application c) = [] then [] else [go_trim (Application c)]) @ [lit ''CHANGE'', Operation c] @
    (if go_trim (Text c) = [] then [] else [go_trim (Text c)]) @ [lit ''BASIS''] @ BasisRefs c"
proof -
  have "trimmed (BasisRefs c) = BasisRefs c"
    using offered_refs_stable(1) [OF assms] stableRef_facts by (intro trimmed_id) (auto simp: stableBasisRef_def)
  moreover have "go_trim (Target c) = Target c" "Target c \<noteq> []"
    using offered_refs_stable(2) [OF assms] stableRef_facts by blast+
  moreover have "go_trim (Operation c) = Operation c" "Operation c \<noteq> []"
    using assms(1) by (auto simp: offered_feedback_def)
  ultimately show ?thesis by (simp add: feedback_lines_def)
qed

lemma parse_feedback_block:
  assumes off: "offered_feedback targets eps outs c" and st: "stable_offers targets eps outs"
    and rest: "rest = [] \<or> hd rest = lit ''TARGET''"
    and parse: "parse_block seen (trimmed (feedback_lines c) @ rest) = Some (d, rest')"
  shows "d = trimmed_change c \<and> rest' = rest \<and> offered_feedback targets eps outs d"
proof -
  let ?A = "go_trim (Application c)" and ?X = "go_trim (Text c)"
  note refs = takeWhile_stable_refs [OF offered_refs_stable(1) [OF off st] rest]
  have op: "Operation c \<in> {lit ''TEXT'', lit ''REENACT'', lit ''INHIBIT''}" "Text c \<noteq> [] \<longleftrightarrow> Operation c = lit ''TEXT''"
    "BasisRefs c \<noteq> []" using off by (auto simp: offered_feedback_def)
  have nb: "hd (BasisRefs c) \<noteq> lit ''BASIS''"
    using offered_refs_stable(1) [OF off st] op(3) hd_in_set by (fastforce simp: stableBasisRef_def core_reserved_def)
  obtain r rs where r: "BasisRefs c = r # rs" using op(3) by (cases "BasisRefs c") auto
  note lines = trimmed_feedback_lines [OF off st]
  have A: "?A \<noteq> []"
  proof
    assume "?A = []"
    with parse op(1) show False by (auto simp: lines parse_block_def split: if_splits)
  qed
  consider "Operation c = lit ''TEXT''" "?X = []" | "Operation c = lit ''TEXT''" "?X \<noteq> []"
    | "Operation c \<in> {lit ''REENACT'', lit ''INHIBIT''}" "Text c = []" using op by blast
  then show ?thesis
  proof cases
    case 1
    with parse A nb r show ?thesis
      by (simp add: lines parse_block_def block_operation_def split: if_splits)
  next
    case 2
    with parse A refs have "d = trimmed_change c \<and> rest' = rest"
      by (auto simp: lines parse_block_def block_operation_def trimmed_change_def Let_def split: if_splits)
    moreover have "offered_feedback targets eps outs (trimmed_change c)"
      using off 2 by (simp add: offered_feedback_def trimmed_change_def)
    ultimately show ?thesis by blast
  next
    case 3
    with parse A refs operation_lits have "d = trimmed_change c \<and> rest' = rest"
      by (auto simp: lines parse_block_def block_operation_def trimmed_change_def Let_def split: if_splits)
    moreover have "offered_feedback targets eps outs (trimmed_change c)"
      using off 3 by (simp add: offered_feedback_def trimmed_change_def)
    ultimately show ?thesis by blast
  qed
qed

lemma feedback_lines_hd: "hd (trimmed (feedback_lines c) @ ms) = lit ''TARGET''" "trimmed (feedback_lines c) \<noteq> []"
  by (simp_all add: feedback_lines_def)

lemma parse_feedback_blocks:
  assumes "stable_offers targets eps outs" and "\<forall>c \<in> set cs. offered_feedback targets eps outs c"
    and "parse_blocks seen (concat (map (\<lambda>c. trimmed (feedback_lines c)) cs)) = Some ds"
  shows "ds = map trimmed_change cs \<and> (\<forall>d \<in> set ds. offered_feedback targets eps outs d)"
  using assms(2,3)
proof (induction cs arbitrary: seen ds)
  case Nil
  then show ?case by (simp add: parse_blocks.simps)
next
  case (Cons c cs)
  let ?rest = "concat (map (\<lambda>c. trimmed (feedback_lines c)) cs)"
  have rest: "?rest = [] \<or> hd ?rest = lit ''TARGET''" using feedback_lines_hd(1) by (cases cs) auto
  from Cons.prems(2) obtain d rest' es where d: "parse_block seen (trimmed (feedback_lines c) @ ?rest) = Some (d, rest')"
    and es: "parse_blocks (if Target d \<in> new_targets then seen else insert (Target d) seen) rest' = Some es" "ds = d # es"
    using feedback_lines_hd(2) [of c] by (subst (asm) parse_blocks.simps) (auto split: option.splits)
  from parse_feedback_block [OF _ assms(1) rest d] Cons.prems(1) have "rest' = ?rest" "offered_feedback targets eps outs d" "d = trimmed_change c"
    by auto
  with Cons.IH [of _ es] Cons.prems(1) es show ?case by auto
qed

text \<open>What the Core asks of the two texts of a change that the model chose freely, and of its target.\<close>

definition acceptable_fields :: "change \<Rightarrow> bool" where
  "acceptable_fields c \<longleftrightarrow> Target c \<noteq> lit ''NEW'' \<and> validApplication (go_trim (Application c)) \<and>
     (Operation c = lit ''TEXT'' \<longrightarrow> go_trim (Text c) \<noteq> [] \<and> psize (go_trim (Text c)) \<le> MaxChangeTextBytes)"

lemma acceptable_block:
  assumes off: "offered_feedback targets eps outs c" and st: "stable_offers targets eps outs" and ok: "acceptable_fields c"
  shows "block_of (trimmed (feedback_lines c)) (trimmed_change c)"
proof -
  let ?opl = "Operation c # (if go_trim (Text c) = [] then [] else [go_trim (Text c)])"
  have "operation_lines ?opl (Operation c) (go_trim (Text c))"
    using off ok operation_lits by (auto simp: operation_lines_def offered_feedback_def acceptable_fields_def)
  moreover have "existingStableRef (Target c)"
    using offered_refs_stable(2) [OF off st] ok by (simp add: existingStableRef_def acceptable_fields_def)
  moreover have "validApplication (go_trim (Application c))" using ok by (simp add: acceptable_fields_def)
  moreover from this have "go_trim (Application c) \<noteq> []" by (auto simp: validApplication_def)
  moreover have "BasisRefs c \<noteq> []" "distinct (BasisRefs c)" using off by (simp_all add: offered_feedback_def)
  moreover note offered_refs_stable(1) [OF off st]
  ultimately show ?thesis
    unfolding block_of_def trimmed_feedback_lines [OF off st]
    by (intro conjI exI [of _ ?opl]) (simp_all add: trimmed_change_def)
qed

text \<open>The lines the Core reads of a nonempty normalised answer.\<close>

lemma normalized_feedback_lines:
  assumes "feedback_basis_map window = (eps, outs)" and "stable_offers (set targets) eps outs"
    and "t = normalize_feedback_output text targets window" and "t \<noteq> []"
  obtains cs where "cs \<noteq> []" "t = join_lines (concat (map feedback_lines cs))"
    "\<forall>c \<in> set cs. offered_feedback (set targets) eps outs c"
    "core_lines t = concat (map (\<lambda>c. trimmed (feedback_lines c)) cs)"
proof -
  obtain cs where cs: "cs \<noteq> []" "t = join_lines (concat (map feedback_lines cs))"
    "\<forall>c \<in> set cs. offered_feedback (set targets) eps outs c"
    "\<forall>c \<in> set cs. no_breaks (Application c) \<and> no_breaks (Text c)"
    by (rule normalize_feedback_Some [OF assms(3) [symmetric] assms(4,1)])
  have lines: "no_breaks l" if c: "c \<in> set cs" and l: "l \<in> set (feedback_lines c)" for c l
  proof -
    have off: "offered_feedback (set targets) eps outs c" using cs(3) c by blast
    have "no_breaks (Target c)" "\<forall>r \<in> set (BasisRefs c). no_breaks r"
      using offered_refs_stable [OF off assms(2)] stableRef_no_breaks by (auto simp: stableBasisRef_def)
    moreover have "no_breaks (Operation c)" using off by (auto simp: offered_feedback_def)
    ultimately show ?thesis using l cs(4) c by (auto simp: feedback_lines_def split: if_splits)
  qed
  have "concat (map feedback_lines cs) \<noteq> []" using cs(1) by (cases cs) (simp_all add: feedback_lines_def)
  then have "core_lines (join_lines (concat (map feedback_lines cs))) = trimmed (concat (map feedback_lines cs))"
    using lines no_breaks_no_nl by (intro core_lines_join) auto
  with cs(2) have "core_lines t = concat (map (\<lambda>c. trimmed (feedback_lines c)) cs)"
    by (simp add: trimmed_concat o_def)
  with cs(1-3) show ?thesis by (rule that)
qed

text \<open>
  C5: the authority of normalised feedback. The hypothesis says that the targets and the Episode and Outcome refs
  of the window are refs the Core's parser accepts. Then, whatever text a model returns, its normalisation is
  the layout of a list of changes, each with an eligible target, one of the three feedback operations, and a Basis
  made only of offered Episodes, or of Outcomes together with the offered Episodes they belong to. The Core reads it
  as exactly those changes, or rejects it; it rejects it only when the text exceeds 64 KiB, when a target is named
  twice, or when the application or the text the model wrote for a change is not one the Core accepts.
\<close>

theorem normalize_feedback_authority:
  assumes "feedback_basis_map window = (eps, outs)" and "stable_offers (set targets) eps outs"
    and "t = normalize_feedback_output text targets window"
  shows "\<exists>cs. (\<forall>c \<in> set cs. offered_feedback (set targets) eps outs c) \<and> t = join_lines (concat (map feedback_lines cs)) \<and>
    (case ParseTaggedText t of
       Some ds \<Rightarrow> ds = map trimmed_change cs \<and> (\<forall>d \<in> set ds. offered_feedback (set targets) eps outs d)
     | None \<Rightarrow> MaxTaggedTextBytes < psize t \<or> \<not> distinct (existing cs) \<or> (\<exists>c \<in> set cs. \<not> acceptable_fields c))"
proof (cases "t = []")
  case True
  have "ParseTaggedText [] = Some []" by (simp add: ParseTaggedText_core_lines parse_blocks.simps core_lines_def split_nl_def)
  with True show ?thesis by (intro exI [of _ "[]"]) simp
next
  case False
  obtain cs where cs: "t = join_lines (concat (map feedback_lines cs))" "\<forall>c \<in> set cs. offered_feedback (set targets) eps outs c"
    "core_lines t = concat (map (\<lambda>c. trimmed (feedback_lines c)) cs)"
    by (rule normalized_feedback_lines [OF assms(1,2,3) False])
  let ?blocks = "map (\<lambda>c. trimmed (feedback_lines c)) cs"
  have read: "ds = map trimmed_change cs \<and> (\<forall>d \<in> set ds. offered_feedback (set targets) eps outs d)" if "ParseTaggedText t = Some ds" for ds
    using that parse_feedback_blocks [OF assms(2) cs(2)] cs(3) by (auto simp: ParseTaggedText_core_lines split: if_splits)
  have accepted: "ParseTaggedText t = Some (map trimmed_change cs)"
    if "psize t \<le> MaxTaggedTextBytes" "distinct (existing cs)" "\<forall>c \<in> set cs. acceptable_fields c"
  proof -
    have "list_all2 block_of ?blocks (map trimmed_change cs)"
      using acceptable_block [OF _ assms(2)] cs(2) that(3) by (simp add: list_all2_conv_all_nth)
    moreover have "existing (map trimmed_change cs) = existing cs"
      by (simp add: existing_def trimmed_change_def filter_map o_def)
    ultimately have "parse_blocks {} (concat ?blocks) = Some (map trimmed_change cs)" using that(2) by (intro parse_blocks_of) simp_all
    with that(1) cs(3) show ?thesis by (simp add: ParseTaggedText_core_lines)
  qed
  have "case ParseTaggedText t of
       Some ds \<Rightarrow> ds = map trimmed_change cs \<and> (\<forall>d \<in> set ds. offered_feedback (set targets) eps outs d)
     | None \<Rightarrow> MaxTaggedTextBytes < psize t \<or> \<not> distinct (existing cs) \<or> (\<exists>c \<in> set cs. \<not> acceptable_fields c)"
  proof (cases "ParseTaggedText t")
    case None
    have "MaxTaggedTextBytes < psize t \<or> \<not> distinct (existing cs) \<or> (\<exists>c \<in> set cs. \<not> acceptable_fields c)"
    proof (rule ccontr)
      assume "\<not> (MaxTaggedTextBytes < psize t \<or> \<not> distinct (existing cs) \<or> (\<exists>c \<in> set cs. \<not> acceptable_fields c))"
      then have "psize t \<le> MaxTaggedTextBytes" "distinct (existing cs)" "\<forall>c \<in> set cs. acceptable_fields c" by auto
      from accepted [OF this] None show False by simp
    qed
    with None show ?thesis by simp
  next
    case (Some ds)
    with read show ?thesis by simp
  qed
  with cs(1,2) show ?thesis by blast
qed

section \<open>An answer that grows\<close>

definition example_window :: "pystr \<Rightarrow> pystr" where
  "example_window e = join_lines [lit ''FEEDBACK_EPISODE '' @ e, lit ''FEEDBACK_OUTCOME o1'', lit ''OUTCOME_EPISODE '' @ e]"

definition example_feedback :: pystr where
  "example_feedback = join_lines [lit ''TARGET'', lit ''d1'', lit ''APPLICATION'', lit ''SELF'', lit ''CHANGE'',
     lit ''INHIBIT'', lit ''BASIS'', lit ''o1'']"

definition example_normalized :: "pystr \<Rightarrow> change" where
  "example_normalized e = \<lparr>Target = lit ''d1'', Application = lit ''SELF'', Operation = lit ''INHIBIT'', Text = [],
     BasisRefs = [e, lit ''o1'']\<rparr>"

abbreviation plain_ref :: "pystr \<Rightarrow> bool" where
  "plain_ref e \<equiv> e \<noteq> [] \<and> (\<forall>c \<in> set e. 32 < c \<and> c < 127)"

lemma plain_ref_facts:
  assumes "plain_ref e"
  shows "strip e = e" "no_breaks e" "strip3 e = e" "stableRef e" "strip3 (c # s @ e) = c # s @ e \<or> blank3 c"
    and "no_breaks (s @ e) \<longleftrightarrow> no_breaks s"
proof -
  show "strip e = e" unfolding strip_def using assms by (intro strip_on_none) (auto simp: py_isspace_def)
  show nb: "no_breaks e" using assms by (auto simp: no_breaks_def py_linebreak_def)
  then show "no_breaks (s @ e) \<longleftrightarrow> no_breaks s" by simp
  show "strip3 e = e" using assms by (intro strip3_no_blank) (auto simp: blank3_def)
  show "stableRef e" using assms by (auto simp: stableRef_def go_space_def py_control_def)
  have "32 < last e" using assms last_in_set [of e] by blast
  then have "\<not> blank3 (last e)" by (simp add: blank3_def)
  then show "strip3 (c # s @ e) = c # s @ e \<or> blank3 c"
    unfolding strip3_def using assms by (intro disjCI strip_on_id) auto
qed

lemma example_window_map:
  assumes "plain_ref e"
  shows "feedback_basis_map (example_window e) = ({e}, [lit ''o1'' \<mapsto> e])"
proof -
  note e = plain_ref_facts [OF assms]
  let ?ls = "[lit ''FEEDBACK_EPISODE '' @ e, lit ''FEEDBACK_OUTCOME o1'', lit ''OUTCOME_EPISODE '' @ e]"
  have nb: "\<forall>l \<in> set ?ls. no_breaks l" using e(2) by (simp add: lit_def py_linebreak_def)
  have "splitlines (example_window e) = ?ls"
    unfolding example_window_def splitlines_join [OF nb] using assms by simp
  moreover have s3: "strip3 (lit ''FEEDBACK_EPISODE '' @ e) = lit ''FEEDBACK_EPISODE '' @ e"
    "strip3 (lit ''FEEDBACK_OUTCOME o1'') = lit ''FEEDBACK_OUTCOME o1''"
    "strip3 (lit ''OUTCOME_EPISODE '' @ e) = lit ''OUTCOME_EPISODE '' @ e"
    using e(5) [of "of_char CHR ''F''" "lit ''EEDBACK_EPISODE ''"] e(5) [of "of_char CHR ''O''" "lit ''UTCOME_EPISODE ''"]
    by (auto simp: lit_def blank3_def strip3_def strip_on_def rstrip_on_def)
  moreover have "\<not> startswith (lit ''FEEDBACK_OUTCOME o1'') (lit ''FEEDBACK_EPISODE '')"
    "\<not> startswith (lit ''OUTCOME_EPISODE '' @ e) (lit ''FEEDBACK_EPISODE '')"
    "\<not> startswith (lit ''OUTCOME_EPISODE '' @ e) (lit ''FEEDBACK_OUTCOME '')"
    "\<not> startswith (lit ''FEEDBACK_EPISODE '' @ e) (lit ''FEEDBACK_OUTCOME '')"
    by (simp_all add: startswith_def lit_def)
  moreover have "lit ''FEEDBACK_OUTCOME o1'' = lit ''FEEDBACK_OUTCOME '' @ lit ''o1''" by (simp flip: lit_append)
  moreover have "strip (lit ''o1'') = lit ''o1''" by (simp add: body_eval)
  ultimately show ?thesis
    using assms e(1) by (simp add: feedback_basis_map_def feedback_episodes_def Let_def del: set_filter set_map)
qed

lemma example_refs [simp]:
  "strip3 (lit ''d1'') = lit ''d1''" "strip3 (lit ''o1'') = lit ''o1''" "strip3 (lit ''SELF'') = lit ''SELF''"
  "strip3 (lit ''INHIBIT'') = lit ''INHIBIT''" "no_breaks (lit ''d1'')" "no_breaks (lit ''o1'')"
  by (simp_all add: strip3_no_blank blank3_def lit_def py_linebreak_def)

lemma example_normalize:
  assumes "plain_ref e" and "e \<noteq> lit ''o1''"
  shows "normalize_feedback_output example_feedback [lit ''d1''] (example_window e) =
    join_lines (feedback_lines (example_normalized e))"
proof -
  let ?ls = "[lit ''TARGET'', lit ''d1'', lit ''APPLICATION'', lit ''SELF'', lit ''CHANGE'',
     lit ''INHIBIT'', lit ''BASIS'', lit ''o1'']"
  have nb: "\<forall>l \<in> set ?ls. no_breaks l" by simp
  have lines: "lines3 example_feedback = ?ls"
    unfolding lines3_def example_feedback_def splitlines_join [OF nb] by simp
  have "feedback_basis {e} [lit ''o1'' \<mapsto> e] (lit ''INHIBIT'') [lit ''o1''] = Some [e, lit ''o1'']"
    using assms by (simp add: feedback_basis_def ordered_unique_def uniq_def)
  then have "feedback_block {lit ''d1''} {e} [lit ''o1'' \<mapsto> e] ?ls = Some (feedback_lines (example_normalized e), [])"
    by (simp add: feedback_block_def feedback_operation_def feedback_lines_def example_normalized_def Let_def)
  then have "feedback_blocks {lit ''d1''} {e} [lit ''o1'' \<mapsto> e] ?ls = Some (feedback_lines (example_normalized e))"
    by (simp add: feedback_blocks.simps)
  then show ?thesis
    by (simp add: normalize_feedback_output_def example_window_map [OF assms(1)] lines)
qed

theorem normalize_feedback_authority_witness:
  "ParseTaggedText (normalize_feedback_output example_feedback [lit ''d1''] (example_window (lit ''e1''))) =
     Some [example_normalized (lit ''e1'')] \<and>
   offered_feedback {lit ''d1''} {lit ''e1''} [lit ''o1'' \<mapsto> lit ''e1''] (example_normalized (lit ''e1''))"
proof -
  have e: "plain_ref (lit ''e1'')" "lit ''e1'' \<noteq> lit ''o1''" by (auto simp: lit_def)
  have o1: "stableBasisRef (lit ''o1'')" "stableRef (lit ''d1'')"
    by (auto simp: stableBasisRef_def stableRef_def core_reserved_def go_space_def py_control_def lit_def)
  have off: "stable_offers (set [lit ''d1'']) {lit ''e1''} [lit ''o1'' \<mapsto> lit ''e1'']"
    using o1 example_ref by (auto simp: stable_offers_def split: if_splits)
  let ?t = "normalize_feedback_output example_feedback [lit ''d1''] (example_window (lit ''e1''))"
  have d1: "go_trim (lit ''d1'') = lit ''d1''" "go_trim (lit ''o1'') = lit ''o1''"
    using o1 stableRef_facts(2) by (auto simp: stableBasisRef_def)
  have "core_lines ?t = feedback_lines (example_normalized (lit ''e1''))"
    unfolding example_normalize [OF e]
    by (rule core_lines_of_lines) (simp add: feedback_lines_def example_normalized_def d1)
  moreover have "feedback_lines (example_normalized (lit ''e1'')) =
      [lit ''TARGET'', lit ''d1'', lit ''APPLICATION'', lit ''SELF'', lit ''CHANGE''] @ [lit ''INHIBIT''] @
      lit ''BASIS'' # [lit ''e1'', lit ''o1'']" by (simp add: feedback_lines_def example_normalized_def)
  moreover have "block_of \<dots> (example_normalized (lit ''e1''))"
    unfolding example_normalized_def using o1 example_ref e(2)
    by (intro block_ofI) (simp_all add: operation_lines_def operation_lits existingStableRef_def validApplication_def)
  ultimately have "parse_blocks {} (core_lines ?t) = Some [example_normalized (lit ''e1'')]"
    using parse_blocks_of [of "[feedback_lines (example_normalized (lit ''e1''))]" "[example_normalized (lit ''e1'')]" "{}"] by simp
  moreover have "psize ?t \<le> MaxTaggedTextBytes"
    unfolding example_normalize [OF e] by (simp add: feedback_lines_def example_normalized_def MaxTaggedTextBytes_def lit_def)
  ultimately have parsed: "ParseTaggedText ?t = Some [example_normalized (lit ''e1'')]" by (simp add: ParseTaggedText_core_lines)
  with normalize_feedback_authority [OF example_window_map [OF e(1)] off refl, of example_feedback] show ?thesis by auto
qed

end
