(* ===== verification/Py_Effects.thy ===== *)
theory Py_Effects
  imports Prelude
begin

text \<open>
  Code that talks to the outside: a computation takes the state of its collaborators and gives a result
  or an exception with the state after it. The handler of the worker, the SDK and the evaluation
  harness are such computations. Where the calls they make matter, the state is paired with the log of
  those calls, and \<open>traces\<close> states which logs a computation can add and with which result; \<open>adds\<close> bounds what is
  added whatever the result, and \<open>keeps\<close> says that a part of the state is left alone.
\<close>

section \<open>Computations with a state\<close>

type_synonym ('s, 'a) io = "'s \<Rightarrow> 'a result \<times> 's"

definition pure_call :: "'a result \<Rightarrow> ('s, 'a) io" where
  "pure_call r st = (r, st)"

definition bind_call :: "('s, 'a) io \<Rightarrow> ('a \<Rightarrow> ('s, 'b) io) \<Rightarrow> ('s, 'b) io" where
  "bind_call m f st = (case m st of (Inl e, st') \<Rightarrow> (Inl e, st') | (Inr x, st') \<Rightarrow> f x st')"

text \<open>\<open>for x in xs: body\<close>.\<close>

fun for_each :: "('a \<Rightarrow> ('s, unit) io) \<Rightarrow> 'a list \<Rightarrow> ('s, unit) io" where
  "for_each f [] = pure_call (Inr ())"
| "for_each f (x # xs) = bind_call (f x) (\<lambda>_. for_each f xs)"

lemma bind_call_Inr:
  "bind_call m f st = (Inr y, st') \<longleftrightarrow> (\<exists>x st1. m st = (Inr x, st1) \<and> f x st1 = (Inr y, st'))"
  by (auto simp: bind_call_def split: prod.splits sum.splits)

lemma bind_call_assoc: "bind_call (bind_call m f) g = bind_call m (\<lambda>x. bind_call (f x) g)"
  by (auto simp: bind_call_def fun_eq_iff split: prod.splits sum.splits)

lemma pure_call_Inr [simp]: "pure_call r st = (Inr y, st') \<longleftrightarrow> r = Inr y \<and> st' = st"
  by (auto simp: pure_call_def)

section \<open>Logged calls\<close>

text \<open>A call to a collaborator with state \<open>'w\<close>, noted in the log with its result.\<close>

definition logged :: "('a result \<Rightarrow> 'e) \<Rightarrow> ('w, 'a) io \<Rightarrow> ('w \<times> 'e list, 'a) io" where
  "logged event op st = (case op (fst st) of (r, w) \<Rightarrow> (r, w, snd st @ [event r]))"

definition traces :: "('w \<times> 'e list, 'a) io \<Rightarrow> ('e list \<Rightarrow> 'a result \<Rightarrow> bool) \<Rightarrow> bool" where
  "traces m R \<longleftrightarrow> (\<forall>w log. \<exists>r w' es. m (w, log) = (r, w', log @ es) \<and> R es r)"

lemma tracesD: "traces m R \<Longrightarrow> m (w, log) = (r, w', log') \<Longrightarrow> \<exists>es. log' = log @ es \<and> R es r"
proof -
  assume "traces m R" and m: "m (w, log) = (r, w', log')"
  then obtain r2 w2 es where "m (w, log) = (r2, w2, log @ es)" "R es r2" unfolding traces_def by blast
  with m show ?thesis by auto
qed

lemma traces_pure: "R [] r \<Longrightarrow> traces (pure_call r) R"
  by (auto simp: traces_def pure_call_def)

lemma traces_logged: "(\<And>r. R [e r] r) \<Longrightarrow> traces (logged e op) R"
  by (auto simp: traces_def logged_def split: prod.splits)

lemma traces_conseq: "traces m R \<Longrightarrow> (\<And>es r. R es r \<Longrightarrow> S es r) \<Longrightarrow> traces m S"
  unfolding traces_def by blast

lemma traces_bind:
  assumes "traces m R" and "\<And>es e. R es (Inl e) \<Longrightarrow> S es (Inl e)"
    and "\<And>es x. R es (Inr x) \<Longrightarrow> traces (f x) (\<lambda>fs r. S (es @ fs) r)"
  shows "traces (bind_call m f) S"
  unfolding traces_def
proof (intro allI)
  fix w log
  obtain r w' es where m: "m (w, log) = (r, w', log @ es)" "R es r"
    using assms(1) unfolding traces_def by blast
  show "\<exists>r w' es. bind_call m f (w, log) = (r, w', log @ es) \<and> S es r"
  proof (cases r)
    case (Inl e)
    with m assms(2) show ?thesis by (intro exI) (auto simp: bind_call_def)
  next
    case (Inr x)
    with assms(3) m obtain r2 w2 fs where "f x (w', log @ es) = (r2, w2, (log @ es) @ fs)" "S (es @ fs) r2"
      unfolding traces_def by blast
    with m Inr show ?thesis by (intro exI [of _ r2] exI [of _ w2] exI [of _ "es @ fs"]) (simp add: bind_call_def)
  qed
qed

text \<open>The usual case: the next call, then the rest.\<close>

lemma traces_bind_pure: "(\<And>e. r = Inl e \<Longrightarrow> S [] (Inl e)) \<Longrightarrow> (\<And>x. r = Inr x \<Longrightarrow> traces (f x) S) \<Longrightarrow>
    traces (bind_call (pure_call r) f) S"
  by (rule traces_bind [where R = "\<lambda>es r'. es = [] \<and> r' = r"]) (auto intro: traces_pure)

lemma traces_bind_logged: "(\<And>err. S [e (Inl err)] (Inl err)) \<Longrightarrow> (\<And>x. traces (f x) (\<lambda>fs r. S (e (Inr x) # fs) r)) \<Longrightarrow>
    traces (bind_call (logged e op) f) S"
  by (rule traces_bind [where R = "\<lambda>es r. es = [e r]"]) (auto intro: traces_logged)

lemma traces_if: "(c \<Longrightarrow> traces a R) \<Longrightarrow> (\<not> c \<Longrightarrow> traces b R) \<Longrightarrow> traces (if c then a else b) R"
  by simp

lemma traces_option: "(x = None \<Longrightarrow> traces a R) \<Longrightarrow> (\<And>y. x = Some y \<Longrightarrow> traces (f y) R) \<Longrightarrow>
    traces (case x of None \<Rightarrow> a | Some y \<Rightarrow> f y) R"
  by (cases x) simp_all

lemma traces_all_bind:
  assumes "traces m (\<lambda>es r. list_all P es)" and "\<And>x. traces (f x) (\<lambda>es r. list_all P es)"
  shows "traces (bind_call m f) (\<lambda>es r. list_all P es)"
proof (rule traces_bind [OF assms(1)])
  fix es x assume "list_all P es"
  then show "traces (f x) (\<lambda>fs r. list_all P (es @ fs))" by (intro traces_conseq [OF assms(2)]) simp
qed

section \<open>What a computation adds to a log\<close>

text \<open>Through \<open>view\<close> the state shows a log; a computation adds only entries that satisfy \<open>P\<close>, at most \<open>n\<close> of
  them of the kind \<open>Q\<close>, whatever its result.\<close>

definition adds :: "('s \<Rightarrow> 'e list) \<Rightarrow> ('e \<Rightarrow> bool) \<Rightarrow> ('e \<Rightarrow> bool) \<Rightarrow> nat \<Rightarrow> ('s, 'a) io \<Rightarrow> bool" where
  "adds view P Q n m \<longleftrightarrow> (\<forall>st. \<exists>es. view (snd (m st)) = view st @ es \<and> list_all P es \<and> length (filter Q es) \<le> n)"

lemma adds_pure: "adds view P Q n (pure_call r)"
  by (simp add: adds_def pure_call_def exI [of _ "[]"])

lemma adds_bind:
  assumes "adds view P Q i m" and "\<And>x st st'. m st = (Inr x, st') \<Longrightarrow> adds view P Q j (f x)"
  shows "adds view P Q (i + j) (bind_call m f)"
  unfolding adds_def
proof
  fix st
  obtain es where es: "view (snd (m st)) = view st @ es" "list_all P es" "length (filter Q es) \<le> i"
    using assms(1) unfolding adds_def by blast
  obtain r st' where m: "m st = (r, st')" by (cases "m st")
  show "\<exists>es. view (snd (bind_call m f st)) = view st @ es \<and> list_all P es \<and> length (filter Q es) \<le> i + j"
  proof (cases r)
    case (Inl e)
    with m es show ?thesis by (intro exI [of _ es]) (simp add: bind_call_def)
  next
    case (Inr x)
    with m assms(2) obtain fs where "view (snd (f x st')) = view st' @ fs" "list_all P fs" "length (filter Q fs) \<le> j"
      unfolding adds_def by blast
    with m Inr es show ?thesis by (intro exI [of _ "es @ fs"]) (simp add: bind_call_def)
  qed
qed

lemma adds_mono: "adds view P Q i m \<Longrightarrow> i \<le> j \<Longrightarrow> adds view P Q j m"
  unfolding adds_def by (meson order_trans)

lemma adds_then: "adds view P Q n m \<Longrightarrow> (\<And>x. adds view P Q 0 (f x)) \<Longrightarrow> adds view P Q n (bind_call m f)"
  using adds_bind [of view P Q n m 0 f] by simp

lemma adds_after_pure: "(\<And>x. r = Inr x \<Longrightarrow> adds view P Q n (f x)) \<Longrightarrow> adds view P Q n (bind_call (pure_call r) f)"
  using adds_bind [of view P Q 0 "pure_call r" n f] by (auto simp: adds_pure)

lemma adds_if: "(c \<Longrightarrow> adds view P Q n a) \<Longrightarrow> (\<not> c \<Longrightarrow> adds view P Q n b) \<Longrightarrow> adds view P Q n (if c then a else b)"
  by simp

text \<open>The log of a collaborator, seen from the caller that logs its calls to it.\<close>

lemma adds_logged: "adds view P Q n op \<Longrightarrow> adds (\<lambda>st. view (fst st)) P Q n (logged e op)"
  unfolding adds_def logged_def by (auto split: prod.splits) (metis snd_conv)

section \<open>What a computation leaves alone\<close>

text \<open>Computations that leave a part of the state alone, whatever their result.\<close>

definition keeps :: "('s \<Rightarrow> 'v) \<Rightarrow> ('s, 'a) io \<Rightarrow> bool" where
  "keeps view m \<longleftrightarrow> (\<forall>st. view (snd (m st)) = view st)"

lemma keeps_pure: "keeps view (pure_call r)"
  by (simp add: keeps_def pure_call_def)

lemma keeps_bind: "keeps view m \<Longrightarrow> (\<And>x. keeps view (f x)) \<Longrightarrow> keeps view (bind_call m f)"
  unfolding keeps_def bind_call_def by (auto split: prod.splits sum.splits) (metis snd_conv)+

lemma keeps_for_each: "(\<And>x. keeps view (f x)) \<Longrightarrow> keeps view (for_each f xs)"
  by (induction xs) (auto intro: keeps_pure keeps_bind)

lemma keeps_if: "keeps view a \<Longrightarrow> keeps view b \<Longrightarrow> keeps view (if c then a else b)"
  by simp

lemma keeps_option: "keeps view a \<Longrightarrow> (\<And>x. keeps view (f x)) \<Longrightarrow> keeps view (case z of None \<Rightarrow> a | Some x \<Rightarrow> f x)"
  by (cases z) simp_all

lemma keeps_prod: "(\<And>x y. keeps view (f x y)) \<Longrightarrow> keeps view (case z of (x, y) \<Rightarrow> f x y)"
  by (cases z) simp

lemma keeps_Let: "keeps view (f x) \<Longrightarrow> keeps view (let y = x in f y)"
  by simp

lemmas keeps_rules = keeps_pure keeps_bind keeps_for_each keeps_if keeps_option keeps_prod keeps_Let

end
