(* ===== verification/Worker_Service.thy ===== *)
theory Worker_Service
  imports Feedback Py_Effects
begin

text \<open>
  The RPC of src/worker/python/src/memory_core_worker/service.py: the texts sent to the model, the
  handler \<open>ProcessConsolidationWindow\<close> and its two focused recovery calls. The model behind
  \<open>TextModel\<close> is a parameter: a function of the prompt and of a state of its own, whose reply is a
  string, a value of another type, or an exception. The handler threads that state and the list of
  the prompts it has sent, so that what is sent and how often can be stated.
\<close>

section \<open>Calls to the text model\<close>

datatype reply = Answer pystr | NotText | Raises pystr

type_synonym 'w text_model = "pystr \<Rightarrow> 'w \<Rightarrow> reply \<times> 'w"

type_synonym ('w, 'a) call = "('w \<times> pystr list, 'a) io"

text \<open>\<open>await self._model.complete(prompt)\<close> with the type check that follows every call.\<close>

definition complete_text :: "'w text_model \<Rightarrow> pystr \<Rightarrow> ('w, pystr) call" where
  "complete_text complete prompt st =
     (case complete prompt (fst st) of
        (Answer t, w) \<Rightarrow> (Inr t, w, snd st @ [prompt])
      | (NotText, w) \<Rightarrow> (Inl (TypeError (lit ''TextModel.complete() must return str'')), w, snd st @ [prompt])
      | (Raises e, w) \<Rightarrow> (Inl (RaisedBy e), w, snd st @ [prompt]))"

section \<open>The texts sent to the model\<close>

definition tagged_values :: "pystr \<Rightarrow> pystr list \<Rightarrow> pystr list" where
  "tagged_values tag values = concat (map (\<lambda>v. [tag, v]) values)"

definition build_model_input :: "pystr \<Rightarrow> pystr list \<Rightarrow> pystr list \<Rightarrow> pystr" where
  "build_model_input window target_refs basis_refs =
     join_lines ([RULES, lit ''ALLOWED_TARGETS_BEGIN''] @ tagged_values (lit ''ALLOWED_TARGET'') target_refs @
       [lit ''ALLOWED_TARGETS_END'', lit ''ALLOWED_BASIS_BEGIN''] @ tagged_values (lit ''ALLOWED_BASIS'') basis_refs @
       [lit ''ALLOWED_BASIS_END'', lit ''WINDOW_BEGIN'', window, lit ''WINDOW_END'', FINAL_CHECK])"

definition build_feedback_input :: "pystr \<Rightarrow> pystr list \<Rightarrow> pystr list \<Rightarrow> pystr" where
  "build_feedback_input window target_refs basis_refs =
     join_lines ([FEEDBACK_RULES, lit ''ALLOWED_TARGETS_BEGIN''] @ tagged_values (lit ''ALLOWED_TARGET'') target_refs @
       [lit ''ALLOWED_TARGETS_END'', lit ''ALLOWED_BASIS_BEGIN''] @ tagged_values (lit ''ALLOWED_BASIS'') basis_refs @
       [lit ''ALLOWED_BASIS_END'', lit ''WINDOW_BEGIN'', window, lit ''WINDOW_END''])"

definition build_recollection_input :: "recollection_material list \<Rightarrow> pystr result" where
  "build_recollection_input values =
     (if values = [] then Inl (ValueError (lit ''at least one Recollection material is required''))
      else let existing_texts = rm_existing_recollections (values ! 0) in
        if \<exists>v \<in> set values. rm_existing_recollections v \<noteq> existing_texts
        then Inl (ValueError (lit ''Recollection materials must share existing memory''))
        else Inr (join_lines ([RECOLLECTION_RULES, lit ''EXISTING_RECOLLECTIONS_BEGIN''] @
          (if existing_texts \<noteq> [] then concat (map quote_lines existing_texts) else [lit ''NONE'']) @
          [lit ''EXISTING_RECOLLECTIONS_END'', lit ''CURRENT_USER_SOURCES_BEGIN''] @
          concat (map (\<lambda>v. quote_lines (rm_text v) @ [[]]) values) @ [lit ''CURRENT_USER_SOURCES_END''])))"

section \<open>The handler\<close>

text \<open>What the handler does to the first answer before any other call.\<close>

definition clean_primary :: "window_request \<Rightarrow> pystr \<Rightarrow> pystr result" where
  "clean_primary request answer =
     (let t = (if strip answer = NO_CHANGE_TOKEN then [] else answer);
          t = split_copied_inline_application t (allowed_target_refs request);
          t = restore_initial_new_target t (allowed_target_refs request) in
      bindr (encode_len t) (\<lambda>n.
        let t = (if MAX_TAGGED_TEXT_BYTES < n then [] else t);
            t = deduplicate_basis t (allowed_basis_refs request) in
        Inr (remove_new_disposition_changes t {lit ''ADAPT''})))"

text \<open>The formation call, for a window with one anchor.\<close>

definition formation_step :: "'w text_model \<Rightarrow> nat \<Rightarrow> window_request \<Rightarrow> pystr \<Rightarrow> ('w, pystr) call" where
  "formation_step complete max_bytes request tagged_text =
     bind_call (pure_call (case disposition_formation_material request of
          None \<Rightarrow> Inr None
        | Some m \<Rightarrow> bindr (encode_len (build_disposition_formation_input m)) (\<lambda>n.
            Inr (if max_bytes < n then None else Some m)))) (\<lambda>material.
      if \<not> has_disposition_formation_anchor request then pure_call (Inr tagged_text)
      else let tagged_text = remove_new_disposition_changes tagged_text {lit ''TEXT''} in
        case material of None \<Rightarrow> pure_call (Inr tagged_text)
        | Some m \<Rightarrow>
            bind_call (complete_text complete (build_disposition_formation_input m)) (\<lambda>body.
            pure_call (bindr (bind_disposition m body) (append_tagged_text tagged_text))))"

definition normalize_primary :: "window_request \<Rightarrow> pystr \<Rightarrow> pystr" where
  "normalize_primary request tagged_text =
     (let feedback_targets = eligible_feedback_targets (window_text request) (allowed_target_refs request) in
      if feedback_targets \<noteq> [] \<and> contains_only_target_blocks tagged_text feedback_targets
      then normalize_feedback_output tagged_text feedback_targets (window_text request) else tagged_text)"

definition recover_missing_feedback :: "'w text_model \<Rightarrow> window_request \<Rightarrow> pystr \<Rightarrow> ('w, pystr) call" where
  "recover_missing_feedback complete request primary_text =
     (let targets = eligible_feedback_targets (window_text request) (allowed_target_refs request) in
      if targets = [] \<or> contains_target_block primary_text targets then pure_call (Inr primary_text)
      else let basis_refs = eligible_feedback_basis_refs (window_text request) (allowed_basis_refs request) in
        if basis_refs = [] then pure_call (Inr primary_text)
        else bind_call (complete_text complete (build_feedback_input (window_text request) targets basis_refs)) (\<lambda>feedback.
          if strip feedback = NO_CHANGE_TOKEN then pure_call (Inr primary_text)
          else let feedback = normalize_feedback_output feedback targets (window_text request) in
            if feedback = [] then pure_call (Inr primary_text)
            else let combined = (if primary_text = [] then feedback else rstrip primary_text @ [10] @ feedback) in
              pure_call (bindr (encode_len combined) (\<lambda>n.
                if MAX_TAGGED_TEXT_BYTES < n then Inr primary_text else Inr combined))))"

text \<open>\<open>try: ... except (TypeError, ValueError): return primary_text\<close>, as an optional value.\<close>

definition caught :: "'a result \<Rightarrow> 'a option result" where
  "caught r = (case r of Inr x \<Rightarrow> Inr (Some x) | Inl e \<Rightarrow> if type_or_value_error e then Inr None else Inl e)"

text \<open>Binding the answer of the recollection call and appending what it gives.\<close>

definition append_recollections :: "pystr \<Rightarrow> pystr list \<Rightarrow> pystr result" where
  "append_recollections primary_text blocks =
     (if blocks = [] then Inr primary_text
      else let appended = join_lines blocks;
               combined = (if primary_text = [] then appended else rstrip primary_text @ [10] @ appended) in
        bindr (encode_len combined) (\<lambda>n.
          if MAX_TAGGED_TEXT_BYTES < n then Inr primary_text else Inr combined))"

definition bind_recollection_reply :: "recollection_material \<Rightarrow> pystr \<Rightarrow> pystr \<Rightarrow> pystr result" where
  "bind_recollection_reply m primary_text body =
     bindr (caught (bind_plain_recollections m body)) (\<lambda>bound.
       case bound of None \<Rightarrow> Inr primary_text
       | Some blocks \<Rightarrow> append_recollections primary_text blocks)"

definition append_plain_recollection :: "'w text_model \<Rightarrow> nat \<Rightarrow> window_request \<Rightarrow> pystr \<Rightarrow> ('w, pystr) call" where
  "append_plain_recollection complete max_bytes request primary_text =
     bind_call (pure_call (caught (recollection_materials request))) (\<lambda>materials.
      case materials of None \<Rightarrow> pure_call (Inr primary_text)
      | Some ms \<Rightarrow>
          if ms = [] then pure_call (Inr primary_text)
          else bind_call (pure_call (build_recollection_input ms)) (\<lambda>model_input.
            bind_call (pure_call (encode_len model_input)) (\<lambda>n.
            if max_bytes < n then pure_call (Inr primary_text)
            else bind_call (complete_text complete model_input) (\<lambda>body.
              pure_call (bind_recollection_reply (ms ! 0) primary_text body)))))"

definition ProcessConsolidationWindow :: "'w text_model \<Rightarrow> nat \<Rightarrow> window_request \<Rightarrow> ('w, pystr) call" where
  "ProcessConsolidationWindow complete max_bytes request =
     (let model_input = build_model_input (window_text request) (allowed_target_refs request) (allowed_basis_refs request) in
      bind_call (pure_call (encode_len model_input)) (\<lambda>n.
      if max_bytes < n then pure_call (Inr [])
      else bind_call (complete_text complete model_input) (\<lambda>answer.
        bind_call (pure_call (clean_primary request answer)) (\<lambda>tagged_text.
        bind_call (formation_step complete max_bytes request tagged_text) (\<lambda>tagged_text.
        bind_call (recover_missing_feedback complete request (normalize_primary request tagged_text)) (\<lambda>tagged_text.
        if should_process_recollection request tagged_text
        then append_plain_recollection complete max_bytes request tagged_text
        else pure_call (Inr tagged_text)))))))"

text \<open>The constructor \<open>InferenceService.__init__\<close>: the service with its bound.\<close>

definition inference_service :: "'w text_model \<Rightarrow> int \<Rightarrow> (window_request \<Rightarrow> ('w, pystr) call) result" where
  "inference_service complete max_model_input_bytes =
     (if max_model_input_bytes \<le> 0 then Inl (ValueError (lit ''max_model_input_bytes must be positive''))
      else Inr (ProcessConsolidationWindow complete (nat max_model_input_bytes)))"

section \<open>What is sent to the model\<close>

text \<open>A call sends at most \<open>n\<close> prompts, all of which satisfy \<open>P\<close>, whatever its outcome.\<close>

definition sends :: "(pystr \<Rightarrow> bool) \<Rightarrow> nat \<Rightarrow> ('w, 'a) call \<Rightarrow> bool" where
  "sends P n m \<longleftrightarrow> adds snd P (\<lambda>_. True) n m"

lemma sends_pure: "sends P n (pure_call r)"
  by (simp add: sends_def adds_pure)

lemma sends_complete: "P prompt \<Longrightarrow> sends P (Suc n) (complete_text complete prompt)"
  by (auto simp: sends_def adds_def complete_text_def split: prod.splits reply.splits)

lemma sends_bind: "sends P i m \<Longrightarrow> (\<And>x. sends P j (f x)) \<Longrightarrow> sends P (i + j) (bind_call m f)"
  unfolding sends_def by (rule adds_bind)

lemma sends_bind_pure: "(\<And>x. r = Inr x \<Longrightarrow> sends P j (f x)) \<Longrightarrow> sends P j (bind_call (pure_call r) f)"
  unfolding sends_def by (rule adds_after_pure)

lemma sends_mono: "sends P i m \<Longrightarrow> i \<le> j \<Longrightarrow> sends P j m"
  unfolding sends_def by (rule adds_mono)

lemma sends_then_pure: "sends P n m \<Longrightarrow> (\<And>x. sends P 0 (f x)) \<Longrightarrow> sends P n (bind_call m f)"
  unfolding sends_def by (rule adds_then)

lemma encode_len_psize: "encode_len s = Inr n \<Longrightarrow> n = psize s"
  by (simp add: encode_len_def split: if_splits)

lemma sends_complete_bounded:
  "encode_len prompt = Inr n \<Longrightarrow> \<not> max_bytes < n \<Longrightarrow> sends (\<lambda>p. psize p \<le> max_bytes) 1 (complete_text complete prompt)"
  unfolding One_nat_def by (rule sends_complete) (auto dest: encode_len_psize)

lemma formation_step_sends: "sends (\<lambda>p. psize p \<le> max_bytes) 1 (formation_step complete max_bytes request t)"
  unfolding formation_step_def
proof (intro sends_bind_pure)
  fix material assume mat: "(case disposition_formation_material request of None \<Rightarrow> Inr None
      | Some m \<Rightarrow> bindr (encode_len (build_disposition_formation_input m))
          (\<lambda>n. Inr (if max_bytes < n then None else Some m))) = Inr material"
  have "psize (build_disposition_formation_input m) \<le> max_bytes" if "material = Some m" for m
    using mat that by (auto simp: bindr_Inr_iff dest: encode_len_psize split: option.splits if_splits)
  then have "sends (\<lambda>p. psize p \<le> max_bytes) 1
      (bind_call (complete_text complete (build_disposition_formation_input m)) f)"
    if "material = Some m" "\<And>b. sends (\<lambda>p. psize p \<le> max_bytes) 0 (f b)" for m and f :: "pystr \<Rightarrow> ('a, pystr) call"
    using that by (intro sends_then_pure) (simp_all add: sends_complete)
  then show "sends (\<lambda>p. psize p \<le> max_bytes) 1
      (if \<not> has_disposition_formation_anchor request then pure_call (Inr t)
       else let tagged_text = remove_new_disposition_changes t {lit ''TEXT''} in
         case material of None \<Rightarrow> pure_call (Inr tagged_text)
         | Some m \<Rightarrow> bind_call (complete_text complete (build_disposition_formation_input m)) (\<lambda>body.
             pure_call (bindr (bind_disposition m body) (append_tagged_text tagged_text))))"
    by (auto simp: Let_def sends_pure split: option.splits)
qed

lemma append_plain_recollection_sends:
  "sends (\<lambda>p. psize p \<le> max_bytes) 1 (append_plain_recollection complete max_bytes request t)"
  unfolding append_plain_recollection_def
  by (intro sends_bind_pure)
    (auto intro!: sends_bind_pure sends_pure sends_then_pure intro: sends_complete_bounded
      simp: Let_def simp del: One_nat_def split: option.splits)

subsection \<open>The feedback prompt is bounded by the first prompt\<close>

lemma sum_list_subset_le:
  fixes f :: "'a \<Rightarrow> nat"
  assumes "distinct xs" and "set xs \<subseteq> set ys"
  shows "sum_list (map f xs) \<le> sum_list (map f ys)"
proof -
  have "sum_list (map f xs) = sum f (set xs)" using assms(1) by (simp add: sum_list_distinct_conv_sum_set)
  also have "\<dots> \<le> sum f (set ys)" using assms(2) by (intro sum_mono2) auto
  also have "\<dots> \<le> sum_list (map f ys)"
  proof (induction ys)
    case (Cons y ys)
    then show ?case by (cases "y \<in> set ys") (auto simp: insert_absorb)
  qed simp
  finally show ?thesis .
qed

lemma sum_tagged_values:
  "sum_list (map f (tagged_values tag vs)) = sum_list (map (\<lambda>v. f tag + f v) vs)" for f :: "pystr \<Rightarrow> nat"
  by (induction vs) (simp_all add: tagged_values_def)

lemma eligible_targets_subset: "set (eligible_feedback_targets window allowed) \<subseteq> set allowed"
  and eligible_targets_distinct: "distinct (eligible_feedback_targets window allowed)"
  by (auto simp: eligible_feedback_targets_def Let_def)

lemma eligible_basis_subset: "set (eligible_feedback_basis_refs window allowed) \<subseteq> set allowed"
  and eligible_basis_distinct: "distinct (eligible_feedback_basis_refs window allowed)"
  by (auto simp: eligible_feedback_basis_refs_def)

lemma length_join_lines_le: "sum_list (map length ls) \<le> psize (join_lines ls)"
proof -
  have "sum_list (map length ls) \<le> sum_list (map psize ls)"
  proof (induction ls)
    case (Cons l ls)
    then show ?case using psize_ge_length [of l] by simp
  qed simp
  then show ?thesis by (simp add: psize_join_lines)
qed

lemma feedback_rules_size: "psize FEEDBACK_RULES \<le> psize RULES"
proof -
  have "psize FEEDBACK_RULES \<le> 1600"
    unfolding FEEDBACK_RULES_def FEEDBACK_RULES_lines_def psize_join_lines by (simp add: lit_def)
  also have "1600 \<le> sum_list (map length (take 30 RULES_lines))"
    unfolding RULES_lines_def by simp
  also have "\<dots> \<le> sum_list (map length RULES_lines)"
    by (metis append_take_drop_id le_add1 map_append sum_list_append)
  also have "\<dots> \<le> psize RULES"
    unfolding RULES_def using length_join_lines_le [of RULES_lines] by simp
  finally show ?thesis .
qed

lemma feedback_input_size:
  assumes "distinct ts" "set ts \<subseteq> set targets" "distinct bs" "set bs \<subseteq> set basis"
  shows "psize (build_feedback_input window ts bs) \<le> psize (build_model_input window targets basis)"
proof -
  let ?f = "\<lambda>l. psize l + 1"
  have "sum_list (map ?f (tagged_values tag ts)) \<le> sum_list (map ?f (tagged_values tag targets))"
    "sum_list (map ?f (tagged_values tag bs)) \<le> sum_list (map ?f (tagged_values tag basis))" for tag
    unfolding sum_tagged_values using assms by (auto intro!: sum_list_subset_le)
  from this [of "lit ''ALLOWED_TARGET''"] this [of "lit ''ALLOWED_BASIS''"] feedback_rules_size
    psize_join_lines_Suc [of "[FEEDBACK_RULES, lit ''ALLOWED_TARGETS_BEGIN''] @ tagged_values (lit ''ALLOWED_TARGET'') ts @
       [lit ''ALLOWED_TARGETS_END'', lit ''ALLOWED_BASIS_BEGIN''] @ tagged_values (lit ''ALLOWED_BASIS'') bs @
       [lit ''ALLOWED_BASIS_END'', lit ''WINDOW_BEGIN'', window, lit ''WINDOW_END'']"]
    psize_join_lines_Suc [of "[RULES, lit ''ALLOWED_TARGETS_BEGIN''] @ tagged_values (lit ''ALLOWED_TARGET'') targets @
       [lit ''ALLOWED_TARGETS_END'', lit ''ALLOWED_BASIS_BEGIN''] @ tagged_values (lit ''ALLOWED_BASIS'') basis @
       [lit ''ALLOWED_BASIS_END'', lit ''WINDOW_BEGIN'', window, lit ''WINDOW_END'', FINAL_CHECK]"]
  show ?thesis
    unfolding build_feedback_input_def build_model_input_def by (simp only: map_append sum_list_append list.map sum_list.Cons) simp
qed

lemma recover_missing_feedback_sends:
  assumes "psize (build_model_input (window_text request) (allowed_target_refs request) (allowed_basis_refs request)) \<le> max_bytes"
  shows "sends (\<lambda>p. psize p \<le> max_bytes) 1 (recover_missing_feedback complete request t)"
proof -
  let ?ts = "eligible_feedback_targets (window_text request) (allowed_target_refs request)"
  let ?bs = "eligible_feedback_basis_refs (window_text request) (allowed_basis_refs request)"
  have "psize (build_feedback_input (window_text request) ?ts ?bs) \<le> max_bytes"
    using feedback_input_size [OF eligible_targets_distinct eligible_targets_subset eligible_basis_distinct eligible_basis_subset]
      assms by (rule order_trans)
  then have "sends (\<lambda>p. psize p \<le> max_bytes) 1 (complete_text complete (build_feedback_input (window_text request) ?ts ?bs))"
    unfolding One_nat_def by (rule sends_complete)
  then show ?thesis
    by (auto simp: recover_missing_feedback_def Let_def intro!: sends_then_pure sends_pure)
qed

text \<open>
  C2: the model's budget. One window sends at most four prompts to the model, whatever it answers
  and however the call ends, and every prompt, the unchecked feedback prompt included, is within the
  configured number of bytes.
\<close>

theorem window_prompts_bounded:
  "length (snd (snd (ProcessConsolidationWindow complete max_bytes request (w, [])))) \<le> 4 \<and>
   list_all (\<lambda>p. psize p \<le> max_bytes) (snd (snd (ProcessConsolidationWindow complete max_bytes request (w, []))))"
proof -
  let ?P = "\<lambda>p. psize p \<le> max_bytes"
  let ?input = "build_model_input (window_text request) (allowed_target_refs request) (allowed_basis_refs request)"
  have rest: "sends ?P 3 (bind_call (pure_call (clean_primary request answer)) (\<lambda>t.
      bind_call (formation_step complete max_bytes request t) (\<lambda>t.
      bind_call (recover_missing_feedback complete request (normalize_primary request t)) (\<lambda>t.
      if should_process_recollection request t
      then append_plain_recollection complete max_bytes request t else pure_call (Inr t)))))"
    if "psize ?input \<le> max_bytes" for answer
  proof (rule sends_bind_pure)
    fix t
    have last: "sends ?P 1 (if should_process_recollection request t then append_plain_recollection complete max_bytes request t
        else pure_call (Inr t))" for t
      by (simp add: sends_pure append_plain_recollection_sends del: One_nat_def)
    from sends_bind [OF formation_step_sends sends_bind [OF recover_missing_feedback_sends [OF that] last]]
    show "sends ?P 3 (bind_call (formation_step complete max_bytes request t) (\<lambda>t.
      bind_call (recover_missing_feedback complete request (normalize_primary request t)) (\<lambda>t.
      if should_process_recollection request t
      then append_plain_recollection complete max_bytes request t else pure_call (Inr t))))"
      by (simp add: numeral_eq_Suc)
  qed
  have "sends ?P 4 (ProcessConsolidationWindow complete max_bytes request)"
    unfolding ProcessConsolidationWindow_def Let_def
  proof (rule sends_bind_pure)
    fix n assume n: "encode_len ?input = Inr n"
    show "sends ?P 4 (if max_bytes < n then pure_call (Inr [])
      else bind_call (complete_text complete ?input) (\<lambda>answer.
        bind_call (pure_call (clean_primary request answer)) (\<lambda>t.
        bind_call (formation_step complete max_bytes request t) (\<lambda>t.
        bind_call (recover_missing_feedback complete request (normalize_primary request t)) (\<lambda>t.
        if should_process_recollection request t
        then append_plain_recollection complete max_bytes request t else pure_call (Inr t))))))"
    proof (cases "max_bytes < n")
      case False
      with encode_len_psize [OF n] have fits: "psize ?input \<le> max_bytes" by simp
      from sends_bind [OF sends_complete_bounded [OF n False] rest [OF fits]] False show ?thesis by simp
    qed (simp add: sends_pure)
  qed
  from this [unfolded sends_def adds_def, rule_format, of "(w, [])"] show ?thesis by auto
qed

end
