(* ===== verification/Worker_Authority.thy ===== *)
theory Worker_Authority
  imports Worker_Service
begin

text \<open>
  The authority of the handler's response: a single background window never forms a Disposition by
  adaptation. The invariant is carried on the lines that the Core reads, through the removal, the
  normalisation and the three places where the handler appends a block.
\<close>

section \<open>Headers of an adaptation\<close>

abbreviation ADAPT :: "pystr set" where "ADAPT \<equiv> {lit ''ADAPT''}"

text \<open>A header the Core would take for the start of an adaptation that forms a Disposition.\<close>

definition adapt_header :: "pystr list \<Rightarrow> bool" where
  "adapt_header ls \<longleftrightarrow> owned_header ADAPT ls \<and> validApplication (ls ! 3)"

definition no_adapt_header :: "pystr list \<Rightarrow> bool" where
  "no_adapt_header ls \<longleftrightarrow> (\<forall>k. \<not> adapt_header (drop k ls))"

text \<open>A header followed by what the Core needs to accept the block.\<close>

definition adapt_block :: "pystr list \<Rightarrow> bool" where
  "adapt_block ls \<longleftrightarrow> adapt_header ls \<and>
     (if ls ! 5 = lit ''ADAPT'' then 8 < length ls \<and> ls ! 7 = lit ''BASIS'' \<and> stableBasisRef (ls ! 8)
      else 6 < length ls \<and> ls ! 6 = lit ''BASIS'')"

definition no_adapt_block :: "pystr list \<Rightarrow> bool" where
  "no_adapt_block ls \<longleftrightarrow> (\<forall>k. \<not> adapt_block (drop k ls))"

lemma no_adapt_header_block: "no_adapt_header ls \<Longrightarrow> no_adapt_block ls"
  by (auto simp: no_adapt_header_def no_adapt_block_def adapt_block_def)

lemma accepted_no_adapt:
  assumes "no_adapt_block ls" and "parse_blocks {} ls = Some cs" and "c \<in> set cs"
  shows "\<not> owned ADAPT c"
proof
  assume own: "owned ADAPT c"
  from assms(2) obtain bs where bs: "ls = concat bs" "list_all2 block_of bs cs" by (rule parse_blocks_inv)
  from assms(3) obtain i where i: "i < length cs" "cs ! i = c" by (auto simp: in_set_conv_nth)
  then have bi: "block_of (bs ! i) c" "i < length bs" using bs(2) by (auto simp: list_all2_conv_all_nth)
  let ?b = "bs ! i"
  have "bs = take i bs @ ?b # drop (Suc i) bs" using bi(2) by (rule id_take_nth_drop)
  then have "concat bs = concat (take i bs) @ ?b @ concat (drop (Suc i) bs)" by (metis concat.simps(2) concat_append)
  then have at: "drop (length (concat (take i bs))) ls = ?b @ concat (drop (Suc i) bs)" using bs(1) by simp
  from bi(1) obtain opl where b: "?b = [lit ''TARGET'', Target c, lit ''APPLICATION'', Application c, lit ''CHANGE''] @
      opl @ lit ''BASIS'' # BasisRefs c" and opl: "operation_lines opl (Operation c) (Text c)"
    and app: "validApplication (Application c)" and refs: "BasisRefs c \<noteq> []" "\<forall>r \<in> set (BasisRefs c). stableBasisRef r"
    by (auto simp: block_of_def)
  have change: "owned_change ADAPT (hd opl)"
    using owned_change_operation [OF _ opl, of ADAPT] own by (simp add: owned_def)
  obtain r rs where r: "BasisRefs c = r # rs" "stableBasisRef r" using refs by (cases "BasisRefs c") auto
  from opl consider body where "opl = [Operation c, body]" | l where "opl = [l]" "l \<noteq> lit ''ADAPT''"
    by (auto simp: operation_lines_def)
  then have "adapt_block (?b @ concat (drop (Suc i) bs))"
    using change app own r
    by cases (auto simp: b adapt_block_def adapt_header_def owned_header_def owned_def)
  with at assms(1) show False unfolding no_adapt_block_def by metis
qed

section \<open>From the worker's lines to the Core's\<close>

lemma splitlines_from_prefix:
  "no_breaks x \<Longrightarrow> x \<noteq> [] \<Longrightarrow> \<exists>y rest. splitlines_from False (x @ s) = (x @ y) # rest"
proof (induction x)
  case (Cons c x)
  show ?case
  proof (cases "x = []")
    case True
    with Cons.prems show ?thesis by (cases "splitlines_from False s") auto
  next
    case False
    with Cons show ?thesis by auto
  qed
qed simp

lemma rstrip_on_append:
  "rstrip_on P (x @ y) = (if \<forall>c \<in> set y. P c then rstrip_on P x else x @ rstrip_on P y)"
proof (induction y rule: rev_induct)
  case (snoc c y)
  then show ?case using rstrip_on_snoc [of P "x @ y" c] by auto
qed simp

lemma owned_adapt_iff: "owned_change ADAPT l \<longleftrightarrow> l = lit ''ADAPT'' \<or> startswith l (lit ''ADAPT '')"
proof -
  have "lit ''ADAPT'' @ lit '' '' = lit ''ADAPT ''" by (simp flip: lit_append)
  then show ?thesis by (auto simp: owned_change_def)
qed

lemma py_lines_change:
  assumes "owned_change ADAPT l"
  shows "py_lines l \<noteq> [] \<and> owned_change ADAPT (hd (py_lines l))"
proof (cases "l = lit ''ADAPT''")
  case True
  then show ?thesis by (simp add: py_lines_single owned_adapt_iff)
next
  case False
  with assms obtain r where l: "l = lit ''ADAPT '' @ r" by (auto simp: owned_adapt_iff startswith_iff)
  have "no_breaks (lit ''ADAPT '')" by (simp add: lit_def py_linebreak_def)
  then obtain y rest where split: "splitlines l = (lit ''ADAPT '' @ y) # rest"
    using splitlines_from_prefix [of "lit ''ADAPT ''" r] unfolding l splitlines_def by auto
  have lead: "dropWhile go_space (lit ''ADAPT '' @ y) = lit ''ADAPT '' @ y" by (simp add: lit_def go_space_def)
  have "rstrip_on go_space (lit ''ADAPT '') = lit ''ADAPT''" by (simp add: rstrip_on_def lit_def go_space_def)
  then have trim: "go_trim (lit ''ADAPT '' @ y) = (if \<forall>c \<in> set y. go_space c then lit ''ADAPT'' else lit ''ADAPT '' @ rstrip_on go_space y)"
    unfolding go_trim_def strip_on_def lead by (simp add: rstrip_on_append)
  then have "go_trim (lit ''ADAPT '' @ y) \<noteq> []" "owned_change ADAPT (go_trim (lit ''ADAPT '' @ y))"
    by (auto simp: owned_adapt_iff)
  then show ?thesis by (simp add: py_lines_def split)
qed

lemma drop_six:
  assumes "5 < length (drop k ls)"
  obtains a l0 l1 l2 l3 l4 l5 rest where "ls = a @ [l0, l1, l2, l3, l4, l5] @ rest" "drop k ls = [l0, l1, l2, l3, l4, l5] @ rest"
proof -
  from assms obtain l0 l1 l2 l3 l4 l5 rest where "drop k ls = l0 # l1 # l2 # l3 # l4 # l5 # rest"
    by (auto simp: Suc_le_length_iff numeral_eq_Suc less_eq_Suc_le simp del: length_drop)
  then show ?thesis using that [of "take k ls"] by (metis append_Cons append_Nil append_take_drop_id)
qed

lemma py_lines_marker: "go_trim m = m \<Longrightarrow> no_breaks m \<Longrightarrow> m \<noteq> [] \<Longrightarrow> py_lines m = [m]"
  by (simp add: py_lines_single)

lemma no_adapt_from_py:
  assumes "\<not> has_owned_block ADAPT (py_lines t)"
  shows "no_adapt_header (core_lines t)"
  unfolding no_adapt_header_def
proof (intro allI notI)
  fix k assume "adapt_header (drop k (core_lines t))"
  then have own: "owned_header ADAPT (drop k (core_lines t))" and app: "validApplication (drop k (core_lines t) ! 3)"
    by (auto simp: adapt_header_def)
  then have "5 < length (drop k (core_lines t))" by (simp add: owned_header_def)
  then obtain a l0 l1 l2 l3 l4 l5 rest where ls: "core_lines t = a @ [l0, l1, l2, l3, l4, l5] @ rest"
    and dr: "drop k (core_lines t) = [l0, l1, l2, l3, l4, l5] @ rest" by (rule drop_six)
  from own app have hdr: "l0 = lit ''TARGET''" "l1 = lit ''NEW_DISPOSITION''" "l2 = lit ''APPLICATION''"
    "l4 = lit ''CHANGE''" "owned_change ADAPT l5" "validApplication l3"
    unfolding dr by (auto simp: owned_header_def)
  have py: "py_lines t = concat (map py_lines a) @ [l0, l1, l2, l3, l4] @ py_lines l5 @ concat (map py_lines rest)"
    using hdr validApplication_line [OF hdr(6)] by (subst py_lines_core_lines) (simp add: ls py_lines_marker)
  obtain p ps where "py_lines l5 = p # ps" "owned_change ADAPT p"
    using py_lines_change [OF hdr(5)] by (cases "py_lines l5") auto
  then have "owned_header ADAPT (drop (length (concat (map py_lines a))) (py_lines t))"
    using hdr by (simp add: py owned_header_def)
  with assms show False using has_owned_blockI by blast
qed

section \<open>Appending a block\<close>

text \<open>The lines of an added text start with a target and its application.\<close>

definition block_start :: "pystr list \<Rightarrow> bool" where
  "block_start ls \<longleftrightarrow> 3 \<le> length ls \<and> ls ! 0 = lit ''TARGET'' \<and> ls ! 2 = lit ''APPLICATION''"

lemma adapt_block_append:
  assumes "no_adapt_block ls" and "no_adapt_block ms" and "block_start ms"
  shows "no_adapt_block (ls @ ms)"
  unfolding no_adapt_block_def
proof (intro allI notI)
  fix k assume bad: "adapt_block (drop k (ls @ ms))"
  let ?d = "drop k ls"
  show False
  proof (cases "?d = []")
    case True
    then have "drop k (ls @ ms) = drop (k - length ls) ms" by simp
    with bad assms(2) show False unfolding no_adapt_block_def by metis
  next
    case False
    let ?e = "?d @ ms"
    from bad False have e: "adapt_block ?e" by simp
    have at: "?e ! length ?d = lit ''TARGET''" "?e ! (length ?d + 2) = lit ''APPLICATION''"
      using assms(3) by (auto simp: block_start_def nth_append simp del: length_drop)
    have start: "?e ! i = ?d ! i" if "i < length ?d" for i using that by (simp add: nth_append)
    have "\<not> startswith (lit ''TARGET'') (lit ''ADAPT '')" by (simp add: startswith_def lit_def)
    then have marks: "\<not> owned_change ADAPT (lit ''TARGET'')" "\<not> validApplication (lit ''TARGET'')"
      "\<not> stableBasisRef (lit ''TARGET'')" "\<not> stableBasisRef (lit ''APPLICATION'')"
      by (auto simp: owned_adapt_iff validApplication_def stableBasisRef_def core_reserved_def)
    have hdr: "?e ! 0 = lit ''TARGET''" "?e ! 1 = lit ''NEW_DISPOSITION''" "?e ! 2 = lit ''APPLICATION''"
      "validApplication (?e ! 3)" "?e ! 4 = lit ''CHANGE''" "owned_change ADAPT (?e ! 5)"
      using e by (auto simp: adapt_block_def adapt_header_def owned_header_def)
    have "length ?d \<notin> {1, 2, 3, 4, 5}"
      using at(1) hdr marks(1,2) by auto
    moreover have "length ?d \<noteq> 0" using False by simp
    ultimately have six: "5 < length ?d" by (simp only: insert_iff empty_iff) linarith
    have head: "adapt_header ?d"
      using six hdr start by (simp add: adapt_header_def owned_header_def)
    have "adapt_block ?d"
    proof (cases "?e ! 5 = lit ''ADAPT''")
      case True
      then have b: "?e ! 7 = lit ''BASIS''" "stableBasisRef (?e ! 8)" using e by (auto simp: adapt_block_def)
      have "length ?d \<notin> {6, 7, 8}" using at b marks(3,4) by auto
      with six have "8 < length ?d" by (simp only: insert_iff empty_iff) linarith
      with True b head start show ?thesis by (simp add: adapt_block_def)
    next
      case inline: False
      then have b: "?e ! 6 = lit ''BASIS''" using e by (auto simp: adapt_block_def)
      with at(1) have "length ?d \<noteq> 6" by auto
      with six have "6 < length ?d" by linarith
      with inline b head start show ?thesis by (simp add: adapt_block_def)
    qed
    with assms(1) show False by (auto simp: no_adapt_block_def)
  qed
qed

section \<open>Removal and trailing white space\<close>

lemma owned_header_prefix: "owned_header changes ms \<Longrightarrow> owned_header changes (ms @ ns)"
  by (auto simp: owned_header_def nth_append)

lemma remove_keeps_absence:
  assumes "\<not> has_owned_block lane (py_lines t)"
  shows "\<not> has_owned_block lane (py_lines (remove_new_disposition_changes t changes))"
proof (cases rule: remove_cases [of t changes])
  case unchanged
  with assms show ?thesis by simp
next
  case dropped
  then show ?thesis by (simp add: has_owned_block_def)
next
  case (kept bs)
  let ?keep = "filter (\<lambda>b. \<not> block_owned changes (trimmed b)) bs"
  have "\<forall>l \<in> set (concat ?keep). no_breaks l"
    using block_lines_no_breaks [of _ "\<lambda>l. \<not> starts_block l" t] unfolding kept(2) [symmetric] by auto
  then have lines: "py_lines (remove_new_disposition_changes t changes) = concat (map trimmed ?keep)"
    using kept(4) py_lines_join_trimmed [of "concat ?keep"] by (simp add: trimmed_concat)
  have whole: "py_lines t = concat (map trimmed bs)"
    using kept(1,2) by (metis (no_types, lifting) append_Nil concat_target_blocks py_lines_def takeWhile_dropWhile_id
        trimmed_concat trimmed_simps(3))
  have "6 \<le> length (trimmed b) \<and> lit ''TARGET'' \<notin> set (tl (trimmed b)) \<and> \<not> owned_header lane (trimmed b)"
    if "b \<in> set ?keep" for b
  proof -
    from that have b: "b \<in> set bs" by auto
    note shape = target_blocks_shape [OF blocks_start b [unfolded kept(2)]]
    have "lit ''TARGET'' \<notin> set (tl (trimmed b))" using shape by (intro trimmed_block(3)) blast+
    moreover have "\<not> owned_header lane (trimmed b)"
    proof
      assume own: "owned_header lane (trimmed b)"
      from b obtain xs ys where "bs = xs @ b # ys" by (meson split_list)
      then have "drop (length (concat (map trimmed xs))) (py_lines t) = trimmed b @ concat (map trimmed ys)"
        by (simp add: whole)
      with owned_header_prefix [OF own] assms show False using has_owned_blockI by metis
    qed
    ultimately show ?thesis using kept(3) b by auto
  qed
  then show ?thesis
    using no_owned_header_concat [of "map trimmed ?keep" lane] unfolding lines by (auto simp: has_owned_block_def)
qed

lemma no_adapt_last_line:
  assumes "no_adapt_header (a @ c)" and "length b \<le> 1"
  shows "no_adapt_block (a @ b)"
  unfolding no_adapt_block_def
proof (intro allI notI)
  fix k assume bad: "adapt_block (drop k (a @ b))"
  then have "6 < length (drop k (a @ b))" by (auto simp: adapt_block_def split: if_splits)
  with assms(2) have len: "5 < length (drop k a)" by simp
  with bad have "adapt_header (drop k a @ c)"
    by (auto simp: adapt_block_def adapt_header_def owned_header_def nth_append)
  with len assms(1) show False unfolding no_adapt_header_def by (metis drop_append diff_is_0_eq drop0 length_drop less_nat_zero_code nat_le_linear)
qed

lemma split_nl_append: "\<exists>ys. split_nl (s @ t) = butlast (split_nl s) @ ys"
  unfolding split_nl_def
proof (induction s)
  case (Cons x s)
  then obtain ys where ys: "split_on 10 (s @ t) = butlast (split_on 10 s) @ ys" by blast
  show ?case
  proof (cases "butlast (split_on 10 s)")
    case Nil
    then obtain l where "split_on 10 s = [l]" by (metis append_butlast_last_id append_Nil split_on_not_Nil)
    with ys show ?thesis by auto
  next
    case (Cons l ls)
    then obtain m where "split_on 10 s = (l # ls) @ [m]" by (metis append_butlast_last_id split_on_not_Nil)
    with ys Cons show ?thesis by auto
  qed
qed simp

lemma no_adapt_rstrip:
  assumes "no_adapt_header (core_lines p)"
  shows "no_adapt_block (core_lines (rstrip p))"
proof -
  obtain b where b: "p = rstrip p @ b" using rstrip_on_prefix by (metis rstrip_def prefix_def)
  obtain xs x where r: "split_nl (rstrip p) = xs @ [x]" by (metis rev_exhaust split_nl_not_Nil)
  have "\<exists>ys. split_nl (rstrip p @ b) = butlast (split_nl (rstrip p)) @ ys" by (rule split_nl_append)
  then obtain ys where "split_nl p = xs @ ys" using b r by (metis butlast_snoc)
  then have "core_lines p = trimmed xs @ trimmed ys" "core_lines (rstrip p) = trimmed xs @ trimmed [x]"
    using r by (simp_all add: core_lines_def)
  with assms show ?thesis using no_adapt_last_line [of "trimmed xs" "trimmed ys" "trimmed [x]"] by simp
qed

section \<open>The invariant of the handler's text\<close>

text \<open>
  Before any block is appended the text has no adaptation header at all; afterwards it has no
  adaptation the Core could accept, and it ends in a ref, so that stripping it changes nothing.
\<close>

definition authorized :: "pystr \<Rightarrow> bool" where
  "authorized p \<longleftrightarrow> no_adapt_header (core_lines p) \<or> no_adapt_block (core_lines p) \<and> rstrip p = p"

definition good_addition :: "pystr \<Rightarrow> bool" where
  "good_addition a \<longleftrightarrow> a \<noteq> [] \<and> rstrip a = a \<and> block_start (core_lines a) \<and> no_adapt_block (core_lines a)"

lemma authorized_block: "authorized p \<Longrightarrow> no_adapt_block (core_lines p)"
  by (auto simp: authorized_def no_adapt_header_block)

lemma authorized_Nil [simp]: "authorized []"
  by (simp add: authorized_def no_adapt_header_def adapt_header_def owned_header_def)

lemma authorized_addition: "good_addition a \<Longrightarrow> authorized a"
  by (simp add: authorized_def good_addition_def)

lemma rstrip_last: "s \<noteq> [] \<Longrightarrow> rstrip s = s \<longleftrightarrow> \<not> py_isspace (last s)"
  using last_rstrip_on [of py_isspace s] rstrip_on_id [of s py_isspace] by (auto simp: rstrip_def)

lemma authorized_combined:
  assumes "authorized p" and "good_addition a"
  shows "authorized (combined_text p a)"
proof (cases "p = []")
  case True
  with assms(2) show ?thesis by (simp add: combined_text_def authorized_addition)
next
  case False
  have "no_adapt_block (core_lines (rstrip p))"
    using assms(1) no_adapt_rstrip by (auto simp: authorized_def)
  then have "no_adapt_block (core_lines (rstrip p) @ core_lines a)"
    using assms(2) by (intro adapt_block_append) (auto simp: good_addition_def)
  moreover have "rstrip (rstrip p @ 10 # a) = rstrip p @ 10 # a"
    using assms(2) rstrip_last [of a] rstrip_last [of "rstrip p @ 10 # a"] by (auto simp: good_addition_def)
  ultimately show ?thesis using False by (simp add: authorized_def combined_text_def core_lines_append_nl)
qed

subsection \<open>The added blocks\<close>

lemma no_adapt_header_Cons: "no_adapt_header (l # ls) \<longleftrightarrow> \<not> adapt_header (l # ls) \<and> no_adapt_header ls"
  unfolding no_adapt_header_def by (metis drop0 drop_Suc_Cons old.nat.exhaust)

lemma adapt_header_Cons: "adapt_header (l # ls) \<Longrightarrow> l = lit ''TARGET'' \<and> ls ! 0 = lit ''NEW_DISPOSITION''"
  by (auto simp: adapt_header_def owned_header_def)

lemma no_adapt_refs:
  "\<forall>r \<in> set refs. stableBasisRef r \<Longrightarrow> no_adapt_header refs"
proof (induction refs)
  case Nil
  then show ?case by (simp add: no_adapt_header_def adapt_header_def owned_header_def)
next
  case (Cons r refs)
  then have "r \<noteq> lit ''TARGET''" using stableBasisRef_not_target by auto
  with Cons show ?case using adapt_header_Cons by (auto simp: no_adapt_header_Cons)
qed

lemma not_owned_operations:
  "\<not> owned_change ADAPT (lit ''TEXT'')" "\<not> owned_change ADAPT (lit ''REENACT'')" "\<not> owned_change ADAPT (lit ''INHIBIT'')"
  by (simp_all add: owned_adapt_iff) (simp_all add: startswith_def lit_def)

lemma no_adapt_text_block:
  assumes "\<forall>r \<in> set refs. stableBasisRef r" and "target \<noteq> lit ''TARGET''" and "application \<noteq> lit ''TARGET''"
  shows "no_adapt_header (text_block target application body refs)" and "block_start (text_block target application body refs)"
proof -
  show "no_adapt_header (text_block target application body refs)"
    unfolding text_block_def append_Cons append_Nil
    using assms no_adapt_refs [OF assms(1)] not_owned_operations(1)
    by (auto simp: no_adapt_header_Cons adapt_header_def owned_header_def)
  show "block_start (text_block target application body refs)" by (simp add: block_start_def text_block_def)
qed

lemma join_lines_last: "ls \<noteq> [] \<Longrightarrow> last ls \<noteq> [] \<Longrightarrow> join_lines ls \<noteq> [] \<and> last (join_lines ls) = last (last ls)"
  by (induction ls rule: induct_list012) auto

lemma stable_last: "stableBasisRef r \<Longrightarrow> r \<noteq> [] \<and> \<not> py_isspace (last r)"
  using isspace_cases [of "last r"] last_in_set [of r] by (auto simp: stableBasisRef_def stableRef_def)

lemma text_blocks_good:
  assumes "refs \<noteq> []" "\<forall>r \<in> set refs. stableBasisRef r" "target \<in> new_targets" "validApplication application"
    and "bodies \<noteq> []" "\<forall>b \<in> set bodies. core_lines (join_lines (text_block target application b refs)) = text_block target application b refs"
  shows "good_addition (join_lines (map (\<lambda>b. join_lines (text_block target application b refs)) bodies))"
proof -
  let ?block = "\<lambda>b. text_block target application b refs"
  have names: "target \<noteq> lit ''TARGET''" "application \<noteq> lit ''TARGET''"
    using assms(3,4) by (auto simp: new_targets_def validApplication_def)
  note one = no_adapt_text_block [OF assms(2) names]
  have "no_adapt_block (concat (map ?block bodies)) \<and> block_start (concat (map ?block bodies))"
    using assms(5)
  proof (induction bodies rule: list_nonempty_induct)
    case (single b)
    then show ?case using one no_adapt_header_block by simp
  next
    case (cons b bs)
    then have "no_adapt_block (?block b @ concat (map ?block bs))"
      by (intro adapt_block_append [OF no_adapt_header_block [OF one(1)]]) blast+
    moreover have "block_start (?block b @ concat (map ?block bs))" by (simp add: block_start_def text_block_def)
    ultimately show ?case by simp
  qed
  moreover have "core_lines (join_lines (map (\<lambda>b. join_lines (?block b)) bodies)) = concat (map ?block bodies)"
    using assms(6) by (simp add: core_lines_join_texts cong: map_cong)
  moreover have last: "join_lines (?block b) \<noteq> [] \<and> last (join_lines (?block b)) = last (last refs)" for b
    using join_lines_last [of "?block b"] assms(1,2) stable_last by (simp add: text_block_def)
  moreover have "join_lines (map (\<lambda>b. join_lines (?block b)) bodies) \<noteq> [] \<and>
      last (join_lines (map (\<lambda>b. join_lines (?block b)) bodies)) = last (last refs)"
    using join_lines_last [of "map (\<lambda>b. join_lines (?block b)) bodies"] last assms(5) by (simp add: last_map)
  moreover have "\<not> py_isspace (last (last refs))" using assms(1,2) stable_last by simp
  ultimately show ?thesis using rstrip_last by (simp add: good_addition_def)
qed

lemma no_adapt_feedback_block:
  assumes off: "offered_feedback targets eps outs c" and st: "stable_offers targets eps outs"
  shows "no_adapt_header (trimmed (feedback_lines c))" and "block_start (trimmed (feedback_lines c) @ ms)"
proof -
  note lines = trimmed_feedback_lines [OF off st]
  have op: "\<not> owned_change ADAPT (Operation c)" "Operation c \<noteq> lit ''TARGET''"
    using off not_owned_operations by (auto simp: offered_feedback_def)
  have app: "\<not> validApplication (lit ''CHANGE'')" by (simp add: validApplication_def)
  show "no_adapt_header (trimmed (feedback_lines c))"
    unfolding lines append_Cons append_Nil
    using no_adapt_refs [OF offered_refs_stable(1) [OF off st]] op app
    by (auto simp: no_adapt_header_Cons adapt_header_def owned_header_def)
  show "block_start (trimmed (feedback_lines c) @ ms)" by (simp add: lines block_start_def)
qed

lemma normalized_feedback_good:
  assumes "feedback_basis_map window = (eps, outs)" and "stable_offers (set targets) eps outs"
    and "t = normalize_feedback_output text targets window" and "t \<noteq> []"
  shows "good_addition t"
proof -
  from assms obtain cs where cs: "cs \<noteq> []" "t = join_lines (concat (map feedback_lines cs))"
    "\<forall>c \<in> set cs. offered_feedback (set targets) eps outs c"
    "core_lines t = concat (map (\<lambda>c. trimmed (feedback_lines c)) cs)"
    by (rule normalized_feedback_lines)
  have "no_adapt_block (core_lines t) \<and> block_start (core_lines t)"
    unfolding cs(4) using cs(1,3)
  proof (induction cs rule: list_nonempty_induct)
    case (single c)
    then have c: "offered_feedback (set targets) eps outs c" by simp
    show ?case
      using no_adapt_header_block [OF no_adapt_feedback_block(1) [OF c assms(2)]]
        no_adapt_feedback_block(2) [OF c assms(2), of "[]"] by simp
  next
    case (cons c cs)
    have c: "offered_feedback (set targets) eps outs c" using cons.prems by simp
    have "no_adapt_block (trimmed (feedback_lines c) @ concat (map (\<lambda>c. trimmed (feedback_lines c)) cs))"
      using cons by (intro adapt_block_append [OF no_adapt_header_block [OF no_adapt_feedback_block(1) [OF c assms(2)]]]) auto
    with no_adapt_feedback_block(2) [OF c assms(2)] show ?case by simp
  qed
  moreover have "\<not> py_isspace (last t)"
  proof -
    obtain c where c: "c \<in> set cs" "last (concat (map feedback_lines cs)) = last (BasisRefs c)"
    proof -
      have "BasisRefs (last cs) \<noteq> []" using cs(1,3) by (simp add: offered_feedback_def)
      then have "last (concat (map feedback_lines cs)) = last (BasisRefs (last cs))"
        using cs(1) by (induction cs rule: rev_induct) (auto simp: feedback_lines_def)
      then show ?thesis using that [of "last cs"] cs(1) by simp
    qed
    have ne: "BasisRefs c \<noteq> []" and st: "stableBasisRef (last (BasisRefs c))"
      using cs(3) c(1) offered_refs_stable(1) [OF _ assms(2), of c] by (auto simp: offered_feedback_def)
    have "concat (map feedback_lines cs) \<noteq> []" using cs(1) by (cases cs) (simp_all add: feedback_lines_def)
    with join_lines_last [of "concat (map feedback_lines cs)"] c(2) stable_last [OF st] cs(2) show ?thesis by simp
  qed
  ultimately show ?thesis using assms(4) rstrip_last by (simp add: good_addition_def)
qed

section \<open>The handler\<close>

lemma caught_Inr:
  "caught r = Inr x \<longleftrightarrow> (\<exists>y. r = Inr y \<and> x = Some y) \<or> (\<exists>e. r = Inl e \<and> type_or_value_error e \<and> x = None)"
  by (auto simp: caught_def split: sum.splits)

text \<open>The refs of a request are refs of the Core's own grammar.\<close>

definition core_request :: "window_request \<Rightarrow> bool" where
  "core_request request \<longleftrightarrow>
     (\<forall>r \<in> set (allowed_basis_refs request). stableBasisRef r) \<and>
     (\<forall>r \<in> set (allowed_target_refs request). stableRef r) \<and>
     (\<forall>e \<in> fst (feedback_basis_map (window_text request)). stableBasisRef e) \<and>
     (\<forall>o1 \<in> dom (snd (feedback_basis_map (window_text request))). stableBasisRef o1)"

lemma core_request_offers:
  assumes "core_request request" and "feedback_basis_map (window_text request) = (eps, outs)"
  shows "stable_offers (set (eligible_feedback_targets (window_text request) (allowed_target_refs request))) eps outs"
  using assms eligible_targets_subset [of "window_text request" "allowed_target_refs request"]
  by (auto simp: core_request_def stable_offers_def)

lemma clean_primary_absence:
  "clean_primary request answer = Inr t \<Longrightarrow> \<not> has_owned_block ADAPT (py_lines t)"
  using remove_leaves_no_owned by (auto simp: clean_primary_def Let_def bindr_Inr_iff)

lemma authorized_from_py: "\<not> has_owned_block ADAPT (py_lines t) \<Longrightarrow> authorized t"
  by (simp add: authorized_def no_adapt_from_py)

lemma append_authorized:
  assumes "append_tagged_text p a = Inr t" and "authorized p" and "a = [] \<or> good_addition a"
  shows "authorized t"
  using assms authorized_combined by (auto simp: append_tagged_text_Inr)

lemma bound_disposition_good:
  assumes "disposition_formation_material request = Some m" and "core_request request"
    and "bind_disposition m body = Inr a" and "a \<noteq> []"
  shows "good_addition a"
proof -
  have app: "validApplication (fm_application m)"
    using accepted_application [OF assms(1)] by (auto simp: validApplication_def)
  have refs: "\<forall>r \<in> set (fm_basis_refs m). stableBasisRef r"
    using accepted_refs [OF assms(1)] assms(2) by (auto simp: core_request_def)
  have a: "a = join_lines (text_block (lit ''NEW_DISPOSITION'') (fm_application m) (strip body) (fm_basis_refs m))"
    by (rule db.bind_shape [OF assms(3,4)])
  have "core_lines a = text_block (lit ''NEW_DISPOSITION'') (fm_application m) (strip body) (fm_basis_refs m)"
    by (rule db.bound_core_lines [OF assms(3,4) app])
  then have "good_addition (join_lines (map (\<lambda>b. join_lines (text_block (lit ''NEW_DISPOSITION'') (fm_application m) b
      (fm_basis_refs m))) [strip body]))"
    using db.bind_refs [OF assms(3,4)] refs app a
    by (intro text_blocks_good) (simp_all add: new_targets_def)
  then show ?thesis by (simp add: a)
qed

lemma formation_step_authorized:
  assumes "formation_step complete max_bytes request t st = (Inr t', st')" and "core_request request"
    and "\<not> has_owned_block ADAPT (py_lines t)"
  shows "authorized t'"
proof -
  let ?r = "remove_new_disposition_changes t {lit ''TEXT''}"
  have r: "authorized ?r" by (intro authorized_from_py remove_keeps_absence assms(3))
  from assms(1) consider "t' = t" | "t' = ?r"
    | m body a where "disposition_formation_material request = Some m" "bind_disposition m body = Inr a"
        "append_tagged_text ?r a = Inr t'"
    by (auto simp: formation_step_def bind_call_Inr bindr_Inr_iff Let_def split: if_splits option.splits)
  then show ?thesis
  proof cases
    case 1
    then show ?thesis using authorized_from_py assms(3) by simp
  next
    case 3
    then have "a = [] \<or> good_addition a" using bound_disposition_good assms(2) by blast
    with 3(3) r show ?thesis by (rule append_authorized)
  qed (use r in simp)
qed

lemma normalize_primary_authorized:
  assumes "core_request request" and "authorized t"
  shows "authorized (normalize_primary request t)"
proof -
  obtain eps outs where m: "feedback_basis_map (window_text request) = (eps, outs)" by (cases "feedback_basis_map (window_text request)")
  let ?n = "normalize_feedback_output t (eligible_feedback_targets (window_text request) (allowed_target_refs request)) (window_text request)"
  have "?n = [] \<or> good_addition ?n"
    using normalized_feedback_good [OF m core_request_offers [OF assms(1) m] refl] by blast
  then have "authorized ?n" using authorized_addition by auto
  with assms(2) show ?thesis by (simp add: normalize_primary_def Let_def)
qed

lemma recover_missing_feedback_authorized:
  assumes "recover_missing_feedback complete request t st = (Inr t', st')" and "core_request request" and "authorized t"
  shows "authorized t'"
proof -
  obtain eps outs where m: "feedback_basis_map (window_text request) = (eps, outs)" by (cases "feedback_basis_map (window_text request)")
  let ?n = "\<lambda>f. normalize_feedback_output f (eligible_feedback_targets (window_text request) (allowed_target_refs request)) (window_text request)"
  from assms(1) consider "t' = t" | f where "?n f \<noteq> []" "t' = combined_text t (?n f)"
    by (auto simp: recover_missing_feedback_def bind_call_Inr bindr_Inr_iff combined_text_def Let_def split: if_splits)
  then show ?thesis
  proof cases
    case 2
    then have "good_addition (?n f)"
      using normalized_feedback_good [OF m core_request_offers [OF assms(2) m] refl] by blast
    with 2(2) assms(3) show ?thesis by (simp add: authorized_combined)
  qed (use assms(3) in simp)
qed

lemma bound_recollections_good:
  assumes "bind_plain_recollections m body = Inr ts" and "ts \<noteq> []"
  shows "good_addition (join_lines ts)"
proof -
  let ?new = "take MAX_PLAIN_RECOLLECTIONS (uniq (body_lines body))"
  note bound = bind_plain_recollections_Inr [OF assms]
  have ne: "?new \<noteq> []" using bound(1) assms(2) by auto
  have ok: "recollection_block m l \<noteq> [] \<and> bind_recollection m l = Inr (recollection_block m l) \<and>
      py_join (lit '' '') (body_lines l) = l" if "l \<in> set ?new" for l
    using bound(2) that bind_line(2) [of l body m "recollection_block m l"] single_body_line(1) [of l body] by auto
  obtain l where l: "l \<in> set ?new" using ne by (meson last_in_set)
  have other: "validApplication (lit ''OTHER'')" by (simp add: validApplication_def)
  have refs: "rm_basis_refs m \<noteq> []" "\<forall>r \<in> set (rm_basis_refs m). stableBasisRef r"
    using rb.bind_refs [of m l "recollection_block m l"] bound_refs_not_reserved [of m l "recollection_block m l"] ok [OF l]
    by (auto simp: stableBasisRef_def)
  have "\<forall>l \<in> set ?new. core_lines (recollection_block m l) = text_block (lit ''NEW_RECOLLECTION'') (lit ''OTHER'') l (rm_basis_refs m)"
  proof
    fix l assume "l \<in> set ?new"
    with rb.bound_core_lines [of m l "recollection_block m l", OF _ _ other] ok [of l]
    show "core_lines (recollection_block m l) = text_block (lit ''NEW_RECOLLECTION'') (lit ''OTHER'') l (rm_basis_refs m)"
      by simp
  qed
  then show ?thesis
    unfolding bound(1) using refs other ne by (intro text_blocks_good) (simp_all add: new_targets_def)
qed

lemma bind_recollection_reply_Inr:
  assumes "bind_recollection_reply m t body = Inr t'"
  shows "t' = t \<or> (\<exists>ts. bind_plain_recollections m body = Inr ts \<and> ts \<noteq> [] \<and> t' = combined_text t (join_lines ts))"
proof -
  have app: "append_recollections t ts = Inr t' \<Longrightarrow> t' = t \<or> ts \<noteq> [] \<and> t' = combined_text t (join_lines ts)" for ts
    by (auto simp: append_recollections_def combined_text_def bindr_Inr_iff Let_def split: if_splits)
  from assms consider "t' = t"
    | ts where "bind_plain_recollections m body = Inr ts" "append_recollections t ts = Inr t'"
    by (auto simp: bind_recollection_reply_def bindr_Inr_iff caught_Inr)
  then show ?thesis
  proof cases
    case 2
    with app [OF 2(2)] show ?thesis by blast
  qed simp
qed

lemma append_plain_recollection_authorized:
  assumes "append_plain_recollection complete max_bytes request t st = (Inr t', st')" and "authorized t"
  shows "authorized t'"
proof -
  from assms(1) consider "t' = t" | m body ts where "bind_plain_recollections m body = Inr ts" "ts \<noteq> []"
      "t' = combined_text t (join_lines ts)"
    by (auto simp: append_plain_recollection_def bind_call_Inr caught_Inr
        split: if_splits option.splits dest!: bind_recollection_reply_Inr)
  then show ?thesis
  proof cases
    case 2
    with bound_recollections_good [OF 2(1,2)] assms(2) show ?thesis by (simp add: authorized_combined)
  qed (use assms(2) in simp)
qed

lemma window_authorized:
  assumes "ProcessConsolidationWindow complete max_bytes request st = (Inr t, st')" and "core_request request"
  shows "authorized t"
proof -
  from assms(1) consider "t = []"
    | answer t1 t2 t3 st1 st2 st3 where "clean_primary request answer = Inr t1"
        "formation_step complete max_bytes request t1 st1 = (Inr t2, st2)"
        "recover_missing_feedback complete request (normalize_primary request t2) st2 = (Inr t3, st3)"
        "t = t3 \<or> append_plain_recollection complete max_bytes request t3 st3 = (Inr t, st')"
    by (auto simp: ProcessConsolidationWindow_def bind_call_Inr Let_def split: if_splits)
  then show ?thesis
  proof cases
    case 2
    have "authorized t2" by (rule formation_step_authorized [OF 2(2) assms(2) clean_primary_absence [OF 2(1)]])
    then have "authorized t3"
      by (intro recover_missing_feedback_authorized [OF 2(3) assms(2)] normalize_primary_authorized [OF assms(2)])
    with 2(4) show ?thesis using append_plain_recollection_authorized by blast
  qed simp
qed

text \<open>
  C1: no Disposition in one step. The hypothesis \<open>core_request\<close> says that the refs the request allows, and every ref that
  the worker reads from lines of the window that look like feedback offers, are refs of the Core's grammar and none of
  its reserved words. Then, whatever the model answers to any of the calls, the response of the window holds no
  change that the Core would accept as the formation of a new Disposition by adaptation. (A text in the window that
  imitates such lines can break the hypothesis; Worker_Injection shows what happens then.)
\<close>

theorem window_never_adapts_new_disposition:
  assumes "core_request request"
    and "ProcessConsolidationWindow complete max_bytes request st = (Inr response, st')"
    and "ParseTaggedText response = Some cs" and "c \<in> set cs"
  shows "\<not> (Target c = lit ''NEW_DISPOSITION'' \<and> Operation c = lit ''ADAPT'')"
proof -
  have "no_adapt_block (core_lines response)" by (rule authorized_block [OF window_authorized [OF assms(2,1)]])
  moreover have "parse_blocks {} (core_lines response) = Some cs"
    using assms(3) by (auto simp: ParseTaggedText_core_lines split: if_splits)
  ultimately have "\<not> owned ADAPT c" using assms(4) by (rule accepted_no_adapt)
  then show ?thesis by (simp add: owned_def)
qed

subsection \<open>A window that forms one recollection\<close>

definition plain_request :: window_request where
  "plain_request = \<lparr>job_ref = lit ''j'', window_text = [], allowed_target_refs = [lit ''NEW_RECOLLECTION''],
     allowed_basis_refs = [lit ''e1''], evidence = None\<rparr>"

definition plain_input :: pystr where
  "plain_input = build_model_input (window_text plain_request) (allowed_target_refs plain_request) (allowed_basis_refs plain_request)"

definition no_surrogates :: "pystr \<Rightarrow> bool" where
  "no_surrogates s \<longleftrightarrow> (\<forall>c \<in> set s. \<not> py_surrogate c)"

lemma no_surrogates_simps [simp]:
  "no_surrogates []" "no_surrogates (c # s) \<longleftrightarrow> \<not> py_surrogate c \<and> no_surrogates s"
  "no_surrogates (s @ t) \<longleftrightarrow> no_surrogates s \<and> no_surrogates t" "no_surrogates (lit u)"
proof -
  show "no_surrogates (lit u)" using lit_ascii [of _ u] unfolding no_surrogates_def py_surrogate_def by force
qed (auto simp: no_surrogates_def)

lemma no_surrogates_join [simp]: "no_surrogates (join_lines ls) \<longleftrightarrow> list_all no_surrogates ls"
  by (induction ls rule: induct_list012) (auto simp: py_surrogate_def)

lemma encode_len_size: "no_surrogates s \<Longrightarrow> encode_len s = Inr (psize s)"
  by (auto simp: encode_len_def no_surrogates_def)

lemma rules_no_surrogates: "no_surrogates RULES" "no_surrogates FINAL_CHECK"
  by (simp_all add: RULES_def FINAL_CHECK_def RULES_lines_def FINAL_CHECK_lines_def py_surrogate_def)

lemma plain_input_size: "encode_len plain_input = Inr (psize plain_input)"
  using rules_no_surrogates
  by (intro encode_len_size) (simp add: plain_input_def build_model_input_def plain_request_def tagged_values_def py_surrogate_def)

definition plain_model :: "unit text_model" where
  "plain_model prompt w = (Answer example_block, w)"

lemma example_block_lines:
  "core_lines example_block = text_block (lit ''NEW_RECOLLECTION'') (lit ''OTHER'') (lit ''Tea.'') [lit ''e1'']"
  unfolding example_block_def by (rule core_lines_of_lines) (simp add: text_block_def)

lemma example_block_clean: "clean_primary plain_request example_block = Inr example_block"
proof -
  have parse: "parse_blocks {} (core_lines example_block) = Some [example_recollection]"
    using example_block_parses by (auto simp: ParseTaggedText_core_lines split: if_splits)
  have refs: "\<forall>r \<in> set (allowed_basis_refs plain_request). stableBasisRef r"
    using example_ref by (simp add: plain_request_def)
  have py: "py_lines example_block = text_block (lit ''NEW_RECOLLECTION'') (lit ''OTHER'') (lit ''Tea.'') [lit ''e1'']"
    using core_py_lines [of example_block] by (simp add: example_block_lines text_block_def)
  have "\<not> has_owned_block ADAPT (py_lines example_block)"
    unfolding py by (auto simp: has_owned_block_def owned_header_def text_block_def nth_Cons' split: if_splits)
  then have "remove_new_disposition_changes example_block ADAPT = example_block"
    by (simp add: remove_new_disposition_changes_def py_lines_def)
  moreover have "strip example_block \<noteq> NO_CHANGE_TOKEN"
    by (simp add: strip_def strip_on_def rstrip_on_def NO_CHANGE_TOKEN_def example_block_def text_block_def lit_def py_isspace_def)
  moreover have "encode_len example_block = Inr (psize example_block)" "\<not> MAX_TAGGED_TEXT_BYTES < psize example_block"
    by (simp_all add: encode_len_def py_surrogate_def example_block_def text_block_def lit_def MAX_TAGGED_TEXT_BYTES_def)
  ultimately show ?thesis
    by (simp add: clean_primary_def split_accepted [OF parse] restore_accepted [OF parse] deduplicate_accepted [OF parse refs])
qed

lemma plain_window:
  "ProcessConsolidationWindow plain_model (psize plain_input) plain_request ((), []) = (Inr example_block, (), [plain_input])"
proof -
  have "formation_step plain_model (psize plain_input) plain_request example_block st = (Inr example_block, st)" for st
    by (simp add: formation_step_def bind_call_def pure_call_def plain_request_def disposition_formation_material_def
        has_disposition_formation_anchor_def)
  moreover have "eligible_feedback_targets (window_text plain_request) (allowed_target_refs plain_request) = []"
    by (simp add: eligible_feedback_targets_def plain_request_def)
  moreover have "\<not> should_process_recollection plain_request example_block"
    by (simp add: should_process_recollection_def plain_request_def)
  ultimately show ?thesis
    unfolding ProcessConsolidationWindow_def plain_input_def [symmetric] Let_def
    by (simp add: bind_call_def pure_call_def plain_input_size complete_text_def plain_model_def example_block_clean
        normalize_primary_def recover_missing_feedback_def)
qed

lemma plain_core_request: "core_request plain_request"
  using example_ref
  by (auto simp: core_request_def plain_request_def feedback_basis_map_def feedback_episodes_def stableRef_def
      go_space_def py_control_def lit_def)

theorem window_never_adapts_new_disposition_witness:
  "example_recollection \<in> set [example_recollection] \<and>
   \<not> (Target example_recollection = lit ''NEW_DISPOSITION'' \<and> Operation example_recollection = lit ''ADAPT'')"
  using window_never_adapts_new_disposition [OF plain_core_request plain_window example_block_parses, of example_recollection]
  by simp

end
