(* ===== verification/Worker_Limits.thy ===== *)
theory Worker_Limits
  imports Worker_Authority
begin

text \<open>
  The bound on the response of the handler and the errors it can raise: the focused recollection call
  drops whatever the model returns in the wrong form, and no other text of the model makes it fail.
\<close>

section \<open>The size of the response\<close>

lemma clean_primary_size:
  assumes "clean_primary request answer = Inr t"
  shows "psize t \<le> MAX_TAGGED_TEXT_BYTES"
proof -
  let ?t = "restore_initial_new_target (split_copied_inline_application
    (if strip answer = NO_CHANGE_TOKEN then [] else answer) (allowed_target_refs request)) (allowed_target_refs request)"
  from assms obtain n where n: "encode_len ?t = Inr n"
    and t: "t = remove_new_disposition_changes (deduplicate_basis
      (if MAX_TAGGED_TEXT_BYTES < n then [] else ?t) (allowed_basis_refs request)) {lit ''ADAPT''}"
    by (auto simp: clean_primary_def Let_def bindr_Inr_iff)
  have "psize (if MAX_TAGGED_TEXT_BYTES < n then [] else ?t) \<le> MAX_TAGGED_TEXT_BYTES"
    using encode_len_psize [OF n] by simp
  with t remove_size deduplicate_size show ?thesis by (meson order_trans)
qed

lemma append_tagged_size:
  "append_tagged_text p a = Inr t \<Longrightarrow> psize p \<le> MAX_TAGGED_TEXT_BYTES \<Longrightarrow> psize t \<le> MAX_TAGGED_TEXT_BYTES"
  by (auto simp: append_tagged_text_Inr)

lemma formation_step_size:
  assumes "formation_step complete max_bytes request t st = (Inr t', st')" and "psize t \<le> MAX_TAGGED_TEXT_BYTES"
  shows "psize t' \<le> MAX_TAGGED_TEXT_BYTES"
proof -
  let ?r = "remove_new_disposition_changes t {lit ''TEXT''}"
  have r: "psize ?r \<le> MAX_TAGGED_TEXT_BYTES" using remove_size assms(2) by (rule order_trans)
  from assms(1) consider "t' = t" | "t' = ?r" | a where "append_tagged_text ?r a = Inr t'"
    by (auto simp: formation_step_def bind_call_Inr bindr_Inr_iff Let_def split: if_splits option.splits)
  then show ?thesis using r assms(2) append_tagged_size by cases auto
qed

lemma recover_missing_feedback_size:
  assumes "recover_missing_feedback complete request t st = (Inr t', st')" and "psize t \<le> MAX_TAGGED_TEXT_BYTES"
  shows "psize t' \<le> MAX_TAGGED_TEXT_BYTES"
  using assms
  by (auto simp: recover_missing_feedback_def bind_call_Inr bindr_Inr_iff Let_def dest: encode_len_psize split: if_splits)

lemma bind_recollection_reply_size:
  assumes "bind_recollection_reply m t body = Inr t'" and "psize t \<le> MAX_TAGGED_TEXT_BYTES"
  shows "psize t' \<le> MAX_TAGGED_TEXT_BYTES"
proof -
  have "append_recollections t ts = Inr t' \<Longrightarrow> psize t' \<le> MAX_TAGGED_TEXT_BYTES" for ts
    using assms(2)
    by (auto simp: append_recollections_def bindr_Inr_iff Let_def dest: encode_len_psize split: if_splits)
  with assms show ?thesis by (auto simp: bind_recollection_reply_def bindr_Inr_iff caught_Inr)
qed

lemma append_plain_recollection_size:
  assumes "append_plain_recollection complete max_bytes request t st = (Inr t', st')" and "psize t \<le> MAX_TAGGED_TEXT_BYTES"
  shows "psize t' \<le> MAX_TAGGED_TEXT_BYTES"
proof -
  from assms(1) consider "t' = t" | m body where "bind_recollection_reply m t body = Inr t'"
    by (auto simp: append_plain_recollection_def bind_call_Inr caught_Inr split: if_splits option.splits)
  then show ?thesis using assms(2) bind_recollection_reply_size by cases auto
qed

text \<open>
  C3: the bound on the response. A window that offers no Disposition for feedback is answered with at
  most 64 KiB of tagged text, whatever the model returns. (With such an offer the primary answer may
  be normalised after the last check of its size.)
\<close>

theorem window_response_bounded:
  assumes "ProcessConsolidationWindow complete max_bytes request st = (Inr response, st')"
    and "eligible_feedback_targets (window_text request) (allowed_target_refs request) = []"
  shows "psize response \<le> MAX_TAGGED_TEXT_BYTES"
proof -
  have same: "normalize_primary request t = t" for t using assms(2) by (simp add: normalize_primary_def)
  from assms(1) consider "response = []"
    | answer t1 t2 t3 st1 st2 st3 where "clean_primary request answer = Inr t1"
        "formation_step complete max_bytes request t1 st1 = (Inr t2, st2)"
        "recover_missing_feedback complete request t2 st2 = (Inr t3, st3)"
        "response = t3 \<or> append_plain_recollection complete max_bytes request t3 st3 = (Inr response, st')"
    by (auto simp: ProcessConsolidationWindow_def bind_call_Inr same Let_def split: if_splits)
  then show ?thesis
  proof cases
    case 2
    have "psize t3 \<le> MAX_TAGGED_TEXT_BYTES"
      by (rule recover_missing_feedback_size [OF 2(3) formation_step_size [OF 2(2) clean_primary_size [OF 2(1)]]])
    with 2(4) show ?thesis using append_plain_recollection_size by blast
  qed simp
qed

theorem window_response_bounded_witness: "psize example_block \<le> MAX_TAGGED_TEXT_BYTES"
proof -
  have "eligible_feedback_targets (window_text plain_request) (allowed_target_refs plain_request) = []"
    by (simp add: eligible_feedback_targets_def plain_request_def)
  from window_response_bounded [OF plain_window this] show ?thesis .
qed

section \<open>Errors of the recollection call\<close>

text \<open>A computation that raises only what \<open>except (TypeError, ValueError)\<close> catches.\<close>

definition catchable :: "'a result \<Rightarrow> bool" where
  "catchable r \<longleftrightarrow> (\<forall>e. r = Inl e \<longrightarrow> type_or_value_error e)"

lemma catchable_intros [intro, simp]:
  "catchable (Inr x)" "catchable (Inl (ValueError m))" "catchable (Inl (TypeError m))" "catchable (Inl UnicodeEncodeError)"
  "catchable (raise_if c (ValueError m))"
  by (simp_all add: catchable_def raise_if_def)

lemma catchable_bindr [intro]: "catchable r \<Longrightarrow> (\<And>x. catchable (f x)) \<Longrightarrow> catchable (bindr r f)"
  by (cases r) (auto simp: catchable_def)

lemma catchable_if [intro]: "catchable a \<Longrightarrow> catchable b \<Longrightarrow> catchable (if c then a else b)"
  by simp

lemma catchable_check_all [intro]: "(\<And>x. catchable (f x)) \<Longrightarrow> catchable (check_all f xs)"
  by (induction xs) auto

lemma catchable_foldr_r [intro]: "(\<And>x s. catchable (f x s)) \<Longrightarrow> catchable (foldr_r f xs s)"
  by (induction xs arbitrary: s) auto

lemma catchable_utf8_size [intro, simp]: "catchable (utf8_size v l)"
  by (auto simp: utf8_size_def catchable_def encode_len_def split: if_splits)

lemma catchable_validations [intro, simp]:
  "catchable (validate_required_ref r l)" "catchable (validate_optional_ref r l)" "catchable (validate_basis_ref r l)"
  "catchable (validate_source_text t)"
  by (auto simp: validate_required_ref_def validate_optional_ref_def validate_basis_ref_def validate_source_text_def)

lemma catchable_let [intro]: "catchable (f x) \<Longrightarrow> catchable (let y = x in f y)"
  by simp

lemma catchable_prod [intro]: "(\<And>a b. catchable (f a b)) \<Longrightarrow> catchable (case p of (a, b) \<Rightarrow> f a b)"
  by (cases p) simp

lemmas catchable_rules = catchable_bindr catchable_if catchable_let catchable_prod catchable_check_all catchable_foldr_r
  catchable_intros catchable_utf8_size catchable_validations

lemma catchable_bind_recollection: "catchable (bind_recollection m body)"
  unfolding bind_recollection_def by (intro catchable_rules)

lemma catchable_bind_lines: "catchable (bind_lines m ls seen bound)"
  using catchable_bind_recollection by (induction ls arbitrary: seen bound) (auto simp: Let_def)

lemma catchable_bind_plain: "catchable (bind_plain_recollections m body)"
  unfolding bind_plain_recollections_def by (intro catchable_rules catchable_bind_lines)

lemma catchable_read_source: "catchable (read_source session source acc)"
  unfolding read_source_def by (intro catchable_rules)

lemma catchable_read_episode: "catchable (read_episode allowed episode acc)"
  unfolding read_episode_def check_episode_def by (intro catchable_rules catchable_read_source)

lemma catchable_read_recollection: "catchable (read_recollection allowed r acc)"
  unfolding read_recollection_def by (intro catchable_rules)

lemma catchable_read_outcome: "catchable (read_outcome refs r acc)"
  unfolding read_outcome_def by (intro catchable_rules)

lemma catchable_materials: "catchable (recollection_materials request)"
  unfolding recollection_materials_def
  by (cases "evidence request")
    (simp, simp only: option.case,
     intro catchable_rules catchable_read_episode catchable_read_recollection catchable_read_outcome)

text \<open>The prompt of the recollection call never fails on the materials of a request: they share the
  existing texts.\<close>

lemma materials_share_existing:
  assumes "recollection_materials request = Inr ms" and "m \<in> set ms" and "m' \<in> set ms"
  shows "rm_existing_recollections m = rm_existing_recollections m'"
  using assms(2,3) by - (rule recollection_materials_Inr [OF assms(1)], auto)

lemma build_recollection_input_total:
  assumes "recollection_materials request = Inr ms" and "ms \<noteq> []"
  shows "\<exists>p. build_recollection_input ms = Inr p"
proof -
  have "rm_existing_recollections v = rm_existing_recollections (ms ! 0)" if "v \<in> set ms" for v
    by (rule materials_share_existing [OF assms(1) that nth_mem]) (use assms(2) in simp)
  then have "\<not> (\<exists>v \<in> set ms. rm_existing_recollections v \<noteq> rm_existing_recollections (ms ! 0))" by blast
  then show ?thesis using assms(2) by (simp only: build_recollection_input_def Let_def if_False) blast
qed

lemma caught_total: "catchable r \<Longrightarrow> \<exists>x. caught r = Inr x"
  by (cases r) (auto simp: caught_def catchable_def)

lemma encode_len_Inl: "encode_len t = Inl e \<Longrightarrow> e = UnicodeEncodeError"
  by (simp add: encode_len_def split: if_splits)

section \<open>Errors of the handler\<close>

text \<open>A call that fails only with an error and in a final state that satisfy \<open>P\<close>.\<close>

definition fails_only :: "(py_error \<Rightarrow> 's \<Rightarrow> bool) \<Rightarrow> ('s, 'a) io \<Rightarrow> bool" where
  "fails_only P m \<longleftrightarrow> (\<forall>st e st'. m st = (Inl e, st') \<longrightarrow> P e st')"

lemma fails_pure: "(\<And>e st. r = Inl e \<Longrightarrow> P e st) \<Longrightarrow> fails_only P (pure_call r)"
  by (simp add: fails_only_def pure_call_def)

lemma fails_bind: "fails_only P m \<Longrightarrow> (\<And>x. fails_only P (f x)) \<Longrightarrow> fails_only P (bind_call m f)"
  unfolding fails_only_def bind_call_def by (auto split: prod.splits sum.splits)

lemma fails_bind_pure:
  "(\<And>e st. r = Inl e \<Longrightarrow> P e st) \<Longrightarrow> (\<And>x. r = Inr x \<Longrightarrow> fails_only P (f x)) \<Longrightarrow> fails_only P (bind_call (pure_call r) f)"
  by (cases r) (auto simp: fails_only_def bind_call_def pure_call_def)

lemma fails_if: "(c \<Longrightarrow> fails_only P a) \<Longrightarrow> (\<not> c \<Longrightarrow> fails_only P b) \<Longrightarrow> fails_only P (if c then a else b)"
  by simp

text \<open>What the text model did in the last call of a run that ended in the state \<open>st\<close>.\<close>

definition last_reply :: "'w text_model \<Rightarrow> 'w \<times> pystr list \<Rightarrow> reply \<Rightarrow> bool" where
  "last_reply complete st reply \<longleftrightarrow> snd st \<noteq> [] \<and> (\<exists>w. complete (last (snd st)) w = (reply, fst st))"

text \<open>The errors that the last reply or a text that cannot be encoded cause, and those of the formation call.\<close>

definition model_error :: "'w text_model \<Rightarrow> py_error \<Rightarrow> 'w \<times> pystr list \<Rightarrow> bool" where
  "model_error complete e st \<longleftrightarrow> (\<exists>m. e = RaisedBy m \<and> last_reply complete st (Raises m)) \<or>
     e = TypeError (lit ''TextModel.complete() must return str'') \<and> last_reply complete st NotText \<or>
     e = UnicodeEncodeError"

definition formation_error :: "'w text_model \<Rightarrow> window_request \<Rightarrow> py_error \<Rightarrow> 'w \<times> pystr list \<Rightarrow> bool" where
  "formation_error complete request e st \<longleftrightarrow> (\<exists>msg material body. e = ValueError msg \<and>
     disposition_formation_material request = Some material \<and> bind_disposition material body = Inl e \<and>
     last_reply complete st (Answer body) \<and> last (snd st) = build_disposition_formation_input material)"

definition window_error :: "'w text_model \<Rightarrow> window_request \<Rightarrow> py_error \<Rightarrow> 'w \<times> pystr list \<Rightarrow> bool" where
  "window_error complete request e st \<longleftrightarrow> model_error complete e st \<or> formation_error complete request e st"

lemma fails_complete_model: "fails_only (model_error complete) (complete_text complete prompt)"
  by (auto simp: fails_only_def complete_text_def model_error_def last_reply_def split: prod.splits reply.splits)

lemma fails_weaken: "fails_only (model_error complete) m \<Longrightarrow> fails_only (window_error complete request) m"
  by (auto simp: fails_only_def window_error_def)

lemmas fails_complete = fails_weaken [OF fails_complete_model]

lemma encode_len_model: "encode_len t = Inl e \<Longrightarrow> model_error complete e st"
  by (auto simp: model_error_def dest: encode_len_Inl)

lemma encode_len_window: "encode_len t = Inl e \<Longrightarrow> window_error complete request e st"
  by (simp add: window_error_def encode_len_model)

lemma clean_primary_fails: "clean_primary request answer = Inl e \<Longrightarrow> window_error complete request e st"
  by (auto simp: clean_primary_def bindr_Inl_iff Let_def dest: encode_len_window)

lemma append_plain_recollection_fails:
  "fails_only (model_error complete) (append_plain_recollection complete max_bytes request primary)"
proof -
  have reply: "bind_recollection_reply m primary body = Inl err \<Longrightarrow> model_error complete err st" for m body err st
    using caught_total [OF catchable_bind_plain [of m body]]
    by (auto simp: bind_recollection_reply_def append_recollections_def bindr_Inl_iff Let_def dest: encode_len_model
        split: option.splits if_splits)
  have input: "\<exists>p. build_recollection_input ms = Inr p" if "caught (recollection_materials request) = Inr (Some ms)" "ms \<noteq> []" for ms
    using that build_recollection_input_total [of request ms] by (auto simp: caught_def split: sum.splits if_splits)
  show ?thesis
    unfolding append_plain_recollection_def
  proof (rule fails_bind_pure)
    show "model_error complete e st" if "caught (recollection_materials request) = Inl e" for e st
      using that caught_total [OF catchable_materials, of request] by simp
  next
    fix materials assume m: "caught (recollection_materials request) = Inr materials"
    have "fails_only (model_error complete) (bind_call (pure_call (build_recollection_input ms)) (\<lambda>model_input.
        bind_call (pure_call (encode_len model_input)) (\<lambda>n.
        if max_bytes < n then pure_call (Inr primary)
        else bind_call (complete_text complete model_input) (\<lambda>body.
          pure_call (bind_recollection_reply (ms ! 0) primary body)))))" if "materials = Some ms" "ms \<noteq> []" for ms
      using input m that
      by (intro fails_bind_pure fails_if fails_bind [OF fails_complete_model] fails_pure) (auto dest: encode_len_model reply)
    then show "fails_only (model_error complete) (case materials of None \<Rightarrow> pure_call (Inr primary)
        | Some ms \<Rightarrow> if ms = [] then pure_call (Inr primary)
          else bind_call (pure_call (build_recollection_input ms)) (\<lambda>model_input.
            bind_call (pure_call (encode_len model_input)) (\<lambda>n.
            if max_bytes < n then pure_call (Inr primary)
            else bind_call (complete_text complete model_input) (\<lambda>body.
              pure_call (bind_recollection_reply (ms ! 0) primary body)))))"
      by (auto intro!: fails_pure split: option.splits)
  qed
qed

lemma bind_disposition_fails:
  assumes "bind_disposition m body = Inl e"
  shows "e = UnicodeEncodeError \<or> (\<exists>msg. e = ValueError msg)"
proof -
  have size: "utf8_size v l = Inl e' \<Longrightarrow> e' = UnicodeEncodeError \<or> (\<exists>msg. e' = ValueError msg)" for v l e'
    by (auto simp: utf8_size_def encode_len_def split: if_splits)
  have ref: "validate_formation_ref r = Inl e' \<Longrightarrow> e' = UnicodeEncodeError \<or> (\<exists>msg. e' = ValueError msg)" for r e'
    by (auto simp: validate_formation_ref_def bindr_Inl_iff dest: size split: if_splits)
  from assms show ?thesis
    by (auto simp: bind_disposition_def Let_def bindr_Inl_iff dest!: size check_all_Inl ref split: if_splits)
qed

lemma append_tagged_text_Inl: "append_tagged_text p a = Inl e \<Longrightarrow> window_error complete request e st"
  by (auto simp: append_tagged_text_def bindr_Inl_iff Let_def dest: encode_len_window split: if_splits)

lemma formation_call_fails:
  assumes "disposition_formation_material request = Some m"
  shows "fails_only (window_error complete request)
    (bind_call (complete_text complete (build_disposition_formation_input m)) (\<lambda>body.
       pure_call (bindr (bind_disposition m body) (append_tagged_text t))))"
  unfolding fails_only_def
proof (intro allI impI)
  let ?p = "build_disposition_formation_input m"
  fix st e st' assume failed: "bind_call (complete_text complete ?p) (\<lambda>body. pure_call (bindr (bind_disposition m body) (append_tagged_text t))) st = (Inl e, st')"
  obtain r st1 where one: "complete_text complete ?p st = (r, st1)" by (metis prod.exhaust)
  show "window_error complete request e st'"
  proof (cases r)
    case (Inl e1)
    with failed one fails_complete [of complete request ?p, unfolded fails_only_def] show ?thesis
      by (cases st; cases st') (auto simp: bind_call_def)
  next
    case (Inr body)
    with one have last: "last_reply complete st1 (Answer body)" "last (snd st1) = ?p"
      by (auto simp: complete_text_def last_reply_def split: prod.splits reply.splits)
    from failed one Inr have st': "st' = st1" and "bindr (bind_disposition m body) (append_tagged_text t) = Inl e"
      by (auto simp: bind_call_def pure_call_def)
    then consider "bind_disposition m body = Inl e" | a where "append_tagged_text t a = Inl e" by (auto simp: bindr_Inl_iff)
    then show ?thesis
    proof cases
      case 1
      with bind_disposition_fails last assms show ?thesis
        unfolding st' window_error_def model_error_def formation_error_def by blast
    qed (rule append_tagged_text_Inl)
  qed
qed

lemma formation_step_fails: "fails_only (window_error complete request) (formation_step complete max_bytes request t)"
  unfolding formation_step_def
proof (rule fails_bind_pure)
  fix e :: py_error and st :: "'a \<times> pystr list"
  assume "(case disposition_formation_material request of None \<Rightarrow> Inr None
      | Some m \<Rightarrow> bindr (encode_len (build_disposition_formation_input m)) (\<lambda>n. Inr (if max_bytes < n then None else Some m))) = Inl e"
  then show "window_error complete request e st" by (auto simp: bindr_Inl_iff dest: encode_len_window split: option.splits)
next
  fix material
  assume "(case disposition_formation_material request of None \<Rightarrow> Inr None
      | Some m \<Rightarrow> bindr (encode_len (build_disposition_formation_input m)) (\<lambda>n. Inr (if max_bytes < n then None else Some m))) = Inr material"
  then have "disposition_formation_material request = Some m" if "material = Some m" for m
    using that by (auto simp: bindr_Inr_iff split: option.splits if_splits)
  then show "fails_only (window_error complete request)
      (if \<not> has_disposition_formation_anchor request then pure_call (Inr t)
       else let tagged_text = remove_new_disposition_changes t {lit ''TEXT''} in
         case material of None \<Rightarrow> pure_call (Inr tagged_text)
         | Some m \<Rightarrow> bind_call (complete_text complete (build_disposition_formation_input m)) (\<lambda>body.
             pure_call (bindr (bind_disposition m body) (append_tagged_text tagged_text))))"
    by (auto simp: Let_def intro!: fails_pure formation_call_fails split: option.splits)
qed

lemma recover_missing_feedback_fails: "fails_only (window_error complete request) (recover_missing_feedback complete request t)"
  unfolding recover_missing_feedback_def Let_def
  by (intro fails_if fails_pure fails_bind [OF fails_complete])
    (auto simp: bindr_Inl_iff dest: encode_len_window split: if_splits)

lemma window_fails: "fails_only (window_error complete request) (ProcessConsolidationWindow complete max_bytes request)"
  unfolding ProcessConsolidationWindow_def Let_def
  by (intro fails_bind_pure fails_if fails_pure fails_bind [OF fails_complete] fails_bind [OF formation_step_fails]
      fails_bind [OF recover_missing_feedback_fails] fails_weaken [OF append_plain_recollection_fails])
    (auto dest: encode_len_window clean_primary_fails)

text \<open>
  C4: the errors of the handler. Whatever the model answers to each prompt, the handler fails in one of four
  ways: the model raised on the last prompt sent, which surfaces as it is; the model returned something that is
  not a string to the last prompt; a text could not be encoded, that is, it holds a lone surrogate; or
  \<open>ValueError\<close>, and then the last prompt was the one for the formation material that the window was accepted for,
  and the answer to it cannot be bound to that material (the answer is no single plain line within the size, or
  a Basis ref of the material is not acceptable). Invalid evidence and invalid recollection bodies never surface.
\<close>

theorem window_errors:
  assumes "ProcessConsolidationWindow complete max_bytes request st = (Inl e, st')"
  shows "(\<exists>m. e = RaisedBy m \<and> last_reply complete st' (Raises m)) \<or>
    e = TypeError (lit ''TextModel.complete() must return str'') \<and> last_reply complete st' NotText \<or>
    e = UnicodeEncodeError \<or>
    (\<exists>msg material body. e = ValueError msg \<and> disposition_formation_material request = Some material \<and>
       bind_disposition material body = Inl e \<and> last_reply complete st' (Answer body) \<and>
       last (snd st') = build_disposition_formation_input material)"
  using assms window_fails [of complete request max_bytes]
  unfolding fails_only_def window_error_def model_error_def formation_error_def by blast

text \<open>A window with an accepted formation job and a model that finds nothing to change and then answers with JSON.\<close>

definition formation_input :: pystr where
  "formation_input = build_model_input (window_text example_formation_request) (allowed_target_refs example_formation_request)
     (allowed_basis_refs example_formation_request)"

definition two_answers :: "pystr \<Rightarrow> pystr \<Rightarrow> nat text_model" where
  "two_answers one two prompt n = (Answer (if n = 0 then one else two), Suc n)"

lemma example_existing: "fm_existing example_formation = []"
proof -
  obtain r where pat: "EXISTING_PATTERN = RSeq RBol r" by (simp add: EXISTING_PATTERN_def)
  have none: "rmatch (RSeq RBol r) Some (True, s, []) = None" if "\<not> startswith s (lit ''ACTIVE_DISPOSITION_HINT'')"
      "\<not> startswith s (lit ''ELIGIBLE_DISPOSITION'')" "\<not> startswith s (lit ''ELIGIBLE_ADAPTATION'')" for s
    using that by (simp add: EXISTING_PATTERN_def flip: pat)
  have "findall_from (RSeq RBol r) True (lit ''ELIGIBLE_NEW_DISPOSITION NEW_DISPOSITION'' @ 10 # lit ''APPLICATION SELF'') =
      findall_from (RSeq RBol r) True (lit ''APPLICATION SELF'' @ [])"
    using findall_line [of "lit ''ELIGIBLE_NEW_DISPOSITION NEW_DISPOSITION''" r "10 # lit ''APPLICATION SELF''"] none
    by (simp add: lit_def line_tail_def startswith_def)
  also have "\<dots> = []"
    using findall_line [of "lit ''APPLICATION SELF''" r "[]"] none by (simp add: lit_def line_tail_def startswith_def)
  finally show ?thesis
    by (simp add: example_formation_def existing_disposition_texts_def example_formation_request_def findall_def pat)
qed

lemma no_surrogates_quote: "list_all no_surrogates (quote_lines t) \<longleftrightarrow> no_surrogates t"
proof -
  have "list_all no_surrogates (quote_lines t) \<longleftrightarrow> list_all no_surrogates (split_nl t)"
    by (simp add: quote_lines_def list_all_iff)
  then show ?thesis using no_surrogates_join [of "split_nl t"] by simp
qed

lemma formation_prompts:
  "encode_len formation_input = Inr (psize formation_input)"
  "encode_len (build_disposition_formation_input example_formation) = Inr (psize (build_disposition_formation_input example_formation))"
proof -
  have "no_surrogates FORMATION_RULES" by (simp add: FORMATION_RULES_def FORMATION_RULES_lines_def py_surrogate_def)
  then have "no_surrogates (build_disposition_formation_input example_formation)"
    using example_existing
    by (simp add: build_disposition_formation_input_def example_formation_def experience_lines_def example_experience_def
        no_surrogates_quote py_surrogate_def)
  moreover have "no_surrogates formation_input"
    using rules_no_surrogates
    by (simp add: formation_input_def build_model_input_def example_formation_request_def tagged_values_def py_surrogate_def)
  ultimately show "encode_len formation_input = Inr (psize formation_input)"
    "encode_len (build_disposition_formation_input example_formation) = Inr (psize (build_disposition_formation_input example_formation))"
    using encode_len_size by blast+
qed

lemma clean_no_change: "clean_primary request NO_CHANGE_TOKEN = Inr []"
proof -
  have "strip NO_CHANGE_TOKEN = NO_CHANGE_TOKEN" by (simp add: NO_CHANGE_TOKEN_def body_eval)
  moreover have "parse_blocks {} (core_lines []) = Some []" by (simp add: core_lines_def split_nl_def parse_blocks.simps)
  from split_accepted [OF this] restore_accepted [OF this]
  have "split_copied_inline_application [] refs = []" "restore_initial_new_target [] refs = []" for refs by blast+
  moreover have "deduplicate_basis [] refs = []" for refs
    by (simp add: deduplicate_basis_def split_nl_def dedup_lines.simps)
  ultimately show ?thesis
    by (simp add: clean_primary_def encode_len_def remove_new_disposition_changes_def Let_def)
qed

lemma json_window:
  "ProcessConsolidationWindow (two_answers NO_CHANGE_TOKEN (lit ''{}''))
     (psize formation_input + psize (build_disposition_formation_input example_formation)) example_formation_request (0, []) =
     (Inl (ValueError (lit ''disposition body must be plain text'')), 2,
      [formation_input, build_disposition_formation_input example_formation])"
proof -
  have "has_disposition_formation_anchor example_formation_request"
    by (simp add: has_disposition_formation_anchor_def example_formation_request_def example_turn_def example_episode_def)
  moreover have "bind_disposition example_formation (lit ''{}'') = Inl (ValueError (lit ''disposition body must be plain text''))"
    by (simp add: bind_disposition_def bind_eval)
  ultimately show ?thesis
    unfolding ProcessConsolidationWindow_def formation_input_def [symmetric] Let_def
    by (simp add: bind_call_def pure_call_def formation_prompts clean_no_change complete_text_def two_answers_def formation_step_def example_formation_accepted)
qed

theorem window_errors_witness:
  "ProcessConsolidationWindow (two_answers NO_CHANGE_TOKEN (lit ''{}''))
     (psize formation_input + psize (build_disposition_formation_input example_formation)) example_formation_request (0, []) =
     (Inl (ValueError (lit ''disposition body must be plain text'')), 2,
      [formation_input, build_disposition_formation_input example_formation]) \<and>
   (\<exists>material body. disposition_formation_material example_formation_request = Some material \<and>
      bind_disposition material body = Inl (ValueError (lit ''disposition body must be plain text'')) \<and>
      build_disposition_formation_input example_formation = build_disposition_formation_input material)"
  using window_errors [OF json_window] json_window by auto

end
