(* ===== verification/Py_Data.thy ===== *)
theory Py_Data
  imports Py_Text "HOL-Library.AList" "HOL-Library.Multiset" "HOL-Library.List_Lexorder"
begin

text \<open>
  Python values whose type the evaluation code inspects: the data of a JSON document, read with
  \<open>get\<close>, \<open>isinstance\<close> and \<open>is\<close>, and the string methods that depend on Unicode tables
  (\<open>isdigit\<close>, \<open>upper\<close>) as far as the code observes them.
\<close>

section \<open>Digits\<close>

text \<open>The zeros of the decimal digits of Unicode 14; each starts a run of ten.\<close>

definition decimal_zeros :: "nat list" where
  "decimal_zeros = [48, 1632, 1776, 1984, 2406, 2534, 2662, 2790, 2918, 3046, 3174, 3302, 3430, 3558, 3664, 3792, 3872, 4160,
     4240, 6112, 6160, 6470, 6608, 6784, 6800, 6992, 7088, 7232, 7248, 42528, 43216, 43264, 43472, 43504, 43600, 44016, 65296,
     66720, 68912, 69734, 69872, 69942, 70096, 70384, 70736, 70864, 71248, 71360, 71472, 71904, 72016, 72784, 73040, 73120,
     92768, 92864, 93008, 120782, 120792, 120802, 120812, 120822, 123200, 123632, 125264, 130032]"

definition digit_value :: "nat \<Rightarrow> nat option" where
  "digit_value c = map_option (\<lambda>z. c - z) (find (\<lambda>z. z \<le> c \<and> c \<le> z + 9) decimal_zeros)"

lemma digit_value_ascii: "d \<le> 9 \<Longrightarrow> digit_value (48 + d) = Some d"
  by (simp add: digit_value_def decimal_zeros_def)

text \<open>The digits that are not decimal: superscripts, circled digits and the like.\<close>

definition other_digits :: "(nat \<times> nat) list" where
  "other_digits = [(178, 179), (185, 185), (4969, 4977), (6618, 6618), (8304, 8304), (8308, 8313), (8320, 8329), (9312, 9320),
     (9332, 9340), (9352, 9360), (9450, 9450), (9461, 9469), (9471, 9471), (10102, 10110), (10112, 10120), (10122, 10130),
     (68160, 68163), (69216, 69224), (69714, 69722), (127232, 127242)]"

definition digit_char :: "nat \<Rightarrow> bool" where
  "digit_char c \<longleftrightarrow> digit_value c \<noteq> None \<or> list_ex (\<lambda>(a, b). a \<le> c \<and> c \<le> b) other_digits"

definition isdigit :: "pystr \<Rightarrow> bool" where
  "isdigit s \<longleftrightarrow> s \<noteq> [] \<and> list_all digit_char s"

lemma digit_char_ascii: "48 \<le> c \<Longrightarrow> c \<le> 57 \<Longrightarrow> digit_char c"
  using digit_value_ascii [of "c - 48"] by (simp add: digit_char_def)

lemma isdigit_digits: "isdigit (digits n)"
proof -
  have "digits n \<noteq> []" by (subst digits.simps) simp
  then show ?thesis using digits_range [of _ n] by (auto simp: isdigit_def list_all_iff intro: digit_char_ascii)
qed

section \<open>Upper case\<close>

text \<open>The upper case of a character where it consists of ASCII letters. Any other character is kept, which
  changes no comparison of the result with an ASCII word.\<close>

definition ascii_upper :: "nat \<Rightarrow> pystr" where
  "ascii_upper c =
     (if 97 \<le> c \<and> c \<le> 122 then [c - 32]
      else case map_of [(223, lit ''SS''), (305, lit ''I''), (383, lit ''S''), (64256, lit ''FF''), (64257, lit ''FI''), (64258, lit ''FL''),
          (64259, lit ''FFI''), (64260, lit ''FFL''), (64261, lit ''ST''), (64262, lit ''ST'')] c of
        None \<Rightarrow> [c] | Some word \<Rightarrow> word)"

definition py_upper :: "pystr \<Rightarrow> pystr" where
  "py_upper s = concat (map ascii_upper s)"

section \<open>Partition at the last separator\<close>

definition rpartition :: "nat \<Rightarrow> pystr \<Rightarrow> pystr \<times> pystr \<times> pystr" where
  "rpartition sep s =
     (if sep \<in> set s
      then let suffix = rev (takeWhile (\<lambda>c. c \<noteq> sep) (rev s)) in (take (length s - length suffix - 1) s, [sep], suffix)
      else ([], [], s))"

lemma rpartition_found: "sep \<notin> set digs \<Longrightarrow> rpartition sep (head @ sep # digs) = (head, [sep], digs)"
  by (simp add: rpartition_def takeWhile_append)

section \<open>Data\<close>

text \<open>A float is represented by its \<open>repr\<close>. A dict has distinct keys, in insertion order.\<close>

datatype pyval = PNone | PBool bool | PInt int | PFloat pystr | PStr pystr | PList "pyval list" | PDict "(pystr \<times> pyval) list"

type_synonym pydict = "(pystr \<times> pyval) list"

definition get_or :: "pydict \<Rightarrow> pystr \<Rightarrow> pyval \<Rightarrow> pyval" where
  "get_or d k v = (case map_of d k of None \<Rightarrow> v | Some w \<Rightarrow> w)"

definition get :: "pydict \<Rightarrow> pystr \<Rightarrow> pyval" where
  "get d k = get_or d k PNone"

fun nonblank_text :: "pyval \<Rightarrow> bool" where
  "nonblank_text (PStr s) \<longleftrightarrow> strip s \<noteq> []"
| "nonblank_text _ \<longleftrightarrow> False"

text \<open>The helper that each of the evaluation modules defines: nonblank text, stripped.\<close>

fun nonblank :: "pyval \<Rightarrow> pystr \<Rightarrow> pystr result" where
  "nonblank (PStr s) field = (if strip s = [] then Inl (ValueError (field @ lit '' must be nonblank text'')) else Inr (strip s))"
| "nonblank _ field = Inl (ValueError (field @ lit '' must be nonblank text''))"

text \<open>\<open>isinstance(v, Sequence) and not isinstance(v, (str, bytes))\<close> and \<open>isinstance(v, Mapping)\<close>.\<close>

fun as_sequence :: "pyval \<Rightarrow> pyval list option" where
  "as_sequence (PList vs) = Some vs"
| "as_sequence _ = None"

fun as_mapping :: "pyval \<Rightarrow> pydict option" where
  "as_mapping (PDict d) = Some d"
| "as_mapping _ = None"

text \<open>\<open>v in S\<close> for a set of strings: a list or a dict cannot be hashed.\<close>

fun in_texts :: "pyval \<Rightarrow> pystr set \<Rightarrow> bool result" where
  "in_texts (PStr s) S = Inr (s \<in> S)"
| "in_texts (PList _) S = Inl (TypeError (lit ''unhashable type: list''))"
| "in_texts (PDict _) S = Inl (TypeError (lit ''unhashable type: dict''))"
| "in_texts _ S = Inr False"

text \<open>\<open>json.loads(json.dumps(v, sort_keys=True))\<close>, and whether the text can be encoded as UTF-8.\<close>

fun sort_keys :: "pyval \<Rightarrow> pyval" where
  "sort_keys (PList vs) = PList (map sort_keys vs)"
| "sort_keys (PDict d) = PDict (sort_key fst (map (\<lambda>(k, v). (k, sort_keys v)) d))"
| "sort_keys v = v"

fun encodable :: "pyval \<Rightarrow> bool" where
  "encodable (PStr s) \<longleftrightarrow> \<not> list_ex py_surrogate s"
| "encodable (PList vs) \<longleftrightarrow> list_all encodable vs"
| "encodable (PDict d) \<longleftrightarrow> list_all (\<lambda>(k, v). \<not> list_ex py_surrogate k \<and> encodable v) d"
| "encodable _ \<longleftrightarrow> True"

lemma nonblank_Inr: "nonblank v field = Inr s \<longleftrightarrow> (\<exists>t. v = PStr t \<and> strip t \<noteq> [] \<and> s = strip t)"
  by (cases v) auto

lemma get_map_of: "distinct (map fst d) \<Longrightarrow> (k, v) \<in> set d \<Longrightarrow> get d k = v"
  by (simp add: get_def get_or_def map_of_is_SomeI)

text \<open>Sorting the keys changes the order of a dict, not what it holds.\<close>

lemma map_of_map_values: "map_of (map (\<lambda>(k, v). (k, f v)) d) k = map_option f (map_of d k)"
  by (induction d) auto

lemma map_of_sort_key_fst:
  assumes "distinct (map fst d)"
  shows "map_of (sort_key fst d) = map_of d"
proof
  fix k
  have "mset (map fst (sort_key fst d)) = mset (map fst d)" by simp
  then have "distinct (map fst (sort_key fst d))" by (rule iffD2 [OF mset_eq_imp_distinct_iff assms])
  with assms have "map_of (sort_key fst d) k = Some v \<longleftrightarrow> map_of d k = Some v" for v
    by (simp only: map_of_eq_Some_iff set_sort)
  then show "map_of (sort_key fst d) k = map_of d k" by (metis not_None_eq)
qed

lemma get_sort_keys:
  assumes "distinct (map fst d)"
  obtains d' where "sort_keys (PDict d) = PDict d'" "map_of d' = map_option sort_keys \<circ> map_of d"
proof
  let ?d = "map (\<lambda>(k, v). (k, sort_keys v)) d"
  show "sort_keys (PDict d) = PDict (sort_key fst ?d)" by simp
  have "map fst ?d = map fst d" by (induction d) auto
  with assms have "distinct (map fst ?d)" by (simp only:)
  then show "map_of (sort_key fst ?d) = map_option sort_keys \<circ> map_of d"
    by (simp add: map_of_sort_key_fst fun_eq_iff map_of_map_values)
qed

end
