(* ===== verification/Worker_Server.thy ===== *)
theory Worker_Server
  imports Worker_Limits Py_Data
begin

text \<open>
  src/worker/python/src/memory_core_worker/server.py and model.py: the settings of the worker process,
  the gRPC server around the service, and the OpenAI implementation of the text model. The gRPC
  server, the OpenAI client and the environment are parameters. The command line is not modelled
  beyond the values it yields.
\<close>

section \<open>Python integers from text\<close>

text \<open>\<open>int(s)\<close> in base ten: surrounding whitespace, a sign, and decimal digits of any script with single
  underscores between them, at most 4300 of them.\<close>

definition int_space :: "nat \<Rightarrow> bool" where
  "int_space c \<longleftrightarrow> c \<in> {9, 10, 11, 12, 13, 32} \<or> 128 \<le> c \<and> py_isspace c"

text \<open>The digits read: whether a digit came last, the digits so far, most recent first.\<close>

fun read_digits :: "bool \<Rightarrow> nat list \<Rightarrow> pystr \<Rightarrow> nat list option" where
  "read_digits after acc [] = (if after then Some acc else None)"
| "read_digits after acc (c # s) =
     (if c = 95 then if after then read_digits False acc s else None
      else case digit_value c of None \<Rightarrow> None | Some d \<Rightarrow> read_digits True (d # acc) s)"

definition unsigned_int :: "pystr \<Rightarrow> nat option" where
  "unsigned_int s = (case read_digits False [] s of None \<Rightarrow> None
     | Some ds \<Rightarrow> if 4300 < length ds then None else Some (foldr (\<lambda>d n. n * 10 + d) ds 0))"

definition int_of_str :: "pystr \<Rightarrow> int option" where
  "int_of_str s =
     (case strip_on int_space s of
        [] \<Rightarrow> None
      | c # t \<Rightarrow> if c = 43 then map_option int (unsigned_int t)
          else if c = 45 then map_option (\<lambda>n. - int n) (unsigned_int t)
          else map_option int (unsigned_int (c # t)))"

section \<open>Settings\<close>

record settings =
  grpc_address :: pystr
  openai_model :: pystr
  max_model_input_bytes :: int
  reasoning_effort :: "pystr option"

definition validated_settings :: "pystr \<Rightarrow> pystr \<Rightarrow> pystr \<Rightarrow> pystr \<Rightarrow> settings result" where
  "validated_settings address model max_bytes effort =
     (let address = strip address; model = strip model in
      if address = [] then Inl (ValueError (lit ''MEMORY_WORKER_GRPC_ADDR must not be empty''))
      else if model = [] then Inl (ValueError (lit ''MEMORY_WORKER_OPENAI_MODEL is required''))
      else case int_of_str max_bytes of
          None \<Rightarrow> Inl (ValueError (lit ''MEMORY_WORKER_MAX_INPUT_BYTES must be a positive integer''))
        | Some n \<Rightarrow>
            if n \<le> 0 then Inl (ValueError (lit ''MEMORY_WORKER_MAX_INPUT_BYTES must be a positive integer''))
            else Inr \<lparr>grpc_address = address, openai_model = model, max_model_input_bytes = n,
                   reasoning_effort = (if strip effort = [] then None else Some (strip effort))\<rparr>)"

definition env_get :: "(pystr \<Rightarrow> pystr option) \<Rightarrow> pystr \<Rightarrow> pystr \<Rightarrow> pystr" where
  "env_get environment name fallback = (case environment name of Some v \<Rightarrow> v | None \<Rightarrow> fallback)"

definition from_environment :: "(pystr \<Rightarrow> pystr option) \<Rightarrow> settings result" where
  "from_environment environment =
     validated_settings
       (env_get environment (lit ''MEMORY_WORKER_GRPC_ADDR'') (lit ''127.0.0.1:8082''))
       (env_get environment (lit ''MEMORY_WORKER_OPENAI_MODEL'') [])
       (env_get environment (lit ''MEMORY_WORKER_MAX_INPUT_BYTES'') (digits DEFAULT_MAX_MODEL_INPUT_BYTES))
       (env_get environment (lit ''MEMORY_WORKER_REASONING_EFFORT'') [])"

section \<open>The OpenAI text model\<close>

record openai_request =
  oq_model :: pystr
  oq_input :: pystr
  oq_store :: bool
  oq_effort :: "pystr option"

text \<open>A response: its \<open>status\<close> and \<open>output_text\<close> attributes, either of which may be missing or of another
  type; \<open>status_str\<close> is the status as an f-string shows it.\<close>

record openai_response =
  rs_status :: "pystr dyn"
  rs_status_str :: pystr
  rs_output_text :: "pystr dyn"

type_synonym ('w, 'c) responses_create = "'c \<Rightarrow> openai_request \<Rightarrow> ('w, openai_response) io"

record openai_text_model =
  om_model :: pystr
  om_effort :: "pystr option"

definition openai_responses_text_model :: "pystr \<Rightarrow> pystr option \<Rightarrow> openai_text_model result" where
  "openai_responses_text_model model effort =
     (if strip model = [] then Inl (ValueError (lit ''model is required''))
      else Inr \<lparr>om_model = model, om_effort = effort\<rparr>)"

definition new_openai_client :: "'c option \<Rightarrow> 'c result" where
  "new_openai_client installed =
     (case installed of Some c \<Rightarrow> Inr c
      | None \<Rightarrow> Inl (RuntimeError (lit ''OpenAI backend requires the 'openai' optional dependency'')))"

text \<open>\<open>complete\<close>: the state holds the client once it is made.\<close>

definition openai_client :: "'c option \<Rightarrow> ('w \<times> 'c option, 'c) io" where
  "openai_client installed st =
     (case snd st of Some c \<Rightarrow> (Inr c, st)
      | None \<Rightarrow> (case new_openai_client installed of Inl e \<Rightarrow> (Inl e, st) | Inr c \<Rightarrow> (Inr c, fst st, Some c)))"

definition read_response :: "openai_response \<Rightarrow> pystr result" where
  "read_response response =
     (if rs_status response \<noteq> Val (lit ''completed'')
      then Inl (RuntimeError (lit ''OpenAI response was not completed: '' @ rs_status_str response))
      else case rs_output_text response of
          OtherType \<Rightarrow> Inl (RuntimeError (lit ''OpenAI response did not contain plain text''))
        | Val t \<Rightarrow> Inr t)"

definition openai_complete ::
  "'c option \<Rightarrow> ('w, 'c) responses_create \<Rightarrow> openai_text_model \<Rightarrow> pystr \<Rightarrow> ('w \<times> 'c option, pystr) io" where
  "openai_complete installed create self input_text =
     bind_call (openai_client installed) (\<lambda>client.
     bind_call (\<lambda>st. case create client \<lparr>oq_model = om_model self, oq_input = input_text, oq_store = False, oq_effort = om_effort self\<rparr>
         (fst st) of (r, w) \<Rightarrow> (r, w, snd st)) (\<lambda>response.
     pure_call (read_response response)))"

text \<open>Seen by the service, an exception of the model is one of a collaborator; \<open>describe\<close> is how it shows.\<close>

definition as_text_model :: "(py_error \<Rightarrow> pystr) \<Rightarrow> (pystr \<Rightarrow> ('s, pystr) io) \<Rightarrow> 's text_model" where
  "as_text_model describe complete prompt st =
     (case complete prompt st of (Inr t, st') \<Rightarrow> (Answer t, st') | (Inl e, st') \<Rightarrow> (Raises (describe e), st'))"

section \<open>Serving\<close>

record 'w grpc_server =
  add_insecure_port :: "pystr \<Rightarrow> ('w, int) io"
  server_start :: "('w, unit) io"
  wait_for_termination :: "('w, unit) io"
  server_stop :: "nat \<Rightarrow> ('w, unit) io"

datatype server_event = AddPort pystr | StartServer "unit result" | WaitServer | StopServer nat

text \<open>\<open>try: body finally: cleanup\<close>: an error of the cleanup replaces the outcome of the body.\<close>

definition try_finally :: "('s, 'a) io \<Rightarrow> ('s, unit) io \<Rightarrow> ('s, 'a) io" where
  "try_finally body cleanup st =
     (case body st of (r, st') \<Rightarrow> (case cleanup st' of (Inl e, st'') \<Rightarrow> (Inl e, st'') | (Inr _, st'') \<Rightarrow> (r, st'')))"

definition serve :: "'w grpc_server \<Rightarrow> 'm text_model \<Rightarrow> pystr \<Rightarrow> int \<Rightarrow> ('w \<times> server_event list, unit) io" where
  "serve server model address max_bytes =
     bind_call (pure_call (inference_service model max_bytes)) (\<lambda>_.
     bind_call (logged (\<lambda>_. AddPort address) (add_insecure_port server address)) (\<lambda>port.
     if port = 0 then pure_call (Inl (RuntimeError (lit ''could not bind gRPC server to '' @ address)))
     else bind_call (logged StartServer (server_start server)) (\<lambda>_.
       try_finally (logged (\<lambda>_. WaitServer) (wait_for_termination server)) (logged (\<lambda>_. StopServer 5) (server_stop server 5)))))"

text \<open>\<open>asyncio.run\<close>: a SIGINT cancels the main task, and a task that ends cancelled for that reason makes the runner raise
  \<open>KeyboardInterrupt\<close>. Whether a SIGINT has cancelled the task is read off the world in which the task has ended.\<close>

definition asyncio_run :: "('w \<Rightarrow> bool) \<Rightarrow> ('w \<times> 'e list, 'a) io \<Rightarrow> ('w \<times> 'e list, 'a) io" where
  "asyncio_run interrupted task st =
     (case task st of
        (Inl (OtherError name msg), st') \<Rightarrow>
          (if name = lit ''CancelledError'' \<and> interrupted (fst st') then Inl (OtherError (lit ''KeyboardInterrupt'') [])
           else Inl (OtherError name msg), st')
      | outcome \<Rightarrow> outcome)"

text \<open>\<open>try: body except KeyboardInterrupt: pass\<close>\<close>

definition except_interrupt :: "('s, unit) io \<Rightarrow> ('s, unit) io" where
  "except_interrupt body st =
     (case body st of
        (Inl (OtherError name msg), st') \<Rightarrow> (if name = lit ''KeyboardInterrupt'' then Inr () else Inl (OtherError name msg), st')
      | outcome \<Rightarrow> outcome)"

definition main ::
  "('w \<Rightarrow> bool) \<Rightarrow> 'w grpc_server \<Rightarrow> (openai_text_model \<Rightarrow> 'm text_model) \<Rightarrow> settings result \<Rightarrow> ('w \<times> server_event list, unit) io" where
  "main interrupted server text_model parsed =
     bind_call (pure_call parsed) (\<lambda>settings.
     bind_call (pure_call (openai_responses_text_model (openai_model settings) (reasoning_effort settings))) (\<lambda>model.
     except_interrupt (asyncio_run interrupted (serve server (text_model model) (grpc_address settings) (max_model_input_bytes settings)))))"

section \<open>Settings that are accepted\<close>

lemma read_digits_digits:
  "\<forall>c \<in> set s. 48 \<le> c \<and> c \<le> 57 \<Longrightarrow> s \<noteq> [] \<or> after \<Longrightarrow> read_digits after acc s = Some (rev (map (\<lambda>c. c - 48) s) @ acc)"
proof (induction s arbitrary: after acc)
  case (Cons c s)
  then have "digit_value c = Some (c - 48)" using digit_value_ascii [of "c - 48"] by auto
  with Cons show ?case by simp
qed simp

lemma unsigned_int_digits: "length (digits n) \<le> 4300 \<Longrightarrow> unsigned_int (digits n) = Some n"
proof -
  assume "length (digits n) \<le> 4300"
  moreover have "read_digits False [] (digits n) = Some (rev (map (\<lambda>c. c - 48) (digits n)))"
    using read_digits_digits [of "digits n" False "[]"] digits_range [of _ n] by simp
  moreover have "foldr (\<lambda>d m. m * 10 + d) (rev (map (\<lambda>c. c - 48) (digits n))) 0 = undigits (digits n)"
    by (simp add: undigits_def foldr_conv_foldl foldl_map algebra_simps)
  ultimately show ?thesis by (simp add: unsigned_int_def)
qed

lemma int_of_str_digits: "length (digits n) \<le> 4300 \<Longrightarrow> int_of_str (digits n) = Some (int n)"
proof -
  assume len: "length (digits n) \<le> 4300"
  have range: "48 \<le> c \<and> c \<le> 57" if "c \<in> set (digits n)" for c using digits_range that .
  then have "\<forall>c \<in> set (digits n). \<not> int_space c" by (fastforce simp: int_space_def)
  then have "strip_on int_space (digits n) = digits n" by (rule strip_on_none)
  moreover obtain c t where ct: "digits n = c # t" by (cases "digits n") auto
  moreover have "c \<noteq> 43" "c \<noteq> 45" using range [of c] ct by auto
  ultimately show ?thesis using unsigned_int_digits [OF len] by (simp add: int_of_str_def)
qed

lemma validated_settings_Inr:
  assumes "validated_settings address model max_bytes effort = Inr s"
  shows "grpc_address s = strip address \<and> grpc_address s \<noteq> [] \<and> openai_model s = strip model \<and> openai_model s \<noteq> [] \<and>
    int_of_str max_bytes = Some (max_model_input_bytes s) \<and> 0 < max_model_input_bytes s \<and> reasoning_effort s \<noteq> Some []"
  using assms by (auto simp: validated_settings_def Let_def split: if_splits option.splits)

text \<open>How serving ends for the process: an interrupt is a normal end, everything else is passed on.\<close>

definition stopped_by_user :: "bool \<Rightarrow> unit result \<Rightarrow> bool" where
  "stopped_by_user interrupted r \<longleftrightarrow> (\<exists>msg. r = Inl (OtherError (lit ''KeyboardInterrupt'') msg)) \<or>
     interrupted \<and> (\<exists>msg. r = Inl (OtherError (lit ''CancelledError'') msg))"

lemma interrupt_cases:
  assumes "task st = (r, st')"
  shows "except_interrupt (asyncio_run interrupted task) st = (if stopped_by_user (interrupted (fst st')) r then Inr () else r, st')"
  using assms by (auto simp: except_interrupt_def asyncio_run_def stopped_by_user_def split: sum.splits py_error.splits)

text \<open>
  C20: settings that pass validation are enough. The constructors of the text model and of the service accept
  them, so a process with accepted settings always goes on to serve: its calls are those of \<open>serve\<close>, and it ends as
  \<open>serve\<close> does, except that an interrupt of the user is a normal end. A rejected value is reported as a
  \<open>ValueError\<close> before anything is started.
\<close>

theorem settings_sufficient:
  assumes "parsed = validated_settings address model max_bytes effort"
  shows "(case parsed of
      Inr s \<Rightarrow> \<exists>m service r st'. openai_responses_text_model (openai_model s) (reasoning_effort s) = Inr m \<and>
        inference_service (text_model m) (max_model_input_bytes s) = Inr service \<and>
        0 < nat (max_model_input_bytes s) \<and>
        serve server (text_model m) (grpc_address s) (max_model_input_bytes s) st = (r, st') \<and>
        main interrupted server text_model parsed st = (if stopped_by_user (interrupted (fst st')) r then Inr () else r, st')
    | Inl e \<Rightarrow> (\<exists>msg. e = ValueError msg) \<and> main interrupted server text_model parsed st = (Inl e, st))"
proof (cases parsed)
  case (Inl e)
  with assms have "\<exists>msg. e = ValueError msg" by (auto simp: validated_settings_def Let_def split: if_splits option.splits)
  with Inl show ?thesis by (simp add: main_def bind_call_def pure_call_def)
next
  case (Inr s)
  with assms have s: "validated_settings address model max_bytes effort = Inr s" by simp
  from validated_settings_Inr [OF s] have ok: "strip (openai_model s) \<noteq> []" "0 < max_model_input_bytes s" by (metis strip_idem, blast)
  let ?m = "\<lparr>om_model = openai_model s, om_effort = reasoning_effort s\<rparr>"
  obtain r st' where r: "serve server (text_model ?m) (grpc_address s) (max_model_input_bytes s) st = (r, st')" by (metis prod.exhaust)
  have model: "openai_responses_text_model (openai_model s) (reasoning_effort s) = Inr ?m"
    and service: "inference_service (text_model ?m) (max_model_input_bytes s) =
      Inr (ProcessConsolidationWindow (text_model ?m) (nat (max_model_input_bytes s)))" and positive: "0 < nat (max_model_input_bytes s)"
    using ok by (simp_all add: openai_responses_text_model_def inference_service_def)
  have "main interrupted server text_model (Inr s) st = (if stopped_by_user (interrupted (fst st')) r then Inr () else r, st')"
    unfolding main_def using interrupt_cases [of "serve server (text_model ?m) (grpc_address s) (max_model_input_bytes s)" st r st' interrupted, OF r]
    by (simp add: bind_call_def pure_call_def model)
  with model service positive r show ?thesis unfolding Inr sum.case by blast
qed

text \<open>
  The defaults of the environment. With only the model named, the worker listens on the loopback
  address with the default input bound and no reasoning effort; and any bound printed by Python reads
  back as itself.
\<close>

lemma environment_defaults:
  "from_environment [lit ''MEMORY_WORKER_OPENAI_MODEL'' \<mapsto> lit ''m''] =
     Inr \<lparr>grpc_address = lit ''127.0.0.1:8082'', openai_model = lit ''m'',
       max_model_input_bytes = int DEFAULT_MAX_MODEL_INPUT_BYTES, reasoning_effort = None\<rparr> \<and>
   (length (digits n) \<le> 4300 \<and> 0 < n \<longrightarrow>
     (\<exists>s. validated_settings (lit ''a'') (lit ''m'') (digits n) [] = Inr s \<and> max_model_input_bytes s = int n))"
proof -
  have strips: "strip (lit ''127.0.0.1:8082'') = lit ''127.0.0.1:8082''" "strip (lit ''m'') = lit ''m''" "strip (lit ''a'') = lit ''a''"
    by (simp_all add: strip_def strip_on_def rstrip_on_def py_isspace_def lit_def)
  have "length (digits DEFAULT_MAX_MODEL_INPUT_BYTES) \<le> 4300"
    by (simp add: DEFAULT_MAX_MODEL_INPUT_BYTES_def digits.simps)
  then have "int_of_str (digits DEFAULT_MAX_MODEL_INPUT_BYTES) = Some (int DEFAULT_MAX_MODEL_INPUT_BYTES)"
    by (rule int_of_str_digits)
  moreover have "0 < DEFAULT_MAX_MODEL_INPUT_BYTES" by (simp add: DEFAULT_MAX_MODEL_INPUT_BYTES_def)
  ultimately show ?thesis
    using int_of_str_digits [of n] strips by (simp add: from_environment_def validated_settings_def env_get_def)
qed

section \<open>The server is always stopped\<close>

lemma traces_finally:
  assumes "\<And>r r'. R [f r, g r'] (case r' of Inl e \<Rightarrow> Inl e | Inr _ \<Rightarrow> r)"
  shows "traces (try_finally (logged f body) (logged g cleanup)) R"
  using assms by (fastforce simp: traces_def try_finally_def logged_def split: prod.splits sum.splits)

text \<open>
  no server is left running. The calls of \<open>serve\<close> stop at the first failure before the server has
  started; once it has started, the wait is always followed by a stop with a grace period of five
  seconds, whether the wait ended normally or not.
\<close>

lemma serve_stops:
  assumes "serve server model address max_bytes (w, sofar) = (r, w', sofar @ es)"
  shows "es = [] \<or> es = [AddPort address] \<or> (\<exists>e. es = [AddPort address, StartServer (Inl e)] \<and> r = Inl e) \<or>
    es = [AddPort address, StartServer (Inr ()), WaitServer, StopServer 5]"
proof -
  let ?R = "\<lambda>es r. es = [] \<or> es = [AddPort address] \<or> (\<exists>e. es = [AddPort address, StartServer (Inl e)] \<and> r = Inl e) \<or>
    es = [AddPort address, StartServer (Inr ()), WaitServer, StopServer 5]"
  have "traces (serve server model address max_bytes) ?R"
    unfolding serve_def
    by (intro traces_bind_pure traces_bind_logged traces_if traces_pure traces_finally) simp_all
  from tracesD [OF this assms] show ?thesis by blast
qed

definition idle_server :: "unit grpc_server" where
  "idle_server = \<lparr>add_insecure_port = (\<lambda>_ w. (Inr 8082, w)), server_start = (\<lambda>w. (Inr (), w)),
     wait_for_termination = (\<lambda>w. (Inl (OtherError (lit ''CancelledError'') []), w)), server_stop = (\<lambda>_ w. (Inr (), w))\<rparr>"

lemma idle_server_run:
  "serve idle_server plain_model (lit ''a'') 1 ((), []) =
     (Inl (OtherError (lit ''CancelledError'') []), (), [] @ [AddPort (lit ''a''), StartServer (Inr ()), WaitServer, StopServer 5])"
  by (simp add: serve_def bind_call_def pure_call_def logged_def try_finally_def inference_service_def idle_server_def)

text \<open>Settings without a model are rejected; with them the process serves until the user stops it.\<close>

theorem settings_sufficient_witness:
  "main (\<lambda>_. True) idle_server (\<lambda>_. plain_model) (validated_settings (lit ''a'') [] [] []) ((), []) =
     (Inl (ValueError (lit ''MEMORY_WORKER_OPENAI_MODEL is required'')), (), []) \<and>
   main (\<lambda>_. True) idle_server (\<lambda>_. plain_model) (validated_settings (lit ''a'') (lit ''m'') (lit ''1'') []) ((), []) =
     (Inr (), (), [AddPort (lit ''a''), StartServer (Inr ()), WaitServer, StopServer 5])"
proof -
  have strips: "strip (lit ''m'') = lit ''m''" "strip (lit ''a'') = lit ''a''" "strip [] = []"
    by (simp_all add: strip_def strip_on_def rstrip_on_def py_isspace_def lit_def)
  have rejected: "validated_settings (lit ''a'') [] [] [] = Inl (ValueError (lit ''MEMORY_WORKER_OPENAI_MODEL is required''))"
    by (simp add: validated_settings_def strips)
  have "digits 1 = lit ''1''" by (simp add: digits.simps lit_def)
  then have one: "int_of_str (lit ''1'') = Some 1" using int_of_str_digits [of 1] by simp
  obtain s where accepted: "validated_settings (lit ''a'') (lit ''m'') (lit ''1'') [] = Inr s"
    and s: "grpc_address s = lit ''a''" "max_model_input_bytes s = 1" "reasoning_effort s = None"
    by (simp add: validated_settings_def strips one)
  have "stopped_by_user True (Inl (OtherError (lit ''CancelledError'') []))" by (simp add: stopped_by_user_def)
  then show ?thesis
    using settings_sufficient [OF refl, where address = "lit ''a''" and model = "[]" and max_bytes = "[]" and effort = "[]"
        and interrupted = "\<lambda>_. True" and server = idle_server and text_model = "\<lambda>_. plain_model" and st = "((), [])", unfolded rejected]
      settings_sufficient [OF refl, where address = "lit ''a''" and model = "lit ''m''" and max_bytes = "lit ''1''" and effort = "[]"
        and interrupted = "\<lambda>_. True" and server = idle_server and text_model = "\<lambda>_. plain_model" and st = "((), [])", unfolded accepted]
      idle_server_run rejected accepted s by auto
qed

section \<open>The worker with the OpenAI model\<close>

lemma as_text_model_text: "fst (as_text_model describe complete p w) \<noteq> NotText"
  by (auto simp: as_text_model_def split: prod.splits sum.splits)

text \<open>
  the worker with the OpenAI model. This model returns a completed plain text or raises, so the
  handler never fails for a value of the wrong type: what remains is an exception of the model, a lone
  surrogate, or, for a window with one formation anchor, an unacceptable body.
\<close>

lemma openai_window_errors:
  assumes "ProcessConsolidationWindow (as_text_model describe (openai_complete installed create self)) max_bytes request st = (Inl e, st')"
  shows "(\<exists>m. e = RaisedBy m) \<or> e = UnicodeEncodeError \<or>
    formation_error (as_text_model describe (openai_complete installed create self)) request e st'"
proof -
  let ?model = "as_text_model describe (openai_complete installed create self)"
  have "\<not> last_reply ?model st' NotText"
    using as_text_model_text [of describe "openai_complete installed create self"] by (auto simp: last_reply_def) (metis fst_conv)
  moreover have "window_error ?model request e st'" using assms window_fails unfolding fails_only_def by blast
  ultimately show ?thesis unfolding window_error_def model_error_def by blast
qed

end
