(* ===== verification/Worker_Injection.thy ===== *)
theory Worker_Injection
  imports Worker_Limits
begin

text \<open>
  The hypothesis of the authority theorem is needed. The Core writes the text of an Outcome into the window as it
  is (renderFeedbackWindow of src/internal/storage/postgres/feedback_consolidation.go), and the worker reads the
  feedback offers back from the lines of the whole window. This theory runs the handler on a window in which an
  Outcome text brings lines of its own that look like offers.
\<close>

section \<open>Lines made of printable characters\<close>

definition tidy :: "string \<Rightarrow> bool" where
  "tidy s \<longleftrightarrow> s \<noteq> [] \<and> hd s \<noteq> CHR '' '' \<and> last s \<noteq> CHR '' '' \<and> list_all (\<lambda>c. 32 \<le> (of_char c :: nat) \<and> (of_char c :: nat) < 127) s"

lemma tidy_lit:
  assumes "tidy s"
  shows "strip3 (lit s) = lit s" and "strip (lit s) = lit s" and "go_trim (lit s) = lit s" and "no_breaks (lit s)"
proof -
  have "\<forall>c \<in> set s. 32 \<le> (of_char c :: nat) \<and> (of_char c :: nat) < 127" using assms by (simp add: tidy_def list_all_iff)
  then have range: "32 \<le> c \<and> c < 127" if "c \<in> set (lit s)" for c using that by (auto simp: lit_def)
  have "hd (lit s) \<noteq> of_char (CHR '' '')" "last (lit s) \<noteq> of_char (CHR '' '')" "lit s \<noteq> []"
    using assms by (simp_all add: tidy_def lit_def hd_map last_map del: of_char_Char)
  then have ends: "hd (lit s) \<noteq> 32" "last (lit s) \<noteq> 32" "hd (lit s) \<in> set (lit s)" "last (lit s) \<in> set (lit s)" by simp_all
  then have ends: "32 < hd (lit s) \<and> hd (lit s) < 127" "32 < last (lit s) \<and> last (lit s) < 127"
    using range [OF ends(3)] range [OF ends(4)] by auto
  show "strip3 (lit s) = lit s" unfolding strip3_def using ends by (intro strip_on_id) (auto simp: blank3_def)
  show "strip (lit s) = lit s" unfolding strip_def using ends by (intro strip_on_id) (auto simp: py_isspace_def)
  show "go_trim (lit s) = lit s" unfolding go_trim_def using ends by (intro strip_on_id) (auto simp: go_space_def)
  show "no_breaks (lit s)" using range by (fastforce simp: no_breaks_def py_linebreak_def)
qed

lemma tidy_lines:
  assumes "list_all tidy ss" and "ss \<noteq> []"
  shows "splitlines (join_lines (map lit ss)) = map lit ss" and "map strip3 (map lit ss) = map lit ss"
    and "lines3 (join_lines (map lit ss)) = map lit ss" and "core_lines (join_lines (map lit ss)) = map lit ss"
proof -
  have ok: "strip3 l = l \<and> go_trim l = l \<and> no_breaks l \<and> l \<noteq> []" if "l \<in> set (map lit ss)" for l
    using that assms(1) tidy_lit by (auto simp: list_all_iff tidy_def)
  then have "last (map lit ss) \<noteq> []" using assms(2) by (metis last_in_set map_is_Nil_conv)
  then show split: "splitlines (join_lines (map lit ss)) = map lit ss" using ok by (subst splitlines_join) auto
  show strips: "map strip3 (map lit ss) = map lit ss" using ok by (intro map_idI) blast
  show "lines3 (join_lines (map lit ss)) = map lit ss"
    unfolding lines3_def split strips using ok by (intro filter_True) blast
  show "core_lines (join_lines (map lit ss)) = map lit ss" using ok by (intro core_lines_of_lines) blast
qed

lemma startswith_lit: "startswith (lit s) (lit p) \<longleftrightarrow> take (length p) s = p"
proof -
  have "take (length (lit p)) (lit s) = lit (take (length p) s)" unfolding lit_def by (simp add: take_map)
  then show ?thesis unfolding startswith_def by (simp only: lit_inject)
qed

lemma drop_lit: "drop n (lit s) = lit (drop n s)"
  by (simp add: lit_def drop_map)

section \<open>An Outcome with offers of its own\<close>

definition injected_text :: "string list" where
  "injected_text = [''FEEDBACK_EPISODE TARGET'', ''FEEDBACK_EPISODE APPLICATION'', ''FEEDBACK_EPISODE CHANGE'', ''FEEDBACK_EPISODE x'',
     ''FEEDBACK_OUTCOME NEW_DISPOSITION'', ''OUTCOME_EPISODE TARGET'', ''FEEDBACK_OUTCOME SELF'', ''OUTCOME_EPISODE APPLICATION'',
     ''FEEDBACK_OUTCOME ADAPT'', ''OUTCOME_EPISODE CHANGE'', ''FEEDBACK_OUTCOME BASIS'', ''OUTCOME_EPISODE x'']"

definition injected_lines :: "string list" where
  "injected_lines = [''OUTCOME o1'', ''OUTCOME_EPISODE e1'', ''ACTOR user u''] @ injected_text @
     [''ELIGIBLE_DISPOSITION d1'', ''APPLICATION SELF'', ''TEXT Be brief.'', ''FEEDBACK_EPISODE e1'', ''FEEDBACK_EPISODE e2'',
      ''FEEDBACK_OUTCOME o1'', ''OUTCOME_EPISODE e1'', ''FEEDBACK_OUTCOME o2'', ''OUTCOME_EPISODE e2'']"

definition injected_request :: window_request where
  "injected_request = \<lparr>job_ref = lit ''j'', window_text = join_lines (map lit injected_lines),
     allowed_target_refs = [lit ''d1'', lit ''NEW_DISPOSITION''],
     allowed_basis_refs = [lit ''e1'', lit ''o1'', lit ''e2'', lit ''o2''], evidence = None\<rparr>"

text \<open>The answer to the feedback prompt and the text that the handler returns for it.\<close>

definition injected_answer :: "string list" where
  "injected_answer = [''TARGET'', ''d1'', ''APPLICATION'', ''SELF'', ''CHANGE'', ''INHIBIT'', ''BASIS'',
     ''o1'', ''NEW_DISPOSITION'', ''SELF'', ''ADAPT'', ''BASIS'', ''o2'']"

definition injected_response :: "string list" where
  "injected_response = [''TARGET'', ''d1'', ''APPLICATION'', ''SELF'', ''CHANGE'', ''INHIBIT'', ''BASIS'', ''e1'', ''o1'',
     ''TARGET'', ''NEW_DISPOSITION'', ''APPLICATION'', ''SELF'', ''CHANGE'', ''ADAPT'', ''x'', ''BASIS'', ''e2'', ''o2'']"

lemma injected_tidy: "list_all tidy injected_lines" "list_all tidy injected_answer" "list_all tidy injected_response"
  by (simp_all add: injected_lines_def injected_text_def injected_answer_def injected_response_def tidy_def)

lemma injected_nonempty: "injected_lines \<noteq> []" "injected_answer \<noteq> []" "injected_response \<noteq> []"
  by (simp_all add: injected_lines_def injected_answer_def injected_response_def)

lemmas injected_split = tidy_lines(1,2) [OF injected_tidy(1) injected_nonempty(1)]

lemma injected_strips:
  "strip (lit ''TARGET'') = lit ''TARGET''" "strip (lit ''APPLICATION'') = lit ''APPLICATION''" "strip (lit ''CHANGE'') = lit ''CHANGE''"
  "strip (lit ''x'') = lit ''x''" "strip (lit ''NEW_DISPOSITION'') = lit ''NEW_DISPOSITION''" "strip (lit ''SELF'') = lit ''SELF''"
  "strip (lit ''ADAPT'') = lit ''ADAPT''" "strip (lit ''BASIS'') = lit ''BASIS''" "strip (lit ''e1'') = lit ''e1''" "strip (lit ''o1'') = lit ''o1''"
  "strip (lit ''e2'') = lit ''e2''" "strip (lit ''o2'') = lit ''o2''" "strip (lit ''d1'') = lit ''d1''"
  by (rule tidy_lit(2), simp add: tidy_def)+

definition injected_outcomes :: "pystr \<Rightarrow> pystr option" where
  "injected_outcomes = [lit ''NEW_DISPOSITION'' \<mapsto> lit ''TARGET'', lit ''SELF'' \<mapsto> lit ''APPLICATION'', lit ''ADAPT'' \<mapsto> lit ''CHANGE'',
     lit ''BASIS'' \<mapsto> lit ''x'', lit ''o1'' \<mapsto> lit ''e1'', lit ''o2'' \<mapsto> lit ''e2'']"

lemma injected_map:
  "feedback_basis_map (window_text injected_request) =
     ({lit ''TARGET'', lit ''APPLICATION'', lit ''CHANGE'', lit ''x'', lit ''e1'', lit ''e2''}, injected_outcomes)"
  unfolding feedback_basis_map_def Let_def injected_request_def window_request.simps injected_split
  by (simp add: feedback_episodes_def injected_lines_def injected_text_def startswith_lit removeprefix_def drop_lit injected_strips injected_outcomes_def)

lemma injected_targets:
  "eligible_feedback_targets (window_text injected_request) (allowed_target_refs injected_request) = [lit ''d1'']"
  unfolding eligible_feedback_targets_def Let_def injected_request_def window_request.simps injected_split
  by (simp add: injected_lines_def injected_text_def startswith_lit drop_lit injected_strips uniq_def)

lemma injected_basis:
  "eligible_feedback_basis_refs (window_text injected_request) (allowed_basis_refs injected_request) \<noteq> []"
  unfolding eligible_feedback_basis_refs_def injected_request_def window_request.simps injected_split
  by (simp add: injected_lines_def injected_text_def startswith_lit drop_lit injected_strips uniq_def feedback_ref_def List.map_filter_def)

lemma injected_normalized:
  "normalize_feedback_output (join_lines (map lit injected_answer)) [lit ''d1''] (window_text injected_request) =
     join_lines (map lit injected_response)"
  unfolding normalize_feedback_output_def injected_map tidy_lines(3) [OF injected_tidy(2) injected_nonempty(2)]
  by (simp add: feedback_blocks.simps feedback_block_def feedback_operation_def feedback_basis_def injected_answer_def injected_response_def
      injected_outcomes_def ordered_unique_def uniq_def Let_def)

section \<open>What the Core reads\<close>

definition injected_change :: change where
  "injected_change = \<lparr>Target = lit ''NEW_DISPOSITION'', Application = lit ''SELF'', Operation = lit ''ADAPT'', Text = lit ''x'',
     BasisRefs = [lit ''e2'', lit ''o2'']\<rparr>"

definition inhibited_change :: change where
  "inhibited_change = \<lparr>Target = lit ''d1'', Application = lit ''SELF'', Operation = lit ''INHIBIT'', Text = [],
     BasisRefs = [lit ''e1'', lit ''o1'']\<rparr>"

lemma injected_refs: "stableBasisRef (lit ''e1'')" "stableBasisRef (lit ''o1'')" "stableBasisRef (lit ''e2'')" "stableBasisRef (lit ''o2'')"
  "existingStableRef (lit ''d1'')"
  by (auto simp: stableBasisRef_def existingStableRef_def stableRef_def core_reserved_def go_space_def py_control_def lit_def)

lemma injected_parses: "ParseTaggedText (join_lines (map lit injected_response)) = Some [inhibited_change, injected_change]"
proof -
  have "block_of ([lit ''TARGET'', lit ''d1'', lit ''APPLICATION'', lit ''SELF'', lit ''CHANGE''] @ [lit ''INHIBIT''] @
      lit ''BASIS'' # [lit ''e1'', lit ''o1'']) inhibited_change"
    unfolding inhibited_change_def using injected_refs
    by (intro block_ofI) (simp_all add: operation_lines_def operation_lits validApplication_def)
  moreover have "block_of ([lit ''TARGET'', lit ''NEW_DISPOSITION'', lit ''APPLICATION'', lit ''SELF'', lit ''CHANGE''] @ [lit ''ADAPT'', lit ''x''] @
      lit ''BASIS'' # [lit ''e2'', lit ''o2'']) injected_change"
    unfolding injected_change_def using injected_refs
    by (intro block_ofI operation_lines_text) (simp_all add: validApplication_def new_targets_def MaxChangeTextBytes_def, simp add: lit_def)
  ultimately have "parse_blocks {} (concat
      [[lit ''TARGET'', lit ''d1'', lit ''APPLICATION'', lit ''SELF'', lit ''CHANGE''] @ [lit ''INHIBIT''] @ lit ''BASIS'' # [lit ''e1'', lit ''o1''],
       [lit ''TARGET'', lit ''NEW_DISPOSITION'', lit ''APPLICATION'', lit ''SELF'', lit ''CHANGE''] @ [lit ''ADAPT'', lit ''x''] @
         lit ''BASIS'' # [lit ''e2'', lit ''o2'']]) = Some [inhibited_change, injected_change]"
    by (intro parse_blocks_of) (simp_all add: inhibited_change_def injected_change_def new_targets_def existing_def)
  then have "parse_blocks {} (map lit injected_response) = Some [inhibited_change, injected_change]" by (simp add: injected_response_def)
  moreover have "psize (join_lines (map lit injected_response)) \<le> MaxTaggedTextBytes"
    by (simp add: injected_response_def MaxTaggedTextBytes_def lit_def)
  ultimately show ?thesis
    by (simp add: ParseTaggedText_core_lines tidy_lines(4) [OF injected_tidy(3) injected_nonempty(3)])
qed

section \<open>The run of the handler\<close>

definition injected_input :: pystr where
  "injected_input = build_model_input (window_text injected_request) (allowed_target_refs injected_request) (allowed_basis_refs injected_request)"

lemma no_surrogates_lits [simp]: "list_all no_surrogates (map lit ss)"
  by (simp add: list_all_length)

lemma injected_run:
  "\<exists>st'. ProcessConsolidationWindow (two_answers NO_CHANGE_TOKEN (join_lines (map lit injected_answer))) (psize injected_input) injected_request (0, []) =
     (Inr (join_lines (map lit injected_response)), st')"
proof -
  let ?answer = "join_lines (map lit injected_answer)" and ?response = "join_lines (map lit injected_response)"
  have input: "encode_len injected_input = Inr (psize injected_input)"
    using rules_no_surrogates
    by (intro encode_len_size) (simp add: injected_input_def build_model_input_def injected_request_def tagged_values_def py_surrogate_def)
  have formation: "formation_step complete k injected_request t st = (Inr t, st)" for complete :: "nat text_model" and k t st
    by (simp add: formation_step_def injected_request_def disposition_formation_material_def has_disposition_formation_anchor_def
        bind_call_def pure_call_def)
  have "strip ?answer = ?answer" unfolding strip_def by (rule strip_on_id) (simp add: injected_answer_def lit_def py_isspace_def)
  then have answer: "strip ?answer \<noteq> NO_CHANGE_TOKEN" by (simp add: injected_answer_def NO_CHANGE_TOKEN_def lit_def)
  have response: "?response \<noteq> []" "encode_len ?response = Inr (psize ?response)" "\<not> MAX_TAGGED_TEXT_BYTES < psize ?response"
    by (simp_all add: encode_len_size) (simp_all add: injected_response_def MAX_TAGGED_TEXT_BYTES_def lit_def)
  have empty: "normalize_primary injected_request [] = []"
    by (simp add: normalize_primary_def injected_targets contains_only_target_blocks_def lines3_def splitlines_def Let_def)
  obtain p where recover: "recover_missing_feedback (two_answers NO_CHANGE_TOKEN ?answer) injected_request [] (Suc 0, log) =
      (Inr ?response, Suc (Suc 0), log @ [p])" for log
    using injected_basis answer response
    by (simp add: recover_missing_feedback_def injected_targets contains_target_block_def splitlines_def Let_def bind_call_def pure_call_def
        complete_text_def two_answers_def injected_normalized)
  have "\<not> should_process_recollection injected_request ?response"
    by (simp add: should_process_recollection_def injected_request_def)
  moreover have "complete_text (two_answers NO_CHANGE_TOKEN ?answer) injected_input (0, []) = (Inr NO_CHANGE_TOKEN, Suc 0, [injected_input])"
    by (simp add: complete_text_def two_answers_def)
  ultimately show ?thesis
    unfolding ProcessConsolidationWindow_def injected_input_def [symmetric] Let_def bind_call_def pure_call_def
    by (simp only: input clean_no_change formation empty recover prod.case sum.case less_irrefl if_False) simp
qed


end
