(* ===== verification/Memory_Wire.thy ===== *)
theory Memory_Wire
  imports Py_Text
begin

text \<open>
  The messages of src/api/memory/v1/memory.proto that the Python SDK and the evaluation harness build
  and read. Enumerations are the integers they are in Python; a submessage that may be unset is an
  optional value, and reading a field of an unset one gives the default.
\<close>

section \<open>Enumerations\<close>

abbreviation MEMORY_SCOPE_KIND_RELATIONSHIP :: int where "MEMORY_SCOPE_KIND_RELATIONSHIP \<equiv> 2"

abbreviation EPISODE_SOURCE_ROLE_SITUATION :: int where "EPISODE_SOURCE_ROLE_SITUATION \<equiv> 1"
abbreviation EPISODE_SOURCE_ROLE_AGENT_ACT :: int where "EPISODE_SOURCE_ROLE_AGENT_ACT \<equiv> 2"

abbreviation SOURCE_ACTOR_KIND_USER :: int where "SOURCE_ACTOR_KIND_USER \<equiv> 1"
abbreviation SOURCE_ACTOR_KIND_AGENT :: int where "SOURCE_ACTOR_KIND_AGENT \<equiv> 2"
abbreviation SOURCE_ACTOR_KIND_EXTERNAL :: int where "SOURCE_ACTOR_KIND_EXTERNAL \<equiv> 5"

abbreviation MEMORY_APPLICATION_SCOPE_SELF :: int where "MEMORY_APPLICATION_SCOPE_SELF \<equiv> 1"
abbreviation MEMORY_APPLICATION_SCOPE_OTHER :: int where "MEMORY_APPLICATION_SCOPE_OTHER \<equiv> 2"
abbreviation MEMORY_APPLICATION_SCOPE_RELATION :: int where "MEMORY_APPLICATION_SCOPE_RELATION \<equiv> 3"
abbreviation MEMORY_APPLICATION_SCOPE_SITUATION :: int where "MEMORY_APPLICATION_SCOPE_SITUATION \<equiv> 4"

section \<open>Messages\<close>

record memory_scope =
  tenant_ref :: pystr
  agent_ref :: pystr
  relationship_ref :: pystr
  session_ref :: pystr
  scope_kind :: int

record constitution =
  con_memory_ref :: pystr
  con_text :: pystr

definition empty_constitution :: constitution where
  "empty_constitution = \<lparr>con_memory_ref = [], con_text = []\<rparr>"

definition empty_scope :: memory_scope where
  "empty_scope = \<lparr>tenant_ref = [], agent_ref = [], relationship_ref = [], session_ref = [], scope_kind = 0\<rparr>"

record source_event =
  sv_scope :: memory_scope
  sv_text :: pystr
  sv_source_ref :: pystr
  sv_actor_kind :: int
  sv_actor_ref :: pystr
  sv_constitution :: "constitution option"

record episode_binding =
  eb_run_ref :: pystr
  eb_source_group_ref :: pystr
  eb_role :: int

record observe_request =
  ob_idempotency_key :: pystr
  ob_source_event :: source_event
  ob_episode_binding :: "episode_binding option"

record source_event_receipt =
  sr_source_event_ref :: pystr
  sr_episode_ref :: pystr

record select_request =
  sq_scope :: memory_scope
  sq_run_ref :: pystr
  sq_situation_refs :: "pystr list"
  sq_constitution :: "constitution option"
  sq_evidence_max_bytes :: int

text \<open>Recollections and Dispositions have the same fields.\<close>

record memory_item =
  mi_memory_ref :: pystr
  mi_text :: pystr
  mi_application_scope :: int

record episode_item =
  ei_memory_ref :: pystr
  ei_text :: pystr

record memory_context =
  mc_context_ref :: pystr
  mc_run_ref :: pystr
  mc_scope :: memory_scope
  mc_constitution :: constitution
  mc_recollections :: "memory_item list"
  mc_dispositions :: "memory_item list"
  mc_episode_evidence :: "episode_item list"

definition empty_context :: memory_context where
  "empty_context = \<lparr>mc_context_ref = [], mc_run_ref = [], mc_scope = empty_scope, mc_constitution = empty_constitution,
     mc_recollections = [], mc_dispositions = [], mc_episode_evidence = []\<rparr>"

record delivery_receipt =
  dr_idempotency_key :: pystr
  dr_scope :: memory_scope
  dr_run_ref :: pystr
  dr_context_ref :: pystr
  dr_delivered_refs :: "pystr list"

record receipt_ack =
  ra_receipt_ref :: pystr

record outcome_request =
  or_idempotency_key :: pystr
  or_scope :: memory_scope
  or_run_ref :: pystr
  or_source_group_ref :: pystr
  or_text :: pystr
  or_delivery_refs :: "pystr list"
  or_related_refs :: "pystr list"
  or_source_ref :: pystr
  or_actor_kind :: int
  or_actor_ref :: pystr
  or_constitution :: "constitution option"

record outcome_receipt =
  oc_outcome_event_ref :: pystr
  oc_episode_ref :: pystr

end
