(* ===== verification/Causal_Turn.thy ===== *)
theory Causal_Turn
  imports Sdk_Rendering Py_Effects
begin

text \<open>
  The public causal lifecycle around one Agent turn: observe the situation, select memory, record the
  delivery of what is rendered, run the model, observe what the Agent did. The four operations of the
  memory client are parameters with a state of their own, and every call is logged with its result.
  The lifecycle itself is a step relation over the logged calls; the locale \<open>causal_turn\<close> is the
  contract of a component that follows it, with what follows for every such component. The SDK's
  adapter and the reference harness are the two components that promise it.
\<close>

section \<open>The memory client and its log\<close>

record 'w memory_client =
  observe_source_event :: "observe_request \<Rightarrow> ('w, source_event_receipt) io"
  select_memory :: "select_request \<Rightarrow> ('w, memory_context) io"
  record_memory_delivery :: "delivery_receipt \<Rightarrow> ('w, receipt_ack) io"
  report_outcome :: "outcome_request \<Rightarrow> ('w, outcome_receipt) io"

text \<open>The input of the model and its output are of the types \<open>'m\<close> and \<open>'o\<close>.\<close>

datatype ('m, 'o) event =
    Observe observe_request "source_event_receipt result"
  | Select select_request "memory_context result"
  | Deliver delivery_receipt "receipt_ack result"
  | Report outcome_request "outcome_receipt result"
  | Run 'm "'o result"
  | Settle

type_synonym ('w, 'm, 'o, 'a) session = "('w \<times> ('m, 'o) event list, 'a) io"

definition observing :: "'w memory_client \<Rightarrow> observe_request \<Rightarrow> ('w, 'm, 'o, source_event_receipt) session" where
  "observing memory request = logged (Observe request) (observe_source_event memory request)"

definition selecting :: "'w memory_client \<Rightarrow> select_request \<Rightarrow> ('w, 'm, 'o, memory_context) session" where
  "selecting memory request = logged (Select request) (select_memory memory request)"

definition delivering :: "'w memory_client \<Rightarrow> delivery_receipt \<Rightarrow> ('w, 'm, 'o, receipt_ack) session" where
  "delivering memory request = logged (Deliver request) (record_memory_delivery memory request)"

definition reporting :: "'w memory_client \<Rightarrow> outcome_request \<Rightarrow> ('w, 'm, 'o, outcome_receipt) session" where
  "reporting memory request = logged (Report request) (report_outcome memory request)"

definition running :: "('m \<Rightarrow> ('w, 'o) io) \<Rightarrow> 'm \<Rightarrow> ('w, 'm, 'o, 'o) session" where
  "running model input = logged (Run input) (model input)"

lemmas call_defs = observing_def selecting_def delivering_def reporting_def running_def

section \<open>The lifecycle\<close>

text \<open>What a turn is about: the requests it makes, how it renders, and what the model gets for a
  rendered text (the empty text when nothing is rendered).\<close>

record ('m, 'o) turn_spec =
  ts_situation :: observe_request
  ts_select :: "source_event_receipt \<Rightarrow> select_request"
  ts_render :: "memory_context \<Rightarrow> rendered_context result"
  ts_deliver :: "memory_context \<Rightarrow> pystr list \<Rightarrow> delivery_receipt"
  ts_input :: "pystr \<Rightarrow> 'm"
  ts_act :: "'o \<Rightarrow> observe_request"

datatype ('m, 'o) phase = Start | Situated source_event_receipt | Selected memory_context
  | Ready pystr | Ran 'o | Acted | Stopped

inductive turn_step :: "('m, 'o) turn_spec \<Rightarrow> ('m, 'o) phase \<Rightarrow> ('m, 'o) event \<Rightarrow> ('m, 'o) phase \<Rightarrow> bool" for spec where
  situate: "turn_step spec Start (Observe (ts_situation spec) (Inr rc)) (Situated rc)"
| select: "turn_step spec (Situated rc) (Select (ts_select spec rc) (Inr ctx)) (Selected ctx)"
| deliver: "ts_render spec ctx = Inr r \<Longrightarrow> rendered_text r \<noteq> [] \<Longrightarrow>
    turn_step spec (Selected ctx) (Deliver (ts_deliver spec ctx (rendered_refs r)) (Inr ack)) (Ready (rendered_text r))"
| run_plain: "ts_render spec ctx = Inr r \<Longrightarrow> rendered_text r = [] \<Longrightarrow>
    turn_step spec (Selected ctx) (Run (ts_input spec []) (Inr out)) (Ran out)"
| run_memory: "turn_step spec (Ready m) (Run (ts_input spec m) (Inr out)) (Ran out)"
| act: "turn_step spec (Ran out) (Observe (ts_act spec out) (Inr rc)) Acted"
| fail_situate: "turn_step spec Start (Observe (ts_situation spec) (Inl e)) Stopped"
| fail_select: "turn_step spec (Situated rc) (Select (ts_select spec rc) (Inl e)) Stopped"
| fail_deliver: "ts_render spec ctx = Inr r \<Longrightarrow> rendered_text r \<noteq> [] \<Longrightarrow>
    turn_step spec (Selected ctx) (Deliver (ts_deliver spec ctx (rendered_refs r)) (Inl e)) Stopped"
| fail_plain: "ts_render spec ctx = Inr r \<Longrightarrow> rendered_text r = [] \<Longrightarrow>
    turn_step spec (Selected ctx) (Run (ts_input spec []) (Inl e)) Stopped"
| fail_memory: "turn_step spec (Ready m) (Run (ts_input spec m) (Inl e)) Stopped"
| fail_act: "turn_step spec (Ran out) (Observe (ts_act spec out) (Inl e)) Stopped"

inductive_simps turn_step_from_simps:
  "turn_step spec Start ev q" "turn_step spec (Situated rc) ev q" "turn_step spec (Selected ctx) ev q"
  "turn_step spec (Ready m) ev q" "turn_step spec (Ran out) ev q" "turn_step spec Acted ev q" "turn_step spec Stopped ev q"

inductive turn_path :: "('m, 'o) turn_spec \<Rightarrow> ('m, 'o) phase \<Rightarrow> ('m, 'o) event list \<Rightarrow> ('m, 'o) phase \<Rightarrow> bool" for spec where
  path_Nil: "turn_path spec p [] p"
| path_Cons: "turn_step spec p ev q \<Longrightarrow> turn_path spec q es r \<Longrightarrow> turn_path spec p (ev # es) r"

inductive_simps turn_path_simps: "turn_path spec p [] q" "turn_path spec p (ev # es) q"

lemma turn_path_append:
  "turn_path spec p es q \<Longrightarrow> turn_path spec q fs r \<Longrightarrow> turn_path spec p (es @ fs) r"
  by (induction rule: turn_path.induct) (auto intro: turn_path.intros)

lemma turn_path_snoc: "turn_path spec p es q \<Longrightarrow> turn_step spec q ev r \<Longrightarrow> turn_path spec p (es @ [ev]) r"
  by (rule turn_path_append) (auto intro: turn_path.intros)

text \<open>What a phase remembers of the log: the receipt, the context and the delivery that led to it.\<close>

fun phase_history :: "('m, 'o) turn_spec \<Rightarrow> ('m, 'o) event list \<Rightarrow> ('m, 'o) phase \<Rightarrow> bool" where
  "phase_history spec es Start \<longleftrightarrow> es = []"
| "phase_history spec es (Situated rc) \<longleftrightarrow> es = [Observe (ts_situation spec) (Inr rc)]"
| "phase_history spec es (Selected ctx) \<longleftrightarrow> (\<exists>rc. es = [Observe (ts_situation spec) (Inr rc), Select (ts_select spec rc) (Inr ctx)])"
| "phase_history spec es (Ready m) \<longleftrightarrow> (\<exists>rc ctx r ack. ts_render spec ctx = Inr r \<and> m = rendered_text r \<and> m \<noteq> [] \<and>
     es = [Observe (ts_situation spec) (Inr rc), Select (ts_select spec rc) (Inr ctx),
           Deliver (ts_deliver spec ctx (rendered_refs r)) (Inr ack)])"
| "phase_history spec es _ \<longleftrightarrow> True"

lemma turn_path_split:
  "turn_path spec p (es @ fs) r \<longleftrightarrow> (\<exists>q. turn_path spec p es q \<and> turn_path spec q fs r)"
proof (induction es arbitrary: p)
  case Nil
  then show ?case by (simp add: turn_path_simps)
next
  case (Cons e es)
  then show ?case by (auto simp: turn_path_simps)
qed

lemma path_history: "turn_path spec Start es p \<Longrightarrow> phase_history spec es p"
proof (induction es arbitrary: p rule: rev_induct)
  case Nil
  then show ?case by (simp add: turn_path_simps)
next
  case (snoc ev es)
  then obtain q where "phase_history spec es q" "turn_step spec q ev p"
    by (auto simp: turn_path_split turn_path_simps)
  from this(2,1) show ?case by cases auto
qed

text \<open>The model is run with a memory text only after the delivery of exactly that text was acknowledged.\<close>

definition delivered_before :: "('m, 'o) turn_spec \<Rightarrow> ('m, 'o) event list \<Rightarrow> 'm \<Rightarrow> bool" where
  "delivered_before spec pre input \<longleftrightarrow> input = ts_input spec [] \<or>
     (\<exists>rc ctx r ack. ts_render spec ctx = Inr r \<and> rendered_text r \<noteq> [] \<and> input = ts_input spec (rendered_text r) \<and>
        pre = [Observe (ts_situation spec) (Inr rc), Select (ts_select spec rc) (Inr ctx),
               Deliver (ts_deliver spec ctx (rendered_refs r)) (Inr ack)])"

lemma path_run_delivered:
  assumes "turn_path spec Start (pre @ Run input res # post) p"
  shows "delivered_before spec pre input"
proof -
  from assms obtain q q' where q: "turn_path spec Start pre q" "turn_step spec q (Run input res) q'"
    by (auto simp: turn_path_split turn_path_simps)
  from path_history [OF q(1)] q(2) show ?thesis
    by (cases q) (auto simp: turn_step_from_simps delivered_before_def)
qed

lemma path_acted:
  assumes "turn_path spec Start es Acted"
  obtains pre input out rc where "es = pre @ [Run input (Inr out), Observe (ts_act spec out) (Inr rc)]"
    "delivered_before spec pre input"
proof -
  obtain es1 e1 where e1: "es = es1 @ [e1]"
    using assms by (cases es rule: rev_cases) (auto simp: turn_path_simps)
  with assms obtain q where q: "turn_path spec Start es1 q" "turn_step spec q e1 Acted"
    by (auto simp: turn_path_split turn_path_simps)
  then obtain out rc where out: "q = Ran out" "e1 = Observe (ts_act spec out) (Inr rc)" by (auto elim: turn_step.cases)
  obtain es2 e2 where e2: "es1 = es2 @ [e2]"
    using q(1) out by (cases es1 rule: rev_cases) (auto simp: turn_path_simps)
  with q(1) out obtain q2 where "turn_path spec Start es2 q2" "turn_step spec q2 e2 (Ran out)"
    by (auto simp: turn_path_split turn_path_simps)
  then obtain input where "e2 = Run input (Inr out)" by (auto elim: turn_step.cases)
  with e1 e2 out path_run_delivered [of spec es2 input "Inr out" "[]" "Ran out"] q(1) show ?thesis by (intro that) auto
qed

text \<open>What further calls may add to the log from a phase on: a path of the lifecycle and, only once it is
  complete, further calls of the kind \<open>T\<close>. A normal result needs the complete path.\<close>

definition continues ::
  "(('m, 'o) event \<Rightarrow> bool) \<Rightarrow> ('m, 'o) turn_spec \<Rightarrow> ('m, 'o) phase \<Rightarrow> ('m, 'o) event list \<Rightarrow> 'a result \<Rightarrow> bool" where
  "continues T spec p es r \<longleftrightarrow> (\<exists>mid post q. es = mid @ post \<and> turn_path spec p mid q \<and> list_all T post \<and>
     (post \<noteq> [] \<longrightarrow> q = Acted) \<and> ((\<exists>x. r = Inr x) \<longrightarrow> q = Acted))"

lemma continues_Nil: "continues T spec p [] (Inl e)" "continues T spec Acted [] r"
  by (auto simp: continues_def turn_path_simps)

lemma continues_tail: "list_all T es \<Longrightarrow> continues T spec Acted es r"
  unfolding continues_def by (intro exI [of _ "[]"] exI [of _ es] exI [of _ Acted]) (simp add: turn_path_simps)

lemma continues_exact: "continues (\<lambda>_. False) spec p es r \<Longrightarrow> continues T spec p es r"
  unfolding continues_def
proof (elim exE conjE)
  fix mid post q
  assume "es = mid @ post" "turn_path spec p mid q" "list_all (\<lambda>_. False) post" "(\<exists>x. r = Inr x) \<longrightarrow> q = Acted"
  then show "\<exists>mid post q. es = mid @ post \<and> turn_path spec p mid q \<and> list_all T post \<and>
      (post \<noteq> [] \<longrightarrow> q = Acted) \<and> ((\<exists>x. r = Inr x) \<longrightarrow> q = Acted)"
    by (intro exI [of _ es] exI [of _ "[]"] exI [of _ q]) (cases post, simp_all)
qed

lemma continues_Cons: "turn_step spec p ev q \<Longrightarrow> continues T spec q es r \<Longrightarrow> continues T spec p (ev # es) r"
  unfolding continues_def by (metis append_Cons turn_path.path_Cons)

lemma continues_fail: "turn_step spec p ev Stopped \<Longrightarrow> continues T spec p [ev] (Inl e)"
  by (rule continues_Cons [OF _ continues_Nil(1)])

lemma traces_step:
  assumes "\<And>e. turn_step spec p (ev (Inl e)) Stopped" and "\<And>x. turn_step spec p (ev (Inr x)) (q x)"
    and "\<And>x. traces (f x) (continues T spec (q x))"
  shows "traces (bind_call (logged ev op) f) (continues T spec p)"
proof (rule traces_bind_logged)
  fix x
  show "traces (f x) (\<lambda>fs r. continues T spec p (ev (Inr x) # fs) r)"
    using assms(3) [of x] by (rule traces_conseq) (rule continues_Cons [OF assms(2)])
qed (rule continues_fail [OF assms(1)])

lemma traces_check:
  assumes "\<And>x. r = Inr x \<Longrightarrow> traces (f x) (continues T spec p)"
  shows "traces (bind_call (pure_call r) f) (continues T spec p)"
  by (rule traces_bind_pure) (auto intro: continues_Nil assms)

section \<open>The contract of a component that runs a turn\<close>

definition is_run :: "('m, 'o) event \<Rightarrow> bool" where
  "is_run ev = (case ev of Run _ _ \<Rightarrow> True | _ \<Rightarrow> False)"

lemma is_run_simps [simp]: "is_run (Run m r)" "\<not> is_run (Observe a b)" "\<not> is_run (Select c d)"
  "\<not> is_run (Deliver f g)" "\<not> is_run (Report h i)" "\<not> is_run Settle"
  by (simp_all add: is_run_def)

text \<open>A component may make other calls around the turn, but it runs the model only in it, and it
  returns normally only after a complete turn.\<close>

locale causal_turn =
  fixes turn :: "('w, 'm, 'o, 'a) session" and spec :: "('m, 'o) turn_spec"
  assumes follows: "traces turn (\<lambda>es r. \<exists>pre mid post p. es = pre @ mid @ post \<and> turn_path spec Start mid p \<and>
    list_all (\<lambda>ev. \<not> is_run ev) (pre @ post) \<and> ((\<exists>x. r = Inr x) \<longrightarrow> p = Acted))"
begin

lemma turn_cases:
  assumes "turn (w, log) = (r, w', log')"
  obtains pre mid post p where "log' = log @ pre @ mid @ post" "turn_path spec Start mid p"
    "list_all (\<lambda>ev. \<not> is_run ev) (pre @ post)" "(\<exists>x. r = Inr x) \<longrightarrow> p = Acted"
  using tracesD [OF follows assms] by blast

lemma memory_after_delivery:
  assumes "turn (w, log) = (r, w', log')" and "log' = log @ es" and "Run input res \<in> set es"
  shows "\<exists>before mid after. es = before @ mid @ Run input res # after \<and> delivered_before spec mid input"
proof -
  obtain pre mid post p where "log' = log @ pre @ mid @ post" and path: "turn_path spec Start mid p"
    and no: "list_all (\<lambda>ev. \<not> is_run ev) (pre @ post)" by (rule turn_cases [OF assms(1)])
  then have es: "es = pre @ mid @ post" using assms(2) by simp
  have "ev \<in> set pre \<union> set post \<Longrightarrow> \<not> is_run ev" for ev using no by (auto simp: list_all_iff)
  from this [of "Run input res"] have "Run input res \<notin> set pre \<union> set post" by auto
  with assms(3) es have "Run input res \<in> set mid" by auto
  then obtain m1 m2 where m: "mid = m1 @ Run input res # m2" by (meson split_list)
  with path have "delivered_before spec m1 input" using path_run_delivered [of spec m1 input res m2 p] by simp
  moreover have "es = pre @ m1 @ Run input res # m2 @ post" using es m by simp
  ultimately show ?thesis by blast
qed

lemma normal_return_complete:
  assumes "turn (w, log) = (Inr x, w', log')"
  shows "\<exists>before mid input out rc after. log' = log @ before @ mid @ [Run input (Inr out), Observe (ts_act spec out) (Inr rc)] @ after \<and>
    delivered_before spec mid input"
proof -
  obtain pre mid post p where log': "log' = log @ pre @ mid @ post" and "turn_path spec Start mid p" "p = Acted"
    by (rule turn_cases [OF assms]) blast
  then obtain m1 input out rc where "mid = m1 @ [Run input (Inr out), Observe (ts_act spec out) (Inr rc)]"
    "delivered_before spec m1 input" using path_acted by metis
  then show ?thesis using log' by (metis append_assoc)
qed

end

text \<open>Components that make run-free calls before the lifecycle and after it meet the contract.\<close>

lemma causal_turnI:
  assumes "traces turn (\<lambda>es r. \<exists>pre rest. es = pre @ rest \<and> list_all (\<lambda>ev. \<not> is_run ev) pre \<and>
      (rest = [] \<and> (\<exists>e. r = Inl e) \<or> continues (\<lambda>ev. \<not> is_run ev) spec Start rest r))"
  shows "causal_turn turn spec"
proof
  show "traces turn (\<lambda>es r. \<exists>pre mid post p. es = pre @ mid @ post \<and> turn_path spec Start mid p \<and>
      list_all (\<lambda>ev. \<not> is_run ev) (pre @ post) \<and> ((\<exists>x. r = Inr x) \<longrightarrow> p = Acted))"
  proof (rule traces_conseq [OF assms])
    fix es and r :: "'d result"
    assume "\<exists>pre rest. es = pre @ rest \<and> list_all (\<lambda>ev. \<not> is_run ev) pre \<and>
      (rest = [] \<and> (\<exists>e. r = Inl e) \<or> continues (\<lambda>ev. \<not> is_run ev) spec Start rest r)"
    then obtain pre rest where *: "es = pre @ rest" "list_all (\<lambda>ev. \<not> is_run ev) pre"
      "continues (\<lambda>ev. \<not> is_run ev) spec Start rest r" using continues_Nil(1) by blast
    from *(3) obtain mid post q where "rest = mid @ post" "turn_path spec Start mid q" "list_all (\<lambda>ev. \<not> is_run ev) post"
      "(\<exists>x. r = Inr x) \<longrightarrow> q = Acted" unfolding continues_def by blast
    with * show "\<exists>pre mid post p. es = pre @ mid @ post \<and> turn_path spec Start mid p \<and>
        list_all (\<lambda>ev. \<not> is_run ev) (pre @ post) \<and> ((\<exists>x. r = Inr x) \<longrightarrow> p = Acted)"
      by (intro exI [of _ pre] exI [of _ mid] exI [of _ post] exI [of _ q]) simp
  qed
qed

end
