(* ===== verification/Sdk_Adapter.thy ===== *)
theory Sdk_Adapter
  imports Causal_Turn
begin

text \<open>
  src/sdk/python/src/memory_core/adapters/openai_agents.py: the adapter that sequences the causal
  lifecycle around one turn of an OpenAI Agents runner. The memory client and the runner are
  parameters. What a runner returns is of any type \<open>'r\<close>; \<open>final_output\<close> reads the attribute of that
  name, which may be missing or not a string. Options for the runner are part of the runner.
\<close>

section \<open>Identities and results\<close>

record source_provenance =
  sp_source_ref :: pystr
  sp_actor_kind :: int
  sp_actor_ref :: pystr

record turn_identity =
  ti_scope :: memory_scope
  ti_run_ref :: pystr
  ti_source_group_ref :: pystr
  ti_situation_key :: pystr
  ti_situation :: source_provenance
  ti_delivery_key :: pystr
  ti_agent_act_key :: pystr
  ti_agent_act :: source_provenance

record outcome_identity =
  oi_scope :: memory_scope
  oi_run_ref :: pystr
  oi_source_group_ref :: pystr
  oi_idempotency_key :: pystr
  oi_source :: source_provenance

record ('g, 'r) turn_result =
  tr_runner_agent :: 'g
  tr_runner_result :: 'r
  tr_memory_context :: memory_context
  tr_situation_receipt :: source_event_receipt
  tr_delivery_receipt :: "receipt_ack option"
  tr_agent_act_receipt :: source_event_receipt

text \<open>The input of the runner: the user's text, or a developer message followed by it.\<close>

datatype runner_input = PlainInput pystr | MemoryInput pystr pystr

type_synonym ('w, 'g, 'r) runner = "'g \<Rightarrow> runner_input \<Rightarrow> ('w, 'r) io"

section \<open>The adapter\<close>

record ('w, 'g, 'r) adapter =
  ad_memory :: "'w memory_client"
  ad_runner :: "('w, 'g, 'r) runner option"
  ad_evidence_max_bytes :: int
  ad_max_tokens :: "int dyn option"
  ad_token_count :: "token_counter dyn option"

definition openai_agents_adapter ::
  "'w memory_client \<Rightarrow> ('w, 'g, 'r) runner option \<Rightarrow> int dyn \<Rightarrow> int dyn option \<Rightarrow> token_counter dyn option \<Rightarrow>
    ('w, 'g, 'r) adapter result" where
  "openai_agents_adapter memory runner episode_evidence_max_bytes max_tokens token_count =
     (case episode_evidence_max_bytes of
        OtherType \<Rightarrow> Inl (ValueError (lit ''episode_evidence_max_bytes must be an integer from 0 to 16384''))
      | Val n \<Rightarrow>
        if \<not> (0 \<le> n \<and> n \<le> 16384)
        then Inl (ValueError (lit ''episode_evidence_max_bytes must be an integer from 0 to 16384''))
        else bindr (render_memory_context empty_context max_tokens token_count) (\<lambda>_.
          if 0 < n \<and> max_tokens = None
          then Inl (ValueError (lit ''episode evidence requires max_tokens and token_count''))
          else Inr \<lparr>ad_memory = memory, ad_runner = runner, ad_evidence_max_bytes = n, ad_max_tokens = max_tokens,
                 ad_token_count = token_count\<rparr>))"

definition event_request ::
  "pystr \<Rightarrow> turn_identity \<Rightarrow> pystr \<Rightarrow> source_provenance \<Rightarrow> int \<Rightarrow> observe_request" where
  "event_request idempotency_key identity text source role =
     \<lparr>ob_idempotency_key = idempotency_key,
      ob_source_event = \<lparr>sv_scope = ti_scope identity, sv_text = text, sv_source_ref = sp_source_ref source,
        sv_actor_kind = sp_actor_kind source, sv_actor_ref = sp_actor_ref source, sv_constitution = None\<rparr>,
      ob_episode_binding = Some \<lparr>eb_run_ref = ti_run_ref identity,
        eb_source_group_ref = ti_source_group_ref identity, eb_role = role\<rparr>\<rparr>"

text \<open>The requests of a turn, as \<open>run_turn\<close> builds them.\<close>

definition situation_request :: "turn_identity \<Rightarrow> pystr \<Rightarrow> constitution option \<Rightarrow> observe_request" where
  "situation_request identity user_text frozen_constitution =
     (let request = event_request (ti_situation_key identity) identity user_text (ti_situation identity)
            EPISODE_SOURCE_ROLE_SITUATION in
      case frozen_constitution of None \<Rightarrow> request
      | Some c \<Rightarrow> request\<lparr>ob_source_event := (ob_source_event request)\<lparr>sv_constitution := Some c\<rparr>\<rparr>)"

definition turn_select_request ::
  "('w, 'g, 'r) adapter \<Rightarrow> turn_identity \<Rightarrow> constitution option \<Rightarrow> source_event_receipt \<Rightarrow> select_request" where
  "turn_select_request self identity frozen_constitution situation_receipt =
     \<lparr>sq_scope = ti_scope identity, sq_run_ref = ti_run_ref identity,
      sq_situation_refs = [sr_source_event_ref situation_receipt], sq_constitution = frozen_constitution,
      sq_evidence_max_bytes = ad_evidence_max_bytes self\<rparr>"

definition turn_delivery :: "turn_identity \<Rightarrow> memory_context \<Rightarrow> pystr list \<Rightarrow> delivery_receipt" where
  "turn_delivery identity context memory_refs =
     \<lparr>dr_idempotency_key = ti_delivery_key identity, dr_scope = ti_scope identity, dr_run_ref = ti_run_ref identity,
      dr_context_ref = mc_context_ref context, dr_delivered_refs = memory_refs\<rparr>"

definition official_runner :: "('w, 'g, 'r) runner option \<Rightarrow> ('w, 'g, 'r) runner result" where
  "official_runner installed =
     (case installed of Some runner \<Rightarrow> Inr runner
      | None \<Rightarrow> Inl (RuntimeError (lit ''OpenAI Agents adapter requires the 'openai-agents' optional dependency'')))"

text \<open>The delivery of what was rendered, if anything was: the input of the runner and the receipt.\<close>

definition deliver_rendered ::
  "('w, 'g, 'r) adapter \<Rightarrow> turn_identity \<Rightarrow> pystr \<Rightarrow> memory_context \<Rightarrow> rendered_context \<Rightarrow>
    ('w, runner_input, 'r, runner_input \<times> receipt_ack option) session" where
  "deliver_rendered self identity user_text memory_context rendered =
     (if rendered_text rendered \<noteq> []
      then bind_call (delivering (ad_memory self) (turn_delivery identity memory_context (rendered_refs rendered))) (\<lambda>ack.
        pure_call (Inr (MemoryInput (rendered_text rendered) user_text, Some ack)))
      else pure_call (Inr (PlainInput user_text, None)))"

text \<open>The second half of \<open>run_turn\<close>: the runner and the observation of what the Agent did. \<open>build\<close> is
  the construction of the result.\<close>

definition finish_turn ::
  "('w, 'g, 'r) runner option \<Rightarrow> ('r \<Rightarrow> pystr dyn) \<Rightarrow> ('w, 'g, 'r) adapter \<Rightarrow> 'g \<Rightarrow> turn_identity \<Rightarrow>
    ('r \<Rightarrow> source_event_receipt \<Rightarrow> ('g, 'r) turn_result) \<Rightarrow> runner_input \<Rightarrow>
    ('w, runner_input, 'r, ('g, 'r) turn_result) session" where
  "finish_turn installed final_output self agent identity build runner_input =
     bind_call (pure_call (case ad_runner self of Some runner \<Rightarrow> Inr runner | None \<Rightarrow> official_runner installed)) (\<lambda>runner.
     bind_call (running (runner agent) runner_input) (\<lambda>runner_result.
     bind_call (pure_call (case final_output runner_result of
         Val t \<Rightarrow> if strip t = [] then Inl (TypeError (lit ''OpenAI Agents adapter requires a non-empty text final_output'')) else Inr t
       | OtherType \<Rightarrow> Inl (TypeError (lit ''OpenAI Agents adapter requires a non-empty text final_output'')))) (\<lambda>final_output.
     bind_call (observing (ad_memory self) (event_request (ti_agent_act_key identity) identity final_output
         (ti_agent_act identity) EPISODE_SOURCE_ROLE_AGENT_ACT)) (\<lambda>agent_act_receipt.
     pure_call (Inr (build runner_result agent_act_receipt))))))"

definition run_turn ::
  "('w, 'g, 'r) runner option \<Rightarrow> ('r \<Rightarrow> pystr dyn) \<Rightarrow> ('w, 'g, 'r) adapter \<Rightarrow> 'g \<Rightarrow> pystr \<Rightarrow> turn_identity \<Rightarrow>
    constitution option \<Rightarrow> ('w, runner_input, 'r, ('g, 'r) turn_result) session" where
  "run_turn installed final_output self agent user_text identity constitution =
     bind_call (observing (ad_memory self) (situation_request identity user_text constitution)) (\<lambda>situation_receipt.
     bind_call (selecting (ad_memory self) (turn_select_request self identity constitution situation_receipt)) (\<lambda>memory_context.
     bind_call (pure_call (render_memory_context memory_context (ad_max_tokens self) (ad_token_count self))) (\<lambda>rendered.
     bind_call (deliver_rendered self identity user_text memory_context rendered) (\<lambda>(runner_input, delivery_receipt).
     finish_turn installed final_output self agent identity (\<lambda>runner_result agent_act_receipt.
       \<lparr>tr_runner_agent = agent, tr_runner_result = runner_result, tr_memory_context = memory_context,
        tr_situation_receipt = situation_receipt, tr_delivery_receipt = delivery_receipt,
        tr_agent_act_receipt = agent_act_receipt\<rparr>) runner_input))))"

definition adapter_report_outcome ::
  "('w, 'g, 'r) adapter \<Rightarrow> pystr \<Rightarrow> outcome_identity \<Rightarrow> pystr list \<Rightarrow> pystr list \<Rightarrow> constitution option \<Rightarrow>
    ('w, runner_input, 'r, outcome_receipt) session" where
  "adapter_report_outcome self text identity delivery_receipt_refs related_source_event_refs constitution =
     reporting (ad_memory self)
       \<lparr>or_idempotency_key = oi_idempotency_key identity, or_scope = oi_scope identity, or_run_ref = oi_run_ref identity,
        or_source_group_ref = oi_source_group_ref identity, or_text = text, or_delivery_refs = delivery_receipt_refs,
        or_related_refs = related_source_event_refs, or_source_ref = sp_source_ref (oi_source identity),
        or_actor_kind = sp_actor_kind (oi_source identity), or_actor_ref = sp_actor_ref (oi_source identity),
        or_constitution = constitution\<rparr>"

section \<open>The adapter follows the lifecycle\<close>

fun output_text :: "pystr dyn \<Rightarrow> pystr" where
  "output_text (Val t) = t"
| "output_text OtherType = []"

definition adapter_spec ::
  "('r \<Rightarrow> pystr dyn) \<Rightarrow> ('w, 'g, 'r) adapter \<Rightarrow> pystr \<Rightarrow> turn_identity \<Rightarrow> constitution option \<Rightarrow>
    (runner_input, 'r) turn_spec" where
  "adapter_spec final_output self user_text identity constitution =
     \<lparr>ts_situation = situation_request identity user_text constitution,
      ts_select = turn_select_request self identity constitution,
      ts_render = (\<lambda>ctx. render_memory_context ctx (ad_max_tokens self) (ad_token_count self)),
      ts_deliver = turn_delivery identity,
      ts_input = (\<lambda>m. if m = [] then PlainInput user_text else MemoryInput m user_text),
      ts_act = (\<lambda>out. event_request (ti_agent_act_key identity) identity (output_text (final_output out))
        (ti_agent_act identity) EPISODE_SOURCE_ROLE_AGENT_ACT)\<rparr>"

lemma adapter_spec_simps [simp]:
  "ts_situation (adapter_spec fo self u i c) = situation_request i u c"
  "ts_select (adapter_spec fo self u i c) = turn_select_request self i c"
  "ts_render (adapter_spec fo self u i c) ctx = render_memory_context ctx (ad_max_tokens self) (ad_token_count self)"
  "ts_deliver (adapter_spec fo self u i c) = turn_delivery i"
  "ts_input (adapter_spec fo self u i c) m = (if m = [] then PlainInput u else MemoryInput m u)"
  "ts_act (adapter_spec fo self u i c) out = event_request (ti_agent_act_key i) i (output_text (fo out))
     (ti_agent_act i) EPISODE_SOURCE_ROLE_AGENT_ACT"
  by (simp_all add: adapter_spec_def)

lemma finish_turn_follows:
  assumes "\<And>e. turn_step spec p (Run runner_input (Inl e)) Stopped" and "\<And>out. turn_step spec p (Run runner_input (Inr out)) (Ran out)"
    and spec: "spec = adapter_spec final_output self user_text identity constitution"
  shows "traces (finish_turn installed final_output self agent identity build runner_input) (continues (\<lambda>_. False) spec p)"
  unfolding finish_turn_def running_def observing_def
proof (intro traces_check traces_step [where q = Ran] traces_step [where q = "\<lambda>_. Acted"] assms(1,2))
  fix out t e and x :: source_event_receipt
  assume t: "(case final_output out of
      Val t \<Rightarrow> if strip t = [] then Inl (TypeError (lit ''OpenAI Agents adapter requires a non-empty text final_output'')) else Inr t
    | OtherType \<Rightarrow> Inl (TypeError (lit ''OpenAI Agents adapter requires a non-empty text final_output''))) = Inr t"
  then have "output_text (final_output out) = t" by (auto split: dyn.splits if_splits)
  then show "turn_step spec (Ran out) (Observe (event_request (ti_agent_act_key identity) identity t
        (ti_agent_act identity) EPISODE_SOURCE_ROLE_AGENT_ACT) (Inl e)) Stopped"
    and "turn_step spec (Ran out) (Observe (event_request (ti_agent_act_key identity) identity t
        (ti_agent_act identity) EPISODE_SOURCE_ROLE_AGENT_ACT) (Inr x)) Acted"
    by (auto simp: turn_step_from_simps spec)
qed (rule traces_pure, rule continues_Nil)

lemma run_turn_follows:
  "traces (run_turn installed final_output self agent user_text identity constitution)
     (continues (\<lambda>_. False) (adapter_spec final_output self user_text identity constitution) Start)"
  unfolding run_turn_def observing_def selecting_def
proof (intro traces_check traces_step [where q = Situated] traces_step [where q = Selected])
  fix situation_receipt memory_context rendered
  assume r: "render_memory_context memory_context (ad_max_tokens self) (ad_token_count self) = Inr rendered"
  let ?spec = "adapter_spec final_output self user_text identity constitution"
  let ?rest = "\<lambda>(runner_input, delivery_receipt). finish_turn installed final_output self agent identity
      (\<lambda>runner_result agent_act_receipt. \<lparr>tr_runner_agent = agent, tr_runner_result = runner_result, tr_memory_context = memory_context,
        tr_situation_receipt = situation_receipt, tr_delivery_receipt = delivery_receipt,
        tr_agent_act_receipt = agent_act_receipt\<rparr>) runner_input"
  show "traces (bind_call (deliver_rendered self identity user_text memory_context rendered) ?rest)
      (continues (\<lambda>_. False) ?spec (Selected memory_context))"
  proof (cases "rendered_text rendered = []")
    case True
    then have "bind_call (deliver_rendered self identity user_text memory_context rendered) ?rest =
        bind_call (pure_call (Inr (PlainInput user_text, None))) ?rest" by (simp add: deliver_rendered_def)
    moreover have "traces \<dots> (continues (\<lambda>_. False) ?spec (Selected memory_context))"
      by (rule traces_check) (auto intro!: finish_turn_follows [OF _ _ refl] simp: turn_step_from_simps r True)
    ultimately show ?thesis by simp
  next
    case False
    then have "bind_call (deliver_rendered self identity user_text memory_context rendered) ?rest =
        bind_call (delivering (ad_memory self) (turn_delivery identity memory_context (rendered_refs rendered))) (\<lambda>ack.
          ?rest (MemoryInput (rendered_text rendered) user_text, Some ack))"
      by (auto simp: deliver_rendered_def bind_call_def pure_call_def fun_eq_iff split: prod.splits sum.splits)
    moreover have "traces \<dots> (continues (\<lambda>_. False) ?spec (Selected memory_context))"
      unfolding delivering_def
      by (rule traces_step [where q = "\<lambda>_. Ready (rendered_text rendered)"])
        (auto intro!: finish_turn_follows [OF _ _ refl] simp: turn_step_from_simps r False)
    ultimately show ?thesis by simp
  qed
qed (auto simp: turn_step_from_simps)

interpretation adapter_turn: causal_turn
  "run_turn installed final_output self agent user_text identity constitution"
  "adapter_spec final_output self user_text identity constitution"
  for installed final_output self agent user_text identity constitution
proof (rule causal_turnI, rule traces_conseq [OF run_turn_follows])
  fix es and r :: "('e, 'f) turn_result result"
  let ?spec = "adapter_spec final_output self user_text identity constitution"
  assume "continues (\<lambda>_. False) ?spec Start es r"
  then have "continues (\<lambda>ev. \<not> is_run ev) ?spec Start es r" by (rule continues_exact)
  then show "\<exists>pre rest. es = pre @ rest \<and> list_all (\<lambda>ev. \<not> is_run ev) pre \<and>
      (rest = [] \<and> (\<exists>e. r = Inl e) \<or> continues (\<lambda>ev. \<not> is_run ev) ?spec Start rest r)"
    by (intro exI [of _ "[]"] exI [of _ es]) simp
qed

text \<open>
  C16: the adapter implements the causal lifecycle. Whatever the memory client and the runner answer, the
  calls of one turn are a run of the lifecycle: situation, selection for that situation, delivery of
  what was rendered, the runner, the Agent's act. The turn returns normally only when the lifecycle is
  complete, and an error stops it where it occurred.
\<close>

theorem run_turn_lifecycle:
  assumes "run_turn installed final_output self agent user_text identity constitution (w, log) = (r, w', log')"
  shows "\<exists>es p. log' = log @ es \<and> turn_path (adapter_spec final_output self user_text identity constitution) Start es p \<and>
    ((\<exists>x. r = Inr x) \<longrightarrow> p = Acted)"
proof -
  from tracesD [OF run_turn_follows assms] obtain es where "log' = log @ es"
    "continues (\<lambda>_. False) (adapter_spec final_output self user_text identity constitution) Start es r" by blast
  moreover from this(2) have "\<exists>p. turn_path (adapter_spec final_output self user_text identity constitution) Start es p \<and>
      ((\<exists>x. r = Inr x) \<longrightarrow> p = Acted)" by (auto simp: continues_def list_all_iff)
  ultimately show ?thesis by blast
qed

text \<open>
  C17: no undisclosed memory. A developer message reaches the runner only after the client acknowledged a
  Delivery receipt for it, and the receipt names the selected context and exactly the refs whose texts
  the message renders.
\<close>

theorem run_turn_memory_after_delivery:
  assumes "run_turn installed final_output self agent user_text identity constitution (w, log) = (r, w', log @ es)"
    and "Run (MemoryInput m u) res \<in> set es"
  shows "\<exists>before ctx rendered ack after. es = before @ after \<and> Run (MemoryInput m u) res \<in> set after \<and>
    Deliver (turn_delivery identity ctx (rendered_refs rendered)) (Inr ack) \<in> set before \<and>
    render_memory_context ctx (ad_max_tokens self) (ad_token_count self) = Inr rendered \<and>
    rendered_text rendered = m \<and> m \<noteq> [] \<and> u = user_text"
proof -
  let ?spec = "adapter_spec final_output self user_text identity constitution"
  from adapter_turn.memory_after_delivery [OF assms(1) refl assms(2)] obtain before mid after
    where es: "es = before @ mid @ Run (MemoryInput m u) res # after" and d: "delivered_before ?spec mid (MemoryInput m u)" by blast
  from d obtain ctx rendered ack where "render_memory_context ctx (ad_max_tokens self) (ad_token_count self) = Inr rendered"
    "rendered_text rendered = m" "m \<noteq> []" "u = user_text"
    "Deliver (turn_delivery identity ctx (rendered_refs rendered)) (Inr ack) \<in> set mid"
    by (auto simp: delivered_before_def split: if_splits)
  moreover have "es = (before @ mid) @ Run (MemoryInput m u) res # after" using es by simp
  ultimately show ?thesis by (metis UnCI list.set_intros(1) set_append)
qed

section \<open>Construction\<close>

lemma render_empty_context:
  "render_memory_context empty_context max_tokens token_count =
     bindr (validate_budget_options max_tokens token_count) (\<lambda>_. Inr \<lparr>rendered_text = [], rendered_refs = []\<rparr>)"
  by (simp add: render_memory_context_def validated_items_def empty_context_def empty_constitution_def
      constitution_item_def append_item_def join_sections_def)

text \<open>
  The configurations the constructor accepts. They are exactly the ones with an evidence bound from
  0 to 16384 and either no budget and no evidence, or a nonnegative budget with a counter; a wrong
  configuration fails before any turn.
\<close>

lemma adapter_configurations:
  "(\<exists>a. openai_agents_adapter memory runner n max_tokens token_count = Inr a) \<longleftrightarrow>
     (\<exists>k. n = Val k \<and> 0 \<le> k \<and> k \<le> 16384 \<and>
       (max_tokens = None \<and> token_count = None \<and> k = 0 \<or>
        (\<exists>b tc. max_tokens = Some (Val b) \<and> 0 \<le> b \<and> token_count = Some (Val tc))))"
  by (auto simp: openai_agents_adapter_def render_empty_context validate_budget_options_def bindr_Inr_iff
      split: dyn.splits option.splits if_splits)

section \<open>A complete turn\<close>

definition example_client :: "unit memory_client" where
  "example_client = \<lparr>observe_source_event = (\<lambda>_ w. (Inr \<lparr>sr_source_event_ref = lit ''s'', sr_episode_ref = lit ''e''\<rparr>, w)),
     select_memory = (\<lambda>_ w. (Inr example_context, w)),
     record_memory_delivery = (\<lambda>_ w. (Inr \<lparr>ra_receipt_ref = lit ''d''\<rparr>, w)),
     report_outcome = (\<lambda>_ w. (Inr \<lparr>oc_outcome_event_ref = lit ''o'', oc_episode_ref = lit ''e''\<rparr>, w))\<rparr>"

definition example_adapter :: "(unit, unit, pystr) adapter" where
  "example_adapter = \<lparr>ad_memory = example_client, ad_runner = Some (\<lambda>_ _ w. (Inr (lit ''Hello.''), w)),
     ad_evidence_max_bytes = 0, ad_max_tokens = Some (Val 50), ad_token_count = Some (Val length_counter)\<rparr>"

abbreviation "turn_source \<equiv> \<lparr>sp_source_ref = lit ''src'', sp_actor_kind = 1, sp_actor_ref = lit ''act''\<rparr>"

definition example_identity :: turn_identity where
  "example_identity = \<lparr>ti_scope = empty_scope, ti_run_ref = lit ''run'', ti_source_group_ref = lit ''g'', ti_situation_key = lit ''k1'',
     ti_situation = turn_source, ti_delivery_key = lit ''k2'', ti_agent_act_key = lit ''k3'', ti_agent_act = turn_source\<rparr>"

abbreviation "example_memory \<equiv>
  lit ''CONSTITUTION'' @ [10] @ lit ''Be kind.'' @ [10, 10] @ lit ''RECOLLECTIONS'' @ [10] @ lit ''OTHER'' @ lit '': '' @ lit ''Tea.''"

lemma example_turn:
  "\<exists>r sit sel act. run_turn None Val example_adapter () (lit ''Hi'') example_identity None ((), []) = (Inr r, (), [] @
     [Observe sit (Inr \<lparr>sr_source_event_ref = lit ''s'', sr_episode_ref = lit ''e''\<rparr>), Select sel (Inr example_context),
      Deliver (turn_delivery example_identity example_context [lit ''k'', lit ''r'']) (Inr \<lparr>ra_receipt_ref = lit ''d''\<rparr>),
      Run (MemoryInput example_memory (lit ''Hi'')) (Inr (lit ''Hello.'')), act])"
proof -
  have "strip (lit ''Hello.'') \<noteq> []" by (simp add: strip_eval)
  then show ?thesis
    by (simp add: run_turn_def finish_turn_def deliver_rendered_def call_defs logged_def bind_call_def pure_call_def
        example_adapter_def example_client_def example_rendered)
qed

theorem run_turn_lifecycle_witness:
  "\<exists>es. turn_path (adapter_spec Val example_adapter (lit ''Hi'') example_identity None) Start es Acted"
proof -
  obtain r log' where "run_turn None Val example_adapter () (lit ''Hi'') example_identity None ((), []) = (Inr r, (), log')"
    using example_turn by blast
  from run_turn_lifecycle [OF this] show ?thesis by auto
qed

theorem run_turn_memory_after_delivery_witness:
  "\<exists>ctx rendered. render_memory_context ctx (ad_max_tokens example_adapter) (ad_token_count example_adapter) = Inr rendered \<and>
     rendered_text rendered = example_memory"
proof -
  obtain r sit sel act where run: "run_turn None Val example_adapter () (lit ''Hi'') example_identity None ((), []) = (Inr r, (), [] @
     [Observe sit (Inr \<lparr>sr_source_event_ref = lit ''s'', sr_episode_ref = lit ''e''\<rparr>), Select sel (Inr example_context),
      Deliver (turn_delivery example_identity example_context [lit ''k'', lit ''r'']) (Inr \<lparr>ra_receipt_ref = lit ''d''\<rparr>),
      Run (MemoryInput example_memory (lit ''Hi'')) (Inr (lit ''Hello.'')), act])"
    using example_turn by blast
  show ?thesis
    using run_turn_memory_after_delivery [OF run, of example_memory "lit ''Hi''" "Inr (lit ''Hello.'')"] by auto
qed

end
