(* ===== verification/Sdk_Client.thy ===== *)
theory Sdk_Client
  imports Complex_Main Causal_Turn
begin

text \<open>
  src/sdk/python/src/memory_core/client.py: the authenticated client of the four public RPCs. The token
  provider and the generated gRPC stub are parameters with a state of their own; what the client asks
  of them is logged. Timeouts are Python numbers: unbounded integers and floats with their infinities
  and NaN. \<open>urlsplit\<close> of the standard library is a parameter of \<open>normalize_endpoint\<close>.
\<close>

section \<open>Numbers\<close>

datatype pyfloat = Fin rat | PosInf | NegInf | NaN

datatype number = PyInt int | PyFloat pyfloat

fun num_value :: "number \<Rightarrow> pyfloat" where
  "num_value (PyInt n) = Fin (of_int n)"
| "num_value (PyFloat x) = x"

fun flt_less :: "pyfloat \<Rightarrow> pyfloat \<Rightarrow> bool" where
  "flt_less NaN _ = False"
| "flt_less _ NaN = False"
| "flt_less (Fin x) (Fin y) = (x < y)"
| "flt_less NegInf y = (y \<noteq> NegInf)"
| "flt_less x PosInf = (x \<noteq> PosInf)"
| "flt_less PosInf _ = False"
| "flt_less _ NegInf = False"

definition flt_le :: "pyfloat \<Rightarrow> pyfloat \<Rightarrow> bool" where
  "flt_le x y \<longleftrightarrow> flt_less x y \<or> x = y \<and> x \<noteq> NaN"

text \<open>\<open>min(a, b)\<close>: the first argument unless the second is less.\<close>

definition py_min :: "number \<Rightarrow> number \<Rightarrow> number" where
  "py_min a b = (if flt_less (num_value b) (num_value a) then b else a)"

text \<open>\<open>float(n)\<close> of an integer: 53 significant bits, ties to even, and an error beyond the range.\<close>

fun bit_length :: "nat \<Rightarrow> nat" where
  "bit_length n = (if n = 0 then 0 else Suc (bit_length (n div 2)))"

declare bit_length.simps [simp del]

definition round_53 :: "nat \<Rightarrow> nat" where
  "round_53 n =
     (let k = bit_length n in
      if k \<le> 53 then n
      else let e = k - 53; q = n div 2 ^ e; r = n mod 2 ^ e in
        (if 2 ^ e < 2 * r \<or> 2 * r = 2 ^ e \<and> odd q then q + 1 else q) * 2 ^ e)"

definition float_of_int :: "int \<Rightarrow> pyfloat result" where
  "float_of_int n =
     (if 2 ^ 1024 \<le> round_53 (nat \<bar>n\<bar>) then Inl (OtherError (lit ''OverflowError'') (lit ''int too large to convert to float''))
      else Inr (Fin (of_int (sgn n * int (round_53 (nat \<bar>n\<bar>))))))"

fun to_float :: "number \<Rightarrow> pyfloat result" where
  "to_float (PyInt n) = float_of_int n"
| "to_float (PyFloat x) = Inr x"

definition bounded_timeout :: "number \<Rightarrow> number dyn option \<Rightarrow> number result" where
  "bounded_timeout default_timeout requested_timeout =
     (case requested_timeout of
        None \<Rightarrow> Inr default_timeout
      | Some OtherType \<Rightarrow> Inl (ValueError (lit ''timeout must be positive''))
      | Some (Val t) \<Rightarrow>
          if flt_le (num_value t) (Fin 0) then Inl (ValueError (lit ''timeout must be positive''))
          else bindr (to_float t) (\<lambda>f. Inr (py_min default_timeout (PyFloat f))))"

section \<open>The client\<close>

definition validate_bearer_token :: "pystr dyn \<Rightarrow> pystr result" where
  "validate_bearer_token token =
     (case token of
        OtherType \<Rightarrow> Inl (ValueError (lit ''token provider returned a blank token''))
      | Val t \<Rightarrow> if t = [] then Inl (ValueError (lit ''token provider returned a blank token''))
          else if \<exists>c \<in> set t. py_isspace c then Inl (ValueError (lit ''Bearer token must not contain Unicode whitespace''))
          else Inr t)"

record client =
  cl_default_timeout :: number
  cl_owns_channel :: bool
  cl_closed :: bool

definition async_memory_client :: "number \<Rightarrow> bool \<Rightarrow> client result" where
  "async_memory_client default_timeout owns_channel =
     (if flt_le (num_value default_timeout) (Fin 0) then Inl (ValueError (lit ''default_timeout must be positive''))
      else Inr \<lparr>cl_default_timeout = default_timeout, cl_owns_channel = owns_channel, cl_closed = False\<rparr>)"

type_synonym metadata = "(pystr \<times> pystr) list"

datatype client_event = AskToken pystr "pystr dyn result" | Rpc metadata number | CloseChannel

type_synonym ('w, 'a) client_io = "('w \<times> client_event list, 'a) io"

text \<open>The keyword arguments of a call; \<open>'o\<close> stands for those that are passed on unread.\<close>

record 'o call_options =
  co_timeout :: "number dyn option"
  co_metadata :: metadata
  co_rest :: 'o

type_synonym ('w, 'o, 'q, 'a) rpc = "'q \<Rightarrow> metadata \<Rightarrow> number \<Rightarrow> 'o \<Rightarrow> ('w, 'a) io"

text \<open>\<open>str.lower\<close> on the letters of ASCII; no other character lowers to a letter of the one name the
  result is compared with.\<close>

definition lower :: "pystr \<Rightarrow> pystr" where
  "lower s = map (\<lambda>c. if 65 \<le> c \<and> c \<le> 90 then c + 32 else c) s"

definition is_authorization :: "pystr \<Rightarrow> bool" where
  "is_authorization key \<longleftrightarrow> lower key = lit ''authorization''"

definition call_metadata :: "metadata \<Rightarrow> pystr \<Rightarrow> metadata" where
  "call_metadata metadata token =
     filter (\<lambda>(key, _). \<not> is_authorization key) metadata @ [(lit ''authorization'', lit ''Bearer '' @ token)]"

definition client_call ::
  "client \<Rightarrow> (pystr \<Rightarrow> ('w, pystr dyn) io) \<Rightarrow> ('w, 'o, 'q, 'a) rpc \<Rightarrow> 'q \<Rightarrow> pystr \<Rightarrow> 'o call_options \<Rightarrow> ('w, 'a) client_io" where
  "client_call self token_provider rpc request tenant options =
     (if cl_closed self then pure_call (Inl (RuntimeError (lit ''Memory Core client is closed'')))
      else if strip tenant = [] then pure_call (Inl (ValueError (lit ''request requires a nonblank tenant_ref'')))
      else bind_call (pure_call (bounded_timeout (cl_default_timeout self) (co_timeout options))) (\<lambda>timeout.
        bind_call (logged (AskToken tenant) (token_provider tenant)) (\<lambda>token.
        bind_call (pure_call (validate_bearer_token token)) (\<lambda>token.
        let metadata = call_metadata (co_metadata options) token in
        logged (\<lambda>_. Rpc metadata timeout) (rpc request metadata timeout (co_rest options))))))"

definition close :: "client \<Rightarrow> ('w, unit) io \<Rightarrow> ('w, unit) client_io \<times> client" where
  "close self channel_close =
     (if cl_owns_channel self \<and> \<not> cl_closed self
      then (logged (\<lambda>_. CloseChannel) channel_close, self\<lparr>cl_closed := True\<rparr>)
      else (pure_call (Inr ()), self))"

text \<open>The four public calls, over the four methods of the stub.\<close>

record ('w, 'o) stub =
  ObserveSourceEvent :: "('w, 'o, observe_request, source_event_receipt) rpc"
  SelectMemory :: "('w, 'o, select_request, memory_context) rpc"
  RecordMemoryDelivery :: "('w, 'o, delivery_receipt, receipt_ack) rpc"
  ReportOutcome :: "('w, 'o, outcome_request, outcome_receipt) rpc"

definition client_observe_source_event ::
  "client \<Rightarrow> (pystr \<Rightarrow> ('w, pystr dyn) io) \<Rightarrow> ('w, 'o) stub \<Rightarrow> 'o call_options \<Rightarrow> observe_request \<Rightarrow> ('w, source_event_receipt) client_io" where
  "client_observe_source_event self token_provider stub options request =
     client_call self token_provider (ObserveSourceEvent stub) request (tenant_ref (sv_scope (ob_source_event request))) options"

definition client_select_memory ::
  "client \<Rightarrow> (pystr \<Rightarrow> ('w, pystr dyn) io) \<Rightarrow> ('w, 'o) stub \<Rightarrow> 'o call_options \<Rightarrow> select_request \<Rightarrow> ('w, memory_context) client_io" where
  "client_select_memory self token_provider stub options request =
     client_call self token_provider (SelectMemory stub) request (tenant_ref (sq_scope request)) options"

definition client_record_memory_delivery ::
  "client \<Rightarrow> (pystr \<Rightarrow> ('w, pystr dyn) io) \<Rightarrow> ('w, 'o) stub \<Rightarrow> 'o call_options \<Rightarrow> delivery_receipt \<Rightarrow> ('w, receipt_ack) client_io" where
  "client_record_memory_delivery self token_provider stub options request =
     client_call self token_provider (RecordMemoryDelivery stub) request (tenant_ref (dr_scope request)) options"

definition client_report_outcome ::
  "client \<Rightarrow> (pystr \<Rightarrow> ('w, pystr dyn) io) \<Rightarrow> ('w, 'o) stub \<Rightarrow> 'o call_options \<Rightarrow> outcome_request \<Rightarrow> ('w, outcome_receipt) client_io" where
  "client_report_outcome self token_provider stub options request =
     client_call self token_provider (ReportOutcome stub) request (tenant_ref (or_scope request)) options"

text \<open>The client seen through the \<open>MemoryClient\<close> protocol, called with no keyword arguments.\<close>

definition as_memory_client ::
  "client \<Rightarrow> (pystr \<Rightarrow> ('w, pystr dyn) io) \<Rightarrow> ('w, unit) stub \<Rightarrow> ('w \<times> client_event list) memory_client" where
  "as_memory_client self token_provider stub =
     (let options = \<lparr>co_timeout = None, co_metadata = [], co_rest = ()\<rparr> in
      \<lparr>observe_source_event = client_observe_source_event self token_provider stub options,
       select_memory = client_select_memory self token_provider stub options,
       record_memory_delivery = client_record_memory_delivery self token_provider stub options,
       report_outcome = client_report_outcome self token_provider stub options\<rparr>)"

section \<open>Endpoints\<close>

record split_url =
  su_scheme :: pystr
  su_hostname :: "pystr option"
  su_username :: "pystr option"
  su_password :: "pystr option"
  su_path :: pystr
  su_query :: pystr
  su_fragment :: pystr
  su_port :: "nat option result" \<comment> \<open>reading the port may raise\<close>

definition truthy :: "pystr option \<Rightarrow> bool" where
  "truthy v = (case v of None \<Rightarrow> False | Some s \<Rightarrow> s \<noteq> [])"

definition normalize_endpoint :: "(pystr \<Rightarrow> split_url result) \<Rightarrow> pystr \<Rightarrow> (pystr \<times> bool) result" where
  "normalize_endpoint urlsplit endpoint =
     (let text = strip endpoint in
      bindr (urlsplit (if contains text (lit ''://'') then text else lit ''http://'' @ text)) (\<lambda>parsed.
      if su_scheme parsed \<notin> {lit ''http'', lit ''https''} \<or> \<not> truthy (su_hostname parsed) \<or> truthy (su_username parsed) \<or>
         truthy (su_password parsed) \<or> su_query parsed \<noteq> [] \<or> su_fragment parsed \<noteq> [] \<or> su_path parsed \<notin> {[], lit ''/''}
      then Inl (ValueError (lit ''endpoint must be an http(s) host and optional port''))
      else bindr (su_port parsed) (\<lambda>port.
        let secure = (su_scheme parsed = lit ''https'');
            port = (case port of Some p \<Rightarrow> if p \<noteq> 0 then Some p else if secure then Some 443 else None
                    | None \<Rightarrow> if secure then Some 443 else None);
            hostname = the (su_hostname parsed);
            host = (if contains hostname (lit '':'') then lit ''['' @ hostname @ lit '']'' else hostname) in
        Inr (case port of Some p \<Rightarrow> host @ lit '':'' @ digits p | None \<Rightarrow> host, secure))))"

text \<open>\<open>connect\<close>: the channel is made by \<open>open_channel\<close> for the target, and the client owns it.\<close>

definition connect ::
  "(pystr \<Rightarrow> split_url result) \<Rightarrow> (pystr \<Rightarrow> bool \<Rightarrow> 'c) \<Rightarrow> pystr \<Rightarrow> number \<Rightarrow> ('c \<times> client) result" where
  "connect urlsplit open_channel endpoint default_timeout =
     bindr (normalize_endpoint urlsplit endpoint) (\<lambda>(target, secure).
     bindr (async_memory_client default_timeout True) (\<lambda>client.
     Inr (open_channel target secure, client)))"

section \<open>Timeouts\<close>

lemma bit_length_bound: "0 < n \<Longrightarrow> 2 ^ (bit_length n - 1) \<le> n \<and> 0 < bit_length n"
proof (induction n rule: bit_length.induct)
  case (1 n)
  show ?case
  proof (cases "n div 2 = 0")
    case True
    with 1(2) have "n = 1" by simp
    then show ?thesis by (simp add: bit_length.simps)
  next
    case False
    with 1 have IH: "2 ^ (bit_length (n div 2) - 1) \<le> n div 2" "0 < bit_length (n div 2)" by auto
    then obtain k where "bit_length (n div 2) = Suc k" by (cases "bit_length (n div 2)") auto
    with IH 1(2) show ?thesis by (simp add: bit_length.simps [of n])
  qed
qed

lemma round_53_pos: "0 < n \<Longrightarrow> 0 < round_53 n"
proof -
  assume n: "0 < n"
  have "0 < n div 2 ^ (bit_length n - 53)" if "53 < bit_length n"
  proof -
    have "(2::nat) ^ (bit_length n - 53) \<le> 2 ^ (bit_length n - 1)" using that by (intro power_increasing) auto
    with bit_length_bound [OF n] have "2 ^ (bit_length n - 53) \<le> n" by linarith
    then show ?thesis by (simp add: div_greater_zero_iff)
  qed
  with n show ?thesis by (auto simp: round_53_def Let_def)
qed

lemma to_float_positive: "to_float t = Inr f \<Longrightarrow> \<not> flt_le (num_value t) (Fin 0) \<Longrightarrow> \<not> flt_le f (Fin 0)"
proof (cases t)
  case (PyInt n)
  assume "to_float t = Inr f" and "\<not> flt_le (num_value t) (Fin 0)"
  with PyInt have f: "f = Fin (of_int (sgn n * int (round_53 (nat \<bar>n\<bar>))))" and "0 < n"
    by (auto simp: float_of_int_def flt_le_def not_less order_le_less split: if_splits)
  then show ?thesis using round_53_pos [of "nat n"] by (simp add: flt_le_def)
qed simp

text \<open>
  Timeouts. The timeout sent with a call is positive and never longer than the client's own, whatever
  number the caller asks for, integers too large for a float and NaN included; a request that is not a
  positive number is refused.
\<close>

lemma bounded_timeout_bounds:
  assumes "bounded_timeout default_timeout requested = Inr t" and "\<not> flt_le (num_value default_timeout) (Fin 0)"
    and "num_value default_timeout \<noteq> NaN"
  shows "\<not> flt_le (num_value t) (Fin 0) \<and> flt_le (num_value t) (num_value default_timeout) \<and> requested \<noteq> Some OtherType"
proof (cases requested)
  case None
  with assms show ?thesis by (simp add: bounded_timeout_def flt_le_def)
next
  case (Some d)
  with assms(1) obtain q f where q: "d = Val q" "\<not> flt_le (num_value q) (Fin 0)" "to_float q = Inr f"
    "t = py_min default_timeout (PyFloat f)"
    by (auto simp: bounded_timeout_def bindr_Inr_iff split: dyn.splits if_splits)
  with assms(2,3) to_float_positive [OF q(3,2)] Some show ?thesis by (auto simp: py_min_def flt_le_def)
qed

section \<open>Authorization\<close>

lemma authorization_key [simp]: "is_authorization (lit ''authorization'')"
  by (simp add: is_authorization_def lower_def lit_def)

lemma call_metadata_authorization:
  "filter (\<lambda>(key, _). is_authorization key) (call_metadata metadata token) = [(lit ''authorization'', lit ''Bearer '' @ token)]"
  by (auto simp: call_metadata_def filter_empty_conv)

lemma validate_bearer_token_Inr:
  "validate_bearer_token token = Inr t \<longleftrightarrow> token = Val t \<and> t \<noteq> [] \<and> (\<forall>c \<in> set t. \<not> py_isspace c)"
  by (auto simp: validate_bearer_token_def split: dyn.splits if_splits)

text \<open>What one call adds to the log: nothing, the question for a token, or that and one RPC.\<close>

definition call_log :: "client \<Rightarrow> pystr \<Rightarrow> 'o call_options \<Rightarrow> client_event list \<Rightarrow> 'a result \<Rightarrow> bool" where
  "call_log self tenant options es r \<longleftrightarrow>
     (es = [] \<or> (\<exists>q. es = [AskToken tenant q])) \<and> (\<exists>e. r = Inl e) \<or>
     (\<exists>token timeout. es = [AskToken tenant (Inr (Val token)), Rpc (call_metadata (co_metadata options) token) timeout] \<and>
        token \<noteq> [] \<and> (\<forall>c \<in> set token. \<not> py_isspace c) \<and> strip tenant \<noteq> [] \<and> \<not> cl_closed self \<and>
        bounded_timeout (cl_default_timeout self) (co_timeout options) = Inr timeout)"

lemma client_call_log: "traces (client_call self token_provider rpc request tenant options) (call_log self tenant options)"
proof -
  consider "cl_closed self \<or> strip tenant = []" | e where "\<not> cl_closed self" "strip tenant \<noteq> []"
      "bounded_timeout (cl_default_timeout self) (co_timeout options) = Inl e"
    | t where "\<not> cl_closed self" "strip tenant \<noteq> []" "bounded_timeout (cl_default_timeout self) (co_timeout options) = Inr t"
    by (cases "bounded_timeout (cl_default_timeout self) (co_timeout options)") auto
  then show ?thesis
  proof cases
    case 3
    then show ?thesis
      by (auto simp: client_call_def call_log_def Let_def validate_bearer_token_Inr
          intro!: traces_bind_pure traces_bind_logged traces_logged)
  qed (auto simp: client_call_def call_log_def intro!: traces_pure traces_bind_pure)
qed

text \<open>
  authorization. Every RPC a call makes is made for a nonblank tenant by an open client, after the
  token provider was asked for that tenant, and it carries exactly one authorization entry, with the
  token the provider gave; whatever authorization entries the caller passes are dropped, in any case
  of letters. The token has no whitespace.
\<close>

lemma client_call_authorized:
  assumes "client_call self token_provider rpc request tenant options (w, sofar) = (r, w', sofar @ es)"
    and "Rpc metadata timeout \<in> set es"
  shows "\<exists>token. es = [AskToken tenant (Inr (Val token)), Rpc metadata timeout] \<and> token \<noteq> [] \<and>
    (\<forall>c \<in> set token. \<not> py_isspace c) \<and> strip tenant \<noteq> [] \<and> \<not> cl_closed self \<and>
    filter (\<lambda>(key, _). is_authorization key) metadata = [(lit ''authorization'', lit ''Bearer '' @ token)] \<and>
    filter (\<lambda>(key, _). \<not> is_authorization key) metadata = filter (\<lambda>(key, _). \<not> is_authorization key) (co_metadata options) \<and>
    bounded_timeout (cl_default_timeout self) (co_timeout options) = Inr timeout"
proof -
  have "call_log self tenant options es r" using tracesD [OF client_call_log assms(1)] by simp
  with assms(2) call_metadata_authorization show ?thesis
    by (auto simp: call_log_def call_metadata_def filter_empty_conv)
qed

lemma example_call:
  "client_call \<lparr>cl_default_timeout = PyInt 10, cl_owns_channel = True, cl_closed = False\<rparr> (\<lambda>_ w. (Inr (Val (lit ''tok'')), w))
     (\<lambda>_ _ _ _ w. (Inr (), w)) () (lit ''t'') \<lparr>co_timeout = None, co_metadata = [(lit ''Authorization'', lit ''x'')], co_rest = ()\<rparr> ((), []) =
   (Inr (), (), [] @ [AskToken (lit ''t'') (Inr (Val (lit ''tok''))), Rpc [(lit ''authorization'', lit ''Bearer '' @ lit ''tok'')] (PyInt 10)])"
proof -
  have "strip (lit ''t'') \<noteq> []" "is_authorization (lit ''Authorization'')" "validate_bearer_token (Val (lit ''tok'')) = Inr (lit ''tok'')"
    by (simp_all add: strip_eval is_authorization_def lower_def validate_bearer_token_def)
  then show ?thesis
    by (simp add: client_call_def bind_call_def pure_call_def logged_def bounded_timeout_def call_metadata_def)
qed

theorem client_call_authorized_witness:
  "filter (\<lambda>(key, _). is_authorization key) [(lit ''authorization'', lit ''Bearer '' @ lit ''tok'')] =
     [(lit ''authorization'', lit ''Bearer '' @ lit ''tok'')]"
  using client_call_authorized [OF example_call] by auto

text \<open>
  Closing. Closing a client that owns its channel closes the channel once: afterwards every call
  fails without asking for a token or sending anything, and closing again does nothing. A client that
  does not own its channel stays usable.
\<close>

lemma close_final:
  "(if cl_owns_channel self
    then client_call (snd (close self channel_close)) token_provider rpc request tenant options st =
           (Inl (RuntimeError (lit ''Memory Core client is closed'')), st) \<and>
         close (snd (close self channel_close)) again = (pure_call (Inr ()), snd (close self channel_close))
    else close self channel_close = (pure_call (Inr ()), self))"
  by (auto simp: close_def client_call_def pure_call_def)

end
