(* ===== verification/Sdk_System.thy ===== *)
theory Sdk_System
  imports Sdk_Adapter Sdk_Client
begin

text \<open>
  The SDK put together: the adapter runs a turn over the authenticated client. The log of the client
  (tokens asked, RPCs sent) is part of the state the adapter's calls thread through.
\<close>

section \<open>Calls that leave a group of events each\<close>

text \<open>Through \<open>view\<close> the state shows a log; a computation adds at most \<open>n\<close> groups of events that satisfy \<open>P\<close>, whatever
  its result.\<close>

definition makes :: "('s \<Rightarrow> 'e list) \<Rightarrow> ('e list \<Rightarrow> bool) \<Rightarrow> nat \<Rightarrow> ('s, 'a) io \<Rightarrow> bool" where
  "makes view P n m \<longleftrightarrow> (\<forall>st. \<exists>groups. view (snd (m st)) = view st @ concat groups \<and> list_all P groups \<and> length groups \<le> n)"

lemma makes_pure: "makes view P n (pure_call r)"
  by (simp add: makes_def pure_call_def exI [of _ "[]"])

lemma makes_bind:
  assumes "makes view P i m" and "\<And>x. makes view P j (f x)"
  shows "makes view P (i + j) (bind_call m f)"
  unfolding makes_def
proof
  fix st
  obtain gs where gs: "view (snd (m st)) = view st @ concat gs" "list_all P gs" "length gs \<le> i"
    using assms(1) unfolding makes_def by blast
  obtain r st' where m: "m st = (r, st')" by (cases "m st")
  show "\<exists>groups. view (snd (bind_call m f st)) = view st @ concat groups \<and> list_all P groups \<and> length groups \<le> i + j"
  proof (cases r)
    case (Inl e)
    with m gs show ?thesis by (intro exI [of _ gs]) (simp add: bind_call_def)
  next
    case (Inr x)
    obtain hs where "view (snd (f x st')) = view st' @ concat hs" "list_all P hs" "length hs \<le> j"
      using assms(2) [of x] unfolding makes_def by blast
    with m Inr gs show ?thesis by (intro exI [of _ "gs @ hs"]) (simp add: bind_call_def)
  qed
qed

lemma makes_then: "makes view P n m \<Longrightarrow> (\<And>x. makes view P 0 (f x)) \<Longrightarrow> makes view P n (bind_call m f)"
  using makes_bind [of view P n m 0 f] by simp

lemma makes_after_pure: "(\<And>x. r = Inr x \<Longrightarrow> makes view P n (f x)) \<Longrightarrow> makes view P n (bind_call (pure_call r) f)"
  by (cases r) (auto simp: makes_def bind_call_def pure_call_def intro: exI [of _ "[]"])

lemma makes_if: "(c \<Longrightarrow> makes view P n a) \<Longrightarrow> (\<not> c \<Longrightarrow> makes view P n b) \<Longrightarrow> makes view P n (if c then a else b)"
  by simp

lemma makes_logged: "makes view P n op \<Longrightarrow> makes (\<lambda>st. view (fst st)) P n (logged e op)"
  unfolding makes_def logged_def by (auto split: prod.splits) (metis snd_conv)

section \<open>What the client sends for a turn\<close>

text \<open>What one call leaves in the log of the client: the question for the tenant's token alone, when the provider has no
  usable token, or that question, answered with a token that is not empty and holds no white space, and one RPC with
  that very token as its only metadata and with the client's own timeout.\<close>

definition tenant_call :: "client \<Rightarrow> pystr \<Rightarrow> client_event list \<Rightarrow> bool" where
  "tenant_call self tenant es \<longleftrightarrow> (\<exists>answer. es = [AskToken tenant answer]) \<or>
     (\<exists>token. es = [AskToken tenant (Inr (Val token)), Rpc [(lit ''authorization'', lit ''Bearer '' @ token)] (cl_default_timeout self)] \<and>
        token \<noteq> [] \<and> (\<forall>c \<in> set token. \<not> py_isspace c))"

lemma client_call_makes:
  fixes request :: 'q and rpc :: "('w, unit, 'q, 'a) rpc"
  shows "makes snd (tenant_call self tenant) 1
    (client_call self token_provider rpc request tenant \<lparr>co_timeout = None, co_metadata = [], co_rest = ()\<rparr>)"
  unfolding makes_def
proof
  fix st :: "'w \<times> client_event list"
  let ?call = "client_call self token_provider rpc request tenant \<lparr>co_timeout = None, co_metadata = [], co_rest = ()\<rparr>"
  obtain r w' es' where c: "?call (fst st, snd st) = (r, w', es')" by (metis prod_cases3)
  from tracesD [OF client_call_log c] obtain es where es: "es' = snd st @ es"
    and "call_log self tenant \<lparr>co_timeout = None, co_metadata = [], co_rest = ()\<rparr> es r" by blast
  then have "es = [] \<or> tenant_call self tenant es"
    by (auto simp: call_log_def tenant_call_def call_metadata_def bounded_timeout_def)
  then obtain groups where "es = concat groups" "list_all (tenant_call self tenant) groups" "length groups \<le> 1"
    using that [of "[]"] that [of "[es]"] by auto
  with c es show "\<exists>groups. snd (snd (?call st)) = snd st @ concat groups \<and> list_all (tenant_call self tenant) groups \<and> length groups \<le> 1"
    by auto
qed

abbreviation "client_view \<equiv> (\<lambda>st. snd (fst st))"

lemma session_makes:
  assumes "m = as_memory_client self token_provider stub"
  shows "tenant_ref (sv_scope (ob_source_event q1)) = tenant \<Longrightarrow> makes client_view (tenant_call self tenant) 1 (observing m q1)"
    and "tenant_ref (sq_scope q2) = tenant \<Longrightarrow> makes client_view (tenant_call self tenant) 1 (selecting m q2)"
    and "tenant_ref (dr_scope q3) = tenant \<Longrightarrow> makes client_view (tenant_call self tenant) 1 (delivering m q3)"
  using client_call_makes
  by (auto simp: assms as_memory_client_def call_defs client_observe_source_event_def client_select_memory_def
      client_record_memory_delivery_def Let_def intro!: makes_logged simp del: One_nat_def)

text \<open>The runner is not given the client, so it adds nothing to the client's log.\<close>

definition runner_apart :: "('w \<times> client_event list, 'g, 'r) runner \<Rightarrow> bool" where
  "runner_apart runner \<longleftrightarrow> (\<forall>agent input w es. \<exists>r w'. runner agent input (w, es) = (r, w', es))"

lemma running_makes: "runner_apart runner \<Longrightarrow> makes client_view P 0 (running (runner agent) input)"
  unfolding running_def
proof (rule makes_logged)
  assume "runner_apart runner"
  then have "snd (snd (runner agent input st)) = snd st" for st
    unfolding runner_apart_def by (metis prod.collapse snd_conv)
  then show "makes snd P 0 (runner agent input)" by (simp add: makes_def exI [of _ "[]"])
qed

lemma finish_turn_makes:
  assumes m: "ad_memory self = as_memory_client client token_provider stub"
    and apart: "\<And>runner. ad_runner self = Some runner \<or> ad_runner self = None \<and> installed = Some runner \<Longrightarrow> runner_apart runner"
  shows "makes client_view (tenant_call client (tenant_ref (ti_scope identity))) 1
    (finish_turn installed final_output self agent identity build runner_input)"
proof -
  let ?makes = "\<lambda>n. makes client_view (tenant_call client (tenant_ref (ti_scope identity))) n"
  have act: "?makes 1 (bind_call (observing (ad_memory self) (event_request key identity t source role)) (\<lambda>rc. pure_call (g rc)))"
    for key t source role and g :: "source_event_receipt \<Rightarrow> ('g, 'r) turn_result result"
    by (intro makes_then makes_pure session_makes(1) [OF m]) (simp add: event_request_def)
  show ?thesis
    unfolding finish_turn_def
  proof (rule makes_after_pure)
    fix runner assume "(case ad_runner self of Some runner \<Rightarrow> Inr runner | None \<Rightarrow> official_runner installed) = Inr runner"
    then have "runner_apart runner" using apart by (auto simp: official_runner_def split: option.splits)
    from makes_bind [OF running_makes [OF this] makes_after_pure [OF act]]
    show "?makes 1 (bind_call (running (runner agent) runner_input) (\<lambda>runner_result.
        bind_call (pure_call (case final_output runner_result of
            Val t \<Rightarrow> if strip t = [] then Inl (TypeError (lit ''OpenAI Agents adapter requires a non-empty text final_output'')) else Inr t
          | OtherType \<Rightarrow> Inl (TypeError (lit ''OpenAI Agents adapter requires a non-empty text final_output'')))) (\<lambda>final_output.
        bind_call (observing (ad_memory self) (event_request (ti_agent_act_key identity) identity final_output
            (ti_agent_act identity) EPISODE_SOURCE_ROLE_AGENT_ACT)) (\<lambda>agent_act_receipt.
        pure_call (Inr (build runner_result agent_act_receipt))))))"
      by simp
  qed
qed

lemma run_turn_makes:
  assumes m: "ad_memory self = as_memory_client client token_provider stub"
    and apart: "\<And>runner. ad_runner self = Some runner \<or> ad_runner self = None \<and> installed = Some runner \<Longrightarrow> runner_apart runner"
  shows "makes client_view (tenant_call client (tenant_ref (ti_scope identity))) (1 + (1 + (1 + 1)))
    (run_turn installed final_output self agent user_text identity constitution)"
proof -
  let ?makes = "\<lambda>n. makes client_view (tenant_call client (tenant_ref (ti_scope identity))) n"
  have situation: "?makes 1 (observing (ad_memory self) (situation_request identity user_text constitution))"
    by (rule session_makes(1) [OF m]) (simp add: situation_request_def event_request_def Let_def split: option.splits)
  have selection: "?makes 1 (selecting (ad_memory self) (turn_select_request self identity constitution rc))" for rc
    by (rule session_makes(2) [OF m]) (simp add: turn_select_request_def)
  have delivery: "?makes 1 (deliver_rendered self identity user_text ctx rendered)" for ctx rendered
    unfolding deliver_rendered_def
    by (intro makes_if makes_then makes_pure session_makes(3) [OF m]) (simp add: turn_delivery_def)
  have finish: "?makes 1 (case p of (runner_input, ack) \<Rightarrow>
      finish_turn installed final_output self agent identity (build ack) runner_input)" for p build
    by (cases p) (simp only: prod.case, rule finish_turn_makes [OF m apart])
  show ?thesis
    unfolding run_turn_def
    by (intro makes_bind [OF situation] makes_bind [OF selection] makes_after_pure makes_bind [OF delivery] finish)
qed

text \<open>
  C18: a turn through the whole SDK, with a runner that does not itself use the client (\<open>runner_apart\<close>). Run over the
  authenticated client, one turn of the adapter makes at most four calls. Each asks the token provider for the token of
  the tenant of the turn's identity, and each RPC follows its own question and carries, as its only metadata, the
  token that the provider answered to it, with the client's timeout, whatever the service, the token provider and the
  runner answer.
\<close>

theorem run_turn_authorized:
  assumes "ad_memory self = as_memory_client client token_provider stub"
    and "\<And>runner. ad_runner self = Some runner \<or> ad_runner self = None \<and> installed = Some runner \<Longrightarrow> runner_apart runner"
    and "run_turn installed final_output self agent user_text identity constitution ((w, sent), events) = (r, (w', sent'), events')"
  shows "\<exists>calls. sent' = sent @ concat calls \<and> list_all (tenant_call client (tenant_ref (ti_scope identity))) calls \<and> length calls \<le> 4"
proof -
  have "makes client_view (tenant_call client (tenant_ref (ti_scope identity))) (1 + (1 + (1 + 1)))
      (run_turn installed final_output self agent user_text identity constitution)"
    using assms(1,2) by (rule run_turn_makes)
  then obtain calls where "client_view (snd (run_turn installed final_output self agent user_text identity constitution ((w, sent), events))) =
      client_view ((w, sent), events) @ concat calls"
    "list_all (tenant_call client (tenant_ref (ti_scope identity))) calls" "length calls \<le> 1 + (1 + (1 + 1))"
    unfolding makes_def by blast
  with assms(3) show ?thesis by (intro exI [of _ calls]) simp
qed

definition silent_stub :: "(unit, unit) stub" where
  "silent_stub = \<lparr>ObserveSourceEvent = (\<lambda>_ _ _ _ w. (Inl (RaisedBy (lit ''unavailable'')), w)),
     SelectMemory = (\<lambda>_ _ _ _ w. (Inl (RaisedBy (lit ''unavailable'')), w)),
     RecordMemoryDelivery = (\<lambda>_ _ _ _ w. (Inl (RaisedBy (lit ''unavailable'')), w)),
     ReportOutcome = (\<lambda>_ _ _ _ w. (Inl (RaisedBy (lit ''unavailable'')), w))\<rparr>"

definition system_client :: client where
  "system_client = \<lparr>cl_default_timeout = PyInt 10, cl_owns_channel = True, cl_closed = False\<rparr>"

definition system_adapter :: "(unit \<times> client_event list, unit, pystr) adapter" where
  "system_adapter = \<lparr>ad_memory = as_memory_client system_client (\<lambda>_ w. (Inr (Val (lit ''tok'')), w)) silent_stub,
     ad_runner = Some (\<lambda>_ _ w. (Inr (lit ''Hello.''), w)), ad_evidence_max_bytes = 0, ad_max_tokens = None, ad_token_count = None\<rparr>"

definition system_identity :: turn_identity where
  "system_identity = example_identity\<lparr>ti_scope := empty_scope\<lparr>tenant_ref := lit ''t''\<rparr>\<rparr>"

lemma system_turn:
  "\<exists>events. run_turn None Val system_adapter () (lit ''Hi'') system_identity None (((), []), []) =
     (Inl (RaisedBy (lit ''unavailable'')), ((), [AskToken (lit ''t'') (Inr (Val (lit ''tok''))),
       Rpc [(lit ''authorization'', lit ''Bearer '' @ lit ''tok'')] (PyInt 10)]), events)"
proof -
  have "strip (lit ''t'') \<noteq> []" "validate_bearer_token (Val (lit ''tok'')) = Inr (lit ''tok'')"
    by (simp_all add: strip_eval validate_bearer_token_def)
  then show ?thesis
    by (simp add: run_turn_def call_defs logged_def bind_call_def pure_call_def system_adapter_def as_memory_client_def
        client_observe_source_event_def client_call_def bounded_timeout_def call_metadata_def silent_stub_def system_client_def
        situation_request_def event_request_def system_identity_def empty_scope_def Let_def)
qed

theorem run_turn_authorized_witness:
  "\<exists>calls. [AskToken (lit ''t'') (Inr (Val (lit ''tok''))), Rpc [(lit ''authorization'', lit ''Bearer '' @ lit ''tok'')] (PyInt 10)] =
     concat calls \<and> list_all (tenant_call system_client (lit ''t'')) calls \<and> length calls \<le> 4"
proof -
  obtain events where "run_turn None Val system_adapter () (lit ''Hi'') system_identity None (((), []), []) =
     (Inl (RaisedBy (lit ''unavailable'')), ((), [AskToken (lit ''t'') (Inr (Val (lit ''tok''))),
       Rpc [(lit ''authorization'', lit ''Bearer '' @ lit ''tok'')] (PyInt 10)]), events)" using system_turn by blast
  moreover have "ad_memory system_adapter = as_memory_client system_client (\<lambda>_ w. (Inr (Val (lit ''tok'')), w)) silent_stub"
    by (simp add: system_adapter_def)
  moreover have "\<And>runner. ad_runner system_adapter = Some runner \<or> ad_runner system_adapter = None \<and> None = Some runner \<Longrightarrow> runner_apart runner"
    by (auto simp: system_adapter_def runner_apart_def)
  ultimately show ?thesis
    using run_turn_authorized [of system_adapter] by (fastforce simp: system_identity_def empty_scope_def)
qed

end
