(* ===== verification/Eval_Reference.thy ===== *)
theory Eval_Reference
  imports Complex_Main "HOL-Library.Product_Lexorder" Causal_Turn
begin

text \<open>
  src/eval/python/src/memory_core_eval/reference.py: the fixed text-only harness that compares the
  evaluation modes, and the episode retrieval baseline. The memory client, the text model, the wait for
  the memory to settle and the clock are parameters; the variables that survive an exception in
  \<open>run\<close> are part of the state of its body. The Unicode tables behind \<open>casefold\<close> and \<open>isalnum\<close> are
  parameters too, and a similarity score is the exact quotient rather than its nearest float.
\<close>

section \<open>Data\<close>

datatype eval_mode = NONE | EPISODE_RAG | RECOLLECTION_ONLY | FULL_CORE

fun mode_value :: "eval_mode \<Rightarrow> pystr" where
  "mode_value NONE = lit ''none''"
| "mode_value EPISODE_RAG = lit ''episode_rag''"
| "mode_value RECOLLECTION_ONLY = lit ''recollection_only''"
| "mode_value FULL_CORE = lit ''full_core''"

record historical_turn =
  ht_situation :: pystr
  ht_agent_act :: pystr
  ht_outcome :: "pystr option"

record scenario =
  scenario_ref :: pystr
  sc_history :: "historical_turn list"
  sc_query :: pystr
  sc_expected_output :: pystr
  sc_query_outcome :: "pystr option"

record harness_profile =
  evaluation_ref :: pystr
  hp_harness :: pystr
  harness_version :: pystr
  hp_model :: pystr
  profile_version :: pystr
  prompt_version :: pystr
  scenario_set :: pystr
  hp_instructions :: pystr
  hp_tenant_ref :: pystr
  hp_agent_ref :: pystr
  hp_relationship_ref :: pystr
  hp_user_ref :: pystr
  hp_constitution :: constitution
  hp_max_output_tokens :: int
  episode_rag_top_k :: int

text \<open>\<open>__post_init__\<close>.\<close>

definition post_init :: "harness_profile \<Rightarrow> harness_profile result" where
  "post_init self =
     bindr (check_all (\<lambda>(field_name, text). raise_if (strip text = []) (ValueError (field_name @ lit '' must be nonblank'')))
       [(lit ''evaluation_ref'', evaluation_ref self), (lit ''harness'', hp_harness self), (lit ''harness_version'', harness_version self),
        (lit ''model'', hp_model self), (lit ''profile_version'', profile_version self), (lit ''prompt_version'', prompt_version self),
        (lit ''scenario_set'', scenario_set self), (lit ''tenant_ref'', hp_tenant_ref self), (lit ''agent_ref'', hp_agent_ref self),
        (lit ''relationship_ref'', hp_relationship_ref self), (lit ''user_ref'', hp_user_ref self)]) (\<lambda>_.
     bindr (raise_if (episode_rag_top_k self \<le> 0) (ValueError (lit ''episode_rag_top_k must be positive''))) (\<lambda>_.
     bindr (raise_if (hp_max_output_tokens self \<le> 0) (ValueError (lit ''max_output_tokens must be positive''))) (\<lambda>_.
     Inr self)))"

text \<open>The result of a run; \<open>'d\<close> is the type of the measured duration. The fields copied from the profile
  are the profile itself.\<close>

record 'd eval_result =
  er_profile :: harness_profile
  er_mode :: pystr
  er_scenario_ref :: pystr
  er_output :: pystr
  er_matched :: bool
  er_injected_char_count :: nat
  er_duration_ms :: 'd
  er_error :: "pystr option"

section \<open>Identities\<close>

definition identity :: "harness_profile \<Rightarrow> eval_mode \<Rightarrow> scenario \<Rightarrow> pystr \<Rightarrow> pystr \<Rightarrow> pystr" where
  "identity profile mode scenario turn_ref kind =
     py_join (lit '':'') [lit ''eval'', evaluation_ref profile, hp_harness profile, scenario_ref scenario, mode_value mode, turn_ref, kind]"

definition run_ref :: "harness_profile \<Rightarrow> eval_mode \<Rightarrow> scenario \<Rightarrow> pystr \<Rightarrow> pystr" where
  "run_ref profile mode scenario turn_ref = identity profile mode scenario turn_ref (lit ''run'')"

definition harness_scope :: "harness_profile \<Rightarrow> eval_mode \<Rightarrow> scenario \<Rightarrow> memory_scope" where
  "harness_scope profile mode scenario =
     \<lparr>tenant_ref = hp_tenant_ref profile, agent_ref = hp_agent_ref profile,
      relationship_ref = hp_relationship_ref profile @ lit '':'' @ evaluation_ref profile @ lit '':'' @ hp_harness profile @ lit '':'' @
        scenario_ref scenario @ lit '':'' @ mode_value mode,
      session_ref = identity profile mode scenario (lit ''session'') (lit ''scope''), scope_kind = MEMORY_SCOPE_KIND_RELATIONSHIP\<rparr>"

section \<open>The episode retrieval baseline\<close>

definition character_ngrams :: "(nat \<Rightarrow> pystr) \<Rightarrow> (nat \<Rightarrow> bool) \<Rightarrow> pystr \<Rightarrow> nat \<Rightarrow> pystr set" where
  "character_ngrams casefold isalnum text n =
     (let normalized = concat (map casefold (filter isalnum text)) in
      if normalized = [] then {}
      else if length normalized \<le> n then {normalized}
      else set (map (\<lambda>index. take n (drop index normalized)) [0..<length normalized - n + 1]))"

definition turn_document :: "historical_turn \<Rightarrow> pystr" where
  "turn_document turn =
     py_join [10] (filter (\<lambda>part. strip part \<noteq> [])
       [ht_situation turn, ht_agent_act turn, case ht_outcome turn of None \<Rightarrow> [] | Some s \<Rightarrow> s])"

definition similarity :: "pystr set \<Rightarrow> pystr set \<Rightarrow> rat" where
  "similarity query_ngrams document_ngrams =
     (if query_ngrams \<union> document_ngrams = {} then 0
      else of_nat (card (query_ngrams \<inter> document_ngrams)) / of_nat (card (query_ngrams \<union> document_ngrams)))"

definition ranked_turns ::
  "(nat \<Rightarrow> pystr) \<Rightarrow> (nat \<Rightarrow> bool) \<Rightarrow> historical_turn list \<Rightarrow> pystr set \<Rightarrow> nat \<Rightarrow> (rat \<times> nat \<times> historical_turn) list" where
  "ranked_turns casefold isalnum history query_ngrams ngram_size =
     filter (\<lambda>(score, _, _). 0 < score)
       (map (\<lambda>(index, turn). (similarity query_ngrams (character_ngrams casefold isalnum (turn_document turn) ngram_size), index, turn))
         (enumerate 0 history))"

definition selected_turns :: "(rat \<times> nat \<times> historical_turn) list \<Rightarrow> nat \<Rightarrow> (rat \<times> nat \<times> historical_turn) list" where
  "selected_turns ranked top_k = take top_k (sort_key (\<lambda>(score, index, _). (- score, index)) ranked)"

definition episode_lines :: "historical_turn \<Rightarrow> pystr" where
  "episode_lines turn =
     py_join [10] ([lit ''SITUATION: '' @ strip (ht_situation turn), lit ''AGENT_ACT: '' @ strip (ht_agent_act turn)] @
       (case ht_outcome turn of None \<Rightarrow> [] | Some s \<Rightarrow> if strip s = [] then [] else [lit ''OUTCOME: '' @ strip s]))"

definition render_episode_rag ::
  "(nat \<Rightarrow> pystr) \<Rightarrow> (nat \<Rightarrow> bool) \<Rightarrow> historical_turn list \<Rightarrow> pystr \<Rightarrow> int \<Rightarrow> int \<Rightarrow> pystr result" where
  "render_episode_rag casefold isalnum history query top_k ngram_size =
     (if top_k \<le> 0 then Inl (ValueError (lit ''top_k must be positive''))
      else if ngram_size \<le> 0 then Inl (ValueError (lit ''ngram_size must be positive''))
      else let query_ngrams = character_ngrams casefold isalnum query (nat ngram_size) in
        if query_ngrams = {} then Inr []
        else let selected = selected_turns (ranked_turns casefold isalnum history query_ngrams (nat ngram_size)) (nat top_k) in
          if selected = [] then Inr []
          else Inr (lit ''EPISODES'' @ [10] @ py_join [10, 10] (map (\<lambda>(_, _, turn). episode_lines turn) selected)))"

definition render_core_context :: "eval_mode \<Rightarrow> memory_context \<Rightarrow> rendered_context result" where
  "render_core_context mode context =
     (if mode = FULL_CORE then render_memory_context context None None
      else render_memory_context (empty_context\<lparr>mc_context_ref := mc_context_ref context, mc_run_ref := mc_run_ref context,
          mc_scope := mc_scope context, mc_constitution := mc_constitution context, mc_recollections := mc_recollections context\<rparr>) None None)"

section \<open>The harness\<close>

text \<open>The variables of \<open>run\<close> that outlive an exception.\<close>

record run_locals =
  injected_text :: pystr
  run_output :: pystr

text \<open>The arguments of \<open>TextModel.complete\<close>: instructions, input text and the bound on the output.\<close>

type_synonym completion = "pystr \<times> pystr \<times> int"

type_synonym ('w, 'a) harness_session = "('w \<times> run_locals, completion, pystr dyn, 'a) session"

record 'w harness =
  ha_memory :: "'w memory_client option"
  ha_model :: "completion \<Rightarrow> ('w, pystr dyn) io"
  ha_profile :: harness_profile
  ha_settle :: "('w, unit) io"

definition on_world :: "('w, 'a) io \<Rightarrow> ('w \<times> 'l, 'a) io" where
  "on_world op st = (case op (fst st) of (r, w) \<Rightarrow> (r, w, snd st))"

definition with_locals :: "'w memory_client \<Rightarrow> ('w \<times> 'l) memory_client" where
  "with_locals memory =
     \<lparr>observe_source_event = (\<lambda>q. on_world (observe_source_event memory q)),
      select_memory = (\<lambda>q. on_world (select_memory memory q)),
      record_memory_delivery = (\<lambda>q. on_world (record_memory_delivery memory q)),
      report_outcome = (\<lambda>q. on_world (report_outcome memory q))\<rparr>"

definition assign :: "('l \<Rightarrow> 'l) \<Rightarrow> (('w \<times> 'l) \<times> 'e list, unit) io" where
  "assign f st = (Inr (), (fst (fst st), f (snd (fst st))), snd st)"

definition observe_role_name :: "int \<Rightarrow> pystr" where
  "observe_role_name role = (if role = EPISODE_SOURCE_ROLE_SITUATION then lit ''situation'' else lit ''agent-act'')"

definition harness_observe_request ::
  "harness_profile \<Rightarrow> eval_mode \<Rightarrow> scenario \<Rightarrow> pystr \<Rightarrow> int \<Rightarrow> pystr \<Rightarrow> int \<Rightarrow> pystr \<Rightarrow> observe_request" where
  "harness_observe_request profile mode scenario turn_ref role text actor_kind actor_ref =
     \<lparr>ob_idempotency_key = identity profile mode scenario turn_ref (lit ''observe-'' @ observe_role_name role),
      ob_source_event = \<lparr>sv_scope = harness_scope profile mode scenario, sv_text = text,
        sv_source_ref = identity profile mode scenario turn_ref (observe_role_name role),
        sv_actor_kind = actor_kind, sv_actor_ref = actor_ref, sv_constitution = None\<rparr>,
      ob_episode_binding = Some \<lparr>eb_run_ref = run_ref profile mode scenario turn_ref,
        eb_source_group_ref = identity profile mode scenario turn_ref (lit ''source-group''), eb_role = role\<rparr>\<rparr>"

text \<open>The two observations the harness makes: of the user's situation and of the Agent's act.\<close>

definition observe_situation :: "harness_profile \<Rightarrow> eval_mode \<Rightarrow> scenario \<Rightarrow> pystr \<Rightarrow> pystr \<Rightarrow> observe_request" where
  "observe_situation profile mode scenario turn_ref text =
     harness_observe_request profile mode scenario turn_ref EPISODE_SOURCE_ROLE_SITUATION text SOURCE_ACTOR_KIND_USER (hp_user_ref profile)"

definition observe_agent_act :: "harness_profile \<Rightarrow> eval_mode \<Rightarrow> scenario \<Rightarrow> pystr \<Rightarrow> pystr \<Rightarrow> observe_request" where
  "observe_agent_act profile mode scenario turn_ref text =
     harness_observe_request profile mode scenario turn_ref EPISODE_SOURCE_ROLE_AGENT_ACT text SOURCE_ACTOR_KIND_AGENT (hp_agent_ref profile)"

definition harness_outcome_request ::
  "harness_profile \<Rightarrow> eval_mode \<Rightarrow> scenario \<Rightarrow> pystr \<Rightarrow> pystr \<Rightarrow> pystr list \<Rightarrow> pystr list \<Rightarrow> outcome_request" where
  "harness_outcome_request profile mode scenario turn_ref text delivery_receipt_refs related_source_event_refs =
     \<lparr>or_idempotency_key = identity profile mode scenario turn_ref (lit ''report-outcome''),
      or_scope = harness_scope profile mode scenario, or_run_ref = run_ref profile mode scenario turn_ref,
      or_source_group_ref = identity profile mode scenario turn_ref (lit ''source-group''), or_text = text,
      or_delivery_refs = delivery_receipt_refs, or_related_refs = related_source_event_refs,
      or_source_ref = identity profile mode scenario turn_ref (lit ''outcome''),
      or_actor_kind = SOURCE_ACTOR_KIND_EXTERNAL, or_actor_ref = lit ''memory-core-eval'', or_constitution = None\<rparr>"

definition history_ref :: "nat \<Rightarrow> pystr" where
  "history_ref index = lit ''history-'' @ digits (index + 1)"

definition replay_turn ::
  "('w \<times> run_locals) memory_client \<Rightarrow> harness_profile \<Rightarrow> eval_mode \<Rightarrow> scenario \<Rightarrow> nat \<times> historical_turn \<Rightarrow> ('w, unit) harness_session" where
  "replay_turn memory profile mode scenario entry =
     (let turn_ref = history_ref (fst entry); turn = snd entry in
      bind_call (observing memory (observe_situation profile mode scenario turn_ref (ht_situation turn))) (\<lambda>situation.
      bind_call (observing memory (observe_agent_act profile mode scenario turn_ref (ht_agent_act turn))) (\<lambda>agent_act.
      case ht_outcome turn of None \<Rightarrow> pure_call (Inr ())
      | Some text \<Rightarrow> bind_call (reporting memory (harness_outcome_request profile mode scenario turn_ref text []
            [sr_source_event_ref situation, sr_source_event_ref agent_act])) (\<lambda>_. pure_call (Inr ())))))"

definition replay_history ::
  "('w \<times> run_locals) memory_client \<Rightarrow> harness_profile \<Rightarrow> eval_mode \<Rightarrow> scenario \<Rightarrow> ('w, unit) harness_session" where
  "replay_history memory profile mode scenario =
     for_each (replay_turn memory profile mode scenario) (enumerate 0 (sc_history scenario))"

definition harness_completion :: "harness_profile \<Rightarrow> scenario \<Rightarrow> pystr \<Rightarrow> completion" where
  "harness_completion profile scenario injected =
     (if injected = [] then hp_instructions profile
      else hp_instructions profile @ [10, 10] @ lit ''LONG_TERM_MEMORY'' @ [10] @ injected,
      sc_query scenario, hp_max_output_tokens profile)"

text \<open>The call of the model and the check of what it returns.\<close>

definition complete_query :: "'w harness \<Rightarrow> scenario \<Rightarrow> pystr \<Rightarrow> ('w, pystr) harness_session" where
  "complete_query self scenario injected =
     bind_call (running (\<lambda>c. on_world (ha_model self c)) (harness_completion (ha_profile self) scenario injected)) (\<lambda>raw_output.
     bind_call (pure_call (case raw_output of
         Val t \<Rightarrow> if strip t = [] then Inl (OtherError (lit ''EmptyModelOutput'') (lit ''text model returned empty output'')) else Inr t
       | OtherType \<Rightarrow> Inl (OtherError (lit ''EmptyModelOutput'') (lit ''text model returned empty output'')))) (\<lambda>output.
     bind_call (assign (\<lambda>l. l\<lparr>run_output := output\<rparr>)) (\<lambda>_. pure_call (Inr output))))"

text \<open>The query turn: selection and delivery, then the model, the act and the outcome.\<close>

definition query_select_request ::
  "harness_profile \<Rightarrow> eval_mode \<Rightarrow> scenario \<Rightarrow> source_event_receipt \<Rightarrow> select_request" where
  "query_select_request profile mode scenario situation_receipt =
     \<lparr>sq_scope = harness_scope profile mode scenario, sq_run_ref = run_ref profile mode scenario (lit ''query''),
      sq_situation_refs = [sr_source_event_ref situation_receipt], sq_constitution = Some (hp_constitution profile),
      sq_evidence_max_bytes = 0\<rparr>"

definition query_delivery :: "harness_profile \<Rightarrow> eval_mode \<Rightarrow> scenario \<Rightarrow> memory_context \<Rightarrow> pystr list \<Rightarrow> delivery_receipt" where
  "query_delivery profile mode scenario context memory_refs =
     \<lparr>dr_idempotency_key = identity profile mode scenario (lit ''query'') (lit ''delivery''),
      dr_scope = harness_scope profile mode scenario, dr_run_ref = run_ref profile mode scenario (lit ''query''),
      dr_context_ref = mc_context_ref context, dr_delivered_refs = memory_refs\<rparr>"

definition deliver_query ::
  "('w \<times> run_locals) memory_client \<Rightarrow> harness_profile \<Rightarrow> eval_mode \<Rightarrow> scenario \<Rightarrow> memory_context \<Rightarrow> rendered_context \<Rightarrow>
    ('w, receipt_ack option) harness_session" where
  "deliver_query memory profile mode scenario context rendered =
     (if rendered_text rendered = [] then pure_call (Inr None)
      else bind_call (delivering memory (query_delivery profile mode scenario context (rendered_refs rendered))) (\<lambda>ack.
        pure_call (Inr (Some ack))))"

definition finish_query ::
  "('w \<times> run_locals) memory_client \<Rightarrow> 'w harness \<Rightarrow> eval_mode \<Rightarrow> scenario \<Rightarrow> source_event_receipt \<Rightarrow> receipt_ack option \<Rightarrow> pystr \<Rightarrow>
    ('w, unit) harness_session" where
  "finish_query memory self mode scenario situation_receipt delivery_receipt injected =
     (let profile = ha_profile self in
      bind_call (complete_query self scenario injected) (\<lambda>output.
      bind_call (observing memory (observe_agent_act profile mode scenario (lit ''query'') output)) (\<lambda>agent_act_receipt.
      case sc_query_outcome scenario of None \<Rightarrow> pure_call (Inr ())
      | Some text \<Rightarrow> bind_call (reporting memory (harness_outcome_request profile mode scenario (lit ''query'') text
            (case delivery_receipt of None \<Rightarrow> [] | Some ack \<Rightarrow> [ra_receipt_ref ack])
            [sr_source_event_ref situation_receipt, sr_source_event_ref agent_act_receipt])) (\<lambda>_. pure_call (Inr ())))))"

definition run_query ::
  "('w \<times> run_locals) memory_client \<Rightarrow> 'w harness \<Rightarrow> eval_mode \<Rightarrow> scenario \<Rightarrow> ('w, unit) harness_session" where
  "run_query memory self mode scenario =
     (let profile = ha_profile self in
      bind_call (observing memory (observe_situation profile mode scenario (lit ''query'') (sc_query scenario))) (\<lambda>situation_receipt.
      bind_call (selecting memory (query_select_request profile mode scenario situation_receipt)) (\<lambda>context.
      bind_call (pure_call (render_core_context mode context)) (\<lambda>rendered.
      bind_call (assign (\<lambda>l. l\<lparr>injected_text := rendered_text rendered\<rparr>)) (\<lambda>_.
      bind_call (deliver_query memory profile mode scenario context rendered) (\<lambda>delivery_receipt.
      finish_query memory self mode scenario situation_receipt delivery_receipt (rendered_text rendered)))))))"

text \<open>The body of \<open>run\<close> in the two modes that use the Core.\<close>

definition run_core :: "'w memory_client \<Rightarrow> 'w harness \<Rightarrow> eval_mode \<Rightarrow> scenario \<Rightarrow> ('w, unit) harness_session" where
  "run_core client self mode scenario =
     (let memory = with_locals client in
      bind_call (replay_history memory (ha_profile self) mode scenario) (\<lambda>_.
      bind_call (logged (\<lambda>_. Settle) (on_world (ha_settle self))) (\<lambda>_.
      run_query memory self mode scenario)))"

text \<open>The body in the two modes without the Core.\<close>

definition run_baseline ::
  "(nat \<Rightarrow> pystr) \<Rightarrow> (nat \<Rightarrow> bool) \<Rightarrow> 'w harness \<Rightarrow> eval_mode \<Rightarrow> scenario \<Rightarrow> ('w, unit) harness_session" where
  "run_baseline casefold isalnum self mode scenario =
     bind_call (pure_call (if mode = EPISODE_RAG
         then render_episode_rag casefold isalnum (sc_history scenario) (sc_query scenario) (episode_rag_top_k (ha_profile self)) 3
         else Inr [])) (\<lambda>injected.
     bind_call (assign (\<lambda>l. l\<lparr>injected_text := injected\<rparr>)) (\<lambda>_.
     bind_call (complete_query self scenario injected) (\<lambda>_. pure_call (Inr ()))))"

definition run_body ::
  "(nat \<Rightarrow> pystr) \<Rightarrow> (nat \<Rightarrow> bool) \<Rightarrow> 'w harness \<Rightarrow> eval_mode \<Rightarrow> scenario \<Rightarrow> ('w, unit) harness_session" where
  "run_body casefold isalnum self mode scenario =
     (if mode \<in> {RECOLLECTION_ONLY, FULL_CORE}
      then case ha_memory self of
          None \<Rightarrow> pure_call (Inl (RuntimeError (mode_value mode @ lit '' requires a Memory Core client'')))
        | Some client \<Rightarrow> run_core client self mode scenario
      else run_baseline casefold isalnum self mode scenario)"

text \<open>\<open>run\<close>: every exception becomes the error of the result; \<open>describe\<close> is the text of an exception and
  \<open>elapsed\<close> the measured duration.\<close>

definition run ::
  "(nat \<Rightarrow> pystr) \<Rightarrow> (nat \<Rightarrow> bool) \<Rightarrow> (py_error \<Rightarrow> pystr) \<Rightarrow> 'd \<Rightarrow> 'w harness \<Rightarrow> eval_mode \<Rightarrow> scenario \<Rightarrow>
    'w \<times> (completion, pystr dyn) event list \<Rightarrow> 'd eval_result \<times> 'w \<times> (completion, pystr dyn) event list" where
  "run casefold isalnum describe elapsed self mode scenario st =
     (case run_body casefold isalnum self mode scenario ((fst st, \<lparr>injected_text = [], run_output = []\<rparr>), snd st) of
        (r, (w, locals), events) \<Rightarrow>
          (let error = (case r of Inl e \<Rightarrow> Some (describe e) | Inr _ \<Rightarrow> None) in
           (\<lparr>er_profile = ha_profile self, er_mode = mode_value mode, er_scenario_ref = scenario_ref scenario,
             er_output = run_output locals,
             er_matched = (error = None \<and> strip (run_output locals) = strip (sc_expected_output scenario)),
             er_injected_char_count = length (injected_text locals), er_duration_ms = elapsed, er_error = error\<rparr>, w, events)))"

end
