(* ===== verification/Eval_Lifecycle.thy ===== *)
theory Eval_Lifecycle
  imports Eval_Reference Py_Data
begin

text \<open>
  src/eval/python/src/memory_core_eval/seed_lifecycle.py: the fixed companion lifecycle that checks the
  causal boundary of Dispositions. A Disposition is formed from up to three scripted turns; then four
  cases run one feedback turn each, with and without a Delivery and an outcome, and probe the memory
  once more. The memory client, the model, the wait for the memory to settle and the token counter are
  parameters; the output directory is a map from file names to what they hold.
\<close>

section \<open>The script\<close>

datatype lifecycle_kind = POSITIVE_COMPLETE | NO_DELIVERY | NO_OUTCOME | NEGATIVE_COMPLETE

fun kind_value :: "lifecycle_kind \<Rightarrow> pystr" where
  "kind_value POSITIVE_COMPLETE = lit ''positive_complete''"
| "kind_value NO_DELIVERY = lit ''no_delivery''"
| "kind_value NO_OUTCOME = lit ''no_outcome''"
| "kind_value NEGATIVE_COMPLETE = lit ''negative_complete''"

record lifecycle_case =
  lc_kind :: lifecycle_kind
  lc_record_delivery :: bool
  lc_outcome_text :: "pystr option"

definition FORMATION_TURNS :: "(pystr \<times> pystr) list" where
  "FORMATION_TURNS = [
     (lit ''A product launch had so many moving pieces that I froze. Once we named what mattered most before discussing solutions, I could think again.'',
      lit ''We named the most important concern before considering possible solutions.''),
     (lit ''Planning my move overwhelmed me. Saying the priorities aloud before looking at solutions made the next step manageable.'',
      lit ''We clarified the priorities together before choosing a next step.''),
     (lit ''Preparing a conference agenda left me stuck among too many competing tasks. Once we identified the one outcome that mattered most, I could move forward.'',
      lit ''We identified the most important outcome before working through the agenda.'')]"

definition QUERY :: pystr where
  "QUERY = lit ''This complicated plan has left me overwhelmed and unable to tell where to begin.''"

definition DELAYED_QUERY :: pystr where
  "DELAYED_QUERY = QUERY"

definition ACTION_OPTIONS :: "(pystr \<times> pystr) list" where
  "ACTION_OPTIONS = [
     (lit ''A'', lit ''Let'' @ [39] @ lit ''s pause before solutions and name the top priority first: what matters most here?''),
     (lit ''B'', lit ''Here is a complete ten-step solution to follow immediately.'')]"

definition MODEL_INSTRUCTIONS :: pystr where
  "MODEL_INSTRUCTIONS = py_join [10] [
     lit ''You are the companion in a fixed behavior-choice test.'',
     lit ''Use LONG_TERM_MEMORY when present. Choose the response that best fits this user now.'',
     lit ''Reply with exactly one uppercase option letter and no other text.'']"

definition lifecycle_cases :: "lifecycle_case list" where
  "lifecycle_cases =
     (let positive = lit ''Yes, naming priorities before solutions helped me start.'' in
      [\<lparr>lc_kind = POSITIVE_COMPLETE, lc_record_delivery = True, lc_outcome_text = Some positive\<rparr>,
       \<lparr>lc_kind = NO_DELIVERY, lc_record_delivery = False, lc_outcome_text = Some positive\<rparr>,
       \<lparr>lc_kind = NO_OUTCOME, lc_record_delivery = True, lc_outcome_text = None\<rparr>,
       \<lparr>lc_kind = NEGATIVE_COMPLETE, lc_record_delivery = True, lc_outcome_text = Some
         (lit ''That made things harder: sorting priorities increased the overwhelm, while one concrete next step would have been manageable.'')\<rparr>])"

section \<open>Names and prompts\<close>

definition lifecycle_scope :: "pystr \<Rightarrow> pystr \<Rightarrow> pystr \<Rightarrow> memory_scope result" where
  "lifecycle_scope evaluation lane session =
     bindr (nonblank (PStr lane) (lit ''lifecycle lane'')) (\<lambda>lane.
       let relationship = evaluation @ lit '':'' @ lane in
       Inr \<lparr>tenant_ref = lit ''seed-lifecycle-eval'', agent_ref = lit ''seed-lifecycle-agent'', relationship_ref = relationship,
         session_ref = relationship @ lit '':'' @ session, scope_kind = MEMORY_SCOPE_KIND_RELATIONSHIP\<rparr>)"

definition lifecycle_identity :: "pystr \<Rightarrow> pystr \<Rightarrow> pystr \<Rightarrow> pystr" where
  "lifecycle_identity evaluation lane step = lit ''seed-lifecycle:'' @ evaluation @ lit '':'' @ lane @ lit '':'' @ step"

definition choice_input :: "pystr \<Rightarrow> pystr" where
  "choice_input query =
     lit ''SITUATION'' @ [10] @ query @ [10, 10] @ lit ''OPTIONS'' @ [10] @
     lit ''A. '' @ the (map_of ACTION_OPTIONS (lit ''A'')) @ [10] @ lit ''B. '' @ the (map_of ACTION_OPTIONS (lit ''B''))"

text \<open>\<open>extract_option_token\<close> of perma_seed_effect.py.\<close>

definition extract_option_token :: "pyval \<Rightarrow> pystr" where
  "extract_option_token output = (case output of
       PStr s \<Rightarrow> (let token = py_upper (strip s) in if length token = 1 \<and> 65 \<le> token ! 0 \<and> token ! 0 \<le> 90 then token else [])
     | _ \<Rightarrow> [])"

definition seed_lineage :: "pystr \<Rightarrow> pystr" where
  "seed_lineage version_ref =
     (case rpartition 64 version_ref of (head, separator, suf) \<Rightarrow>
        if separator \<noteq> [] \<and> head \<noteq> [] \<and> isdigit suf then head else version_ref)"

section \<open>The state of the memory\<close>

definition active_record :: "pyval \<Rightarrow> (pystr \<times> pystr) list \<Rightarrow> (pystr \<times> pystr) list result" where
  "active_record record result = (case as_mapping record of
       None \<Rightarrow> Inl (TypeError (lit ''state disposition must be a mapping''))
     | Some entry \<Rightarrow>
         if get entry (lit ''status'') \<noteq> PStr (lit ''active'') then Inr result
         else bindr (nonblank (get entry (lit ''ref'')) (lit ''Disposition ref'')) (\<lambda>ref.
              bindr (nonblank (get entry (lit ''text'')) (lit ''Disposition text'')) (\<lambda>text.
              Inr (AList.update ref text result))))"

definition active_dispositions :: "pydict \<Rightarrow> (pystr \<times> pystr) list result" where
  "active_dispositions state = (case as_sequence (get_or state (lit ''dispositions'') (PList [])) of
       None \<Rightarrow> Inl (TypeError (lit ''state dispositions must be a sequence''))
     | Some records \<Rightarrow> foldr_r active_record records [])"

definition basis_record :: "pystr set \<Rightarrow> pyval \<Rightarrow> (pystr \<times> pystr \<times> pystr) set \<Rightarrow> (pystr \<times> pystr \<times> pystr) set result" where
  "basis_record roles record result = (case as_mapping record of
       None \<Rightarrow> Inl (TypeError (lit ''seed basis link must be a mapping''))
     | Some entry \<Rightarrow>
         bindr (in_texts (get entry (lit ''role'')) roles) (\<lambda>known.
         if \<not> known then Inr result
         else bindr (nonblank (get entry (lit ''ref'')) (lit ''seed basis ref'')) (\<lambda>ref.
              bindr (nonblank (get entry (lit ''episode_ref'')) (lit ''seed basis Episode ref'')) (\<lambda>episode.
              Inr (insert (ref, episode, case get entry (lit ''role'') of PStr role \<Rightarrow> role | _ \<Rightarrow> []) result)))))"

definition seed_basis :: "pydict \<Rightarrow> pystr set \<Rightarrow> (pystr \<times> pystr \<times> pystr) set result" where
  "seed_basis state roles = (case as_mapping (get_or state (lit ''basis'') (PDict [])) of
       None \<Rightarrow> Inl (TypeError (lit ''state basis must be a mapping''))
     | Some basis \<Rightarrow> (case as_sequence (get_or basis (lit ''seed_basis_links'') (PList [])) of
           None \<Rightarrow> Inl (TypeError (lit ''seed basis links must be a sequence''))
         | Some records \<Rightarrow> foldr_r (basis_record roles) records {}))"

definition basis_delta ::
  "pydict \<Rightarrow> pydict \<Rightarrow> pystr set \<Rightarrow> pystr set option \<Rightarrow> (pystr \<times> pystr \<times> pystr) set result" where
  "basis_delta before after roles target_lineages =
     bindr (seed_basis after roles) (\<lambda>new.
     bindr (seed_basis before roles) (\<lambda>old.
     let delta = new - old in
     Inr (case target_lineages of None \<Rightarrow> delta
       | Some lineages \<Rightarrow> {item \<in> delta. seed_lineage (fst item) \<in> lineages})))"

section \<open>Formation\<close>

text \<open>The collaborators of a run and its two budgets.\<close>

record 'w lifecycle_env =
  le_memory :: "'w memory_client"
  le_settle :: "memory_scope \<Rightarrow> nat \<Rightarrow> ('w, pydict) io"
  le_model :: "completion \<Rightarrow> ('w, pyval) io"
  le_token_count :: token_counter
  le_memory_tokens :: int
  le_max_output_tokens :: int

type_synonym ('w, 'a) lifecycle_session = "('w, completion, pyval, 'a) session"

definition settling :: "'w lifecycle_env \<Rightarrow> memory_scope \<Rightarrow> nat \<Rightarrow> ('w, pydict) lifecycle_session" where
  "settling env scope episodes = logged (\<lambda>_. Settle) (le_settle env scope episodes)"

definition lifecycle_observation ::
  "memory_scope \<Rightarrow> pystr \<Rightarrow> pystr \<times> pystr \<times> int \<times> pystr \<times> int \<Rightarrow> observe_request" where
  "lifecycle_observation scope ident = (\<lambda>(name, text, actor_kind, actor, role).
     \<lparr>ob_idempotency_key = ident @ lit '':'' @ name,
      ob_source_event = \<lparr>sv_scope = scope, sv_text = text, sv_source_ref = ident @ lit '':'' @ name, sv_actor_kind = actor_kind,
        sv_actor_ref = actor, sv_constitution = None\<rparr>,
      ob_episode_binding = Some \<lparr>eb_run_ref = ident @ lit '':run'', eb_source_group_ref = ident @ lit '':source-group'', eb_role = role\<rparr>\<rparr>)"

abbreviation "situation_of text \<equiv>
  (lit ''situation'', text, SOURCE_ACTOR_KIND_USER, lit ''seed-lifecycle-user'', EPISODE_SOURCE_ROLE_SITUATION)"

abbreviation "agent_act_of text \<equiv>
  (lit ''agent-act'', text, SOURCE_ACTOR_KIND_AGENT, lit ''seed-lifecycle-agent'', EPISODE_SOURCE_ROLE_AGENT_ACT)"

definition observe_complete_turn ::
  "'w memory_client \<Rightarrow> memory_scope \<Rightarrow> pystr \<Rightarrow> pystr \<Rightarrow> pystr \<Rightarrow> ('w, unit) lifecycle_session" where
  "observe_complete_turn memory scope ident situation agent_act =
     for_each (\<lambda>turn. bind_call (observing memory (lifecycle_observation scope ident turn)) (\<lambda>_. pure_call (Inr ())))
       [situation_of situation, agent_act_of agent_act]"

text \<open>The loop of \<open>_form_lifecycle_seed\<close> from the turn with number \<open>offset\<close> on.\<close>

fun form_from ::
  "'w lifecycle_env \<Rightarrow> pystr \<Rightarrow> pystr \<Rightarrow> nat \<Rightarrow> nat \<Rightarrow> (pystr \<times> pystr) list \<Rightarrow> ('w, pydict \<times> nat) lifecycle_session" where
  "form_from env evaluation lane episodes offset [] = pure_call (Inl (RuntimeError (lit ''formation produced no active Disposition'')))"
| "form_from env evaluation lane episodes offset ((situation, agent_act) # turns) =
     (let step = lit ''formation-'' @ digits offset in
      bind_call (pure_call (lifecycle_scope evaluation lane step)) (\<lambda>scope.
      bind_call (observe_complete_turn (le_memory env) scope (lifecycle_identity evaluation lane step) situation agent_act) (\<lambda>_.
      bind_call (settling env scope (episodes + offset)) (\<lambda>before.
      bind_call (pure_call (if 2 \<le> offset then active_dispositions before else Inr [])) (\<lambda>active.
      if active \<noteq> [] then pure_call (Inr (before, episodes + offset))
      else form_from env evaluation lane episodes (offset + 1) turns)))))"

definition form_lifecycle_seed :: "'w lifecycle_env \<Rightarrow> pystr \<Rightarrow> pystr \<Rightarrow> nat \<Rightarrow> ('w, pydict \<times> nat) lifecycle_session" where
  "form_lifecycle_seed env evaluation lane episodes = form_from env evaluation lane episodes 1 FORMATION_TURNS"

section \<open>The feedback turn\<close>

record feedback_probe =
  fp_scope :: memory_scope
  fp_identity :: pystr
  fp_situation :: source_event_receipt
  fp_selected :: memory_context
  fp_rendered :: rendered_context

definition text_dispositions :: "memory_context \<Rightarrow> pystr list" where
  "text_dispositions selected = map mi_memory_ref (filter (\<lambda>item. strip (mi_text item) \<noteq> []) (mc_dispositions selected))"

definition rendered_dispositions :: "feedback_probe \<Rightarrow> pystr list" where
  "rendered_dispositions probe =
     filter (\<lambda>ref. ref \<in> set (rendered_refs (fp_rendered probe))) (text_dispositions (fp_selected probe))"

definition feedback_select :: "memory_scope \<Rightarrow> pystr \<Rightarrow> source_event_receipt \<Rightarrow> select_request" where
  "feedback_select scope ident situation =
     \<lparr>sq_scope = scope, sq_run_ref = ident @ lit '':run'', sq_situation_refs = [sr_source_event_ref situation],
      sq_constitution = None, sq_evidence_max_bytes = 0\<rparr>"

definition lifecycle_render :: "'w lifecycle_env \<Rightarrow> memory_context \<Rightarrow> rendered_context result" where
  "lifecycle_render env selected =
     render_memory_context selected (Some (Val (le_memory_tokens env))) (Some (Val (le_token_count env)))"

definition probe_memory :: "'w lifecycle_env \<Rightarrow> memory_scope \<Rightarrow> pystr \<Rightarrow> ('w, feedback_probe) lifecycle_session" where
  "probe_memory env scope ident =
     bind_call (observing (le_memory env) (lifecycle_observation scope ident (situation_of QUERY))) (\<lambda>situation.
     bind_call (selecting (le_memory env) (feedback_select scope ident situation)) (\<lambda>selected.
     bind_call (pure_call (lifecycle_render env selected)) (\<lambda>rendered.
     let probe = \<lparr>fp_scope = scope, fp_identity = ident, fp_situation = situation, fp_selected = selected, fp_rendered = rendered\<rparr> in
     bind_call (pure_call (raise_if (rendered_dispositions probe = []) (RuntimeError (lit ''relevant probe rendered no Disposition'')))) (\<lambda>_.
     pure_call (Inr probe)))))"

definition feedback_delivery :: "memory_scope \<Rightarrow> pystr \<Rightarrow> memory_context \<Rightarrow> pystr list \<Rightarrow> delivery_receipt" where
  "feedback_delivery scope ident selected memory_refs =
     \<lparr>dr_idempotency_key = ident @ lit '':delivery'', dr_scope = scope, dr_run_ref = ident @ lit '':run'',
      dr_context_ref = mc_context_ref selected, dr_delivered_refs = memory_refs\<rparr>"

definition deliver_probe :: "'w lifecycle_env \<Rightarrow> lifecycle_case \<Rightarrow> feedback_probe \<Rightarrow> ('w, pystr) lifecycle_session" where
  "deliver_probe env c probe =
     (if lc_record_delivery c
      then bind_call (delivering (le_memory env)
          (feedback_delivery (fp_scope probe) (fp_identity probe) (fp_selected probe) (rendered_refs (fp_rendered probe)))) (\<lambda>delivery.
        pure_call (Inr (ra_receipt_ref delivery)))
      else pure_call (Inr []))"

definition lifecycle_completion :: "'w lifecycle_env \<Rightarrow> pystr \<Rightarrow> pystr \<Rightarrow> completion" where
  "lifecycle_completion env query injected =
     (if injected = [] then MODEL_INSTRUCTIONS else MODEL_INSTRUCTIONS @ [10, 10] @ lit ''LONG_TERM_MEMORY'' @ [10] @ injected,
      choice_input query, le_max_output_tokens env)"

record agent_choice =
  ac_option :: pystr
  ac_text :: pystr
  ac_receipt :: source_event_receipt

definition choose_act :: "'w lifecycle_env \<Rightarrow> feedback_probe \<Rightarrow> ('w, agent_choice) lifecycle_session" where
  "choose_act env probe =
     bind_call (running (le_model env) (lifecycle_completion env QUERY (rendered_text (fp_rendered probe)))) (\<lambda>output.
     bind_call (pure_call (case map_of ACTION_OPTIONS (extract_option_token output) of
         None \<Rightarrow> Inl (RuntimeError (lit ''lifecycle model did not return a valid option token'')) | Some text \<Rightarrow> Inr text)) (\<lambda>text.
     bind_call (observing (le_memory env) (lifecycle_observation (fp_scope probe) (fp_identity probe) (agent_act_of text))) (\<lambda>agent_act.
     pure_call (Inr \<lparr>ac_option = extract_option_token output, ac_text = text, ac_receipt = agent_act\<rparr>))))"

definition feedback_outcome :: "feedback_probe \<Rightarrow> pystr \<Rightarrow> agent_choice \<Rightarrow> pystr \<Rightarrow> outcome_request" where
  "feedback_outcome probe delivery_ref choice text =
     \<lparr>or_idempotency_key = fp_identity probe @ lit '':outcome-report'', or_scope = fp_scope probe,
      or_run_ref = fp_identity probe @ lit '':run'', or_source_group_ref = fp_identity probe @ lit '':source-group'', or_text = text,
      or_delivery_refs = (if delivery_ref = [] then [] else [delivery_ref]),
      or_related_refs = [sr_source_event_ref (fp_situation probe), sr_source_event_ref (ac_receipt choice)],
      or_source_ref = fp_identity probe @ lit '':outcome'', or_actor_kind = SOURCE_ACTOR_KIND_USER,
      or_actor_ref = lit ''seed-lifecycle-user'', or_constitution = None\<rparr>"

definition report_feedback ::
  "'w lifecycle_env \<Rightarrow> lifecycle_case \<Rightarrow> feedback_probe \<Rightarrow> pystr \<Rightarrow> agent_choice \<Rightarrow> ('w, pystr) lifecycle_session" where
  "report_feedback env c probe delivery_ref choice =
     (case lc_outcome_text c of None \<Rightarrow> pure_call (Inr [])
      | Some text \<Rightarrow> bind_call (reporting (le_memory env) (feedback_outcome probe delivery_ref choice text)) (\<lambda>outcome.
          pure_call (Inr (oc_outcome_event_ref outcome))))"

text \<open>The turn up to the outcome: the probe, the delivery, the choice and the reported outcome.\<close>

definition feedback_turn ::
  "'w lifecycle_env \<Rightarrow> lifecycle_case \<Rightarrow> memory_scope \<Rightarrow> pystr \<Rightarrow>
    ('w, feedback_probe \<times> pystr \<times> agent_choice \<times> pystr) lifecycle_session" where
  "feedback_turn env c scope ident =
     bind_call (probe_memory env scope ident) (\<lambda>probe.
     bind_call (deliver_probe env c probe) (\<lambda>delivery_ref.
     bind_call (choose_act env probe) (\<lambda>choice.
     bind_call (report_feedback env c probe delivery_ref choice) (\<lambda>outcome_ref.
     pure_call (Inr (probe, delivery_ref, choice, outcome_ref))))))"

section \<open>The delayed probe and the result\<close>

definition delayed_observation :: "memory_scope \<Rightarrow> pystr \<Rightarrow> observe_request" where
  "delayed_observation scope ident =
     \<lparr>ob_idempotency_key = ident @ lit '':situation'',
      ob_source_event = \<lparr>sv_scope = scope, sv_text = DELAYED_QUERY, sv_source_ref = ident @ lit '':situation'',
        sv_actor_kind = SOURCE_ACTOR_KIND_USER, sv_actor_ref = lit ''seed-lifecycle-user'', sv_constitution = None\<rparr>,
      ob_episode_binding = None\<rparr>"

definition delayed_probe :: "'w lifecycle_env \<Rightarrow> memory_scope \<Rightarrow> pystr \<Rightarrow> ('w, pystr list \<times> pystr) lifecycle_session" where
  "delayed_probe env scope ident =
     bind_call (observing (le_memory env) (delayed_observation scope ident)) (\<lambda>situation.
     bind_call (selecting (le_memory env) (feedback_select scope ident situation)) (\<lambda>delayed.
     bind_call (pure_call (lifecycle_render env delayed)) (\<lambda>rendered.
     bind_call (running (le_model env) (lifecycle_completion env DELAYED_QUERY (rendered_text rendered))) (\<lambda>output.
     pure_call (Inr (filter (\<lambda>ref. ref \<in> set (rendered_refs rendered)) (text_dispositions delayed), extract_option_token output))))))"

definition of_lineages :: "pystr set \<Rightarrow> pystr list \<Rightarrow> pystr list" where
  "of_lineages target_lineages refs = filter (\<lambda>ref. seed_lineage ref \<in> target_lineages) refs"

abbreviation "refs_value refs \<equiv> PList (map PStr refs)"

definition feedback_result ::
  "lifecycle_case \<Rightarrow> (pystr \<times> pystr) list \<Rightarrow> feedback_probe \<Rightarrow> pystr \<Rightarrow> agent_choice \<Rightarrow> pystr \<Rightarrow> bool \<Rightarrow> bool \<Rightarrow>
    pystr list \<Rightarrow> pystr \<Rightarrow> pydict \<Rightarrow> pydict \<Rightarrow> pydict" where
  "feedback_result c formed probe delivery_ref choice outcome_ref reenacted revised delayed delayed_option before after =
     (let rendered = rendered_dispositions probe; target_lineages = seed_lineage ` set rendered in
      [(lit ''protocol'', PStr (lit ''seed-companion-lifecycle-v1'')),
       (lit ''kind'', PStr (kind_value (lc_kind c))),
       (lit ''formed'', PBool (formed \<noteq> [])),
       (lit ''formed_seed_refs'', refs_value (sort (map fst formed))),
       (lit ''selected_disposition_refs'', refs_value (text_dispositions (fp_selected probe))),
       (lit ''rendered'', PBool (rendered \<noteq> [])),
       (lit ''rendered_disposition_refs'', refs_value rendered),
       (lit ''delivered_memory_refs'', refs_value (if delivery_ref = [] then [] else rendered_refs (fp_rendered probe))),
       (lit ''delivery_receipt_ref'', PStr delivery_ref),
       (lit ''agent_act_option'', PStr (ac_option choice)),
       (lit ''agent_act_text'', PStr (ac_text choice)),
       (lit ''agent_act_source_ref'', PStr (sr_source_event_ref (ac_receipt choice))),
       (lit ''agent_act_expressed_tendency'', PBool (ac_option choice = lit ''A'')),
       (lit ''outcome_event_ref'', PStr outcome_ref),
       (lit ''reenacted'', PBool reenacted),
       (lit ''revision_or_inhibition'', PBool revised),
       (lit ''future_selection_changed'', PBool (of_lineages target_lineages rendered \<noteq> of_lineages target_lineages delayed)),
       (lit ''delayed_disposition_refs'', refs_value delayed),
       (lit ''delayed_option'', PStr delayed_option),
       (lit ''before'', PDict before),
       (lit ''after'', PDict after)])"

definition run_feedback_case ::
  "'w lifecycle_env \<Rightarrow> lifecycle_case \<Rightarrow> pystr \<Rightarrow> pystr \<Rightarrow> pydict \<Rightarrow> nat \<Rightarrow> ('w, pydict) lifecycle_session" where
  "run_feedback_case env c evaluation lane before expected_episodes =
     bind_call (pure_call (active_dispositions before)) (\<lambda>formed.
     bind_call (pure_call (raise_if (formed = []) (RuntimeError (lit ''feedback chain requires an active Disposition'')))) (\<lambda>_.
     let feedback = kind_value (lc_kind c) @ lit ''-feedback''; delay = kind_value (lc_kind c) @ lit ''-delayed'' in
     bind_call (pure_call (lifecycle_scope evaluation lane feedback)) (\<lambda>scope.
     bind_call (feedback_turn env c scope (lifecycle_identity evaluation lane feedback)) (\<lambda>(probe, delivery_ref, choice, outcome_ref).
     let target_lineages = seed_lineage ` set (rendered_dispositions probe) in
     bind_call (settling env scope expected_episodes) (\<lambda>after.
     bind_call (pure_call (basis_delta before after {lit ''reenactment''} (Some target_lineages))) (\<lambda>reenacted.
     bind_call (pure_call (basis_delta before after {lit ''revision'', lit ''inhibition''} (Some target_lineages))) (\<lambda>revised.
     bind_call (pure_call (lifecycle_scope evaluation lane delay)) (\<lambda>delayed_scope.
     bind_call (delayed_probe env delayed_scope (lifecycle_identity evaluation lane delay)) (\<lambda>(delayed, delayed_option).
     pure_call (Inr (feedback_result c formed probe delivery_ref choice outcome_ref (reenacted \<noteq> {}) (revised \<noteq> {})
       delayed delayed_option before after)))))))))))"

section \<open>One isolated case\<close>

text \<open>The checks of the arguments, with the values at the types they establish.\<close>

definition validate_run_inputs ::
  "pyval \<Rightarrow> lifecycle_case dyn \<Rightarrow> pyval \<Rightarrow> pyval \<Rightarrow> (pystr \<times> lifecycle_case \<times> int \<times> int) result" where
  "validate_run_inputs evaluation c memory_tokens max_output_tokens =
     bindr (nonblank evaluation (lit ''evaluation_ref'')) (\<lambda>evaluation.
     case c of OtherType \<Rightarrow> Inl (TypeError (lit ''case must be LifecycleCase''))
     | Val c \<Rightarrow> (case memory_tokens of
         PInt m \<Rightarrow> if m < 0 then Inl (ValueError (lit ''memory_tokens must be nonnegative''))
           else (case max_output_tokens of
             PInt n \<Rightarrow> if n \<le> 0 then Inl (ValueError (lit ''max_output_tokens must be positive'')) else Inr (evaluation, c, m, n)
           | _ \<Rightarrow> Inl (ValueError (lit ''max_output_tokens must be positive'')))
       | _ \<Rightarrow> Inl (ValueError (lit ''memory_tokens must be nonnegative''))))"

definition run_lifecycle_case ::
  "'w lifecycle_env \<Rightarrow> lifecycle_case dyn \<Rightarrow> pyval \<Rightarrow> pyval \<Rightarrow> pyval \<Rightarrow> ('w, pydict) lifecycle_session" where
  "run_lifecycle_case env c evaluation memory_tokens max_output_tokens =
     bind_call (pure_call (validate_run_inputs evaluation c memory_tokens max_output_tokens)) (\<lambda>(evaluation, c, m, n).
     let env = env\<lparr>le_memory_tokens := m, le_max_output_tokens := n\<rparr>; lane = kind_value (lc_kind c) in
     bind_call (form_lifecycle_seed env evaluation lane 0) (\<lambda>(before, formed_episodes).
     run_feedback_case env c evaluation lane before (formed_episodes + 1)))"

section \<open>The summary\<close>

definition collect_kind :: "pydict \<Rightarrow> (pystr \<times> pydict) list \<Rightarrow> (pystr \<times> pydict) list result" where
  "collect_kind result by_kind =
     bindr (nonblank (get result (lit ''kind'')) (lit ''kind'')) (\<lambda>kind.
     if kind \<notin> range kind_value \<or> kind \<in> fst ` set by_kind
     then Inl (ValueError (lit ''lifecycle results must contain unique known cases''))
     else Inr (by_kind @ [(kind, result)]))"

definition unproved_fields :: "pystr \<times> pydict \<Rightarrow> pystr list" where
  "unproved_fields entry =
     map (\<lambda>field. fst entry @ lit '' did not prove '' @ field)
       (filter (\<lambda>field. get (snd entry) field \<noteq> PBool True)
         [lit ''formed'', lit ''rendered'', lit ''agent_act_expressed_tendency''])"

text \<open>A reason when the case was run and \<open>bad\<close> holds of its result.\<close>

definition case_reason :: "(pystr \<times> pydict) list \<Rightarrow> lifecycle_kind \<Rightarrow> (pydict \<Rightarrow> bool) \<Rightarrow> pystr \<Rightarrow> pystr list" where
  "case_reason by_kind kind bad reason =
     (case map_of by_kind (kind_value kind) of None \<Rightarrow> [] | Some result \<Rightarrow> if bad result then [reason] else [])"

definition lifecycle_reasons :: "(pystr \<times> pydict) list \<Rightarrow> pystr list" where
  "lifecycle_reasons by_kind =
     (if fst ` set by_kind \<noteq> range kind_value then [lit ''all four lifecycle cases are required''] else []) @
     concat (map unproved_fields by_kind) @
     case_reason by_kind POSITIVE_COMPLETE (\<lambda>r. get r (lit ''reenacted'') \<noteq> PBool True)
       (lit ''positive complete chain did not reenact'') @
     case_reason by_kind NO_DELIVERY
       (\<lambda>r. get r (lit ''reenacted'') \<noteq> PBool False \<or> get r (lit ''revision_or_inhibition'') \<noteq> PBool False)
       (lit ''undelivered control changed the Seed'') @
     case_reason by_kind NO_OUTCOME (\<lambda>r. get r (lit ''revision_or_inhibition'') \<noteq> PBool False)
       (lit ''outcome-less control revised or inhibited the Seed'') @
     case_reason by_kind NEGATIVE_COMPLETE
       (\<lambda>r. get r (lit ''revision_or_inhibition'') \<noteq> PBool True \<or> get r (lit ''future_selection_changed'') \<noteq> PBool True)
       (lit ''negative complete chain did not change future selection'')"

definition summarize_lifecycle :: "pydict list \<Rightarrow> pydict result" where
  "summarize_lifecycle results =
     bindr (foldr_r collect_kind results []) (\<lambda>by_kind.
     let reasons = lifecycle_reasons by_kind in
     Inr [(lit ''protocol'', PStr (lit ''seed-companion-lifecycle-v1'')),
          (lit ''cases'', refs_value (map fst by_kind)),
          (lit ''decision'', PDict [(lit ''passed'', PBool (reasons = [])), (lit ''reasons'', refs_value reasons)])])"

section \<open>The suite\<close>

text \<open>The output directory: what each file holds, \<open>OtherType\<close> for a file that is not JSON.\<close>

type_synonym files = "pystr \<Rightarrow> pyval dyn option"

definition read_files :: "(('w \<times> files) \<times> 'e list, files) io" where
  "read_files st = (Inr (snd (fst st)), st)"

text \<open>A file is written beside its place, as \<open>.part\<close>, and then moved over it. Writing opens the file before the text is
  encoded, so a text that cannot be encoded leaves an empty \<open>.part\<close> file.\<close>

definition scratch_file :: "pystr \<Rightarrow> pystr" where
  "scratch_file name = name @ lit ''.part''"

definition freeze_json :: "pystr \<Rightarrow> pydict \<Rightarrow> (('w \<times> files) \<times> 'e list, unit) io" where
  "freeze_json name entry =
     (if encodable (PDict entry)
      then assign (\<lambda>files. files(scratch_file name := None, name \<mapsto> Val (sort_keys (PDict entry))))
      else bind_call (assign (\<lambda>files. files(scratch_file name \<mapsto> OtherType))) (\<lambda>_. pure_call (Inl UnicodeEncodeError)))"

definition frozen_summary :: "pyval dyn \<Rightarrow> pydict result" where
  "frozen_summary content = (case content of
       OtherType \<Rightarrow> Inl (OtherError (lit ''JSONDecodeError'') (lit ''summary.json''))
     | Val (PDict summary) \<Rightarrow>
         if get summary (lit ''protocol'') \<noteq> PStr (lit ''seed-companion-lifecycle-v1'')
         then Inl (ValueError (lit ''existing lifecycle summary is not a passing frozen run''))
         else (case get_or summary (lit ''decision'') (PDict []) of
             PDict decision \<Rightarrow>
               if get decision (lit ''passed'') \<noteq> PBool True
               then Inl (ValueError (lit ''existing lifecycle summary is not a passing frozen run'')) else Inr summary
           | _ \<Rightarrow> Inl (OtherError (lit ''AttributeError'') (lit ''get'')))
     | Val _ \<Rightarrow> Inl (OtherError (lit ''AttributeError'') (lit ''get'')))"

definition ordered_cases :: "lifecycle_case list" where
  "ordered_cases = map (\<lambda>kind. the (map_of (map (\<lambda>c. (lc_kind c, c)) lifecycle_cases) kind))
     [NO_DELIVERY, POSITIVE_COMPLETE, NO_OUTCOME, NEGATIVE_COMPLETE]"

definition env_with_files :: "'w lifecycle_env \<Rightarrow> ('w \<times> files) lifecycle_env" where
  "env_with_files env =
     \<lparr>le_memory = with_locals (le_memory env), le_settle = (\<lambda>scope n. on_world (le_settle env scope n)),
      le_model = (\<lambda>c. on_world (le_model env c)), le_token_count = le_token_count env,
      le_memory_tokens = le_memory_tokens env, le_max_output_tokens = le_max_output_tokens env\<rparr>"

definition case_file :: "lifecycle_case \<Rightarrow> pystr" where
  "case_file c = kind_value (lc_kind c) @ lit ''.json''"

definition result_after :: "pydict \<Rightarrow> pydict" where
  "result_after result = (case get result (lit ''after'') of PDict after \<Rightarrow> after | _ \<Rightarrow> [])"

text \<open>The loop over the cases; \<open>episodes\<close> is the number the next case expects.\<close>

fun suite_cases ::
  "('w \<times> files) lifecycle_env \<Rightarrow> pystr \<Rightarrow> pydict \<Rightarrow> nat \<Rightarrow> lifecycle_case list \<Rightarrow> ('w \<times> files, pydict list) lifecycle_session" where
  "suite_cases env evaluation before episodes [] = pure_call (Inr [])"
| "suite_cases env evaluation before episodes (c # cases) =
     bind_call read_files (\<lambda>files.
     bind_call (pure_call (raise_if (files (case_file c) \<noteq> None)
       (ValueError (lit ''partial lifecycle output cannot be resumed; use a fresh evaluation_ref'')))) (\<lambda>_.
     bind_call (run_feedback_case env c evaluation (lit ''shared-seed'') before episodes) (\<lambda>result.
     bind_call (freeze_json (case_file c) result) (\<lambda>_.
     bind_call (suite_cases env evaluation (result_after result) (episodes + 1) cases) (\<lambda>results.
     pure_call (Inr (result # results)))))))"

definition run_lifecycle_suite ::
  "'w lifecycle_env \<Rightarrow> pyval \<Rightarrow> pyval \<Rightarrow> pyval \<Rightarrow> ('w \<times> files, pydict) lifecycle_session" where
  "run_lifecycle_suite env evaluation memory_tokens max_output_tokens =
     bind_call read_files (\<lambda>files. case files (lit ''summary.json'') of
       Some content \<Rightarrow> pure_call (frozen_summary content)
     | None \<Rightarrow>
         bind_call (pure_call (validate_run_inputs evaluation (Val (hd ordered_cases)) memory_tokens max_output_tokens)) (\<lambda>(evaluation, _, m, n).
         let env = env_with_files (env\<lparr>le_memory_tokens := m, le_max_output_tokens := n\<rparr>) in
         bind_call (form_lifecycle_seed env evaluation (lit ''shared-seed'') 0) (\<lambda>(before, formed_episodes).
         bind_call (suite_cases env evaluation before (formed_episodes + 1) ordered_cases) (\<lambda>results.
         bind_call (pure_call (summarize_lifecycle results)) (\<lambda>summary.
         bind_call (freeze_json (lit ''summary.json'') summary) (\<lambda>_.
         pure_call (Inr summary)))))))"

end
