(* ===== verification/Eval_Harness.thy ===== *)
theory Eval_Harness
  imports Eval_Reference "HOL-Library.Multiset"
begin

text \<open>
  Properties of the reference harness: its query turn follows the causal lifecycle, the requests of a
  run have distinct idempotency keys, a baseline mode never touches the memory, and the retrieval
  baseline selects the best turns.
\<close>

section \<open>The query turn follows the lifecycle\<close>

definition harness_spec :: "harness_profile \<Rightarrow> eval_mode \<Rightarrow> scenario \<Rightarrow> (completion, pystr dyn) turn_spec" where
  "harness_spec profile mode scenario =
     \<lparr>ts_situation = observe_situation profile mode scenario (lit ''query'') (sc_query scenario),
      ts_select = query_select_request profile mode scenario,
      ts_render = render_core_context mode,
      ts_deliver = query_delivery profile mode scenario,
      ts_input = harness_completion profile scenario,
      ts_act = (\<lambda>out. observe_agent_act profile mode scenario (lit ''query'') (case out of Val t \<Rightarrow> t | OtherType \<Rightarrow> []))\<rparr>"

lemma harness_spec_simps [simp]:
  "ts_situation (harness_spec p m s) = observe_situation p m s (lit ''query'') (sc_query s)"
  "ts_select (harness_spec p m s) = query_select_request p m s"
  "ts_render (harness_spec p m s) = render_core_context m"
  "ts_deliver (harness_spec p m s) = query_delivery p m s"
  "ts_input (harness_spec p m s) = harness_completion p s"
  "ts_act (harness_spec p m s) out = observe_agent_act p m s (lit ''query'') (case out of Val t \<Rightarrow> t | OtherType \<Rightarrow> [])"
  by (simp_all add: harness_spec_def)

lemma traces_bind_assign: "traces (f ()) R \<Longrightarrow> traces (bind_call (assign g) f) R"
  by (simp add: traces_def bind_call_def assign_def)

abbreviation "no_run \<equiv> \<lambda>ev. \<not> is_run ev"

lemma traces_no_run:
  "traces (observing memory q) (\<lambda>es r. list_all no_run es)" "traces (reporting memory q') (\<lambda>es r. list_all no_run es)"
  by (auto simp: call_defs intro: traces_logged)

lemma replay_no_run: "traces (replay_history memory profile mode scenario) (\<lambda>es r. list_all no_run es)"
proof -
  have turn: "traces (replay_turn memory profile mode scenario entry) (\<lambda>es r. list_all no_run es)" for entry
    unfolding replay_turn_def Let_def
    by (intro traces_all_bind traces_no_run traces_option traces_pure) simp_all
  have "traces (for_each (replay_turn memory profile mode scenario) xs) (\<lambda>es r. list_all no_run es)" for xs
    by (induction xs) (auto intro: traces_pure traces_all_bind turn)
  then show ?thesis by (simp add: replay_history_def)
qed

lemma finish_query_follows:
  assumes spec: "spec = harness_spec (ha_profile self) mode scenario"
    and "\<And>e. turn_step spec p (Run (harness_completion (ha_profile self) scenario injected) (Inl e)) Stopped"
    and "\<And>out. turn_step spec p (Run (harness_completion (ha_profile self) scenario injected) (Inr out)) (Ran out)"
  shows "traces (finish_query memory self mode scenario rc ack injected) (continues no_run spec p)"
proof -
  have "traces (case sc_query_outcome scenario of None \<Rightarrow> pure_call (Inr ())
      | Some text \<Rightarrow> bind_call (reporting memory (q text)) (\<lambda>_. pure_call (Inr ()))) (continues no_run spec Acted)" for q
    by (intro traces_option traces_pure continues_Nil traces_conseq [OF traces_all_bind [OF traces_no_run(2)] continues_tail])
      (auto intro: traces_pure)
  note tail = this
  show ?thesis
    unfolding finish_query_def complete_query_def Let_def bind_call_assoc running_def observing_def
  proof (rule traces_step [where q = Ran, OF assms(2,3)], rule traces_check, rule traces_bind_assign)
    fix out t
    assume "(case out of Val t \<Rightarrow> if strip t = [] then Inl (OtherError (lit ''EmptyModelOutput'') (lit ''text model returned empty output'')) else Inr t
       | OtherType \<Rightarrow> Inl (OtherError (lit ''EmptyModelOutput'') (lit ''text model returned empty output''))) = Inr t"
    then have out: "out = Val t" by (auto split: dyn.splits if_splits)
    show "traces (bind_call (pure_call (Inr t)) (\<lambda>output.
        bind_call (logged (Observe (observe_agent_act (ha_profile self) mode scenario (lit ''query'') output))
            (observe_source_event memory (observe_agent_act (ha_profile self) mode scenario (lit ''query'') output))) (\<lambda>agent_act_receipt.
        case sc_query_outcome scenario of None \<Rightarrow> pure_call (Inr ())
        | Some text \<Rightarrow> bind_call (reporting memory (harness_outcome_request (ha_profile self) mode scenario (lit ''query'') text
              (case ack of None \<Rightarrow> [] | Some ack \<Rightarrow> [ra_receipt_ref ack])
              [sr_source_event_ref rc, sr_source_event_ref agent_act_receipt])) (\<lambda>_. pure_call (Inr ()))))) (continues no_run spec (Ran out))"
      by (rule traces_check, rule traces_step [where q = "\<lambda>_. Acted"]) (auto simp: turn_step_from_simps spec out intro!: tail [unfolded spec])
  qed
qed

lemma query_follows:
  "traces (run_query memory self mode scenario) (continues no_run (harness_spec (ha_profile self) mode scenario) Start)"
  unfolding run_query_def observing_def selecting_def Let_def
proof (intro traces_check traces_bind_assign traces_step [where q = Situated] traces_step [where q = Selected])
  fix rc ctx rendered
  assume r: "render_core_context mode ctx = Inr rendered"
  let ?spec = "harness_spec (ha_profile self) mode scenario"
  show "traces (bind_call (deliver_query memory (ha_profile self) mode scenario ctx rendered) (\<lambda>ack.
      finish_query memory self mode scenario rc ack (rendered_text rendered))) (continues no_run ?spec (Selected ctx))"
  proof (cases "rendered_text rendered = []")
    case True
    then show ?thesis
      unfolding deliver_query_def
      by (auto intro!: traces_check finish_query_follows [OF refl] simp: turn_step_from_simps r)
  next
    case False
    then have "traces (bind_call (delivering memory (query_delivery (ha_profile self) mode scenario ctx (rendered_refs rendered))) (\<lambda>ack.
        bind_call (pure_call (Inr (Some ack))) (\<lambda>ack. finish_query memory self mode scenario rc ack (rendered_text rendered))))
        (continues no_run ?spec (Selected ctx))"
      unfolding delivering_def
      by (intro traces_step [where q = "\<lambda>_. Ready (rendered_text rendered)"] traces_check)
        (auto intro!: finish_query_follows [OF refl] simp: turn_step_from_simps r)
    with False show ?thesis by (simp add: deliver_query_def bind_call_assoc)
  qed
qed (auto simp: turn_step_from_simps)

text \<open>Run-free calls before a computation that continues the lifecycle.\<close>

lemma traces_after_no_run:
  fixes m :: "('w, 'm, 'o, 'a) session"
  assumes "traces m (\<lambda>es r. list_all no_run es)" and "\<And>x. traces (f x) (continues no_run spec Start)"
  shows "traces (bind_call m f) (\<lambda>es r. \<exists>pre rest. es = pre @ rest \<and> list_all no_run pre \<and>
    (rest = [] \<and> (\<exists>e. r = Inl e) \<or> continues no_run spec Start rest r))"
proof (rule traces_bind [OF assms(1)])
  fix es :: "('m, 'o) event list" and x assume es: "list_all no_run es"
  show "traces (f x) (\<lambda>fs r. \<exists>pre rest. es @ fs = pre @ rest \<and> list_all no_run pre \<and>
      (rest = [] \<and> (\<exists>e. r = Inl e) \<or> continues no_run spec Start rest r))"
    by (rule traces_conseq [OF assms(2)]) (use es in blast)
qed auto

interpretation harness_turn: causal_turn "run_core client self mode scenario" "harness_spec (ha_profile self) mode scenario"
  for client self mode scenario
proof (rule causal_turnI)
  have eq: "run_core client self mode scenario =
      bind_call (bind_call (replay_history (with_locals client) (ha_profile self) mode scenario) (\<lambda>_.
        logged (\<lambda>_. Settle) (on_world (ha_settle self)))) (\<lambda>_. run_query (with_locals client) self mode scenario)"
    by (simp add: run_core_def bind_call_assoc Let_def)
  have before: "traces (bind_call (replay_history (with_locals client) (ha_profile self) mode scenario) (\<lambda>_.
        logged (\<lambda>_. Settle) (on_world (ha_settle self)))) (\<lambda>es r. list_all no_run es)"
    by (intro traces_all_bind replay_no_run traces_logged) simp
  show "traces (run_core client self mode scenario) (\<lambda>es r. \<exists>pre rest. es = pre @ rest \<and> list_all no_run pre \<and>
      (rest = [] \<and> (\<exists>e. r = Inl e) \<or> continues no_run (harness_spec (ha_profile self) mode scenario) Start rest r))"
    unfolding eq by (rule traces_after_no_run [OF before query_follows])
qed

lemma core_memory_after_delivery:
  assumes "run_core client self mode scenario (w, sofar) = (r, w', sofar @ es)"
    and "Run (harness_completion (ha_profile self) scenario m) res \<in> set es" and "m \<noteq> []"
  shows "\<exists>before ctx rendered ack after. es = before @ after \<and>
    Run (harness_completion (ha_profile self) scenario m) res \<in> set after \<and>
    Deliver (query_delivery (ha_profile self) mode scenario ctx (rendered_refs rendered)) (Inr ack) \<in> set before \<and>
    render_core_context mode ctx = Inr rendered \<and> rendered_text rendered = m"
proof -
  let ?p = "ha_profile self"
  have inj: "harness_completion ?p scenario m = harness_completion ?p scenario m' \<longleftrightarrow> m' = m" for m'
    using assms(3) by (auto simp: harness_completion_def)
  from harness_turn.memory_after_delivery [OF assms(1) refl assms(2)] obtain before mid after
    where es: "es = before @ mid @ Run (harness_completion ?p scenario m) res # after"
      and d: "delivered_before (harness_spec ?p mode scenario) mid (harness_completion ?p scenario m)" by blast
  from d obtain ctx rendered ack where "render_core_context mode ctx = Inr rendered" "rendered_text rendered = m"
    "Deliver (query_delivery ?p mode scenario ctx (rendered_refs rendered)) (Inr ack) \<in> set mid"
    using assms(3) by (auto simp: delivered_before_def inj)
  moreover have "es = (before @ mid) @ Run (harness_completion ?p scenario m) res # after" using es by simp
  ultimately show ?thesis by (metis UnCI list.set_intros(1) set_append)
qed

text \<open>The modes without the Core make one call at most, to the model; the retrieval mode gives it the excerpts it found in
  the history.\<close>

lemma run_baseline_traces:
  "traces (run_baseline casefold isalnum self mode scenario) (\<lambda>es r. es = [] \<or>
     (\<exists>injected res. es = [Run (harness_completion (ha_profile self) scenario injected) res] \<and>
        (if mode = EPISODE_RAG
         then render_episode_rag casefold isalnum (sc_history scenario) (sc_query scenario) (episode_rag_top_k (ha_profile self)) 3 = Inr injected
         else injected = [])))"
  unfolding run_baseline_def complete_query_def running_def bind_call_assoc
  by (intro traces_bind_pure traces_bind_assign traces_bind_logged)
    (auto intro!: traces_bind_pure traces_bind_assign traces_pure split: if_splits)

lemma baseline_without_memory:
  "traces (run_baseline casefold isalnum self mode scenario) (\<lambda>es r. list_all is_run es \<and> length es \<le> 1)"
  by (rule traces_conseq [OF run_baseline_traces]) auto

text \<open>
  C21: no undisclosed memory in the evaluation. Whatever the mode of the harness, a completion with a memory text is
  asked for in one of two ways. In the two modes that use the Core, a Delivery receipt with exactly the refs rendered
  into that text was acknowledged before. In the retrieval mode, which has no memory service, the text is the excerpts
  that the baseline finds in the scenario's own history, and the completion is the only call of the run.
\<close>

theorem harness_memory_after_delivery:
  assumes "run_body casefold isalnum self mode scenario (w, sofar) = (r, w', sofar @ es)"
    and "Run (harness_completion (ha_profile self) scenario m) res \<in> set es" and "m \<noteq> []"
  shows "mode \<in> {RECOLLECTION_ONLY, FULL_CORE} \<and>
      (\<exists>before ctx rendered ack after. es = before @ after \<and>
        Run (harness_completion (ha_profile self) scenario m) res \<in> set after \<and>
        Deliver (query_delivery (ha_profile self) mode scenario ctx (rendered_refs rendered)) (Inr ack) \<in> set before \<and>
        render_core_context mode ctx = Inr rendered \<and> rendered_text rendered = m) \<or>
    mode = EPISODE_RAG \<and> es = [Run (harness_completion (ha_profile self) scenario m) res] \<and>
      render_episode_rag casefold isalnum (sc_history scenario) (sc_query scenario) (episode_rag_top_k (ha_profile self)) 3 = Inr m"
proof (cases "mode \<in> {RECOLLECTION_ONLY, FULL_CORE}")
  case True
  with assms(1,2) obtain client where "ha_memory self = Some client"
    by (auto simp: run_body_def pure_call_def split: option.splits)
  with True assms(1) have "run_core client self mode scenario (w, sofar) = (r, w', sofar @ es)" by (simp add: run_body_def)
  from core_memory_after_delivery [OF this assms(2,3)] True show ?thesis by blast
next
  case False
  with assms(1) have "run_baseline casefold isalnum self mode scenario (w, sofar) = (r, w', sofar @ es)" by (simp add: run_body_def)
  from tracesD [OF run_baseline_traces this] assms(2,3) show ?thesis by (auto simp: harness_completion_def split: if_splits)
qed

section \<open>Idempotency keys\<close>

text \<open>The idempotency keys of the requests in a log, in order.\<close>

fun event_key :: "('m, 'o) event \<Rightarrow> pystr option" where
  "event_key (Observe q _) = Some (ob_idempotency_key q)"
| "event_key (Deliver q _) = Some (dr_idempotency_key q)"
| "event_key (Report q _) = Some (or_idempotency_key q)"
| "event_key _ = None"

definition log_keys :: "('m, 'o) event list \<Rightarrow> pystr list" where
  "log_keys es = List.map_filter event_key es"

lemma log_keys_simps [simp]:
  "log_keys [] = []" "log_keys (ev # es) = (case event_key ev of None \<Rightarrow> log_keys es | Some k \<Rightarrow> k # log_keys es)"
  "log_keys (es @ fs) = log_keys es @ log_keys fs"
  by (simp_all add: log_keys_def List.map_filter_def split: option.splits)

text \<open>A turn ref and a kind without a colon in the turn ref determine the identity of a run's request.\<close>

lemma identity_inject:
  assumes "58 \<notin> set t" and "58 \<notin> set t'" and "identity p m s t k = identity p m s t' k'"
  shows "t = t' \<and> k = k'"
proof -
  have eq: "t @ 58 # k = t' @ 58 # k'" using assms(3) by (simp add: identity_def lit_def)
  have "takeWhile (\<lambda>c. c \<noteq> 58) (u @ 58 # v) = u" if "58 \<notin> set u" for u v
    using that by (induction u) auto
  with eq assms(1,2) show ?thesis by (metis append_same_eq same_append_eq list.inject)
qed

text \<open>The keys added by a computation are the identities of distinct pairs of turn ref and kind from \<open>A\<close>.\<close>

definition keyed :: "(pystr \<Rightarrow> pystr \<Rightarrow> pystr) \<Rightarrow> (pystr \<times> pystr) set \<Rightarrow> ('m, 'o) event list \<Rightarrow> bool" where
  "keyed ident A es \<longleftrightarrow> (\<exists>tags. log_keys es = map (\<lambda>(t, k). ident t k) tags \<and> distinct tags \<and> set tags \<subseteq> A)"

lemma keyed_bind:
  fixes m :: "('w, 'm, 'o, 'a) session"
  assumes "traces m (\<lambda>es r. keyed ident A es)" and "\<And>x. traces (f x) (\<lambda>es r. keyed ident B es)" and "A \<inter> B = {}"
    and "A \<union> B \<subseteq> C"
  shows "traces (bind_call m f) (\<lambda>es r. keyed ident C es)"
proof (rule traces_bind [OF assms(1)])
  fix es :: "('m, 'o) event list" assume "keyed ident A es"
  then obtain ts where ts: "log_keys es = map (\<lambda>(t, k). ident t k) ts" "distinct ts" "set ts \<subseteq> A" by (auto simp: keyed_def)
  then show "keyed ident C es" using assms(4) unfolding keyed_def by blast
  show "traces (f x) (\<lambda>fs r. keyed ident C (es @ fs))" for x
  proof (rule traces_conseq [OF assms(2)])
    fix fs :: "('m, 'o) event list" assume "keyed ident B fs"
    then obtain us where "log_keys fs = map (\<lambda>(t, k). ident t k) us" "distinct us" "set us \<subseteq> B" by (auto simp: keyed_def)
    with ts assms(3,4) have "log_keys (es @ fs) = map (\<lambda>(t, k). ident t k) (ts @ us)" "distinct (ts @ us)" "set (ts @ us) \<subseteq> C"
      by (simp, simp, blast, simp, blast)
    then show "keyed ident C (es @ fs)" unfolding keyed_def by blast
  qed
qed

lemmas keyed_then = keyed_bind [OF _ _ _ order_refl]

lemma keyed_Nil: "log_keys es = [] \<Longrightarrow> keyed ident A es"
  by (simp add: keyed_def)

lemma keyed_one: "log_keys es = [ident t k] \<Longrightarrow> (t, k) \<in> A \<Longrightarrow> keyed ident A es"
  by (auto simp: keyed_def intro!: exI [of _ "[(t, k)]"])

lemma keyed_mono: "traces m (\<lambda>es r. keyed ident A es) \<Longrightarrow> A \<subseteq> B \<Longrightarrow> traces m (\<lambda>es r. keyed ident B es)"
  by (erule traces_conseq) (auto simp: keyed_def)

lemma keyed_other_calls:
  "traces (selecting memory v) (\<lambda>es r. keyed ident {} es)" "traces (running model c) (\<lambda>es r. keyed ident {} es)"
  by (auto simp: call_defs intro!: traces_logged keyed_Nil)

lemma keyed_pure: "traces (pure_call r) (\<lambda>es r. keyed ident A es)"
  by (intro traces_pure keyed_Nil) simp

lemma keyed_after_pure: "(\<And>x. traces (f x) (\<lambda>es r. keyed ident A es)) \<Longrightarrow> traces (bind_call (pure_call r) f) (\<lambda>es r. keyed ident A es)"
  by (intro traces_bind_pure keyed_Nil) simp_all

lemma request_keys:
  "ob_idempotency_key (observe_situation p m s t x) = identity p m s t (lit ''observe-situation'')"
  "ob_idempotency_key (observe_agent_act p m s t x) = identity p m s t (lit ''observe-agent-act'')"
  "dr_idempotency_key (query_delivery p m s ctx refs) = identity p m s (lit ''query'') (lit ''delivery'')"
  "or_idempotency_key (harness_outcome_request p m s t x ds rs) = identity p m s t (lit ''report-outcome'')"
  by (simp_all add: observe_situation_def observe_agent_act_def harness_observe_request_def observe_role_name_def
      query_delivery_def harness_outcome_request_def flip: lit_append)

lemma keyed_requests:
  "traces (observing memory (observe_situation p m s t x)) (\<lambda>es r. keyed (identity p m s) {(t, lit ''observe-situation'')} es)"
  "traces (observing memory (observe_agent_act p m s t x)) (\<lambda>es r. keyed (identity p m s) {(t, lit ''observe-agent-act'')} es)"
  "traces (delivering memory (query_delivery p m s ctx refs)) (\<lambda>es r. keyed (identity p m s) {(lit ''query'', lit ''delivery'')} es)"
  "traces (reporting memory (harness_outcome_request p m s t x ds rs)) (\<lambda>es r. keyed (identity p m s) {(t, lit ''report-outcome'')} es)"
  unfolding call_defs by (rule traces_logged, rule keyed_one, simp add: request_keys, simp)+

text \<open>The kinds of requests that carry a key.\<close>

definition request_kinds :: "pystr set" where
  "request_kinds = {lit ''observe-situation'', lit ''observe-agent-act'', lit ''delivery'', lit ''report-outcome''}"

lemma keyed_report:
  "traces (case x of None \<Rightarrow> pure_call (Inr ())
     | Some text \<Rightarrow> bind_call (reporting memory (harness_outcome_request p m s t text ds rs)) (\<lambda>_. pure_call (Inr ())))
     (\<lambda>es r. keyed (identity p m s) {(t, lit ''report-outcome'')} es)"
  by (cases x) (auto intro: keyed_pure keyed_bind [OF keyed_requests(4) keyed_pure [of _ _ "{}"]])

lemma replay_turn_keyed:
  "traces (replay_turn memory p m s entry) (\<lambda>es r. keyed (identity p m s) ({history_ref (fst entry)} \<times> request_kinds) es)"
  unfolding replay_turn_def Let_def
  by (rule keyed_bind [OF keyed_requests(1) keyed_then [OF keyed_requests(2) keyed_report]]) (auto simp: request_kinds_def)

lemma history_ref_inject: "history_ref i = history_ref j \<longleftrightarrow> i = j"
  by (simp add: history_ref_def)

lemma history_ref_plain: "58 \<notin> set (history_ref i)" "history_ref i \<noteq> lit ''query''"
proof -
  show "58 \<notin> set (history_ref i)" using digits_range [of 58 "i + 1"] by (auto simp: history_ref_def lit_def)
  show "history_ref i \<noteq> lit ''query''" by (simp add: history_ref_def lit_def)
qed

lemma replay_keyed:
  "traces (for_each (replay_turn memory p m s) (enumerate n turns)) (\<lambda>es r. keyed (identity p m s) ((history_ref ` {n..}) \<times> request_kinds) es)"
proof (induction turns arbitrary: n)
  case Nil
  then show ?case by (simp add: keyed_pure)
next
  case (Cons turn turns)
  show ?case
    unfolding enumerate_simps for_each.simps
    by (rule keyed_bind [OF replay_turn_keyed Cons.IH]) (auto simp: history_ref_inject)
qed

lemma query_keyed: "traces (run_query memory self m s) (\<lambda>es r. keyed (identity (ha_profile self) m s) ({lit ''query''} \<times> request_kinds) es)"
proof -
  let ?i = "identity (ha_profile self) m s" and ?q = "lit ''query''"
  have deliver: "traces (deliver_query memory (ha_profile self) m s ctx rendered) (\<lambda>es r. keyed ?i {(?q, lit ''delivery'')} es)" for ctx rendered
    unfolding deliver_query_def
    by (intro traces_if keyed_pure keyed_bind [OF keyed_requests(3) keyed_pure [of _ _ "{}"]]) auto
  have complete: "traces (complete_query self s injected) (\<lambda>es r. keyed ?i {} es)" for injected
    unfolding complete_query_def
    by (rule keyed_bind [OF keyed_other_calls(2)]) (auto intro!: keyed_after_pure traces_bind_assign keyed_pure)
  have finish: "traces (finish_query memory self m s rc ack injected)
      (\<lambda>es r. keyed ?i {(?q, lit ''observe-agent-act''), (?q, lit ''report-outcome'')} es)" for rc ack injected
    unfolding finish_query_def Let_def
    by (rule keyed_bind [OF complete keyed_then [OF keyed_requests(2) keyed_report]]) auto
  have rest: "traces (bind_call (deliver_query memory (ha_profile self) m s ctx rendered) (\<lambda>ack.
      finish_query memory self m s rc ack (rendered_text rendered)))
      (\<lambda>es r. keyed ?i {(?q, lit ''delivery''), (?q, lit ''observe-agent-act''), (?q, lit ''report-outcome'')} es)" for ctx rendered rc
    by (rule keyed_bind [OF deliver finish]) auto
  show ?thesis
    unfolding run_query_def Let_def
    by (rule keyed_bind [OF keyed_requests(1) keyed_then [OF keyed_other_calls(1) keyed_after_pure [OF traces_bind_assign [OF rest]]]])
      (auto simp: request_kinds_def)
qed

definition turn_refs :: "pystr set" where
  "turn_refs = insert (lit ''query'') (range history_ref)"

lemma turn_refs_plain: "t \<in> turn_refs \<Longrightarrow> 58 \<notin> set t"
  using history_ref_plain(1) by (auto simp: turn_refs_def lit_def)

lemma request_kinds_plain: "k \<in> request_kinds \<Longrightarrow> 58 \<notin> set k"
  by (auto simp: request_kinds_def lit_def)

lemma run_core_keyed:
  "traces (run_core client self mode scenario)
     (\<lambda>es r. keyed (identity (ha_profile self) mode scenario) (turn_refs \<times> request_kinds) es)"
proof -
  have settle: "traces (logged (\<lambda>_. Settle) op) (\<lambda>es r. keyed ident {} es)" for op ident
    by (intro traces_logged keyed_Nil) simp
  show ?thesis
    unfolding run_core_def replay_history_def Let_def
    by (rule keyed_bind [OF replay_keyed keyed_then [OF settle query_keyed]]) (auto simp: history_ref_plain(2) turn_refs_def)
qed

text \<open>All requests of one run of the harness that change the memory, over the replayed history and the query turn,
  carry different idempotency keys.\<close>

lemma harness_keys_distinct:
  assumes "run_core client self mode scenario (w, sofar) = (r, w', sofar @ es)"
  shows "distinct (log_keys es)"
proof -
  let ?i = "identity (ha_profile self) mode scenario"
  from tracesD [OF run_core_keyed assms] obtain tags where tags: "log_keys es = map (\<lambda>(t, k). ?i t k) tags" "distinct tags"
    "set tags \<subseteq> turn_refs \<times> request_kinds" by (auto simp: keyed_def)
  have "inj_on (\<lambda>(t, k). ?i t k) (set tags)"
  proof (rule inj_onI)
    fix a b assume ab: "a \<in> set tags" "b \<in> set tags" "(case a of (t, k) \<Rightarrow> ?i t k) = (case b of (t, k) \<Rightarrow> ?i t k)"
    have "fst a \<in> turn_refs" "fst b \<in> turn_refs" using ab tags(3) by auto
    then have "fst a = fst b \<and> snd a = snd b"
      by (intro identity_inject [OF turn_refs_plain turn_refs_plain ab(3) [unfolded case_prod_beta]])
    then show "a = b" by (simp add: prod_eq_iff)
  qed
  with tags show ?thesis by (simp add: distinct_map)
qed

section \<open>The retrieval baseline\<close>

definition turn_score ::
  "(nat \<Rightarrow> pystr) \<Rightarrow> (nat \<Rightarrow> bool) \<Rightarrow> historical_turn list \<Rightarrow> pystr set \<Rightarrow> nat \<Rightarrow> nat \<Rightarrow> rat" where
  "turn_score casefold isalnum history query_ngrams ngram_size i =
     similarity query_ngrams (character_ngrams casefold isalnum (turn_document (history ! i)) ngram_size)"

lemma ranked_turns_indices:
  "ranked_turns cf an history q n = map (\<lambda>i. (turn_score cf an history q n i, i, history ! i))
     (filter (\<lambda>i. 0 < turn_score cf an history q n i) [0..<length history])"
proof -
  have "enumerate 0 history = map (\<lambda>i. (i, history ! i)) [0..<length history]"
    by (rule nth_equalityI) (simp_all add: nth_enumerate_eq)
  then show ?thesis by (simp add: ranked_turns_def turn_score_def filter_map comp_def)
qed

lemma similarity_bounds: "finite q \<Longrightarrow> finite d \<Longrightarrow> 0 \<le> similarity q d \<and> similarity q d \<le> 1"
  by (auto simp: similarity_def divide_le_eq card_gt_0_iff intro!: card_mono)

text \<open>
  the retrieval baseline. The turns it shows are the first of all turns that share an n-gram with the
  query, ranked by falling similarity and then by age, and there are as many as \<open>top_k\<close> allows.
\<close>

lemma rag_selects_best:
  "\<exists>rest. (let score = turn_score casefold isalnum history query_ngrams ngram_size;
               selected = map (\<lambda>(_, i, _). i) (selected_turns (ranked_turns casefold isalnum history query_ngrams ngram_size) top_k)
     in sorted (map (\<lambda>i. (- score i, i)) (selected @ rest)) \<and> distinct (selected @ rest) \<and>
        set (selected @ rest) = {i. i < length history \<and> 0 < score i} \<and>
        length selected = min top_k (length (selected @ rest)))"
proof -
  let ?ranked = "ranked_turns casefold isalnum history query_ngrams ngram_size"
    and ?score = "turn_score casefold isalnum history query_ngrams ngram_size" and ?i = "\<lambda>(_ :: rat, i :: nat, _ :: historical_turn). i"
  let ?all = "sort_key (\<lambda>(score, index, _). (- score, index)) ?ranked"
  have scored: "fst x = ?score (fst (snd x))" if "x \<in> set ?all" for x
    using that by (auto simp: ranked_turns_indices)
  have "map (\<lambda>i. (- ?score i, i)) (map ?i ?all) = map (\<lambda>(score, index, _). (- score, index)) ?all"
    by (simp add: case_prod_beta scored)
  then have "sorted (map (\<lambda>i. (- ?score i, i)) (map ?i ?all))" by (simp only: sorted_sort_key)
  moreover have ranked: "map ?i ?ranked = filter (\<lambda>i. 0 < ?score i) [0..<length history]"
    by (simp add: ranked_turns_indices comp_def)
  have "mset (map ?i ?all) = mset (filter (\<lambda>i. 0 < ?score i) [0..<length history])"
    unfolding ranked [symmetric] by simp
  note same = mset_eq_imp_distinct_iff [OF this] mset_eq_setD [OF this]
  have "distinct (map ?i ?all)" "set (map ?i ?all) = {i. i < length history \<and> 0 < ?score i}"
    unfolding same by auto
  moreover have "map ?i ?all = map ?i (selected_turns ?ranked top_k) @ map ?i (drop top_k ?all)"
    unfolding selected_turns_def by (simp flip: map_append)
  ultimately show ?thesis
    by (intro exI [of _ "map ?i (drop top_k ?all)"]) (simp add: Let_def selected_turns_def min_def)
qed

section \<open>An example run\<close>

definition example_profile :: harness_profile where
  "example_profile = \<lparr>evaluation_ref = lit ''v'', hp_harness = lit ''h'', harness_version = lit ''1'', hp_model = lit ''m'',
     profile_version = lit ''1'', prompt_version = lit ''1'', scenario_set = lit ''s'', hp_instructions = lit ''Answer.'',
     hp_tenant_ref = lit ''t'', hp_agent_ref = lit ''a'', hp_relationship_ref = lit ''r'', hp_user_ref = lit ''u'',
     hp_constitution = \<lparr>con_memory_ref = lit ''k'', con_text = lit ''Be kind.''\<rparr>, hp_max_output_tokens = 9, episode_rag_top_k = 1\<rparr>"

definition example_scenario :: scenario where
  "example_scenario = \<lparr>scenario_ref = lit ''one'',
     sc_history = [\<lparr>ht_situation = lit ''I froze.'', ht_agent_act = lit ''We paused.'', ht_outcome = Some (lit ''It helped.'')\<rparr>],
     sc_query = lit ''Hi'', sc_expected_output = lit ''Hello.'', sc_query_outcome = None\<rparr>"

definition harness_context :: memory_context where
  "harness_context = empty_context\<lparr>mc_context_ref := lit ''c'', mc_constitution := \<lparr>con_memory_ref = lit ''k'', con_text = lit ''Be kind.''\<rparr>\<rparr>"

definition example_harness_client :: "unit memory_client" where
  "example_harness_client = \<lparr>observe_source_event = (\<lambda>_ w. (Inr \<lparr>sr_source_event_ref = lit ''s'', sr_episode_ref = lit ''e''\<rparr>, w)),
     select_memory = (\<lambda>_ w. (Inr harness_context, w)),
     record_memory_delivery = (\<lambda>_ w. (Inr \<lparr>ra_receipt_ref = lit ''d''\<rparr>, w)),
     report_outcome = (\<lambda>_ w. (Inr \<lparr>oc_outcome_event_ref = lit ''o'', oc_episode_ref = lit ''e''\<rparr>, w))\<rparr>"

definition example_harness :: "unit harness" where
  "example_harness = \<lparr>ha_memory = Some example_harness_client, ha_model = (\<lambda>_ w. (Inr (Val (lit ''Hello.'')), w)),
     ha_profile = example_profile, ha_settle = (\<lambda>w. (Inr (), w))\<rparr>"

abbreviation "harness_memory \<equiv> lit ''CONSTITUTION'' @ [10] @ lit ''Be kind.''"

lemma example_harness_rendered:
  "render_core_context FULL_CORE harness_context = Inr \<lparr>rendered_text = harness_memory, rendered_refs = [lit ''k'']\<rparr>"
  by (simp add: render_core_context_def harness_context_def render_memory_context_def validate_budget_options_def validated_items_def
      empty_context_def constitution_item_def validate_ref_def append_item_def example_strips render_step_def fits_budget_def with_item_def join_sections_def Let_def)

abbreviation "example_log o1 a1 o2 a2 rep a3 o3 a4 sel o4 a5 \<equiv>
  [Observe o1 a1, Observe o2 a2, Report rep a3, Settle, Observe o3 a4, Select sel (Inr harness_context),
   Deliver (query_delivery example_profile FULL_CORE example_scenario harness_context [lit ''k'']) (Inr \<lparr>ra_receipt_ref = lit ''d''\<rparr>),
   Run (harness_completion example_profile example_scenario harness_memory) (Inr (Val (lit ''Hello.''))), Observe o4 a5]"

abbreviation "example_start \<equiv> (((), \<lparr>injected_text = [], run_output = []\<rparr>), [])"

lemma example_run:
  "\<exists>r w o1 a1 o2 a2 rep a3 o3 a4 sel o4 a5. run_core example_harness_client example_harness FULL_CORE example_scenario example_start =
     (r, w, [] @ example_log o1 a1 o2 a2 rep a3 o3 a4 sel o4 a5)"
proof -
  have "strip (lit ''Hello.'') \<noteq> []" by (simp add: strip_eval)
  then show ?thesis
    by (simp add: run_core_def replay_history_def replay_turn_def run_query_def deliver_query_def finish_query_def complete_query_def
        call_defs logged_def bind_call_def pure_call_def on_world_def with_locals_def assign_def example_harness_def
        example_harness_client_def example_scenario_def example_harness_rendered Let_def)
qed

theorem harness_memory_after_delivery_witness:
  "\<exists>ctx rendered. render_core_context FULL_CORE ctx = Inr rendered \<and> rendered_text rendered = harness_memory"
proof -
  obtain r w o1 a1 o2 a2 rep a3 o3 a4 sel o4 a5 where "run_core example_harness_client example_harness FULL_CORE example_scenario
      example_start = (r, w, [] @ example_log o1 a1 o2 a2 rep a3 o3 a4 sel o4 a5)" using example_run by (elim exE)
  then have run: "run_body casefold isalnum example_harness FULL_CORE example_scenario example_start =
      (r, w, [] @ example_log o1 a1 o2 a2 rep a3 o3 a4 sel o4 a5)" for casefold isalnum
    by (simp add: run_body_def example_harness_def)
  have p: "ha_profile example_harness = example_profile" by (simp add: example_harness_def)
  show ?thesis
    using harness_memory_after_delivery [OF run, of harness_memory "Inr (Val (lit ''Hello.''))"] unfolding p by auto
qed

lemma harness_keys_distinct_witness:
  "\<exists>r w es. run_core example_harness_client example_harness FULL_CORE example_scenario example_start = (r, w, [] @ es) \<and>
     length (log_keys es) = 6 \<and> distinct (log_keys es)"
proof -
  obtain r w o1 a1 o2 a2 rep a3 o3 a4 sel o4 a5 where run: "run_core example_harness_client example_harness FULL_CORE example_scenario
      example_start = (r, w, [] @ example_log o1 a1 o2 a2 rep a3 o3 a4 sel o4 a5)" using example_run by (elim exE)
  show ?thesis
    by (intro exI conjI, rule run, simp, rule harness_keys_distinct [OF run])
qed

end
