(* ===== verification/Lifecycle_Laws.thy ===== *)
theory Lifecycle_Laws
  imports Eval_Lifecycle Eval_Harness
begin

text \<open>
  Properties of the lifecycle evaluation: what a passed summary says about the four cases, when the
  formation succeeds, the causal order of the feedback turn and the evidence its outcome cites, and
  that the suite never overwrites what it has frozen.
\<close>

section \<open>The summary\<close>

definition result_kind :: "pydict \<Rightarrow> lifecycle_kind \<Rightarrow> bool" where
  "result_kind result kind \<longleftrightarrow> nonblank (get result (lit ''kind'')) (lit ''kind'') = Inr (kind_value kind)"

abbreviation "flag result name b \<equiv> get result (lit name) = PBool b"

text \<open>What a case has to show.\<close>

fun case_proves :: "lifecycle_kind \<Rightarrow> pydict \<Rightarrow> bool" where
  "case_proves POSITIVE_COMPLETE r \<longleftrightarrow> flag r ''reenacted'' True"
| "case_proves NO_DELIVERY r \<longleftrightarrow> flag r ''reenacted'' False \<and> flag r ''revision_or_inhibition'' False"
| "case_proves NO_OUTCOME r \<longleftrightarrow> flag r ''revision_or_inhibition'' False"
| "case_proves NEGATIVE_COMPLETE r \<longleftrightarrow> flag r ''revision_or_inhibition'' True \<and> flag r ''future_selection_changed'' True"

definition chain_complete :: "pydict \<Rightarrow> bool" where
  "chain_complete r \<longleftrightarrow> flag r ''formed'' True \<and> flag r ''rendered'' True \<and> flag r ''agent_act_expressed_tendency'' True"

lemma kind_value_inject [simp]: "kind_value k = kind_value k' \<longleftrightarrow> k = k'"
  by (cases k; cases k') simp_all

lemma range_kind_value: "range kind_value = kind_value ` {POSITIVE_COMPLETE, NO_DELIVERY, NO_OUTCOME, NEGATIVE_COMPLETE}"
proof -
  have "(UNIV :: lifecycle_kind set) = {POSITIVE_COMPLETE, NO_DELIVERY, NO_OUTCOME, NEGATIVE_COMPLETE}"
    using lifecycle_kind.exhaust by auto
  then show ?thesis by simp
qed

lemma all_kinds: "(\<forall>kind. P kind) \<longleftrightarrow> P POSITIVE_COMPLETE \<and> P NO_DELIVERY \<and> P NO_OUTCOME \<and> P NEGATIVE_COMPLETE"
  by (metis lifecycle_kind.exhaust)

text \<open>The results by kind, in the order of the results.\<close>

definition keyed_results :: "pydict list \<Rightarrow> (pystr \<times> pydict) list \<Rightarrow> bool" where
  "keyed_results results by_kind \<longleftrightarrow> map snd by_kind = results \<and> distinct (map fst by_kind) \<and>
     (\<forall>(k, r) \<in> set by_kind. \<exists>kind. k = kind_value kind \<and> result_kind r kind)"

lemma collect_kinds:
  "foldr_r collect_kind results acc = Inr by_kind \<Longrightarrow> keyed_results prior acc \<Longrightarrow> keyed_results (prior @ results) by_kind"
proof (induction results arbitrary: acc prior)
  case Nil
  then show ?case by simp
next
  case (Cons r results)
  from Cons.prems(1) obtain acc' where step: "collect_kind r acc = Inr acc'" and rest: "foldr_r collect_kind results acc' = Inr by_kind"
    by (auto simp: bindr_Inr_iff)
  from step obtain k where "acc' = acc @ [(k, r)]" "nonblank (get r (lit ''kind'')) (lit ''kind'') = Inr k"
    "k \<in> range kind_value" "k \<notin> fst ` set acc"
    by (auto simp: collect_kind_def bindr_Inr_iff split: if_splits)
  with Cons.prems(2) have "keyed_results (prior @ [r]) acc'" by (auto simp: keyed_results_def result_kind_def)
  from Cons.IH [OF rest this] show ?case by simp
qed

text \<open>The summary of the results collected by kind.\<close>

lemma summarize_Inr:
  assumes "summarize_lifecycle results = Inr summary"
  obtains by_kind where "keyed_results results by_kind"
    "summary = [(lit ''protocol'', PStr (lit ''seed-companion-lifecycle-v1'')), (lit ''cases'', refs_value (map fst by_kind)),
      (lit ''decision'', PDict [(lit ''passed'', PBool (lifecycle_reasons by_kind = [])), (lit ''reasons'', refs_value (lifecycle_reasons by_kind))])]"
proof -
  from assms obtain by_kind where by_kind: "foldr_r collect_kind results [] = Inr by_kind"
    and "summary = [(lit ''protocol'', PStr (lit ''seed-companion-lifecycle-v1'')), (lit ''cases'', refs_value (map fst by_kind)),
      (lit ''decision'', PDict [(lit ''passed'', PBool (lifecycle_reasons by_kind = [])), (lit ''reasons'', refs_value (lifecycle_reasons by_kind))])]"
    by (auto simp: summarize_lifecycle_def bindr_Inr_iff Let_def)
  moreover have "keyed_results results by_kind" using collect_kinds [OF by_kind, of "[]"] by (simp add: keyed_results_def)
  ultimately show ?thesis by (intro that)
qed

lemma reasons_Nil_iff:
  assumes "keyed_results results by_kind"
  shows "lifecycle_reasons by_kind = [] \<longleftrightarrow>
    (\<forall>kind. \<exists>r. (kind_value kind, r) \<in> set by_kind \<and> chain_complete r \<and> case_proves kind r)"
proof -
  have known: "\<exists>kind. k = kind_value kind" if "(k, r) \<in> set by_kind" for k r using assms that by (auto simp: keyed_results_def)
  then have "fst ` set by_kind \<subseteq> range kind_value" by fastforce
  then have "fst ` set by_kind = range kind_value \<longleftrightarrow> (\<forall>kind. kind_value kind \<in> fst ` set by_kind)" by blast
  moreover have "k \<in> fst ` set by_kind \<longleftrightarrow> (\<exists>r. (k, r) \<in> set by_kind)" for k by (force simp: image_iff)
  ultimately have all: "fst ` set by_kind = range kind_value \<longleftrightarrow> (\<forall>kind. \<exists>r. (kind_value kind, r) \<in> set by_kind)" by (simp only:)
  have fields: "concat (map unproved_fields by_kind) = [] \<longleftrightarrow> (\<forall>(k, r) \<in> set by_kind. chain_complete r)"
    by (auto simp: unproved_fields_def chain_complete_def filter_empty_conv split: if_splits)
  have found: "map_of by_kind (kind_value kind) = Some r \<longleftrightarrow> (kind_value kind, r) \<in> set by_kind" for kind r
    using assms by (simp add: keyed_results_def)
  have reason: "case_reason by_kind kind bad msg = [] \<longleftrightarrow> (\<forall>r. (kind_value kind, r) \<in> set by_kind \<longrightarrow> \<not> bad r)" for kind bad msg
    unfolding found [symmetric] by (auto simp: case_reason_def split: option.splits)
  have unique: "r = r'" if "(kind_value kind, r) \<in> set by_kind" "(kind_value kind, r') \<in> set by_kind" for kind r r'
    using found that by (metis option.inject)
  have proves: "(\<forall>kind r. (kind_value kind, r) \<in> set by_kind \<longrightarrow> case_proves kind r) \<longleftrightarrow>
      (\<forall>r. (kind_value POSITIVE_COMPLETE, r) \<in> set by_kind \<longrightarrow> case_proves POSITIVE_COMPLETE r) \<and>
      (\<forall>r. (kind_value NO_DELIVERY, r) \<in> set by_kind \<longrightarrow> case_proves NO_DELIVERY r) \<and>
      (\<forall>r. (kind_value NO_OUTCOME, r) \<in> set by_kind \<longrightarrow> case_proves NO_OUTCOME r) \<and>
      (\<forall>r. (kind_value NEGATIVE_COMPLETE, r) \<in> set by_kind \<longrightarrow> case_proves NEGATIVE_COMPLETE r)"
    by (rule all_kinds)
  have "lifecycle_reasons by_kind = [] \<longleftrightarrow> (\<forall>kind. \<exists>r. (kind_value kind, r) \<in> set by_kind) \<and>
      (\<forall>(k, r) \<in> set by_kind. chain_complete r) \<and> (\<forall>kind r. (kind_value kind, r) \<in> set by_kind \<longrightarrow> case_proves kind r)"
    unfolding lifecycle_reasons_def append_is_Nil_conv reason fields proves case_proves.simps all [symmetric] by auto
  also have "\<dots> \<longleftrightarrow> (\<forall>kind. \<exists>r. (kind_value kind, r) \<in> set by_kind \<and> chain_complete r \<and> case_proves kind r)"
  proof (intro iffI conjI allI ballI impI)
    fix entry assume *: "\<forall>kind. \<exists>r. (kind_value kind, r) \<in> set by_kind \<and> chain_complete r \<and> case_proves kind r" and "entry \<in> set by_kind"
    then obtain kind r where "entry = (kind_value kind, r)" using known by (cases entry) blast
    with * unique \<open>entry \<in> set by_kind\<close> show "case entry of (k, r) \<Rightarrow> chain_complete r" by (metis case_prod_conv)
  qed (use unique in blast)+
  finally show ?thesis .
qed

text \<open>
  C22: what a passed lifecycle means. The summary passes exactly when each of the four cases was run, formed
  and rendered a Disposition and acted on it, the positive case reenacted it, the control without a
  Delivery changed nothing, the control without an outcome neither revised nor inhibited it, and the
  negative case changed the future selection.
\<close>

theorem summarize_passed_iff:
  assumes "summarize_lifecycle results = Inr summary"
  shows "(\<exists>decision. get summary (lit ''decision'') = PDict decision \<and> get decision (lit ''passed'') = PBool True) \<longleftrightarrow>
    (\<forall>kind. \<exists>r \<in> set results. result_kind r kind \<and> chain_complete r \<and> case_proves kind r)"
proof -
  obtain by_kind where keyed: "keyed_results results by_kind"
    and summary: "summary = [(lit ''protocol'', PStr (lit ''seed-companion-lifecycle-v1'')), (lit ''cases'', refs_value (map fst by_kind)),
      (lit ''decision'', PDict [(lit ''passed'', PBool (lifecycle_reasons by_kind = [])), (lit ''reasons'', refs_value (lifecycle_reasons by_kind))])]"
    by (rule summarize_Inr [OF assms])
  have "(kind_value kind, r) \<in> set by_kind \<longleftrightarrow> r \<in> set results \<and> result_kind r kind" for kind r
    using keyed by (force simp: keyed_results_def result_kind_def)
  with reasons_Nil_iff [OF keyed] show ?thesis
    by (auto simp: summary get_def get_or_def)
qed

section \<open>The frozen files\<close>

abbreviation files_of :: "('w \<times> files) \<times> 'e list \<Rightarrow> files" where
  "files_of st \<equiv> snd (fst st)"

lemma keeps_calls:
  "keeps files_of (observing (le_memory (env_with_files env)) q)" "keeps files_of (selecting (le_memory (env_with_files env)) s)"
  "keeps files_of (delivering (le_memory (env_with_files env)) d)" "keeps files_of (reporting (le_memory (env_with_files env)) u)"
  "keeps files_of (running (le_model (env_with_files env)) c)" "keeps files_of (settling (env_with_files env) scope n)"
  by (simp_all add: keeps_def call_defs settling_def logged_def env_with_files_def with_locals_def on_world_def split_beta)

lemma feedback_case_keeps_files: "keeps files_of (run_feedback_case (env_with_files env) c evaluation lane before n)"
  unfolding run_feedback_case_def feedback_turn_def probe_memory_def deliver_probe_def choose_act_def report_feedback_def delayed_probe_def
  by (intro keeps_rules keeps_calls)

lemma formation_keeps_files: "keeps files_of (form_lifecycle_seed (env_with_files env) evaluation lane n)"
proof -
  have "keeps files_of (form_from (env_with_files env) evaluation lane n k turns)" for k turns
    by (induction turns arbitrary: k)
      (auto simp: observe_complete_turn_def Let_def simp del: for_each.simps intro!: keeps_rules keeps_calls)
  then show ?thesis by (simp add: form_lifecycle_seed_def)
qed

text \<open>What the suite writes: each name with its value, as JSON with sorted keys.\<close>

definition written :: "(pystr \<times> pydict) list \<Rightarrow> files" where
  "written entries = map_of (map (\<lambda>(name, d). (name, Val (sort_keys (PDict d)))) entries)"

lemma freeze_json_run:
  "freeze_json name entry ((w, fs), lg) =
    (if encodable (PDict entry)
     then (Inr (), (w, fs(scratch_file name := None, name \<mapsto> Val (sort_keys (PDict entry)))), lg)
     else (Inl UnicodeEncodeError, (w, fs(scratch_file name \<mapsto> OtherType)), lg))"
  by (simp add: freeze_json_def bind_call_def assign_def pure_call_def)

definition scratch_of :: "lifecycle_case list \<Rightarrow> pystr set" where
  "scratch_of cases = (\<lambda>c. scratch_file (case_file c)) ` set cases"

lemma scratch_simps: "scratch_of [] = {}" "scratch_of (c # cases) = insert (scratch_file (case_file c)) (scratch_of cases)"
  by (simp_all add: scratch_of_def)

lemma scratch_distinct: "scratch_file name \<noteq> name" "scratch_file (case_file c) \<noteq> case_file c'" "scratch_file name = scratch_file name' \<longleftrightarrow> name = name'"
proof -
  have "last (scratch_file (case_file c)) \<noteq> last (case_file c')"
    by (simp add: scratch_file_def case_file_def lit_def)
  then show "scratch_file (case_file c) \<noteq> case_file c'" by metis
qed (simp_all add: scratch_file_def lit_def)

lemma case_file_not_scratch: "case_file c \<notin> scratch_of cases"
  using scratch_distinct(2) by (auto simp: scratch_of_def) metis

lemma written_other: "x \<notin> case_file ` set cases \<Longrightarrow> written (zip (map case_file cases) results) x = None"
  by (auto simp: written_def map_of_eq_None_iff dest!: set_zip_leftD)

lemma written_no_scratch: "x \<in> scratch_of cs \<Longrightarrow> written (zip (map case_file cases) results) x = None"
  using scratch_distinct(2) by (intro written_other) (auto simp: scratch_of_def)

lemma written_Cons: "written ((name, d) # entries) = (written entries)(name \<mapsto> Val (sort_keys (PDict d)))"
  by (simp add: written_def)

text \<open>Apart from the scratch files, the files after the loop are those before it and the results; a loop that ends
  leaves no scratch file.\<close>

lemma suite_cases_files:
  assumes "suite_cases (env_with_files env) evaluation before n cases ((w, fs), lg) = (r, (w', fs'), lg')"
    and "distinct (map case_file cases)"
  shows "\<exists>results. length results \<le> length cases \<and>
    fs' |` (- scratch_of cases) = fs |` (- scratch_of cases) ++ written (zip (map case_file cases) results) \<and>
    (\<forall>c \<in> set (take (length results) cases). fs (case_file c) = None) \<and>
    (\<forall>rs. r = Inr rs \<longrightarrow> rs = results \<and> length results = length cases \<and> (\<forall>x \<in> scratch_of cases. fs' x = None))"
  using assms
proof (induction cases arbitrary: before n w fs lg r w' fs' lg')
  case Nil
  then show ?case by (auto simp: pure_call_def written_def scratch_simps)
next
  case (Cons c cases)
  let ?S = "scratch_of (c # cases)"
  show ?case
  proof (cases "fs (case_file c)")
    case (Some content)
    with Cons.prems(1) show ?thesis
      by (intro exI [of _ "[]"]) (auto simp: bind_call_def read_files_def pure_call_def raise_if_def written_def)
  next
    case None
    obtain r1 w1 fs1 log1 where run: "run_feedback_case (env_with_files env) c evaluation (lit ''shared-seed'') before n ((w, fs), lg) =
        (r1, (w1, fs1), log1)" by (metis prod.exhaust)
    have fs1: "fs1 = fs" using feedback_case_keeps_files [of env c evaluation "lit ''shared-seed''" before n] run by (auto simp: keeps_def) (metis snd_conv fst_conv)
    show ?thesis
    proof (cases "\<exists>d. r1 = Inr d \<and> encodable (PDict d)")
      case False
      with Cons.prems(1) run fs1 None have "fs' = fs \<or> fs' = fs(scratch_file (case_file c) \<mapsto> OtherType)" "\<exists>e. r = Inl e"
        by (auto simp: bind_call_def read_files_def pure_call_def raise_if_def freeze_json_run split: sum.splits if_splits)
      then show ?thesis by (intro exI [of _ "[]"]) (auto simp: written_def scratch_simps)
    next
      case True
      then obtain d where d: "r1 = Inr d" "encodable (PDict d)" by blast
      let ?fs = "fs(scratch_file (case_file c) := None, case_file c \<mapsto> Val (sort_keys (PDict d)))"
      obtain r2 w2 fs2 log2 where rest: "suite_cases (env_with_files env) evaluation (result_after d) (n + 1) cases ((w1, ?fs), log1) =
          (r2, (w2, fs2), log2)" by (metis prod.exhaust)
      have "distinct (map case_file cases)" using Cons.prems(2) by simp
      from Cons.IH [OF rest this] obtain results where results: "length results \<le> length cases"
        "fs2 |` (- scratch_of cases) = ?fs |` (- scratch_of cases) ++ written (zip (map case_file cases) results)"
        "\<forall>c \<in> set (take (length results) cases). ?fs (case_file c) = None"
        "\<forall>rs. r2 = Inr rs \<longrightarrow> rs = results \<and> length results = length cases \<and> (\<forall>x \<in> scratch_of cases. fs2 x = None)" by blast
      from Cons.prems(1) run None d rest fs1 have r: "fs' = fs2" "r = (case r2 of Inl e \<Rightarrow> Inl e | Inr rs \<Rightarrow> Inr (d # rs))"
        by (auto simp: bind_call_def read_files_def pure_call_def raise_if_def freeze_json_run split: sum.splits)
      have own: "written (zip (map case_file cases) results) (case_file c) = None"
        using Cons.prems(2) by (intro written_other) auto
      have pointwise: "fs2 x = (?fs ++ written (zip (map case_file cases) results)) x" if "x \<notin> scratch_of cases" for x
        using that fun_cong [OF results(2), of x] by (simp add: restrict_map_def map_add_def)
      have "(fs2 |` (- ?S)) x = (fs |` (- ?S) ++ written (zip (map case_file (c # cases)) (d # results))) x" for x
      proof (cases "x \<in> ?S")
        case True
        then show ?thesis by (simp add: map_add_def written_no_scratch del: zip_Cons_Cons list.map)
      next
        case False
        then show ?thesis using pointwise [of x] own
          by (auto simp: map_add_def scratch_simps written_Cons restrict_map_def simp del: sort_keys.simps split: option.splits)
      qed
      then have "fs2 |` (- ?S) = fs |` (- ?S) ++ written (zip (map case_file (c # cases)) (d # results))" by (rule ext)
      moreover have "\<forall>c' \<in> set (take (length (d # results)) (c # cases)). fs (case_file c') = None"
        using results(3) None scratch_distinct(2) [of c] by (auto simp: fun_upd_apply split: if_splits) metis
      moreover have "fs2 (scratch_file (case_file c)) = None" if "\<forall>x \<in> scratch_of cases. fs2 x = None"
        using that pointwise [of "scratch_file (case_file c)"] written_no_scratch [of _ "[c]"] scratch_distinct(2) [of c c]
        by (cases "scratch_file (case_file c) \<in> scratch_of cases") (auto simp: map_add_def scratch_simps)
      ultimately show ?thesis
        using results(1,4) r by (intro exI [of _ "d # results"]) (auto simp: scratch_simps split: sum.splits)
    qed
  qed
qed

lemma case_files: "map case_file ordered_cases = [lit ''no_delivery.json'', lit ''positive_complete.json'', lit ''no_outcome.json'',
    lit ''negative_complete.json'']"
  by (simp add: ordered_cases_def lifecycle_cases_def case_file_def Let_def flip: lit_append)

text \<open>The scratch files of a whole run.\<close>

definition suite_scratch :: "pystr set" where
  "suite_scratch = insert (scratch_file (lit ''summary.json'')) (scratch_of ordered_cases)"

lemma summary_not_scratch: "lit ''summary.json'' \<notin> suite_scratch" "scratch_file (lit ''summary.json'') \<notin> scratch_of ordered_cases"
proof -
  have "last (scratch_file (case_file c)) \<noteq> last (lit ''summary.json'')" for c by (simp add: scratch_file_def lit_def)
  moreover have "case_file c \<noteq> lit ''summary.json''" for c
    by (cases "lc_kind c") (simp_all add: case_file_def lit_def)
  ultimately show "lit ''summary.json'' \<notin> suite_scratch" "scratch_file (lit ''summary.json'') \<notin> scratch_of ordered_cases"
    using scratch_distinct by (auto simp: suite_scratch_def scratch_of_def) metis+
qed

lemma written_scratch: "x \<in> suite_scratch \<Longrightarrow> written (zip (map case_file ordered_cases) results) x = None"
proof -
  assume "x \<in> suite_scratch"
  then have "last x = last (lit ''t'')" by (auto simp: suite_scratch_def scratch_of_def scratch_file_def lit_def)
  moreover have "last (case_file c) \<noteq> last (lit ''t'')" for c by (simp add: case_file_def lit_def)
  ultimately show ?thesis by (intro written_other) auto
qed

lemma map_le_written:
  assumes "length results \<le> length cases" and "\<forall>c \<in> set (take (length results) cases). fs (case_file c) = None"
  shows "fs |` A \<subseteq>\<^sub>m fs |` A ++ written (zip (map case_file cases) results)"
proof -
  have "zip xs results = zip (take (length results) xs) results" for xs :: "pystr list"
    by (induction xs results rule: list_induct2') simp_all
  then have "zip (map case_file cases) results = zip (map case_file (take (length results) cases)) results"
    by (metis take_map)
  then have "dom (written (zip (map case_file cases) results)) \<subseteq> case_file ` set (take (length results) cases)"
    by (auto simp: written_def dom_map_of_conv_image_fst dest: set_zip_leftD)
  with assms(2) show ?thesis by (auto simp: map_le_def map_add_def restrict_map_def split: option.splits if_splits)
qed

text \<open>A run that finds no summary: what it can leave in the directory, and what it needs to succeed.\<close>

lemma suite_run:
  assumes "run_lifecycle_suite env evaluation m n ((w, fs), lg) = (r, (w', fs'), lg')" and "fs (lit ''summary.json'') = None"
  shows "\<exists>results. fs |` (- suite_scratch) \<subseteq>\<^sub>m fs' \<and>
    ((\<exists>e. r = Inl e) \<or>
     (\<exists>summary. r = Inr summary \<and> summarize_lifecycle results = Inr summary \<and> length results = length ordered_cases \<and>
        fs' = (fs |` (- suite_scratch) ++ written (zip (map case_file ordered_cases) results))
          (lit ''summary.json'' \<mapsto> Val (sort_keys (PDict summary)))))"
proof (cases "validate_run_inputs evaluation (Val (hd ordered_cases)) m n")
  case (Inl e)
  with assms show ?thesis
    by (auto simp: run_lifecycle_suite_def bind_call_def read_files_def pure_call_def map_le_def restrict_map_def split: if_splits)
next
  case (Inr inputs)
  obtain ev c0 m0 n0 where inputs: "inputs = (ev, c0, m0, n0)" by (metis prod.exhaust)
  let ?env = "env\<lparr>le_memory_tokens := m0, le_max_output_tokens := n0\<rparr>"
  obtain r1 w1 fs1 lg1 where form: "form_lifecycle_seed (env_with_files ?env) ev (lit ''shared-seed'') 0 ((w, fs), lg) = (r1, (w1, fs1), lg1)"
    by (metis prod.exhaust)
  have fs1: "fs1 = fs" using formation_keeps_files [of ?env ev "lit ''shared-seed''" 0] form by (auto simp: keeps_def) (metis snd_conv fst_conv)
  show ?thesis
  proof (cases r1)
    case (Inl e)
    with assms Inr inputs form fs1 show ?thesis
      by (auto simp: run_lifecycle_suite_def bind_call_def read_files_def pure_call_def Let_def map_le_def restrict_map_def split: if_splits)
  next
    case formed: (Inr pair)
    obtain before k where pair: "pair = (before, k)" by (metis prod.exhaust)
    obtain r2 w2 fs2 lg2 where ran: "suite_cases (env_with_files ?env) ev before (k + 1) ordered_cases ((w1, fs), lg1) = (r2, (w2, fs2), lg2)"
      by (metis prod.exhaust)
    let ?T = "scratch_of ordered_cases" and ?W = "\<lambda>results. written (zip (map case_file ordered_cases) results)"
    have "distinct (map case_file ordered_cases)" by (simp add: case_files)
    from suite_cases_files [OF ran this] obtain results where results: "length results \<le> length ordered_cases"
      "fs2 |` (- ?T) = fs |` (- ?T) ++ ?W results"
      "\<forall>c \<in> set (take (length results) ordered_cases). fs (case_file c) = None"
      "\<forall>rs. r2 = Inr rs \<longrightarrow> rs = results \<and> length results = length ordered_cases \<and> (\<forall>x \<in> ?T. fs2 x = None)" by blast
    have kept: "fs |` (- suite_scratch) \<subseteq>\<^sub>m fs2 |` (- ?T)"
      using map_le_written [OF results(1,3), of "- ?T"] results(2) by (auto simp: map_le_def suite_scratch_def restrict_map_def split: if_splits)
    from assms Inr inputs form fs1 formed pair ran have
      "(\<exists>e. r = Inl e) \<and> (fs' = fs2 \<or> fs' = fs2(scratch_file (lit ''summary.json'') \<mapsto> OtherType)) \<or>
       (\<exists>rs summary. r2 = Inr rs \<and> r = Inr summary \<and> summarize_lifecycle rs = Inr summary \<and>
          fs' = fs2(scratch_file (lit ''summary.json'') := None, lit ''summary.json'' \<mapsto> Val (sort_keys (PDict summary))))"
      by (auto simp: run_lifecycle_suite_def bind_call_def read_files_def pure_call_def freeze_json_run Let_def
          simp del: sort_keys.simps encodable.simps split: sum.splits if_splits) (metis sum.exhaust)
    then consider (failed) e where "r = Inl e" "fs' = fs2 \<or> fs' = fs2(scratch_file (lit ''summary.json'') \<mapsto> OtherType)"
      | (finished) rs summary where "r2 = Inr rs" "r = Inr summary" "summarize_lifecycle rs = Inr summary"
          "fs' = fs2(scratch_file (lit ''summary.json'') := None, lit ''summary.json'' \<mapsto> Val (sort_keys (PDict summary)))" by blast
    then show ?thesis
    proof cases
      case failed
      have "fs |` (- suite_scratch) \<subseteq>\<^sub>m fs'"
        using kept failed(2) by (auto simp: map_le_def suite_scratch_def restrict_map_def split: if_splits)
      with failed(1) show ?thesis by blast
    next
      case finished
      with results(4) have ended: "rs = results" "length results = length ordered_cases" "\<forall>x \<in> ?T. fs2 x = None" by auto
      have "fs2 x = (fs |` (- ?T) ++ ?W results) x" for x
        using ended(3) fun_cong [OF results(2), of x] written_scratch [of x results]
        by (cases "x \<in> ?T") (auto simp: suite_scratch_def restrict_map_def map_add_def)
      then have "fs' = (fs |` (- suite_scratch) ++ ?W results)(lit ''summary.json'' \<mapsto> Val (sort_keys (PDict summary)))"
        unfolding finished(4) using written_scratch [of "scratch_file (lit ''summary.json'')" results]
        by (auto simp: fun_eq_iff suite_scratch_def restrict_map_def map_add_def scratch_distinct(1))
      moreover from this have "fs |` (- suite_scratch) \<subseteq>\<^sub>m fs'"
        using map_le_written [OF results(1,3), of "- suite_scratch"] assms(2) by (auto simp: map_le_def restrict_map_def split: if_splits) 
      ultimately show ?thesis using finished(2,3) ended(1,2) by blast
    qed
  qed
qed

text \<open>
  C25: frozen output. Whatever happens in a run of the lifecycle suite, and however it ends, every file that
  was in the output directory before is still there with the content it had; the only exceptions are the five
  scratch files, named like a result or the summary with \<open>.part\<close> appended, which a run may overwrite or move away.
\<close>

theorem suite_never_overwrites:
  "before |` (- suite_scratch) \<subseteq>\<^sub>m files_of (snd (run_lifecycle_suite env evaluation memory_tokens max_output_tokens ((w, before), lg)))"
proof -
  obtain r w' fs' lg' where run: "run_lifecycle_suite env evaluation memory_tokens max_output_tokens ((w, before), lg) = (r, (w', fs'), lg')"
    by (metis prod.exhaust)
  show ?thesis
  proof (cases "before (lit ''summary.json'')")
    case (Some content)
    with run show ?thesis
      by (auto simp: run_lifecycle_suite_def bind_call_def read_files_def pure_call_def map_le_def restrict_map_def split: if_splits)
  next
    case None
    from suite_run [OF run None] show ?thesis by (auto simp: run)
  qed
qed

definition lifecycle_passed :: "pydict \<Rightarrow> bool" where
  "lifecycle_passed summary \<longleftrightarrow>
     (\<exists>decision. get summary (lit ''decision'') = PDict decision \<and> get decision (lit ''passed'') = PBool True)"

text \<open>
  C26: a finished suite is frozen. A run that returns normally has written the four results and the summary
  computed from them, has removed its scratch files, and has changed nothing else; run again over that directory,
  with any collaborators, the suite makes no call, changes no file, and returns the stored summary exactly when it passed.
\<close>

theorem suite_freezes:
  assumes "run_lifecycle_suite env evaluation m n ((w, fs), lg) = (Inr summary, (w', fs'), lg')"
    and "fs (lit ''summary.json'') = None"
  shows "\<exists>results again. summarize_lifecycle results = Inr summary \<and> length results = 4 \<and>
    fs' = (fs |` (- suite_scratch) ++ written (zip (map case_file ordered_cases) results))(lit ''summary.json'' \<mapsto> Val (PDict again)) \<and>
    PDict again = sort_keys (PDict summary) \<and>
    run_lifecycle_suite env2 evaluation2 m2 n2 ((w2, fs'), lg2) =
      (if lifecycle_passed summary then Inr again else Inl (ValueError (lit ''existing lifecycle summary is not a passing frozen run'')),
       (w2, fs'), lg2)"
proof -
  from suite_run [OF assms] obtain results where results: "summarize_lifecycle results = Inr summary" "length results = length ordered_cases"
    "fs' = (fs |` (- suite_scratch) ++ written (zip (map case_file ordered_cases) results))(lit ''summary.json'' \<mapsto> Val (sort_keys (PDict summary)))"
    by (auto simp del: sort_keys.simps)
  obtain by_kind reasons where summary: "summary = [(lit ''protocol'', PStr (lit ''seed-companion-lifecycle-v1'')),
      (lit ''cases'', refs_value by_kind), (lit ''decision'', PDict [(lit ''passed'', PBool (reasons = [])), (lit ''reasons'', refs_value reasons)])]"
    by (rule summarize_Inr [OF results(1)])
  obtain again where again: "sort_keys (PDict summary) = PDict again" "map_of again = map_option sort_keys \<circ> map_of summary"
    by (rule get_sort_keys [of summary]) (simp add: summary)
  obtain dec where dec: "sort_keys (PDict [(lit ''passed'', PBool (reasons = [])), (lit ''reasons'', refs_value reasons)]) = PDict dec"
    "map_of dec = map_option sort_keys \<circ> map_of [(lit ''passed'', PBool (reasons = [])), (lit ''reasons'', refs_value reasons)]"
    by (rule get_sort_keys [of "[(lit ''passed'', PBool (reasons = [])), (lit ''reasons'', refs_value reasons)]"]) simp
  have "frozen_summary (Val (PDict again)) =
      (if lifecycle_passed summary then Inr again else Inl (ValueError (lit ''existing lifecycle summary is not a passing frozen run'')))"
    using again(2) dec by (simp add: frozen_summary_def lifecycle_passed_def get_def get_or_def summary del: sort_keys.simps(2))
  then have "run_lifecycle_suite env2 evaluation2 m2 n2 ((w2, fs'), lg2) =
      (if lifecycle_passed summary then Inr again else Inl (ValueError (lit ''existing lifecycle summary is not a passing frozen run'')),
       (w2, fs'), lg2)"
    by (simp add: run_lifecycle_suite_def bind_call_def read_files_def pure_call_def results(3) again(1) del: sort_keys.simps)
  moreover have "length results = 4" using results(2) by (simp add: ordered_cases_def)
  ultimately show ?thesis using results again(1) by (intro exI [of _ results] exI [of _ again]) simp
qed

section \<open>Formation\<close>

lemma observe_turn_traces: "traces (observe_complete_turn memory scope ident situation agent_act)
    (\<lambda>es r. case r of Inl _ \<Rightarrow> length es \<le> 2 | Inr _ \<Rightarrow> length es = 2)"
  unfolding observe_complete_turn_def observing_def for_each.simps bind_call_assoc
  by (auto intro!: traces_bind_logged traces_bind_pure traces_pure)

definition formed_after :: "nat \<Rightarrow> nat \<Rightarrow> nat \<Rightarrow> 'e list \<Rightarrow> (pydict \<times> nat) result \<Rightarrow> bool" where
  "formed_after episodes offset turns es r = (case r of
       Inl _ \<Rightarrow> length es \<le> 3 * turns
     | Inr (before, n) \<Rightarrow> (\<exists>i < turns. n = episodes + offset + i \<and> 2 \<le> offset + i \<and> length es = 3 * (i + 1)) \<and>
         (\<exists>active. active_dispositions before = Inr active \<and> active \<noteq> []))"

lemma formed_after_Suc: "formed_after episodes (offset + 1) turns es r \<Longrightarrow> length fs = 3 \<Longrightarrow> formed_after episodes offset (Suc turns) (fs @ es) r"
  by (auto simp: formed_after_def split: sum.splits)

lemma form_from_traces:
  fixes env :: "'w lifecycle_env"
  shows "traces (form_from env evaluation lane episodes offset turns) (formed_after episodes offset (length turns))"
proof (induction turns arbitrary: offset)
  case Nil
  then show ?case by (auto simp: formed_after_def intro: traces_pure)
next
  case (Cons turn turns)
  obtain situation agent_act where turn: "turn = (situation, agent_act)" by (metis prod.exhaust)
  have settled: "traces (bind_call (pure_call (if 2 \<le> offset then active_dispositions before else Inr [])) (\<lambda>active.
      if active \<noteq> [] then pure_call (Inr (before, episodes + offset)) else form_from env evaluation lane episodes (offset + 1) turns))
      (\<lambda>fs r. formed_after episodes offset (Suc (length turns)) (es @ fs) r)" if "length es = 3" for before and es :: "(completion, pyval) event list"
  proof (rule traces_bind_pure)
    fix active assume a: "(if 2 \<le> offset then active_dispositions before else Inr []) = Inr active"
    show "traces (if active \<noteq> [] then pure_call (Inr (before, episodes + offset)) else form_from env evaluation lane episodes (offset + 1) turns)
        (\<lambda>fs r. formed_after episodes offset (Suc (length turns)) (es @ fs) r)"
    proof (rule traces_if)
      assume "active \<noteq> []"
      with a that show "traces (pure_call (Inr (before, episodes + offset))) (\<lambda>fs r. formed_after episodes offset (Suc (length turns)) (es @ fs) r)"
        by (intro traces_pure) (auto simp: formed_after_def split: if_splits intro!: exI [of _ 0])
    next
      show "traces (form_from env evaluation lane episodes (offset + 1) turns) (\<lambda>fs r. formed_after episodes offset (Suc (length turns)) (es @ fs) r)"
        by (rule traces_conseq [OF Cons.IH]) (rule formed_after_Suc [OF _ that])
    qed
  qed (use that in \<open>simp add: formed_after_def\<close>)
  show ?case unfolding turn form_from.simps Let_def settling_def
  proof (rule traces_bind_pure, simp add: formed_after_def, rule traces_bind [OF observe_turn_traces])
    fix scope and es :: "(completion, pyval) event list" and x :: unit
    assume "case Inr x of Inl _ \<Rightarrow> length es \<le> 2 | Inr _ \<Rightarrow> length es = 2"
    then have es: "length es = 2" by simp
    show "traces (bind_call (logged (\<lambda>_. Settle) (le_settle env scope (episodes + offset))) (\<lambda>before.
        bind_call (pure_call (if 2 \<le> offset then active_dispositions before else Inr [])) (\<lambda>active.
        if active \<noteq> [] then pure_call (Inr (before, episodes + offset)) else form_from env evaluation lane episodes (offset + 1) turns)))
        (\<lambda>fs r. formed_after episodes offset (length ((situation, agent_act) # turns)) (es @ fs) r)"
    proof (rule traces_bind_logged)
      fix before
      from settled [of "es @ [Settle]" before] es show "traces (bind_call (pure_call (if 2 \<le> offset then active_dispositions before else Inr [])) (\<lambda>active.
          if active \<noteq> [] then pure_call (Inr (before, episodes + offset)) else form_from env evaluation lane episodes (offset + 1) turns))
          (\<lambda>fs r. formed_after episodes offset (length ((situation, agent_act) # turns)) (es @ Settle # fs) r)"
        by simp
    qed (use es in \<open>simp add: formed_after_def\<close>)
  qed (simp add: formed_after_def)
qed

text \<open>
  C24: formation. It ends with a state that has an active Disposition, after two or three complete turns
  and never after one, each of three calls (two observations and the wait), and reports the number of
  Episodes so far; or it raises after at most nine calls. Every run ends in one of the two ways.
\<close>

theorem formation_ends:
  "traces (form_lifecycle_seed env evaluation lane episodes) (\<lambda>es r. case r of Inl _ \<Rightarrow> length es \<le> 9
     | Inr (before, n) \<Rightarrow> n \<in> {episodes + 2, episodes + 3} \<and> length es = 3 * (n - episodes) \<and>
         (\<exists>active. active_dispositions before = Inr active \<and> active \<noteq> []))"
  unfolding form_lifecycle_seed_def
proof (rule traces_conseq [OF form_from_traces])
  fix es :: "(completion, pyval) event list" and r
  assume "formed_after episodes 1 (length FORMATION_TURNS) es r"
  then show "case r of Inl _ \<Rightarrow> length es \<le> 9
     | Inr (before, n) \<Rightarrow> n \<in> {episodes + 2, episodes + 3} \<and> length es = 3 * (n - episodes) \<and>
         (\<exists>active. active_dispositions before = Inr active \<and> active \<noteq> [])"
    by (auto simp: formed_after_def FORMATION_TURNS_def split: sum.splits)
qed

section \<open>The feedback turn\<close>

lemma layout_Nil_iff: "layout items = [] \<longleftrightarrow> items = []"
  by (cases items rule: rev_cases) (simp_all add: layout_def with_item_def)

lemma join_sections_Nil_iff: "join_sections sections = [] \<longleftrightarrow> sections = []"
  by (cases sections rule: remdups_adj.cases) (auto simp: join_sections_def)

lemma rendered_refs_text:
  assumes "render_memory_context ctx max_tokens token_count = Inr r" and "rendered_refs r \<noteq> []"
  shows "rendered_text r \<noteq> []"
proof -
  from assms(1) obtain items ks where "rendered_text r = join_sections (layout (picked ks items))"
    "rendered_refs r = map ri_memory_ref (picked ks items)" by (rule render_Inr)
  with assms(2) show ?thesis by (simp add: join_sections_Nil_iff layout_Nil_iff)
qed

definition lifecycle_spec :: "'w lifecycle_env \<Rightarrow> memory_scope \<Rightarrow> pystr \<Rightarrow> (completion, pyval) turn_spec" where
  "lifecycle_spec env scope ident =
     \<lparr>ts_situation = lifecycle_observation scope ident (situation_of QUERY),
      ts_select = feedback_select scope ident,
      ts_render = lifecycle_render env,
      ts_deliver = feedback_delivery scope ident,
      ts_input = lifecycle_completion env QUERY,
      ts_act = (\<lambda>out. lifecycle_observation scope ident (agent_act_of (the (map_of ACTION_OPTIONS (extract_option_token out)))))\<rparr>"

lemma lifecycle_spec_simps [simp]:
  "ts_situation (lifecycle_spec env scope ident) = lifecycle_observation scope ident (situation_of QUERY)"
  "ts_select (lifecycle_spec env scope ident) = feedback_select scope ident"
  "ts_render (lifecycle_spec env scope ident) = lifecycle_render env"
  "ts_deliver (lifecycle_spec env scope ident) = feedback_delivery scope ident"
  "ts_input (lifecycle_spec env scope ident) = lifecycle_completion env QUERY"
  "ts_act (lifecycle_spec env scope ident) out =
     lifecycle_observation scope ident (agent_act_of (the (map_of ACTION_OPTIONS (extract_option_token out))))"
  by (simp_all add: lifecycle_spec_def)

lemma choose_follows:
  assumes "fp_scope probe = scope" and "fp_identity probe = ident"
    and "\<And>choice. traces (f choice) (continues no_run (lifecycle_spec env scope ident) Acted)"
  shows "traces (bind_call (choose_act env probe) f)
    (continues no_run (lifecycle_spec env scope ident) (Ready (rendered_text (fp_rendered probe))))"
  unfolding choose_act_def bind_call_assoc running_def observing_def assms(1,2)
proof (rule traces_step [where q = Ran], simp_all add: turn_step_from_simps del: bind_call_assoc, rule traces_check)
  fix out t assume "(case map_of ACTION_OPTIONS (extract_option_token out) of
      None \<Rightarrow> Inl (RuntimeError (lit ''lifecycle model did not return a valid option token'')) | Some x \<Rightarrow> Inr x) = Inr t"
  then have "map_of ACTION_OPTIONS (extract_option_token out) = Some t" by (auto split: option.splits)
  then show "traces (bind_call (logged (Observe (lifecycle_observation scope ident (agent_act_of t)))
        (observe_source_event (le_memory env) (lifecycle_observation scope ident (agent_act_of t)))) (\<lambda>agent_act.
      bind_call (pure_call (Inr \<lparr>ac_option = extract_option_token out, ac_text = t, ac_receipt = agent_act\<rparr>)) f))
      (continues no_run (lifecycle_spec env scope ident) (Ran out))"
    by (intro traces_step [where q = "\<lambda>_. Acted"] traces_check assms(3)) (simp_all add: turn_step_from_simps)
qed

lemma report_follows:
  "traces (bind_call (report_feedback env c probe delivery_ref choice) (\<lambda>x. pure_call (Inr (g x)))) (continues no_run spec Acted)"
proof (rule traces_conseq [OF _ continues_tail])
  show "traces (bind_call (report_feedback env c probe delivery_ref choice) (\<lambda>x. pure_call (Inr (g x)))) (\<lambda>es r. list_all no_run es)"
    unfolding report_feedback_def
    by (intro traces_all_bind traces_option traces_pure traces_no_run(2)) simp_all
qed

lemma deliver_follows:
  assumes "fp_scope probe = scope" and "fp_identity probe = ident"
    and "lifecycle_render env (fp_selected probe) = Inr (fp_rendered probe)" and "rendered_text (fp_rendered probe) \<noteq> []"
    and "\<And>d. traces (f d) (continues no_run (lifecycle_spec env scope ident) (Ready (rendered_text (fp_rendered probe))))"
  shows "traces (bind_call (deliver_probe env (c\<lparr>lc_record_delivery := True\<rparr>) probe) f)
    (continues no_run (lifecycle_spec env scope ident) (Selected (fp_selected probe)))"
proof -
  have "deliver_probe env (c\<lparr>lc_record_delivery := True\<rparr>) probe = bind_call (delivering (le_memory env)
      (feedback_delivery scope ident (fp_selected probe) (rendered_refs (fp_rendered probe)))) (\<lambda>delivery. pure_call (Inr (ra_receipt_ref delivery)))"
    using assms(1,2) by (simp add: deliver_probe_def)
  then show ?thesis
    unfolding delivering_def bind_call_assoc
    by (simp only: bind_call_assoc, intro traces_step [where q = "\<lambda>_. Ready (rendered_text (fp_rendered probe))"] traces_check assms(5))
      (use assms(3,4) in \<open>auto simp: turn_step_from_simps\<close>)
qed

text \<open>With a recorded Delivery the feedback turn follows the lifecycle.\<close>

interpretation lifecycle_turn: causal_turn "feedback_turn env (c\<lparr>lc_record_delivery := True\<rparr>) scope ident" "lifecycle_spec env scope ident"
  for env c scope ident
proof (rule causal_turnI, rule traces_conseq)
  let ?spec = "lifecycle_spec env scope ident"
  show "traces (feedback_turn env (c\<lparr>lc_record_delivery := True\<rparr>) scope ident) (continues no_run ?spec Start)"
    unfolding feedback_turn_def probe_memory_def bind_call_assoc Let_def observing_def selecting_def
  proof (rule traces_step [where q = Situated], (simp add: turn_step_from_simps)+, rule traces_step [where q = Selected],
      (simp add: turn_step_from_simps)+, rule traces_check, rule traces_check)
    fix rc ctx rendered u
    let ?probe = "\<lparr>fp_scope = scope, fp_identity = ident, fp_situation = rc, fp_selected = ctx, fp_rendered = rendered\<rparr>"
    assume r: "lifecycle_render env ctx = Inr rendered"
      and "raise_if (rendered_dispositions ?probe = []) (RuntimeError (lit ''relevant probe rendered no Disposition'')) = Inr u"
    then have "rendered_refs rendered \<noteq> []" by (auto simp: rendered_dispositions_def)
    with r have "rendered_text rendered \<noteq> []" unfolding lifecycle_render_def by (rule rendered_refs_text)
    with r have "traces (bind_call (deliver_probe env (c\<lparr>lc_record_delivery := True\<rparr>) ?probe) (\<lambda>delivery_ref.
        bind_call (choose_act env ?probe) (\<lambda>choice.
        bind_call (report_feedback env (c\<lparr>lc_record_delivery := True\<rparr>) ?probe delivery_ref choice) (\<lambda>outcome_ref.
        pure_call (Inr (?probe, delivery_ref, choice, outcome_ref)))))) (continues no_run ?spec (Selected (fp_selected ?probe)))"
      by (intro deliver_follows choose_follows report_follows) simp_all
    then show "traces (bind_call (pure_call (Inr ?probe)) (\<lambda>probe.
        bind_call (deliver_probe env (c\<lparr>lc_record_delivery := True\<rparr>) probe) (\<lambda>delivery_ref.
        bind_call (choose_act env probe) (\<lambda>choice.
        bind_call (report_feedback env (c\<lparr>lc_record_delivery := True\<rparr>) probe delivery_ref choice) (\<lambda>outcome_ref.
        pure_call (Inr (probe, delivery_ref, choice, outcome_ref))))))) (continues no_run ?spec (Selected ctx))"
      by (intro traces_check) simp
  qed
qed (rule exI [of _ "[]"], auto)

text \<open>
  no undisclosed memory in the feedback turn. In a case that records its Delivery, the model chooses with
  a memory text only after the Delivery of exactly that rendering was acknowledged.
\<close>

lemma feedback_memory_after_delivery:
  assumes "feedback_turn env (c\<lparr>lc_record_delivery := True\<rparr>) scope ident (w, sofar) = (r, w', sofar @ es)"
    and "Run (lifecycle_completion env QUERY m) res \<in> set es" and "m \<noteq> []"
  shows "\<exists>before ctx rendered ack after. es = before @ after \<and> Run (lifecycle_completion env QUERY m) res \<in> set after \<and>
    Deliver (feedback_delivery scope ident ctx (rendered_refs rendered)) (Inr ack) \<in> set before \<and>
    lifecycle_render env ctx = Inr rendered \<and> rendered_text rendered = m"
proof -
  have inj: "lifecycle_completion env QUERY m = lifecycle_completion env QUERY m' \<longleftrightarrow> m' = m" for m'
    using assms(3) by (auto simp: lifecycle_completion_def)
  from lifecycle_turn.memory_after_delivery [OF assms(1) refl assms(2)] obtain before mid after
    where es: "es = before @ mid @ Run (lifecycle_completion env QUERY m) res # after"
      and d: "delivered_before (lifecycle_spec env scope ident) mid (lifecycle_completion env QUERY m)" by blast
  from d obtain ctx rendered ack where "lifecycle_render env ctx = Inr rendered" "rendered_text rendered = m"
    "Deliver (feedback_delivery scope ident ctx (rendered_refs rendered)) (Inr ack) \<in> set mid"
    using assms(3) by (auto simp: delivered_before_def inj)
  moreover have "es = (before @ mid) @ Run (lifecycle_completion env QUERY m) res # after" using es by simp
  ultimately show ?thesis by (metis UnCI list.set_intros(1) set_append)
qed

section \<open>The evidence of an outcome\<close>

text \<open>The receipts acknowledged in a log and the receipts its outcomes cite.\<close>

fun event_receipts :: "('m, 'o) event \<Rightarrow> pystr list" where
  "event_receipts (Deliver _ (Inr ack)) = [ra_receipt_ref ack]"
| "event_receipts _ = []"

fun event_citations :: "('m, 'o) event \<Rightarrow> pystr list" where
  "event_citations (Report q _) = or_delivery_refs q"
| "event_citations _ = []"

definition receipts :: "('m, 'o) event list \<Rightarrow> pystr list" where
  "receipts es = concat (map event_receipts es)"

definition citations :: "('m, 'o) event list \<Rightarrow> pystr list" where
  "citations es = concat (map event_citations es)"

lemma evidence_simps [simp]:
  "receipts [] = []" "receipts (ev # es) = event_receipts ev @ receipts es" "receipts (es @ fs) = receipts es @ receipts fs"
  "citations [] = []" "citations (ev # es) = event_citations ev @ citations es" "citations (es @ fs) = citations es @ citations fs"
  by (simp_all add: receipts_def citations_def)

definition quiet :: "('m, 'o) event \<Rightarrow> bool" where
  "quiet ev \<longleftrightarrow> event_receipts ev = [] \<and> event_citations ev = []"

lemma quiet_simps [simp]: "quiet (Observe q r)" "quiet (Select s c)" "quiet (Run m x)"
  by (simp_all add: quiet_def)

lemma quiet_evidence: "list_all quiet es \<Longrightarrow> receipts es = [] \<and> citations es = []"
  by (induction es) (auto simp: quiet_def)

lemma quiet_parts:
  "traces (probe_memory env scope ident) (\<lambda>es r. list_all quiet es)" "traces (choose_act env probe) (\<lambda>es r. list_all quiet es)"
  unfolding probe_memory_def choose_act_def call_defs Let_def
  by (intro traces_all_bind traces_logged traces_pure; simp)+

text \<open>
  C23: evidence of an outcome. An outcome cites only Deliveries acknowledged in its own turn, at most one; in
  the control that records no Delivery there is none and the outcome cites nothing.
\<close>

theorem feedback_evidence:
  "traces (feedback_turn env c scope ident) (\<lambda>es r. set (citations es) \<subseteq> set (receipts es) \<and>
     length (receipts es) \<le> (if lc_record_delivery c then 1 else 0))"
  unfolding feedback_turn_def
proof (rule traces_bind [OF quiet_parts(1)])
  fix es :: "(completion, pyval) event list" and probe
  let ?ok = "\<lambda>es :: (completion, pyval) event list. set (citations es) \<subseteq> set (receipts es) \<and> length (receipts es) \<le> (if lc_record_delivery c then 1 else 0)"
  assume "list_all quiet es"
  then have es: "receipts es = []" "citations es = []" using quiet_evidence by auto
  have tail: "traces (bind_call (choose_act env probe) (\<lambda>choice. bind_call (report_feedback env c probe d choice) (\<lambda>u. pure_call (Inr (probe, d, choice, u)))))
      (\<lambda>fs r. ?ok (ds @ fs))"
    if "citations ds = []" "d = [] \<or> d \<in> set (receipts ds)" "length (receipts ds) \<le> (if lc_record_delivery c then 1 else 0)"
    for d and ds :: "(completion, pyval) event list"
  proof (rule traces_bind [OF quiet_parts(2)])
    fix gs :: "(completion, pyval) event list" and choice assume "list_all quiet gs"
    then have gs: "receipts gs = []" "citations gs = []" using quiet_evidence by auto
    show "traces (bind_call (report_feedback env c probe d choice) (\<lambda>u. pure_call (Inr (probe, d, choice, u)))) (\<lambda>fs r. ?ok (ds @ gs @ fs))"
      unfolding report_feedback_def reporting_def
      by (cases "lc_outcome_text c")
        (use that gs in \<open>auto simp: bind_call_assoc feedback_outcome_def intro!: traces_bind_logged traces_bind_pure traces_pure\<close>)
  qed (use that quiet_evidence in auto)
  show "traces (bind_call (deliver_probe env c probe) (\<lambda>d. bind_call (choose_act env probe) (\<lambda>choice.
      bind_call (report_feedback env c probe d choice) (\<lambda>u. pure_call (Inr (probe, d, choice, u)))))) (\<lambda>fs r. ?ok (es @ fs))"
    unfolding deliver_probe_def delivering_def
    using tail [of es "[]"] tail [of "es @ [Deliver q (Inr ack)]" "ra_receipt_ref ack" for q ack] es
    by (auto simp: bind_call_assoc intro!: traces_bind_logged traces_bind_pure)
qed (use quiet_evidence in auto)

section \<open>Examples\<close>

text \<open>Four results that pass.\<close>

definition passing_result :: "lifecycle_kind \<Rightarrow> pydict" where
  "passing_result kind = [(lit ''kind'', PStr (kind_value kind)), (lit ''formed'', PBool True), (lit ''rendered'', PBool True),
     (lit ''agent_act_expressed_tendency'', PBool True), (lit ''reenacted'', PBool (kind = POSITIVE_COMPLETE)),
     (lit ''revision_or_inhibition'', PBool (kind = NEGATIVE_COMPLETE)), (lit ''future_selection_changed'', PBool True)]"

lemma passing_kind: "nonblank (get (passing_result kind) (lit ''kind'')) (lit ''kind'') = Inr (kind_value kind)"
  by (cases kind) (simp_all add: passing_result_def get_def get_or_def strip_eval)

lemma passing_flags:
  "get (passing_result kind) (lit ''formed'') = PBool True" "get (passing_result kind) (lit ''rendered'') = PBool True"
  "get (passing_result kind) (lit ''agent_act_expressed_tendency'') = PBool True"
  "get (passing_result kind) (lit ''reenacted'') = PBool (kind = POSITIVE_COMPLETE)"
  "get (passing_result kind) (lit ''revision_or_inhibition'') = PBool (kind = NEGATIVE_COMPLETE)"
  "get (passing_result kind) (lit ''future_selection_changed'') = PBool True"
  by (simp_all add: passing_result_def get_def get_or_def)

lemma passing_summary:
  "summarize_lifecycle (map passing_result [POSITIVE_COMPLETE, NO_DELIVERY, NO_OUTCOME, NEGATIVE_COMPLETE]) =
     Inr [(lit ''protocol'', PStr (lit ''seed-companion-lifecycle-v1'')),
          (lit ''cases'', refs_value [lit ''positive_complete'', lit ''no_delivery'', lit ''no_outcome'', lit ''negative_complete'']),
          (lit ''decision'', PDict [(lit ''passed'', PBool True), (lit ''reasons'', refs_value [])])]"
  by (simp add: summarize_lifecycle_def collect_kind_def passing_kind lifecycle_reasons_def unproved_fields_def case_reason_def
      range_kind_value passing_flags Let_def)

theorem summarize_passed_iff_witness:
  "\<forall>kind. \<exists>r \<in> set (map passing_result [POSITIVE_COMPLETE, NO_DELIVERY, NO_OUTCOME, NEGATIVE_COMPLETE]).
     result_kind r kind \<and> chain_complete r \<and> case_proves kind r"
  by (rule iffD1 [OF summarize_passed_iff [OF passing_summary]]) (simp add: get_def get_or_def)

text \<open>A client with one active Disposition, and a model that always acts on it.\<close>

definition lc_context :: memory_context where
  "lc_context = empty_context\<lparr>mc_context_ref := lit ''c'',
     mc_dispositions := [\<lparr>mi_memory_ref = lit ''seed@1'', mi_text = lit ''Pause.'', mi_application_scope = 3\<rparr>]\<rparr>"

definition lc_state :: pydict where
  "lc_state = [(lit ''dispositions'', PList [PDict [(lit ''status'', PStr (lit ''active'')), (lit ''ref'', PStr (lit ''seed@1'')),
     (lit ''text'', PStr (lit ''Pause.''))]])]"

definition lc_env :: "unit lifecycle_env" where
  "lc_env = \<lparr>le_memory = \<lparr>observe_source_event = (\<lambda>_ w. (Inr \<lparr>sr_source_event_ref = lit ''s'', sr_episode_ref = lit ''e''\<rparr>, w)),
       select_memory = (\<lambda>_ w. (Inr lc_context, w)), record_memory_delivery = (\<lambda>_ w. (Inr \<lparr>ra_receipt_ref = lit ''d''\<rparr>, w)),
       report_outcome = (\<lambda>_ w. (Inr \<lparr>oc_outcome_event_ref = lit ''o'', oc_episode_ref = lit ''e''\<rparr>, w))\<rparr>,
     le_settle = (\<lambda>_ _ w. (Inr lc_state, w)), le_model = (\<lambda>_ w. (Inr (PStr (lit ''A'')), w)), le_token_count = length_counter,
     le_memory_tokens = 90, le_max_output_tokens = 4\<rparr>"

lemma lc_strips: "strip (lit ''Pause.'') = lit ''Pause.''" "strip (lit ''seed@1'') = lit ''seed@1''" "strip (lit ''A'') = lit ''A''"
    "strip (lit ''shared-seed'') = lit ''shared-seed''" "strip (lit ''v'') = lit ''v''" "strip [] = []"
  by (simp_all add: strip_eval)

abbreviation "lc_text \<equiv> lit ''DISPOSITIONS'' @ [10] @ lit ''RELATION'' @ lit '': '' @ lit ''Pause.''"

lemma lc_rendered: "lifecycle_render (env_with_files lc_env) lc_context = Inr \<lparr>rendered_text = lc_text, rendered_refs = [lit ''seed@1'']\<rparr>"
  by (simp add: lifecycle_render_def env_with_files_def lc_env_def lc_context_def render_memory_context_def validate_budget_options_def
      validated_items_def empty_context_def empty_constitution_def constitution_item_def append_item_def validate_ref_def lc_strips
      render_step_def fits_budget_def with_item_def join_sections_def length_counter_def APPLICATION_SCOPE_LABELS_def Let_def)

lemma lc_active: "active_dispositions lc_state = Inr [(lit ''seed@1'', lit ''Pause.'')]"
  by (simp add: active_dispositions_def active_record_def lc_state_def get_def get_or_def lc_strips)

abbreviation "lc_full \<equiv> env_with_files lc_env"

lemma lc_ops:
  "le_memory lc_full = \<lparr>observe_source_event = (\<lambda>_ w. (Inr \<lparr>sr_source_event_ref = lit ''s'', sr_episode_ref = lit ''e''\<rparr>, w)),
     select_memory = (\<lambda>_ w. (Inr lc_context, w)), record_memory_delivery = (\<lambda>_ w. (Inr \<lparr>ra_receipt_ref = lit ''d''\<rparr>, w)),
     report_outcome = (\<lambda>_ w. (Inr \<lparr>oc_outcome_event_ref = lit ''o'', oc_episode_ref = lit ''e''\<rparr>, w))\<rparr>"
  "le_settle lc_full = (\<lambda>_ _ w. (Inr lc_state, w))" "le_model lc_full = (\<lambda>_ w. (Inr (PStr (lit ''A'')), w))"
  by (simp_all add: env_with_files_def lc_env_def with_locals_def on_world_def fun_eq_iff)

lemma lc_choice: "extract_option_token (PStr (lit ''A'')) = lit ''A''"
  by (simp add: extract_option_token_def lc_strips) (simp add: py_upper_def ascii_upper_def lit_def)

lemma lc_dispositions: "text_dispositions lc_context = [lit ''seed@1'']"
  by (simp add: text_dispositions_def lc_context_def empty_context_def lc_strips)

lemmas lc_run = bind_call_def pure_call_def logged_def call_defs lc_ops lc_rendered lc_choice lc_dispositions

definition lc_probe :: "memory_scope \<Rightarrow> pystr \<Rightarrow> feedback_probe" where
  "lc_probe scope ident = \<lparr>fp_scope = scope, fp_identity = ident, fp_situation = \<lparr>sr_source_event_ref = lit ''s'', sr_episode_ref = lit ''e''\<rparr>,
     fp_selected = lc_context, fp_rendered = \<lparr>rendered_text = lc_text, rendered_refs = [lit ''seed@1'']\<rparr>\<rparr>"

definition lc_act :: agent_choice where
  "lc_act = \<lparr>ac_option = lit ''A'', ac_text = the (map_of ACTION_OPTIONS (lit ''A'')),
     ac_receipt = \<lparr>sr_source_event_ref = lit ''s'', sr_episode_ref = lit ''e''\<rparr>\<rparr>"

lemma lc_probe_fields:
  "fp_selected (lc_probe scope ident) = lc_context" "rendered_refs (fp_rendered (lc_probe scope ident)) = [lit ''seed@1'']"
  by (simp_all add: lc_probe_def)

lemma lc_probe_dispositions: "rendered_dispositions (lc_probe scope ident) = [lit ''seed@1'']"
  by (simp add: rendered_dispositions_def lc_probe_def lc_dispositions)

lemma lc_feedback_turn:
  "\<exists>more. feedback_turn lc_full c scope ident (w, lg) = (Inr (lc_probe scope ident, if lc_record_delivery c then lit ''d'' else [], lc_act,
     case lc_outcome_text c of None \<Rightarrow> [] | Some _ \<Rightarrow> lit ''o''), w, lg @ more) \<and>
     (lc_record_delivery c \<longrightarrow> Run (lifecycle_completion lc_full QUERY lc_text) (Inr (PStr (lit ''A''))) \<in> set more)"
proof -
  have "map_of ACTION_OPTIONS (lit ''A'') \<noteq> None" by (simp add: ACTION_OPTIONS_def)
  moreover have "probe_memory lc_full scope ident (w, lg) = (Inr (lc_probe scope ident), w, lg @ [
      Observe (lifecycle_observation scope ident (situation_of QUERY)) (Inr \<lparr>sr_source_event_ref = lit ''s'', sr_episode_ref = lit ''e''\<rparr>),
      Select (feedback_select scope ident \<lparr>sr_source_event_ref = lit ''s'', sr_episode_ref = lit ''e''\<rparr>) (Inr lc_context)])"
    using lc_probe_dispositions [of scope ident]
    by (simp add: probe_memory_def lc_run lc_probe_def Let_def raise_if_def)
  ultimately show ?thesis
    by (auto simp: feedback_turn_def deliver_probe_def choose_act_def report_feedback_def lc_run lc_probe_def lc_act_def split: option.splits)
qed

definition lc_result :: "pystr \<Rightarrow> lifecycle_case \<Rightarrow> pydict" where
  "lc_result evaluation c =
     (let feedback = kind_value (lc_kind c) @ lit ''-feedback'' in
      feedback_result c [(lit ''seed@1'', lit ''Pause.'')]
        (lc_probe (case lifecycle_scope evaluation (lit ''shared-seed'') feedback of Inr s \<Rightarrow> s | Inl _ \<Rightarrow> empty_scope)
          (lifecycle_identity evaluation (lit ''shared-seed'') feedback))
        (if lc_record_delivery c then lit ''d'' else []) lc_act (case lc_outcome_text c of None \<Rightarrow> [] | Some _ \<Rightarrow> lit ''o'')
        False False [lit ''seed@1''] (lit ''A'') lc_state lc_state)"

lemma lc_basis: "basis_delta lc_state lc_state roles lineages = Inr {}"
proof -
  have "seed_basis lc_state roles = Inr {}" by (simp add: seed_basis_def lc_state_def get_or_def)
  then show ?thesis by (cases lineages) (simp_all add: basis_delta_def)
qed

lemma lc_scope: "\<exists>scope. lifecycle_scope evaluation (lit ''shared-seed'') step = Inr scope"
  by (simp add: lifecycle_scope_def lc_strips Let_def)

lemma lc_case: "\<exists>lg'. run_feedback_case lc_full c evaluation (lit ''shared-seed'') lc_state n (w, lg) = (Inr (lc_result evaluation c), w, lg')"
proof -
  let ?lane = "lit ''shared-seed''" and ?feedback = "kind_value (lc_kind c) @ lit ''-feedback''" and ?delay = "kind_value (lc_kind c) @ lit ''-delayed''"
  obtain scope delayed_scope where scope: "lifecycle_scope evaluation ?lane ?feedback = Inr scope" "lifecycle_scope evaluation ?lane ?delay = Inr delayed_scope"
    using lc_scope by blast
  obtain more where turn: "feedback_turn lc_full c scope (lifecycle_identity evaluation ?lane ?feedback) (w, lg) =
     (Inr (lc_probe scope (lifecycle_identity evaluation ?lane ?feedback), if lc_record_delivery c then lit ''d'' else [], lc_act,
       case lc_outcome_text c of None \<Rightarrow> [] | Some _ \<Rightarrow> lit ''o''), w, lg @ more)" using lc_feedback_turn by blast
  obtain lg' where "delayed_probe lc_full delayed_scope (lifecycle_identity evaluation ?lane ?delay) (w, lg @ more @ [Settle]) =
      (Inr ([lit ''seed@1''], lit ''A''), w, lg')"
    by (simp add: delayed_probe_def lc_run)
  then show ?thesis
    using turn scope lc_basis
    by (simp add: run_feedback_case_def lc_active settling_def bind_call_def pure_call_def logged_def lc_ops raise_if_def Let_def lc_result_def)
qed

lemma lc_formation:
  "\<exists>lg'. form_lifecycle_seed lc_full evaluation (lit ''shared-seed'') 0 (w, lg) = (Inr (lc_state, 2), w, lg')"
  by (simp add: form_lifecycle_seed_def FORMATION_TURNS_def lifecycle_scope_def lc_strips observe_complete_turn_def settling_def lc_active
      bind_call_def pure_call_def logged_def observing_def lc_ops Let_def)

lemma lc_results:
  "result_after (lc_result evaluation c) = lc_state" "get (lc_result evaluation c) (lit ''kind'') = PStr (kind_value (lc_kind c))"
  "get (lc_result evaluation c) (lit ''formed'') = PBool True" "get (lc_result evaluation c) (lit ''rendered'') = PBool True"
  "get (lc_result evaluation c) (lit ''agent_act_expressed_tendency'') = PBool True"
  "get (lc_result evaluation c) (lit ''reenacted'') = PBool False"
  "get (lc_result evaluation c) (lit ''revision_or_inhibition'') = PBool False"
  by (simp_all add: lc_result_def feedback_result_def result_after_def get_def get_or_def lc_probe_dispositions lc_act_def Let_def)

lemma no_surrogate_lit: "\<not> list_ex py_surrogate (lit s)"
  using lit_ascii [of _ s] by (fastforce simp: list_ex_iff py_surrogate_def)

lemma lc_encodable: "encodable (PDict (lc_result evaluation c))"
proof -
  have "\<not> list_ex py_surrogate (kind_value kind)" for kind by (cases kind) (simp_all add: no_surrogate_lit)
  moreover have "\<not> list_ex py_surrogate (the (map_of ACTION_OPTIONS (lit ''A'')))"
    by (simp add: ACTION_OPTIONS_def no_surrogate_lit list_ex_append) (simp add: py_surrogate_def)
  ultimately show ?thesis
    by (simp add: lc_result_def feedback_result_def lc_probe_dispositions lc_act_def lc_state_def lc_probe_fields lc_dispositions no_surrogate_lit Let_def
        split: option.splits)
qed

lemma lc_suite_cases:
  "distinct (map case_file cases) \<Longrightarrow> \<forall>c \<in> set cases. fs (case_file c) = None \<Longrightarrow>
    \<exists>fs' lg'. suite_cases lc_full evaluation lc_state n cases ((w, fs), lg) = (Inr (map (lc_result evaluation) cases), (w, fs'), lg')"
proof (induction cases arbitrary: n fs lg)
  case (Cons c cases)
  obtain lg1 where one: "run_feedback_case lc_full c evaluation (lit ''shared-seed'') lc_state n ((w, fs), lg) = (Inr (lc_result evaluation c), (w, fs), lg1)"
    using lc_case by blast
  let ?fs = "fs(scratch_file (case_file c) := None, case_file c \<mapsto> Val (sort_keys (PDict (lc_result evaluation c))))"
  have "\<forall>c \<in> set cases. ?fs (case_file c) = None" using Cons.prems scratch_distinct(2) [of c] by simp (metis imageI)
  moreover have "distinct (map case_file cases)" using Cons.prems by simp
  ultimately obtain fs' lg' where
    "suite_cases lc_full evaluation lc_state (n + 1) cases ((w, ?fs), lg1) = (Inr (map (lc_result evaluation) cases), (w, fs'), lg')"
    using Cons.IH by blast
  then show ?case
    using one Cons.prems lc_encodable [of evaluation c]
    by (simp add: bind_call_def read_files_def pure_call_def raise_if_def freeze_json_run lc_results(1) del: encodable.simps sort_keys.simps)
qed (simp add: pure_call_def)

lemma lc_collect:
  "distinct (map lc_kind cases) \<Longrightarrow> fst ` set acc \<inter> kind_value ` lc_kind ` set cases = {} \<Longrightarrow>
    foldr_r collect_kind (map (lc_result evaluation) cases) acc = Inr (acc @ map (\<lambda>c. (kind_value (lc_kind c), lc_result evaluation c)) cases)"
proof (induction cases arbitrary: acc)
  case (Cons c cases)
  have "nonblank (PStr (kind_value kind)) (lit ''kind'') = Inr (kind_value kind)" for kind
    by (cases kind) (simp_all add: strip_eval)
  with Cons.prems have "collect_kind (lc_result evaluation c) acc = Inr (acc @ [(kind_value (lc_kind c), lc_result evaluation c)])"
    by (auto simp: collect_kind_def lc_results(2))
  moreover have "fst ` set (acc @ [(kind_value (lc_kind c), lc_result evaluation c)]) \<inter> kind_value ` lc_kind ` set cases = {}"
    using Cons.prems by auto
  ultimately show ?case using Cons.IH [of "acc @ [(kind_value (lc_kind c), lc_result evaluation c)]"] Cons.prems(1) by simp
qed simp

lemma lc_summary:
  "\<exists>summary. summarize_lifecycle (map (lc_result evaluation) ordered_cases) = Inr summary \<and> encodable (PDict summary)"
proof -
  let ?by_kind = "map (\<lambda>c. (kind_value (lc_kind c), lc_result evaluation c)) ordered_cases"
  have "distinct (map lc_kind ordered_cases)" by (simp add: ordered_cases_def lifecycle_cases_def Let_def)
  then have collected: "foldr_r collect_kind (map (lc_result evaluation) ordered_cases) [] = Inr ?by_kind" using lc_collect [of ordered_cases "[]"] by simp
  have proved: "concat (map unproved_fields ?by_kind) = []" by (simp add: unproved_fields_def lc_results)
  have "list_all encodable (map PStr (case_reason ?by_kind kind bad (lit reason)))" for kind bad reason
    by (simp add: case_reason_def no_surrogate_lit split: option.splits)
  then have "list_all encodable (map PStr (lifecycle_reasons ?by_kind))"
    unfolding lifecycle_reasons_def proved map_append list_all_append by (auto simp: no_surrogate_lit)
  moreover have "\<not> list_ex py_surrogate (kind_value kind)" for kind by (cases kind) (simp_all add: no_surrogate_lit)
  then have "list_all encodable (map PStr (map fst ?by_kind))" by (simp add: list_all_iff)
  ultimately show ?thesis by (simp add: summarize_lifecycle_def collected no_surrogate_lit Let_def comp_assoc)
qed

lemma lc_suite:
  "\<exists>summary w' fs' lg'. run_lifecycle_suite lc_env (PStr (lit ''v'')) (PInt 90) (PInt 4) (((), Map.empty), []) = (Inr summary, (w', fs'), lg')"
proof -
  have env: "lc_env\<lparr>le_memory_tokens := 90, le_max_output_tokens := 4\<rparr> = lc_env" by (simp add: lc_env_def)
  obtain lg1 where "form_lifecycle_seed lc_full (lit ''v'') (lit ''shared-seed'') 0 (((), Map.empty), []) = (Inr (lc_state, 2), ((), Map.empty), lg1)"
    using lc_formation by blast
  moreover have "distinct (map case_file ordered_cases)" by (simp add: case_files)
  then obtain fs' lg2 where "suite_cases lc_full (lit ''v'') lc_state 3 ordered_cases (((), Map.empty), lg1) =
      (Inr (map (lc_result (lit ''v'')) ordered_cases), ((), fs'), lg2)" using lc_suite_cases [of ordered_cases Map.empty "lit ''v''" 3 "()" lg1] by auto
  moreover obtain summary where "summarize_lifecycle (map (lc_result (lit ''v'')) ordered_cases) = Inr summary" "encodable (PDict summary)"
    using lc_summary by blast
  ultimately show ?thesis
    by (simp add: run_lifecycle_suite_def validate_run_inputs_def lc_strips env bind_call_def read_files_def pure_call_def freeze_json_run
        Let_def numeral_3_eq_3 numeral_2_eq_2 del: encodable.simps sort_keys.simps)
qed

theorem suite_freezes_witness:
  "\<exists>summary fs' results. summarize_lifecycle results = Inr summary \<and> length results = 4 \<and>
     fs' (lit ''summary.json'') = Some (Val (sort_keys (PDict summary)))"
proof -
  obtain summary w' fs' lg' where
    "run_lifecycle_suite lc_env (PStr (lit ''v'')) (PInt 90) (PInt 4) (((), Map.empty), []) = (Inr summary, (w', fs'), lg')"
    using lc_suite by blast
  from suite_freezes [OF this, of lc_env PNone PNone PNone "()" "[]"] obtain results again where
    "summarize_lifecycle results = Inr summary" "length results = 4" "PDict again = sort_keys (PDict summary)"
    "fs' = (Map.empty |` (- suite_scratch) ++ written (zip (map case_file ordered_cases) results))(lit ''summary.json'' \<mapsto> Val (PDict again))" by auto
  then show ?thesis by (intro exI [of _ summary] exI [of _ fs'] exI [of _ results]) simp
qed

theorem feedback_memory_after_delivery_witness:
  "\<exists>ctx rendered. lifecycle_render lc_full ctx = Inr rendered \<and> rendered_text rendered = lc_text"
proof -
  define c :: lifecycle_case where "c = \<lparr>lc_kind = POSITIVE_COMPLETE, lc_record_delivery = True, lc_outcome_text = None\<rparr>"
  then have c: "c\<lparr>lc_record_delivery := True\<rparr> = c" by simp
  obtain r w' more where "feedback_turn lc_full c empty_scope [] (((), Map.empty), []) = (r, w', [] @ more)"
    "Run (lifecycle_completion lc_full QUERY lc_text) (Inr (PStr (lit ''A''))) \<in> set more"
    using lc_feedback_turn [of c empty_scope "[]" "((), Map.empty)" "[]"] by (auto simp: c_def)
  then show ?thesis using feedback_memory_after_delivery [of lc_full c empty_scope "[]", unfolded c] by fastforce
qed

end
