(* ===== verification/Py_Json.thy ===== *)
theory Py_Json
  imports Py_Data
begin

text \<open>
  The part of Python's \<open>json\<close> module that the evaluation uses: \<open>dumps\<close> with its default separators, with or
  without \<open>ensure_ascii\<close>, and \<open>loads\<close> of a string. A syntax error is \<open>None\<close>; the conversion of a number
  with a fraction or an exponent to a float is a parameter. The interpreter's limits on the nesting of a
  document and on the digits of an integer are not modelled.
\<close>

section \<open>Writing\<close>

definition hex_digit :: "nat \<Rightarrow> nat" where
  "hex_digit n = (if n < 10 then 48 + n else 87 + n)"

definition unicode_escape :: "nat \<Rightarrow> pystr" where
  "unicode_escape c = [92, 117, hex_digit (c div 4096 mod 16), hex_digit (c div 256 mod 16), hex_digit (c div 16 mod 16), hex_digit (c mod 16)]"

definition json_char :: "bool \<Rightarrow> nat \<Rightarrow> pystr" where
  "json_char ensure_ascii c =
     (if c = 34 \<or> c = 92 then [92, c]
      else if c = 10 then [92, 110] else if c = 13 then [92, 114] else if c = 9 then [92, 116]
      else if c = 8 then [92, 98] else if c = 12 then [92, 102]
      else if c < 32 then unicode_escape c
      else if c \<le> 126 \<or> \<not> ensure_ascii then [c]
      else if c < 65536 then unicode_escape c
      else unicode_escape (55296 + (c - 65536) div 1024 mod 1024) @ unicode_escape (56320 + (c - 65536) mod 1024))"

definition json_string :: "bool \<Rightarrow> pystr \<Rightarrow> pystr" where
  "json_string ensure_ascii s = 34 # concat (map (json_char ensure_ascii) s) @ [34]"

definition json_int :: "int \<Rightarrow> pystr" where
  "json_int i = (if i < 0 then 45 # digits (nat (- i)) else digits (nat i))"

fun json_dumps :: "bool \<Rightarrow> pyval \<Rightarrow> pystr" where
  "json_dumps ascii PNone = lit ''null''"
| "json_dumps ascii (PBool b) = (if b then lit ''true'' else lit ''false'')"
| "json_dumps ascii (PInt i) = json_int i"
| "json_dumps ascii (PFloat f) = f"
| "json_dumps ascii (PStr s) = json_string ascii s"
| "json_dumps ascii (PList vs) = 91 # py_join (lit '', '') (map (json_dumps ascii) vs) @ [93]"
| "json_dumps ascii (PDict d) =
     123 # py_join (lit '', '') (map (\<lambda>(k, v). json_string ascii k @ lit '': '' @ json_dumps ascii v) d) @ [125]"

section \<open>Reading strings and numbers\<close>

definition json_space :: "nat \<Rightarrow> bool" where
  "json_space c \<longleftrightarrow> c = 32 \<or> c = 9 \<or> c = 10 \<or> c = 13"

definition skip_space :: "pystr \<Rightarrow> pystr" where
  "skip_space s = dropWhile json_space s"

definition hex_value :: "nat \<Rightarrow> nat option" where
  "hex_value c =
     (if 48 \<le> c \<and> c \<le> 57 then Some (c - 48) else if 97 \<le> c \<and> c \<le> 102 then Some (c - 87)
      else if 65 \<le> c \<and> c \<le> 70 then Some (c - 55) else None)"

fun hex_four :: "pystr \<Rightarrow> (nat \<times> pystr) option" where
  "hex_four (a # b # c # d # rest) = (case (hex_value a, hex_value b, hex_value c, hex_value d) of
     (Some h1, Some h2, Some h3, Some h4) \<Rightarrow> Some (4096 * h1 + 256 * h2 + 16 * h3 + h4, rest)
   | _ \<Rightarrow> None)"
| "hex_four _ = None"

lemma hex_four_length: "hex_four s = Some (n, rest) \<Longrightarrow> length s = length rest + 4"
  by (induction s rule: hex_four.induct) (auto split: option.splits)

text \<open>After a high surrogate, an escaped low surrogate completes the character.\<close>

definition low_surrogate :: "nat \<Rightarrow> pystr \<Rightarrow> (nat \<times> pystr) option" where
  "low_surrogate high s =
     (if 55296 \<le> high \<and> high \<le> 56319 \<and> take 2 s = [92, 117]
      then case hex_four (drop 2 s) of
        None \<Rightarrow> None
      | Some (low, rest) \<Rightarrow>
          if 56320 \<le> low \<and> low \<le> 57343 then Some (65536 + ((high - 55296) * 1024 + (low - 56320)), rest)
          else Some (high, s)
      else Some (high, s))"

lemma low_surrogate_length: "low_surrogate high s = Some (n, rest) \<Longrightarrow> length rest \<le> length s"
  using hex_four_length [of "drop 2 s"] by (auto simp: low_surrogate_def split: if_splits option.splits)

text \<open>The character after a backslash.\<close>

definition simple_escape :: "nat \<Rightarrow> nat option" where
  "simple_escape c = map_of [(34, 34), (92, 92), (47, 47), (98, 8), (102, 12), (110, 10), (114, 13), (116, 9)] c"

text \<open>The contents of a string after its opening quote, and what follows the closing one.\<close>

function scan_string :: "pystr \<Rightarrow> (pystr \<times> pystr) option" where
  "scan_string s = (case s of
     [] \<Rightarrow> None
   | c # rest \<Rightarrow>
       if c = 34 then Some ([], rest)
       else if c < 32 then None
       else if c \<noteq> 92 then (case scan_string rest of None \<Rightarrow> None | Some (t, r) \<Rightarrow> Some (c # t, r))
       else (case rest of
           [] \<Rightarrow> None
         | e # rest' \<Rightarrow>
             if e \<noteq> 117 then (case simple_escape e of
                 None \<Rightarrow> None
               | Some x \<Rightarrow> (case scan_string rest' of None \<Rightarrow> None | Some (t, r) \<Rightarrow> Some (x # t, r)))
             else (case hex_four rest' of
                 None \<Rightarrow> None
               | Some (n, r1) \<Rightarrow> (case low_surrogate n r1 of
                   None \<Rightarrow> None
                 | Some (x, r2) \<Rightarrow> (case scan_string r2 of None \<Rightarrow> None | Some (t, r) \<Rightarrow> Some (x # t, r))))))"
  by pat_completeness auto
termination
  by (relation "measure length") (auto dest!: hex_four_length low_surrogate_length)

declare scan_string.simps [simp del]

lemma scan_string_length: "scan_string s = Some (t, rest) \<Longrightarrow> length rest < length s"
proof (induction "length s" arbitrary: s t rest rule: less_induct)
  case less
  have IH: "length r < length s'" if "length s' < length s" "scan_string s' = Some (u, r)" for s' u r
    using less.hyps that by blast
  from less.prems show ?case
    by (subst (asm) scan_string.simps)
      (auto split: list.splits if_splits option.splits dest!: IH [rotated] hex_four_length low_surrogate_length)
qed

text \<open>A number: an optional minus, digits without a leading zero, an optional fraction and exponent.\<close>

definition digit :: "nat \<Rightarrow> bool" where
  "digit c \<longleftrightarrow> 48 \<le> c \<and> c \<le> 57"

definition scan_digits :: "pystr \<Rightarrow> pystr \<times> pystr" where
  "scan_digits s = (takeWhile digit s, dropWhile digit s)"

definition scan_fraction :: "pystr \<Rightarrow> pystr \<times> pystr" where
  "scan_fraction s = (case s of
     c # rest \<Rightarrow> if c = 46 \<and> takeWhile digit rest \<noteq> [] then (c # takeWhile digit rest, dropWhile digit rest) else ([], s)
   | [] \<Rightarrow> ([], []))"

definition scan_exponent :: "pystr \<Rightarrow> pystr \<times> pystr" where
  "scan_exponent s = (case s of
     c # rest \<Rightarrow>
       let sign = (case rest of x # _ \<Rightarrow> if x = 43 \<or> x = 45 then [x] else [] | [] \<Rightarrow> []);
           ds = takeWhile digit (drop (length sign) rest) in
       if (c = 101 \<or> c = 69) \<and> ds \<noteq> [] then (c # sign @ ds, dropWhile digit (drop (length sign) rest)) else ([], s)
   | [] \<Rightarrow> ([], []))"

definition number_sign :: "pystr \<Rightarrow> pystr" where
  "number_sign s = (case s of c # _ \<Rightarrow> if c = 45 then [c] else [] | [] \<Rightarrow> [])"

definition integer_part :: "pystr \<Rightarrow> pystr \<times> pystr" where
  "integer_part s = (case s of c # rest \<Rightarrow> if c = 48 then ([c], rest) else scan_digits s | [] \<Rightarrow> ([], []))"

definition scan_number :: "(pystr \<Rightarrow> pyval) \<Rightarrow> pystr \<Rightarrow> (pyval \<times> pystr) option" where
  "scan_number float_of s =
     (let sign = number_sign s; (ds, rest) = integer_part (drop (length sign) s) in
      if ds = [] then None
      else let (fraction, rest1) = scan_fraction rest; (exponent, rest2) = scan_exponent rest1 in
        if fraction = [] \<and> exponent = []
        then Some (PInt (if sign = [] then int (undigits ds) else - int (undigits ds)), rest)
        else Some (float_of (sign @ ds @ fraction @ exponent), rest2))"

section \<open>Reading values\<close>

text \<open>\<open>float_of\<close> also gives \<open>NaN\<close>, \<open>Infinity\<close> and \<open>-Infinity\<close>.\<close>

definition constants :: "(pystr \<Rightarrow> pyval) \<Rightarrow> (pystr \<times> pyval) list" where
  "constants float_of = [(lit ''null'', PNone), (lit ''true'', PBool True), (lit ''false'', PBool False),
     (lit ''NaN'', float_of (lit ''NaN'')), (lit ''Infinity'', float_of (lit ''Infinity'')),
     (lit ''-Infinity'', float_of (lit ''-Infinity''))]"

definition scan_constant :: "(pystr \<Rightarrow> pyval) \<Rightarrow> pystr \<Rightarrow> (pyval \<times> pystr) option" where
  "scan_constant float_of s = map_option (\<lambda>(word, v). (v, drop (length word) s))
     (find (\<lambda>(word, _). startswith s word) (constants float_of))"

lemma skip_space_length: "length (skip_space s) \<le> length s"
  by (simp add: skip_space_def length_dropWhile_le)

text \<open>One value, the rest of a list after its bracket, and the rest of an object; a repeated key keeps its place and
  takes the last value. What follows a value is shorter than what it was read from, which the two loops
  test so that they are seen to end.\<close>

function scan_value :: "(pystr \<Rightarrow> pyval) \<Rightarrow> pystr \<Rightarrow> (pyval \<times> pystr) option"
  and scan_elements :: "(pystr \<Rightarrow> pyval) \<Rightarrow> pystr \<Rightarrow> (pyval list \<times> pystr) option"
  and scan_members :: "(pystr \<Rightarrow> pyval) \<Rightarrow> pydict \<Rightarrow> pystr \<Rightarrow> (pydict \<times> pystr) option" where
  "scan_value float_of s = (case s of
     [] \<Rightarrow> None
   | c # rest \<Rightarrow>
       if c = 34 then map_option (\<lambda>(t, r). (PStr t, r)) (scan_string rest)
       else if c = 123 then (case skip_space rest of
           [] \<Rightarrow> None
         | x # r \<Rightarrow> if x = 125 then Some (PDict [], r)
             else map_option (\<lambda>(d, r). (PDict d, r)) (scan_members float_of [] (skip_space rest)))
       else if c = 91 then (case skip_space rest of
           [] \<Rightarrow> None
         | x # r \<Rightarrow> if x = 93 then Some (PList [], r)
             else map_option (\<lambda>(vs, r). (PList vs, r)) (scan_elements float_of (skip_space rest)))
       else (case scan_constant float_of s of Some found \<Rightarrow> Some found | None \<Rightarrow> scan_number float_of s))"
| "scan_elements float_of s = (case scan_value float_of s of
     None \<Rightarrow> None
   | Some (v, r) \<Rightarrow>
       if length r < length s
       then (case skip_space r of
           [] \<Rightarrow> None
         | x # r' \<Rightarrow>
             if x = 93 then Some ([v], r')
             else if x = 44 then map_option (\<lambda>(vs, q). (v # vs, q)) (scan_elements float_of (skip_space r'))
             else None)
       else None)"
| "scan_members float_of d s = (case s of
     [] \<Rightarrow> None
   | c # rest \<Rightarrow>
       if c \<noteq> 34 then None
       else (case scan_string rest of
           None \<Rightarrow> None
         | Some (key, r) \<Rightarrow> (case skip_space r of
             [] \<Rightarrow> None
           | x # r1 \<Rightarrow>
               if x \<noteq> 58 \<or> \<not> length r < length rest then None
               else (case scan_value float_of (skip_space r1) of
                   None \<Rightarrow> None
                 | Some (v, r2) \<Rightarrow>
                     if length r2 < length s
                     then (case skip_space r2 of
                         [] \<Rightarrow> None
                       | y # r3 \<Rightarrow>
                           if y = 125 then Some (AList.update key v d, r3)
                           else if y = 44 then scan_members float_of (AList.update key v d) (skip_space r3)
                           else None)
                     else None))))"
  by pat_completeness auto
termination
proof (relation "measure (\<lambda>x. case x of Inl (_, s) \<Rightarrow> 2 * length s | Inr (Inl (_, s)) \<Rightarrow> 2 * length s + 1 | Inr (Inr (_, _, s)) \<Rightarrow> 2 * length s + 1)",
    goal_cases)
  case 1
  then show ?case by simp
next
  case (2 float_of s c rest x r)
  have "length (skip_space rest) \<le> length rest" by (rule skip_space_length)
  with 2 show ?case by simp
next
  case (3 float_of s c rest x r)
  have "length (skip_space rest) \<le> length rest" by (rule skip_space_length)
  with 3 show ?case by simp
next
  case (4 float_of s)
  then show ?case by simp
next
  case (5 float_of s p v r x r')
  have "length (skip_space r) \<le> length r" "length (skip_space r') \<le> length r'" by (rule skip_space_length)+
  with 5 show ?case by simp
next
  case (6 float_of d s c rest p key r x r1)
  have "length (skip_space r) \<le> length r" "length (skip_space r1) \<le> length r1" by (rule skip_space_length)+
  with 6 show ?case by simp
next
  case (7 float_of d s c rest p key r x r1 q v r2 y r3)
  have "length (skip_space r2) \<le> length r2" "length (skip_space r3) \<le> length r3" by (rule skip_space_length)+
  with 7 show ?case by simp
qed

declare scan_value.simps [simp del] scan_elements.simps [simp del] scan_members.simps [simp del]

text \<open>\<open>json.loads\<close> of a string.\<close>

definition json_loads :: "(pystr \<Rightarrow> pyval) \<Rightarrow> pystr \<Rightarrow> pyval option" where
  "json_loads float_of s =
     (if startswith s [65279] then None
      else case scan_value float_of (skip_space s) of
        Some (v, rest) \<Rightarrow> if skip_space rest = [] then Some v else None
      | None \<Rightarrow> None)"

section \<open>Text streams\<close>

text \<open>A text stream reads \<open>\r\n\<close> and \<open>\r\<close> as a line feed; \<open>readline()\<close>, and the lines that iterating gives.\<close>

fun universal_newlines :: "pystr \<Rightarrow> pystr" where
  "universal_newlines [] = []"
| "universal_newlines (c # s) =
     (if c = 13 then 10 # universal_newlines (if s \<noteq> [] \<and> hd s = 10 then tl s else s) else c # universal_newlines s)"

definition readline :: "pystr \<Rightarrow> pystr" where
  "readline stream = (let s = universal_newlines stream in
     takeWhile (\<lambda>c. c \<noteq> 10) s @ (if 10 \<in> set s then [10] else []))"

fun lines_keep :: "pystr \<Rightarrow> pystr list" where
  "lines_keep [] = []"
| "lines_keep (c # s) = (if c = 10 then [c] # lines_keep s else cons_head c (lines_keep s))"

definition stream_lines :: "pystr \<Rightarrow> pystr list" where
  "stream_lines stream = lines_keep (universal_newlines stream)"

section \<open>The loops consume what they read\<close>

lemma scan_constant_length: "scan_constant float_of s = Some (v, r) \<Longrightarrow> length r < length s"
  by (auto simp: scan_constant_def constants_def startswith_iff split: if_splits)

lemma scan_fraction_length: "scan_fraction s = (a, r) \<Longrightarrow> length r \<le> length s"
  by (auto simp: scan_fraction_def le_SucI length_dropWhile_le split: list.splits if_splits)

lemma scan_exponent_length: "scan_exponent s = (a, r) \<Longrightarrow> length r \<le> length s"
proof -
  have "length (dropWhile digit xs) \<le> Suc (length xs)" "length (dropWhile digit xs) \<le> Suc (Suc (length xs))" for xs :: pystr
    by (rule order_trans [OF length_dropWhile_le], simp)+
  then show "scan_exponent s = (a, r) \<Longrightarrow> length r \<le> length s"
    by (auto simp: scan_exponent_def Let_def le_SucI split: list.splits if_splits)
qed

lemma integer_part_length: "integer_part s = (ds, r) \<Longrightarrow> ds \<noteq> [] \<Longrightarrow> length r < length s"
  using length_dropWhile_le [of digit]
  by (auto simp: integer_part_def scan_digits_def less_Suc_eq_le split: list.splits if_splits)

lemma scan_number_length: "scan_number float_of s = Some (v, r) \<Longrightarrow> length r < length s"
proof -
  assume run: "scan_number float_of s = Some (v, r)"
  obtain ds rest where ds: "integer_part (drop (length (number_sign s)) s) = (ds, rest)"
    by (cases "integer_part (drop (length (number_sign s)) s)")
  obtain fr r1 where fr: "scan_fraction rest = (fr, r1)" by (cases "scan_fraction rest")
  obtain ex r2 where ex: "scan_exponent r1 = (ex, r2)" by (cases "scan_exponent r1")
  from run ds fr ex have "ds \<noteq> []" "r = rest \<or> r = r2"
    by (auto simp: scan_number_def Let_def split: if_splits)
  then show ?thesis
    using integer_part_length [OF ds] scan_fraction_length [OF fr] scan_exponent_length [OF ex] by auto
qed

text \<open>So the tests in the two loops never fail.\<close>

lemma skip_space_Cons: "skip_space s = x # r \<Longrightarrow> length r < length s"
  using skip_space_length [of s] by simp

lemma scan_length:
  "scan_value float_of s = Some (v, r) \<Longrightarrow> length r < length s"
  "scan_elements float_of s = Some (vs, r) \<Longrightarrow> length r < length s"
  "scan_members float_of d s = Some (d', r) \<Longrightarrow> length r < length s"
proof (induction float_of s and float_of s and float_of d s arbitrary: v r and vs r and d' r
    rule: scan_value_scan_elements_scan_members.induct)
  case (1 float_of s)
  from "1.prems" "1.IH" show ?case
    by (subst (asm) scan_value.simps)
      (fastforce split: list.splits if_splits option.splits
        dest!: skip_space_Cons scan_string_length scan_constant_length scan_number_length)
next
  case (2 float_of s)
  from "2.prems" obtain v r1 x r2 where v: "scan_value float_of s = Some (v, r1)" "length r1 < length s" "skip_space r1 = x # r2"
    and "x = 93 \<and> r = r2 \<or> x = 44 \<and> (\<exists>vs. scan_elements float_of (skip_space r2) = Some (vs, r))"
    by (subst (asm) scan_elements.simps) (auto split: list.splits if_splits option.splits)
  then show ?case
  proof (elim disjE exE conjE)
    fix vs' assume x: "x = 44" "scan_elements float_of (skip_space r2) = Some (vs', r)"
    with v have "length r < length (skip_space r2)" using "2.IH"(2) [OF v(1) refl v(2,3)] by simp
    with v skip_space_Cons [OF v(3)] skip_space_length [of r2] show ?case by linarith
  qed (use v skip_space_Cons [OF v(3)] in simp)
next
  case (3 float_of d s)
  from "3.prems" obtain rest key r1 x r2 v r3 y r4 where s: "s = 34 # rest" "scan_string rest = Some (key, r1)"
      "skip_space r1 = x # r2" "\<not> (x \<noteq> 58 \<or> \<not> length r1 < length rest)"
      "scan_value float_of (skip_space r2) = Some (v, r3)" "length r3 < length s" "skip_space r3 = y # r4"
    and "y = 125 \<and> r = r4 \<or> y = 44 \<and> scan_members float_of (AList.update key v d) (skip_space r4) = Some (d', r)"
    by (subst (asm) scan_members.simps) (auto split: list.splits if_splits option.splits)
  then show ?case
  proof (elim disjE conjE)
    assume y: "y = 44" "scan_members float_of (AList.update key v d) (skip_space r4) = Some (d', r)"
    have "length r < length (skip_space r4)"
      using "3.IH"(2) [OF s(1) _ s(2) refl s(3,4,5) refl s(6,7)] y by simp
    with s skip_space_Cons [OF s(7)] skip_space_length [of r4] show ?case by linarith
  qed (use s skip_space_Cons [OF s(7)] in simp)
qed

section \<open>What is written is read back\<close>

lemma hex_value_digit: "n < 16 \<Longrightarrow> hex_value (hex_digit n) = Some n"
  by (auto simp: hex_value_def hex_digit_def)

lemma hex_four_escape: "c < 65536 \<Longrightarrow> hex_four (drop 2 (unicode_escape c) @ rest) = Some (c, rest)"
proof -
  assume c: "c < 65536"
  have "c div 16 div 16 = c div 256" "c div 256 div 16 = c div 4096" by (simp_all add: div_mult2_eq [symmetric])
  then have "c = 16 * (c div 16) + c mod 16" "c div 16 = 16 * (c div 256) + c div 16 mod 16"
    "c div 256 = 16 * (c div 4096) + c div 256 mod 16"
    by (metis mult_div_mod_eq)+
  then have "4096 * (c div 4096) + 256 * (c div 256 mod 16) + 16 * (c div 16 mod 16) + c mod 16 = c" by linarith
  with c show ?thesis by (simp add: unicode_escape_def hex_value_digit)
qed

lemma scan_string_quote: "scan_string (34 # rest) = Some ([], rest)"
  by (subst scan_string.simps) simp

lemma scan_string_char:
  "scan_string (json_char False c @ s) = map_option (\<lambda>(t, r). (c # t, r)) (scan_string s)"
proof -
  consider "c \<in> {34, 92, 10, 13, 9, 8, 12}" | "c < 32" "c \<notin> {34, 92, 10, 13, 9, 8, 12}" | "32 \<le> c" "c \<notin> {34, 92, 10, 13, 9, 8, 12}"
    by linarith
  then show ?thesis
  proof cases
    case 1
    then show ?thesis by (auto simp: json_char_def scan_string.simps [of "_ # _"] simple_escape_def split: option.splits)
  next
    case 2
    have u: "unicode_escape c = 92 # 117 # drop 2 (unicode_escape c)" by (simp add: unicode_escape_def)
    from 2 have "json_char False c = unicode_escape c" by (auto simp: json_char_def)
    moreover have "hex_four (drop 2 (unicode_escape c) @ s) = Some (c, s)" using 2 by (intro hex_four_escape) simp
    moreover have "low_surrogate c s = Some (c, s)" using 2 by (simp add: low_surrogate_def)
    ultimately have "scan_string (92 # 117 # (drop 2 (unicode_escape c) @ s)) = map_option (\<lambda>(t, r). (c # t, r)) (scan_string s)"
      by (subst scan_string.simps) (auto split: option.splits)
    moreover have "92 # 117 # (drop 2 (unicode_escape c) @ s) = json_char False c @ s"
      using u \<open>json_char False c = unicode_escape c\<close> by (metis append_Cons)
    ultimately show ?thesis by simp
  next
    case 3
    then have "json_char False c = [c]" by (auto simp: json_char_def)
    with 3 show ?thesis by (auto simp: scan_string.simps [of "_ # _"] split: option.splits)
  qed
qed

lemma scan_string_written: "scan_string (concat (map (json_char False) t) @ 34 # rest) = Some (t, rest)"
  by (induction t) (simp_all add: scan_string_quote scan_string_char)

lemma takeWhile_digits: "rest = [] \<or> \<not> digit (hd rest) \<Longrightarrow> takeWhile digit (digits n @ rest) = digits n"
proof -
  assume "rest = [] \<or> \<not> digit (hd rest)"
  then have "takeWhile digit rest = []" by (cases rest) auto
  moreover have "\<And>c. c \<in> set (digits n) \<Longrightarrow> digit c" using digits_range by (auto simp: digit_def)
  ultimately show ?thesis by (simp add: takeWhile_append2)
qed

lemma dropWhile_digits: "rest = [] \<or> \<not> digit (hd rest) \<Longrightarrow> dropWhile digit (digits n @ rest) = rest"
proof -
  assume "rest = [] \<or> \<not> digit (hd rest)"
  then have "dropWhile digit rest = rest" by (cases rest) auto
  moreover have "\<And>c. c \<in> set (digits n) \<Longrightarrow> digit c" using digits_range by (auto simp: digit_def)
  ultimately show ?thesis by (simp add: dropWhile_append2)
qed

lemma digits_lead: "hd (digits n) = 48 \<longleftrightarrow> n = 0"
proof (induction n rule: digits.induct)
  case (1 n)
  then show ?case by (subst digits.simps) (auto simp: digits_not_Nil)
qed

lemma startswith_lit_Cons: "startswith (c # s) (lit (x # xs)) \<longleftrightarrow> c = of_char x \<and> startswith s (lit xs)"
  by (auto simp: startswith_def lit_def)

text \<open>What may follow a number without becoming part of it.\<close>

definition number_end :: "pystr \<Rightarrow> bool" where
  "number_end rest \<longleftrightarrow> rest = [] \<or> \<not> digit (hd rest) \<and> hd rest \<notin> {46, 101, 69}"

lemma integer_part_written: "number_end rest \<Longrightarrow> integer_part (digits n @ rest) = (digits n, rest)"
proof -
  assume rest: "number_end rest"
  obtain c cs where c: "digits n = c # cs" using digits_not_Nil by (cases "digits n") blast+
  show ?thesis
  proof (cases "n = 0")
    case True
    then have "digits n = [48]" by (subst digits.simps) simp
    then show ?thesis by (simp add: integer_part_def)
  next
    case False
    then have "c \<noteq> 48" using digits_lead [of n] c by simp
    moreover have "takeWhile digit (digits n @ rest) = digits n" "dropWhile digit (digits n @ rest) = rest"
      using rest by (intro takeWhile_digits dropWhile_digits; auto simp: number_end_def)+
    ultimately show ?thesis using c by (simp add: integer_part_def scan_digits_def)
  qed
qed

lemma scan_number_written: "number_end rest \<Longrightarrow> scan_number float_of (json_int i @ rest) = Some (PInt i, rest)"
proof -
  assume rest: "number_end rest"
  obtain c cs where c: "digits (nat i) = c # cs" using digits_not_Nil by (cases "digits (nat i)") blast+
  then have "48 \<le> c" using digits_range [of c "nat i"] by simp
  with c have "number_sign (digits (nat i) @ rest) = []" by (simp add: number_sign_def)
  moreover have "scan_fraction rest = ([], rest)" "scan_exponent rest = ([], rest)"
    using rest by (cases rest; auto simp: number_end_def scan_fraction_def scan_exponent_def)+
  moreover have "number_sign (45 # digits (nat (- i)) @ rest) = [45]" by (simp add: number_sign_def)
  ultimately show ?thesis
    using rest by (auto simp: scan_number_def json_int_def integer_part_written Let_def)
qed

lemma scan_value_int: "number_end rest \<Longrightarrow> scan_value float_of (json_int i @ rest) = Some (PInt i, rest)"
proof -
  assume rest: "number_end rest"
  obtain c cs where c: "json_int i = c # cs" "c = 45 \<or> 48 \<le> c \<and> c \<le> 57" "c = 45 \<Longrightarrow> cs \<noteq> [] \<and> 48 \<le> hd cs \<and> hd cs \<le> 57"
  proof (cases "i < 0")
    case True
    then show thesis
      using digits_range [of _ "nat (- i)"] hd_in_set [OF digits_not_Nil] that [of 45 "digits (nat (- i))"]
      by (simp add: json_int_def)
  next
    case False
    obtain c cs where "digits (nat i) = c # cs" using digits_not_Nil by (cases "digits (nat i)") blast+
    with False digits_range [of c "nat i"] show thesis by (intro that [of c cs]) (auto simp: json_int_def)
  qed
  have "scan_constant float_of (json_int i @ rest) = None"
    using c by (cases cs) (auto simp: scan_constant_def constants_def startswith_lit_Cons)
  then show ?thesis
    using c(1,2) scan_number_written [OF rest, of float_of i]
    by (subst scan_value.simps) auto
qed

text \<open>Values without floats, whose objects have distinct keys as a dict has.\<close>

fun exact_value :: "pyval \<Rightarrow> bool" where
  "exact_value (PFloat f) \<longleftrightarrow> False"
| "exact_value (PList vs) \<longleftrightarrow> list_all exact_value vs"
| "exact_value (PDict d) \<longleftrightarrow> distinct (map fst d) \<and> list_all (\<lambda>(k, v). exact_value v) d"
| "exact_value _ \<longleftrightarrow> True"

lemma dumps_head: "exact_value v \<Longrightarrow> \<exists>c s. json_dumps False v = c # s \<and> \<not> json_space c \<and> c \<noteq> 93 \<and> c \<noteq> 125 \<and> c < 128"
proof (cases v)
  case (PInt i)
  show ?thesis
  proof (cases "i < 0")
    case True
    then show ?thesis by (simp add: PInt json_int_def json_space_def)
  next
    case False
    obtain c cs where "digits (nat i) = c # cs" using digits_not_Nil by (cases "digits (nat i)") blast+
    with False digits_range [of c "nat i"] show ?thesis by (auto simp: PInt json_int_def json_space_def)
  qed
qed (auto simp: json_string_def json_space_def lit_def)

lemma skip_space_dumps: "exact_value v \<Longrightarrow> skip_space (json_dumps False v @ rest) = json_dumps False v @ rest"
  using dumps_head [of v] by (auto simp: skip_space_def)

lemma skip_space_separator: "exact_value v \<Longrightarrow> skip_space (32 # json_dumps False v @ rest) = json_dumps False v @ rest"
  using skip_space_dumps [of v rest] by (simp add: skip_space_def json_space_def)

lemma number_end_after: "number_end (93 # rest)" "number_end (125 # rest)" "number_end (44 # rest)"
  by (simp_all add: number_end_def digit_def)

lemma py_join_Cons: "py_join sep (x # xs) @ rest = x @ (if xs = [] then rest else sep @ py_join sep xs @ rest)"
  by (cases xs) simp_all

definition reads_back :: "(pystr \<Rightarrow> pyval) \<Rightarrow> pyval \<Rightarrow> bool" where
  "reads_back float_of v \<longleftrightarrow> (\<forall>rest. number_end rest \<longrightarrow> scan_value float_of (json_dumps False v @ rest) = Some (v, rest))"

lemma scan_elements_written:
  assumes "vs \<noteq> []" "list_all exact_value vs" "list_all (reads_back float_of) vs"
  shows "scan_elements float_of (py_join (lit '', '') (map (json_dumps False) vs) @ 93 # rest) = Some (vs, rest)"
  using assms
proof (induction vs)
  case (Cons v vs)
  from Cons.prems have read: "number_end r \<Longrightarrow> scan_value float_of (json_dumps False v @ r) = Some (v, r)" for r
    by (simp add: reads_back_def)
  obtain c s where c: "json_dumps False v = c # s" using Cons.prems dumps_head [of v] by auto
  show ?case
  proof (cases vs)
    case Nil
    then show ?thesis
      using read [OF number_end_after(1), of rest] c
      by (subst scan_elements.simps) (simp add: skip_space_def json_space_def)
  next
    case (Cons w ws)
    let ?tail = "py_join (lit '', '') (map (json_dumps False) vs) @ 93 # rest"
    have IH: "scan_elements float_of ?tail = Some (vs, rest)" using Cons.IH Cons.prems Cons by simp
    have split: "py_join (lit '', '') (map (json_dumps False) (v # vs)) @ 93 # rest = json_dumps False v @ 44 # 32 # ?tail"
      unfolding list.map py_join_Cons using Cons by (simp add: lit_def)
    have "exact_value w" using Cons Cons.prems by simp
    then have "skip_space (32 # ?tail) = ?tail"
      unfolding Cons list.map py_join_Cons by (rule skip_space_separator)
    moreover have "skip_space (44 # 32 # ?tail) = 44 # 32 # ?tail" by (simp add: skip_space_def json_space_def)
    ultimately show ?thesis
      unfolding split using read [OF number_end_after(3), of "32 # ?tail"] IH c
      by (subst scan_elements.simps) simp
  qed
qed simp

definition member_text :: "pystr \<times> pyval \<Rightarrow> pystr" where
  "member_text = (\<lambda>(k, v). json_string False k @ lit '': '' @ json_dumps False v)"

lemma scan_members_written:
  assumes "d \<noteq> []" "list_all (\<lambda>(k, v). exact_value v) d" "list_all (\<lambda>(k, v). reads_back float_of v) d"
  shows "scan_members float_of e (py_join (lit '', '') (map member_text d) @ 125 # rest) =
    Some (foldl (\<lambda>e (k, v). AList.update k v e) e d, rest)"
  using assms
proof (induction d arbitrary: e)
  case (Cons kv d)
  obtain k v where kv: "kv = (k, v)" by (cases kv)
  from Cons.prems kv have read: "number_end r \<Longrightarrow> scan_value float_of (json_dumps False v @ r) = Some (v, r)" for r
    by (simp add: reads_back_def)
  have exact: "exact_value v" using Cons.prems kv by simp
  have key: "scan_string (concat (map (json_char False) k) @ 34 # r) = Some (k, r)" for r by (rule scan_string_written)
  have text_of: "member_text (k, v) @ r = 34 # concat (map (json_char False) k) @ 34 # 58 # 32 # json_dumps False v @ r" for r
    by (simp add: member_text_def kv json_string_def lit_def)
  have colon: "skip_space (58 # r) = 58 # r" and close: "skip_space (125 # r) = 125 # r" and comma: "skip_space (44 # r) = 44 # r"
    and quote: "skip_space (34 # r) = 34 # r" for r by (simp_all add: skip_space_def json_space_def)
  show ?case
  proof (cases d)
    case Nil
    have single: "py_join (lit '', '') (map member_text (kv # d)) @ 125 # rest = member_text (k, v) @ 125 # rest"
      using Nil by (simp add: kv)
    show ?thesis
      unfolding single using read [OF number_end_after(2), of rest] Nil
      by (subst scan_members.simps) (simp add: text_of key colon close skip_space_separator [OF exact] kv)
  next
    case (Cons kv' d')
    let ?tail = "py_join (lit '', '') (map member_text d) @ 125 # rest"
    have IH: "scan_members float_of (AList.update k v e) ?tail = Some (foldl (\<lambda>e (k, v). AList.update k v e) (AList.update k v e) d, rest)"
      using Cons.IH Cons.prems Cons by simp
    have split: "py_join (lit '', '') (map member_text (kv # d)) @ 125 # rest = member_text (k, v) @ 44 # 32 # ?tail"
      unfolding list.map py_join_Cons using Cons by (simp add: lit_def kv)
    have "\<exists>r. ?tail = 34 # r" unfolding Cons list.map py_join_Cons by (simp add: member_text_def json_string_def split_def)
    then have "skip_space (32 # ?tail) = ?tail" by (auto simp: skip_space_def json_space_def)
    then show ?thesis
      unfolding split using read [OF number_end_after(3), of "32 # ?tail"] IH
      by (subst scan_members.simps) (simp add: text_of key colon comma skip_space_separator [OF exact] kv)
  qed
qed simp

lemma foldl_update_new:
  "distinct (map fst d) \<Longrightarrow> fst ` set e \<inter> fst ` set d = {} \<Longrightarrow> foldl (\<lambda>e (k, v). AList.update k v e) e d = e @ d"
proof (induction d arbitrary: e)
  case (Cons kv d)
  obtain k v where kv: "kv = (k, v)" by (cases kv)
  have "AList.update k v e = e @ [(k, v)]" if "k \<notin> fst ` set e" for e :: "('a \<times> 'b) list"
    using that by (induction e) auto
  with Cons kv show ?case by simp
qed simp

lemma reads_back_exact: "exact_value v \<Longrightarrow> reads_back float_of v"
proof (induction v)
  case (PInt i)
  then show ?case by (simp add: reads_back_def scan_value_int)
next
  case (PList vs)
  then have all: "list_all exact_value vs" "list_all (reads_back float_of) vs" by (auto simp: list_all_iff)
  show ?case unfolding reads_back_def
  proof (intro allI impI)
    fix rest
    show "scan_value float_of (json_dumps False (PList vs) @ rest) = Some (PList vs, rest)"
    proof (cases vs)
      case Nil
      then show ?thesis by (subst scan_value.simps) (simp add: skip_space_def json_space_def)
    next
      case (Cons w ws)
      let ?body = "py_join (lit '', '') (map (json_dumps False) vs) @ 93 # rest"
      have "exact_value w" using all Cons by simp
      then have "skip_space ?body = ?body" unfolding Cons list.map py_join_Cons by (rule skip_space_dumps)
      moreover obtain c s where "?body = c # s" "c \<noteq> 93"
        using dumps_head [OF \<open>exact_value w\<close>] unfolding Cons list.map py_join_Cons by auto
      ultimately show ?thesis
        using scan_elements_written [OF _ all, of rest] Cons
        by (subst scan_value.simps) (simp del: list.map)
    qed
  qed
next
  case (PDict d)
  then have all: "list_all (\<lambda>(k, v). exact_value v) d" "list_all (\<lambda>(k, v). reads_back float_of v) d" and "distinct (map fst d)"
    by (fastforce simp: list_all_iff)+
  then have new: "foldl (\<lambda>e (k, v). AList.update k v e) [] d = d" by (simp add: foldl_update_new)
  show ?case unfolding reads_back_def
  proof (intro allI impI)
    fix rest
    have text_of: "json_dumps False (PDict d) @ rest = 123 # py_join (lit '', '') (map member_text d) @ 125 # rest"
      by (simp add: member_text_def)
    show "scan_value float_of (json_dumps False (PDict d) @ rest) = Some (PDict d, rest)"
    proof (cases d)
      case Nil
      then show ?thesis unfolding text_of by (subst scan_value.simps) (simp add: skip_space_def json_space_def)
    next
      case (Cons kv d')
      let ?body = "py_join (lit '', '') (map member_text d) @ 125 # rest"
      have "\<exists>r. ?body = 34 # r" unfolding Cons list.map py_join_Cons by (simp add: member_text_def json_string_def split_def)
      then obtain r where r: "?body = 34 # r" by blast
      then have "skip_space ?body = 34 # r" by (simp add: skip_space_def json_space_def)
      with r show ?thesis
        unfolding text_of using scan_members_written [OF _ all, of "[]" rest] Cons new
        by (subst scan_value.simps) (simp del: list.map)
    qed
  qed
qed (auto simp: reads_back_def json_string_def scan_string_written scan_constant_def constants_def scan_value.simps [of _ "_ # _"] lit_def startswith_def)

lemma json_loads_dumps:
  assumes "exact_value v" "number_end rest" "skip_space rest = []"
  shows "json_loads float_of (json_dumps False v @ rest) = Some v"
proof -
  have "\<not> startswith (json_dumps False v @ rest) [65279]"
    using dumps_head [OF assms(1)] by (auto simp: startswith_def)
  then show ?thesis
    using assms reads_back_exact [OF assms(1)]
    by (simp add: json_loads_def skip_space_dumps reads_back_def)
qed

end
