(* ===== verification/Eval_Index.thy ===== *)
theory Eval_Index
  imports Complex_Main "HOL-Library.Product_Lexorder" Py_Json Py_Effects
begin

text \<open>
  src/eval/python/src/memory_core_eval/local_memory_index.py: the reproducible provider of the
  MemoryIndex service. Documents are cut into chunks of tokens, embedded and stored with the identity
  they belong to; a search ranks the identities of one scope by exact cosine distance. The tokenizer, the
  encoder, SHA-256, the Chroma collection and the log file are parameters. The lock makes every handler
  one step. An embedding is a list of real numbers, with \<open>None\<close> for a value that is not finite, and a
  distance is exact rather than rounded to a float.
\<close>

section \<open>Chunks\<close>

definition CHUNK_TOKENS :: int where "CHUNK_TOKENS = 220"
definition OVERLAP_TOKENS :: int where "OVERLAP_TOKENS = 32"

text \<open>\<open>text[a:b]\<close> for positions that are not negative.\<close>

definition slice :: "'a list \<Rightarrow> nat \<Rightarrow> nat \<Rightarrow> 'a list" where
  "slice xs a b = take (b - a) (drop a xs)"

text \<open>The loop over \<open>range(start, len(offsets), step)\<close>; the checks before it make the step positive.\<close>

function chunk_loop :: "pystr \<Rightarrow> (nat \<times> nat) list \<Rightarrow> nat \<Rightarrow> nat \<Rightarrow> nat \<Rightarrow> pystr list" where
  "chunk_loop txt offsets chunk step start =
     (if start < length offsets \<and> 0 < step
      then let stop = min (start + chunk) (length offsets) in
           slice txt (fst (offsets ! start)) (snd (offsets ! (stop - 1))) #
           (if stop = length offsets then [] else chunk_loop txt offsets chunk step (start + step))
      else [])"
  by pat_completeness auto
termination by (relation "measure (\<lambda>(txt, offsets, chunk, step, start). length offsets - start)") auto

declare chunk_loop.simps [simp del]

definition chunk_text :: "(pystr \<Rightarrow> (nat \<times> nat) list result) \<Rightarrow> pystr \<Rightarrow> int \<Rightarrow> int \<Rightarrow> pystr list result" where
  "chunk_text encode txt chunk_tokens overlap_tokens =
     bindr (raise_if (chunk_tokens \<le> 0) (ValueError (lit ''chunk_tokens must be positive''))) (\<lambda>_.
     bindr (raise_if (overlap_tokens < 0 \<or> chunk_tokens \<le> overlap_tokens)
        (ValueError (lit ''overlap_tokens must be in [0, chunk_tokens)''))) (\<lambda>_.
     bindr (encode txt) (\<lambda>offsets.
     if offsets = [] then Inr [txt]
     else Inr (chunk_loop txt offsets (nat chunk_tokens) (nat (chunk_tokens - overlap_tokens)) 0))))"

section \<open>The embedded projection\<close>

text \<open>\<open>s.splitlines(keepends=True)\<close>.\<close>

fun splitlines_keep :: "pystr \<Rightarrow> pystr list" where
  "splitlines_keep [] = []"
| "splitlines_keep (x # xs) =
     (if x = 13 \<and> xs \<noteq> [] \<and> hd xs = 10 then [13, 10] # splitlines_keep (tl xs)
      else if py_linebreak x then [x] # splitlines_keep xs
      else cons_head x (splitlines_keep xs))"

definition removesuffix :: "pystr \<Rightarrow> pystr \<Rightarrow> pystr" where
  "removesuffix s p = (if p \<noteq> [] \<and> endswith s p then take (length s - length p) s else s)"

definition without_line_end :: "pystr \<Rightarrow> pystr" where
  "without_line_end l = removesuffix (removesuffix l [10]) [13]"

definition rstrip_crlf :: "pystr \<Rightarrow> pystr" where
  "rstrip_crlf l = rstrip_on (\<lambda>c. c = 13 \<or> c = 10) l"

definition replace_line :: "pystr \<Rightarrow> pystr \<Rightarrow> pystr" where
  "replace_line line v =
     (if endswith line [13, 10] then v @ [13, 10] else if endswith line [10] then v @ [10] else v)"

text \<open>\<open>s.split(sep, 1)\<close> where the separator occurs, and \<open>s.split(sep, 2)\<close> where it gives three parts.\<close>

definition split_once :: "nat \<Rightarrow> pystr \<Rightarrow> (pystr \<times> pystr) option" where
  "split_once sep s =
     (if sep \<in> set s then Some (takeWhile (\<lambda>c. c \<noteq> sep) s, tl (dropWhile (\<lambda>c. c \<noteq> sep) s)) else None)"

definition split_three :: "nat \<Rightarrow> pystr \<Rightarrow> (pystr \<times> pystr \<times> pystr) option" where
  "split_three sep s = (case split_once sep s of
     None \<Rightarrow> None
   | Some (a, rest) \<Rightarrow> (case split_once sep rest of None \<Rightarrow> None | Some (b, c) \<Rightarrow> Some (a, b, c)))"

definition source_roles :: "pystr set" where
  "source_roles = {lit ''AGENT_ACT'', lit ''OUTCOME'', lit ''SITUATION''}"

fun project_source :: "pystr list \<Rightarrow> pystr list" where
  "project_source [] = []"
| "project_source (l # ls) =
     (if startswith l (lit ''SOURCE '') then replace_line l (lit ''SOURCE <source>'') # ls else l # ls)"

fun project_actor :: "pystr list \<Rightarrow> pystr list" where
  "project_actor [] = []"
| "project_actor (l # ls) =
     (if startswith l (lit ''ACTOR '')
      then case split_three 32 (rstrip_crlf l) of
        Some (_, kind, _) \<Rightarrow> replace_line l (lit ''ACTOR '' @ kind @ lit '' <actor>'') # project_source ls
      | None \<Rightarrow> project_source (l # ls)
      else project_source (l # ls))"

lemma length_project_source [simp]: "length (project_source ls) = length ls"
  by (cases ls) simp_all

lemma length_project_actor [simp]: "length (project_actor ls) = length ls"
  by (cases ls) (auto split: option.splits)

text \<open>The loop over the lines; it sees the lines it has replaced.\<close>

function project_roles :: "pystr list \<Rightarrow> pystr list" where
  "project_roles [] = []"
| "project_roles (l # ls) = l # project_roles (if rstrip_crlf l \<in> source_roles then project_actor ls else ls)"
  by pat_completeness auto
termination by (relation "measure length") auto

definition is_episode :: "pystr list \<Rightarrow> bool" where
  "is_episode ls \<longleftrightarrow> 2 \<le> length ls \<and> startswith (without_line_end (ls ! 0)) (lit ''EPISODE '') \<and>
     startswith (without_line_end (ls ! 1)) (lit ''SESSION '')"

definition KIND_EPISODE :: int where "KIND_EPISODE = 1"
definition KIND_RECOLLECTION :: int where "KIND_RECOLLECTION = 2"
definition KIND_DISPOSITION :: int where "KIND_DISPOSITION = 3"

definition semantic_index_text :: "int \<Rightarrow> pystr \<Rightarrow> pystr" where
  "semantic_index_text kind txt =
     (if kind \<noteq> KIND_EPISODE then txt
      else let ls = splitlines_keep txt in
      if \<not> is_episode ls then txt
      else concat (project_roles
        (replace_line (ls ! 0) (lit ''EPISODE <episode>'') # replace_line (ls ! 1) (lit ''SESSION <session>'') # drop 2 ls)))"

section \<open>Ranking\<close>

record index_scope =
  sc_tenant :: pystr
  sc_agent :: pystr
  sc_relationship :: pystr

record index_metadata =
  md_scope :: index_scope
  md_kind :: int
  md_ref :: pystr

record chunk_metadata = index_metadata +
  md_chunk :: nat
  md_semantic :: pystr

type_synonym identity_key = "int \<times> pystr"
type_synonym ranking = "(identity_key \<times> real \<times> pystr) list"

definition key_of :: "chunk_metadata \<Rightarrow> identity_key" where
  "key_of m = (md_kind m, md_ref m)"

text \<open>One round of the inner loop over a chunk and its distance.\<close>

definition rank_chunk :: "chunk_metadata \<times> real \<Rightarrow> ranking \<Rightarrow> ranking result" where
  "rank_chunk entry best = (case entry of (m, distance) \<Rightarrow>
     (case map_of best (key_of m) of
        None \<Rightarrow> Inr (AList.update (key_of m) (distance, md_semantic m) best)
      | Some (previous, semantic) \<Rightarrow>
          if semantic \<noteq> md_semantic m then Inl (ValueError (lit ''one indexed identity has conflicting semantic hashes''))
          else if distance < previous then Inr (AList.update (key_of m) (distance, md_semantic m) best)
          else Inr best))"

text \<open>A loop over \<open>zip(xs, ys, strict=True)\<close>: the lengths are compared when the shorter list is exhausted.\<close>

fun zip_strict :: "('a \<times> 'b \<Rightarrow> 's \<Rightarrow> 's result) \<Rightarrow> 'a list \<Rightarrow> 'b list \<Rightarrow> 's \<Rightarrow> 's result" where
  "zip_strict f [] [] s = Inr s"
| "zip_strict f (x # xs) (y # ys) s = bindr (f (x, y) s) (zip_strict f xs ys)"
| "zip_strict f _ _ s = Inl (ValueError (lit ''zip() arguments have different lengths''))"

definition rank_unique_candidates ::
    "chunk_metadata list list \<Rightarrow> real list list \<Rightarrow> int \<Rightarrow> (real \<times> int \<times> pystr) list result" where
  "rank_unique_candidates metadatas distances limit =
     (if limit \<le> 0 then Inr []
      else bindr (zip_strict (\<lambda>(metadata_row, distance_row). zip_strict rank_chunk metadata_row distance_row)
             metadatas distances []) (\<lambda>best.
        let ordered = take (nat limit) (sort (map (\<lambda>((kind, ref), distance, semantic). (distance, semantic, kind, ref)) best)) in
        Inr (map (\<lambda>(distance, _, kind, ref). (distance, kind, ref)) ordered)))"

type_synonym embedding = "real option list"

text \<open>\<open>np.asarray\<close> of a list of lists: a ragged list cannot be converted.\<close>

definition as_matrix :: "embedding list \<Rightarrow> embedding list result" where
  "as_matrix rows =
     (if list_all (\<lambda>row. length row = length (hd rows)) rows then Inr rows
      else Inl (ValueError (lit ''setting an array element with a sequence'')))"

definition norm_of :: "real list \<Rightarrow> real" where
  "norm_of v = sqrt (sum_list (map (\<lambda>x. x * x) v))"

definition dot :: "real list \<Rightarrow> real list \<Rightarrow> real" where
  "dot u v = sum_list (map2 (*) u v)"

definition cosine :: "real list \<Rightarrow> real list \<Rightarrow> real" where
  "cosine q d = max (- 1) (min 1 (dot q d / (norm_of q * norm_of d)))"

text \<open>\<open>1.0 - similarities.max(axis=0)\<close>, for one document.\<close>

definition best_distance :: "real list list \<Rightarrow> real list \<Rightarrow> real" where
  "best_distance queries d = 1 - Max (set (map (\<lambda>q. cosine q d) queries))"

definition finite_rows :: "embedding list \<Rightarrow> real list list" where
  "finite_rows rows = map (map the) rows"

definition rank_exact_cosine_candidates ::
    "embedding list option \<Rightarrow> chunk_metadata list option \<Rightarrow> embedding list \<Rightarrow> int \<Rightarrow> (real \<times> int \<times> pystr) list result" where
  "rank_exact_cosine_candidates stored_embeddings metadatas query_embeddings limit =
     (if limit \<le> 0 then Inr []
      else case (stored_embeddings, metadatas) of
        (Some stored, Some ms) \<Rightarrow>
          if ms = [] then Inr []
          else bindr (as_matrix stored) (\<lambda>documents. bindr (as_matrix query_embeddings) (\<lambda>queries.
            bindr (raise_if (documents = [] \<or> queries = [] \<or> length documents \<noteq> length ms \<or>
                length (hd documents) \<noteq> length (hd queries) \<or>
                \<not> list_all (list_all (\<lambda>x. x \<noteq> None)) documents \<or> \<not> list_all (list_all (\<lambda>x. x \<noteq> None)) queries)
              (ValueError (lit ''MemoryIndex embeddings have an invalid shape or value''))) (\<lambda>_.
            bindr (raise_if (list_ex (\<lambda>d. norm_of d = 0) (finite_rows documents) \<or>
                list_ex (\<lambda>q. norm_of q = 0) (finite_rows queries))
              (ValueError (lit ''MemoryIndex cosine embeddings must be nonzero''))) (\<lambda>_.
            rank_unique_candidates [ms] [map (best_distance (finite_rows queries)) (finite_rows documents)] limit))))
      | _ \<Rightarrow> Inr [])"

section \<open>The service\<close>

record index_document =
  id_kind :: int
  id_ref :: pystr
  id_scope :: index_scope
  id_text :: pystr

record index_query =
  iq_scope :: index_scope
  iq_text :: pystr
  iq_limit :: int

text \<open>What \<open>collection.get\<close> returns.\<close>

record found_rows =
  fr_ids :: "pystr list"
  fr_metadatas :: "chunk_metadata list option"
  fr_embeddings :: "embedding list option"

datatype index_record =
    UpsertRecord index_metadata nat pystr
  | SearchRecord index_scope pystr int nat "(real \<times> int \<times> pystr) list"
  | DeleteRecord index_metadata
  | ResetRecord

record 'w memory_index =
  mi_token :: pystr
  mi_offsets :: "pystr \<Rightarrow> (nat \<times> nat) list result"
  mi_encoder :: "pystr list \<Rightarrow> embedding list result"
  mi_sha256 :: "pystr \<Rightarrow> pystr"
  mi_get :: "pyval \<Rightarrow> ('w, found_rows) io"
  mi_delete :: "pyval \<Rightarrow> ('w, unit) io"
  mi_upsert :: "pystr list \<Rightarrow> pystr list \<Rightarrow> embedding list \<Rightarrow> chunk_metadata list \<Rightarrow> ('w, unit) io"
  mi_drop :: "('w, unit) io"
  mi_create :: "('w, unit) io"
  mi_log :: "index_record \<Rightarrow> ('w, unit) io"

text \<open>\<open>context.abort\<close> raises, with the status and the details of the RPC.\<close>

definition abort :: "pystr \<Rightarrow> pystr \<Rightarrow> py_error" where
  "abort status details = OtherError status details"

definition TOKEN_METADATA_KEY :: pystr where "TOKEN_METADATA_KEY = lit ''x-agent-rpc-token''"

definition is_ascii :: "pystr \<Rightarrow> bool" where
  "is_ascii s \<longleftrightarrow> list_all (\<lambda>c. c < 128) s"

text \<open>\<open>secrets.compare_digest\<close> of two strings.\<close>

definition compare_digest :: "pystr \<Rightarrow> pystr \<Rightarrow> bool result" where
  "compare_digest a b =
     (if is_ascii a \<and> is_ascii b then Inr (a = b)
      else Inl (TypeError (lit ''comparing strings with non-ASCII characters is not supported'')))"

definition authorize :: "'w memory_index \<Rightarrow> (pystr \<times> pystr) list \<Rightarrow> unit result" where
  "authorize self invocation_metadata =
     (if mi_token self = [] then Inr ()
      else bindr (compare_digest (case map_of (rev invocation_metadata) TOKEN_METADATA_KEY of None \<Rightarrow> [] | Some v \<Rightarrow> v)
             (mi_token self)) (\<lambda>equal.
        raise_if (\<not> equal) (abort (lit ''UNAUTHENTICATED'') (lit ''invalid MemoryIndex token''))))"

definition scope_dict :: "index_scope \<Rightarrow> pydict" where
  "scope_dict scope = [(lit ''tenant'', PStr (sc_tenant scope)), (lit ''agent'', PStr (sc_agent scope)),
     (lit ''relationship'', PStr (sc_relationship scope))]"

definition metadata_dict :: "'a index_metadata_scheme \<Rightarrow> pydict" where
  "metadata_dict m = scope_dict (md_scope m) @ [(lit ''kind'', PInt (md_kind m)), (lit ''ref'', PStr (md_ref m))]"

definition chunk_dict :: "chunk_metadata \<Rightarrow> pydict" where
  "chunk_dict m = metadata_dict m @ [(lit ''chunk'', PInt (int (md_chunk m))), (lit ''semantic_sha256'', PStr (md_semantic m))]"

definition index_where :: "pydict \<Rightarrow> pyval" where
  "index_where values = PDict [(lit ''$and'', PList (map (\<lambda>(k, v). PDict [(k, PDict [(lit ''$eq'', v)])]) values))]"

section \<open>Handlers\<close>

definition root_id :: "(pystr \<Rightarrow> pystr) \<Rightarrow> index_metadata \<Rightarrow> pystr" where
  "root_id sha256 m = sha256 (json_dumps True (sort_keys (PDict (metadata_dict m))))"

record prepared_document =
  pd_metadata :: index_metadata
  pd_chunks :: "pystr list"
  pd_vectors :: "embedding list"
  pd_hash :: pystr

definition index_chunks :: "'w memory_index \<Rightarrow> pystr \<Rightarrow> pystr list result" where
  "index_chunks self txt = chunk_text (mi_offsets self) txt CHUNK_TOKENS OVERLAP_TOKENS"

definition prepare_document :: "'w memory_index \<Rightarrow> index_document \<Rightarrow> prepared_document result" where
  "prepare_document self document =
     bindr (raise_if (id_kind document \<notin> {KIND_EPISODE, KIND_RECOLLECTION, KIND_DISPOSITION} \<or> id_ref document = [] \<or>
         strip (id_text document) = [])
       (abort (lit ''INVALID_ARGUMENT'') (lit ''invalid index document''))) (\<lambda>_.
     let semantic_text = semantic_index_text (id_kind document) (id_text document) in
     bindr (index_chunks self semantic_text) (\<lambda>chunks.
     bindr (mi_encoder self chunks) (\<lambda>vectors.
     bindr (raise_if (list_ex py_surrogate semantic_text) UnicodeEncodeError) (\<lambda>_.
     Inr \<lparr>pd_metadata = \<lparr>md_scope = id_scope document, md_kind = id_kind document, md_ref = id_ref document\<rparr>,
          pd_chunks = chunks, pd_vectors = vectors, pd_hash = mi_sha256 self semantic_text\<rparr>))))"

fun prepare_documents :: "'w memory_index \<Rightarrow> index_document list \<Rightarrow> prepared_document list result" where
  "prepare_documents self [] = Inr []"
| "prepare_documents self (d # ds) =
     bindr (prepare_document self d) (\<lambda>p. bindr (prepare_documents self ds) (\<lambda>ps. Inr (p # ps)))"

text \<open>The rows of a document: one for each chunk, each with the hash of the whole text.\<close>

definition chunk_rows :: "prepared_document \<Rightarrow> chunk_metadata list" where
  "chunk_rows p = map (\<lambda>i. index_metadata.extend (pd_metadata p) (chunk_metadata.fields i (pd_hash p))) [0..<length (pd_chunks p)]"

definition store_document :: "'w memory_index \<Rightarrow> prepared_document \<Rightarrow> ('w, unit) io" where
  "store_document self p =
     (let root = root_id (mi_sha256 self) (pd_metadata p) in
      bind_call (mi_delete self (index_where (metadata_dict (pd_metadata p)))) (\<lambda>_.
      bind_call (mi_upsert self (map (\<lambda>i. root @ lit '':'' @ digits i) [0..<length (pd_chunks p)])
        (pd_chunks p) (pd_vectors p) (chunk_rows p)) (\<lambda>_.
      mi_log self (UpsertRecord (pd_metadata p) (length (pd_chunks p)) (pd_hash p)))))"

definition Upsert :: "'w memory_index \<Rightarrow> (pystr \<times> pystr) list \<Rightarrow> index_document list \<Rightarrow> ('w, unit) io" where
  "Upsert self invocation_metadata documents =
     bind_call (pure_call (authorize self invocation_metadata)) (\<lambda>_.
     bind_call (pure_call (prepare_documents self documents)) (\<lambda>prepared.
     for_each (store_document self) prepared))"

definition rank_query :: "'w memory_index \<Rightarrow> found_rows \<Rightarrow> index_query \<Rightarrow> (real \<times> int \<times> pystr) list result" where
  "rank_query self found query =
     (if fr_ids found \<noteq> [] \<and> 0 < iq_limit query \<and> strip (iq_text query) \<noteq> []
      then bindr (index_chunks self (iq_text query)) (\<lambda>chunks.
           bindr (mi_encoder self chunks) (\<lambda>embeddings.
           rank_exact_cosine_candidates (fr_embeddings found) (fr_metadatas found) embeddings (iq_limit query)))
      else Inr [])"

definition Search :: "'w memory_index \<Rightarrow> (pystr \<times> pystr) list \<Rightarrow> index_query \<Rightarrow> ('w, identity_key list) io" where
  "Search self invocation_metadata query =
     bind_call (pure_call (authorize self invocation_metadata)) (\<lambda>_.
     bind_call (mi_get self (index_where (scope_dict (iq_scope query)))) (\<lambda>found.
     bind_call (pure_call (rank_query self found query)) (\<lambda>ranked.
     bind_call (mi_log self (SearchRecord (iq_scope query) (iq_text query) (iq_limit query) (length (fr_ids found)) ranked)) (\<lambda>_.
     pure_call (Inr (map (\<lambda>(_, kind, ref). (kind, ref)) ranked))))))"

definition delete_candidate :: "'w memory_index \<Rightarrow> index_scope \<Rightarrow> identity_key \<Rightarrow> ('w, unit) io" where
  "delete_candidate self scope candidate =
     (let m = \<lparr>md_scope = scope, md_kind = fst candidate, md_ref = snd candidate\<rparr> in
      bind_call (mi_delete self (index_where (metadata_dict m))) (\<lambda>_. mi_log self (DeleteRecord m)))"

definition Delete :: "'w memory_index \<Rightarrow> (pystr \<times> pystr) list \<Rightarrow> index_scope \<Rightarrow> identity_key list \<Rightarrow> ('w, unit) io" where
  "Delete self invocation_metadata scope candidates =
     bind_call (pure_call (authorize self invocation_metadata)) (\<lambda>_. for_each (delete_candidate self scope) candidates)"

definition Reset :: "'w memory_index \<Rightarrow> (pystr \<times> pystr) list \<Rightarrow> ('w, unit) io" where
  "Reset self invocation_metadata =
     bind_call (pure_call (authorize self invocation_metadata)) (\<lambda>_.
     bind_call (mi_drop self) (\<lambda>_. bind_call (mi_create self) (\<lambda>_. mi_log self ResetRecord)))"

section \<open>Where the server listens\<close>

text \<open>\<open>s.strip("[]")\<close>.\<close>

definition strip_brackets :: "pystr \<Rightarrow> pystr" where
  "strip_brackets s = strip_on (\<lambda>c. c = 91 \<or> c = 93) s"

definition loopback_or_authenticated :: "pystr \<Rightarrow> pystr \<Rightarrow> unit result" where
  "loopback_or_authenticated listen token =
     (let host = strip_brackets (case rpartition 58 listen of (head, sep, tail) \<Rightarrow> if sep = [] then listen else head) in
      raise_if (token = [] \<and> host \<notin> {lit ''127.0.0.1'', lit ''localhost'', lit ''::1''})
        (ValueError (lit ''a non-loopback listener requires MEMORY_EVAL_INDEX_TOKEN'')))"

end
