(* ===== verification/Index_Text.thy ===== *)
theory Index_Text
  imports Eval_Index
begin

text \<open>
  What the local MemoryIndex embeds: the chunks cover the text with the promised overlap, and the
  projection of an episode forgets who owns it.
\<close>

section \<open>Chunks\<close>

text \<open>A run of tokens that is not longer than the overlap and one token lies in one chunk.\<close>

lemma chunk_loop_covers:
  assumes "start \<le> i" "i \<le> j" "j < length offsets" "j - i \<le> chunk - step" "0 < step" "step \<le> chunk"
  shows "\<exists>a b. a \<le> i \<and> j < b \<and> b \<le> length offsets \<and> b - a \<le> chunk \<and>
    slice t (fst (offsets ! a)) (snd (offsets ! (b - 1))) \<in> set (chunk_loop t offsets chunk step start)"
  using assms(1)
proof (induction "length offsets - start" arbitrary: start rule: less_induct)
  case less
  let ?stop = "min (start + chunk) (length offsets)"
  show ?case
  proof (cases "j < ?stop")
    case True
    with less.prems assms show ?thesis
      by (intro exI [of _ start] exI [of _ ?stop]) (auto simp: chunk_loop.simps [of t offsets chunk step start] Let_def)
  next
    case False
    with assms less.prems have "?stop \<noteq> length offsets" "start + step \<le> i" by auto
    then have "set (chunk_loop t offsets chunk step (start + step)) \<subseteq> set (chunk_loop t offsets chunk step start)"
      using less.prems assms by (auto simp: chunk_loop.simps [of t offsets chunk step start] Let_def)
    moreover have "length offsets - (start + step) < length offsets - start" using less.prems assms by simp
    ultimately show ?thesis using less.hyps \<open>start + step \<le> i\<close> by blast
  qed
qed

text \<open>Every chunk is the text of at most \<open>chunk\<close> tokens.\<close>

lemma chunk_loop_bounded:
  assumes "c \<in> set (chunk_loop t offsets chunk step start)" "0 < chunk"
  shows "\<exists>a b. a < b \<and> b \<le> length offsets \<and> b - a \<le> chunk \<and> c = slice t (fst (offsets ! a)) (snd (offsets ! (b - 1)))"
  using assms
proof (induction t offsets chunk step start rule: chunk_loop.induct)
  case (1 t offsets chunk step start)
  let ?stop = "min (start + chunk) (length offsets)"
  from 1(2) have s: "start < length offsets \<and> 0 < step" by (subst (asm) chunk_loop.simps) (auto split: if_splits)
  with 1(2) consider "c = slice t (fst (offsets ! start)) (snd (offsets ! (?stop - 1)))"
    | "?stop \<noteq> length offsets" "c \<in> set (chunk_loop t offsets chunk step (start + step))"
    by (subst (asm) chunk_loop.simps) (auto simp: Let_def split: if_splits)
  then show ?case
  proof cases
    case 1
    from s "1.prems"(2) have "start < ?stop" "?stop \<le> length offsets" "?stop - start \<le> chunk" by auto
    with 1 show ?thesis by blast
  next
    case 2
    with s "1.IH" "1.prems" show ?thesis by blast
  qed
qed

text \<open>C35: Chunking with valid parameters and a tokenizer that answers succeeds. Every chunk is the text from the
  first to the last of at most \<open>chunk_tokens\<close> tokens, and any run of at most \<open>overlap_tokens + 1\<close>
  consecutive tokens, the last one included, lies within one chunk; a text without tokens is one chunk.\<close>

theorem chunk_text_covers:
  assumes "0 < chunk_tokens" "0 \<le> overlap_tokens" "overlap_tokens < chunk_tokens" "encode t = Inr offsets"
  shows "\<exists>chunks. chunk_text encode t chunk_tokens overlap_tokens = Inr chunks \<and>
    (offsets = [] \<longrightarrow> chunks = [t]) \<and>
    (offsets \<noteq> [] \<longrightarrow> (\<forall>c \<in> set chunks. \<exists>a b. a < b \<and> b \<le> length offsets \<and> int (b - a) \<le> chunk_tokens \<and>
       c = slice t (fst (offsets ! a)) (snd (offsets ! (b - 1))))) \<and>
    (\<forall>i j. i \<le> j \<and> j < length offsets \<and> int (j - i) \<le> overlap_tokens \<longrightarrow>
       (\<exists>a b. a \<le> i \<and> j < b \<and> b \<le> length offsets \<and> slice t (fst (offsets ! a)) (snd (offsets ! (b - 1))) \<in> set chunks))"
proof -
  let ?loop = "chunk_loop t offsets (nat chunk_tokens) (nat (chunk_tokens - overlap_tokens)) 0"
  let ?chunks = "if offsets = [] then [t] else ?loop"
  have run: "chunk_text encode t chunk_tokens overlap_tokens = Inr ?chunks"
    using assms by (simp add: chunk_text_def raise_if_def)
  have tokens: "\<exists>a b. a < b \<and> b \<le> length offsets \<and> int (b - a) \<le> chunk_tokens \<and> c = slice t (fst (offsets ! a)) (snd (offsets ! (b - 1)))"
    if "c \<in> set ?loop" for c
  proof -
    from chunk_loop_bounded [OF that] assms(1) obtain a b where ab: "a < b" "b \<le> length offsets" "b - a \<le> nat chunk_tokens"
      "c = slice t (fst (offsets ! a)) (snd (offsets ! (b - 1)))" by auto
    moreover from ab(3) assms(1) have "int (b - a) \<le> chunk_tokens" by linarith
    ultimately show ?thesis by blast
  qed
  have runs: "\<exists>a b. a \<le> i \<and> j < b \<and> b \<le> length offsets \<and> slice t (fst (offsets ! a)) (snd (offsets ! (b - 1))) \<in> set ?chunks"
    if ij: "i \<le> j" "j < length offsets" "int (j - i) \<le> overlap_tokens" for i j
  proof -
    from ij assms have "j - i \<le> nat chunk_tokens - nat (chunk_tokens - overlap_tokens)" by linarith
    with ij assms chunk_loop_covers [of 0 i j offsets "nat chunk_tokens" "nat (chunk_tokens - overlap_tokens)" t]
    show ?thesis by fastforce
  qed
  show ?thesis
  proof (intro exI [of _ ?chunks] conjI)
    show "\<forall>i j. i \<le> j \<and> j < length offsets \<and> int (j - i) \<le> overlap_tokens \<longrightarrow>
       (\<exists>a b. a \<le> i \<and> j < b \<and> b \<le> length offsets \<and> slice t (fst (offsets ! a)) (snd (offsets ! (b - 1))) \<in> set ?chunks)"
      using runs by blast
  qed (use run tokens in auto)
qed

text \<open>The tokens of a text are its words.\<close>

fun word_offsets :: "nat \<Rightarrow> pystr list \<Rightarrow> (nat \<times> nat) list" where
  "word_offsets n [] = []"
| "word_offsets n (w # ws) = (n, n + length w) # word_offsets (Suc (n + length w)) ws"

definition word_tokens :: "pystr \<Rightarrow> (nat \<times> nat) list result" where
  "word_tokens t = Inr (word_offsets 0 (split_on 32 t))"

lemma chunk_text_covers_witness:
  "(\<exists>chunks. chunk_text word_tokens (lit ''zero one two three four five six'') 4 1 = Inr chunks \<and>
     (\<forall>i j. i \<le> j \<and> j < 7 \<and> int (j - i) \<le> 1 \<longrightarrow> (\<exists>a b. a \<le> i \<and> j < b \<and> b \<le> 7))) \<and>
   chunk_text word_tokens (lit ''zero one two three four five six'') 4 1 =
     Inr [lit ''zero one two three'', lit ''three four five six'']"
proof
  have run: "word_tokens (lit ''zero one two three four five six'') =
    Inr [(0, 4), (5, 8), (9, 12), (13, 18), (19, 23), (24, 28), (29, 32)]" by code_simp
  show "chunk_text word_tokens (lit ''zero one two three four five six'') 4 1 =
     Inr [lit ''zero one two three'', lit ''three four five six'']" by code_simp
  from chunk_text_covers [of 4 1 word_tokens, OF _ _ _ run]
  show "\<exists>chunks. chunk_text word_tokens (lit ''zero one two three four five six'') 4 1 = Inr chunks \<and>
     (\<forall>i j. i \<le> j \<and> j < 7 \<and> int (j - i) \<le> 1 \<longrightarrow> (\<exists>a b. a \<le> i \<and> j < b \<and> b \<le> 7))"
    by auto
qed

section \<open>The embedded projection\<close>

text \<open>A line of the Core's window: text without line breaks, and a line feed.\<close>

definition nl :: "pystr \<Rightarrow> pystr" where
  "nl l = l @ [10]"

lemma splitlines_keep_line: "no_breaks l \<Longrightarrow> splitlines_keep (nl l @ rest) = nl l # splitlines_keep rest"
proof (induction l)
  case Nil
  then show ?case by (simp add: nl_def py_linebreak_def)
next
  case (Cons c l)
  then have "c \<noteq> 13" "\<not> py_linebreak c" by (auto simp: py_linebreak_def)
  with Cons show ?case by (simp add: nl_def)
qed

text \<open>A text that ends with a line feed can be split on its own.\<close>

lemma splitlines_keep_append:
  "splitlines_keep ((t @ [10]) @ rest) = splitlines_keep (t @ [10]) @ splitlines_keep rest"
proof (induction t rule: splitlines_keep.induct)
  case 1
  then show ?case by (simp add: py_linebreak_def)
next
  case (2 x xs)
  show ?case
  proof (cases "x = 13 \<and> xs @ [10] \<noteq> [] \<and> hd (xs @ [10]) = 10")
    case True
    then show ?thesis
    proof (cases xs)
      case Nil
      with True show ?thesis by simp
    next
      case (Cons y ys)
      with True "2.IH"(1) show ?thesis by simp
    qed
  next
    case False
    then have "\<not> (x = 13 \<and> hd (xs @ 10 # rest) = 10)" by (cases xs) auto
    moreover have "splitlines_keep (xs @ [10]) \<noteq> []" by (cases xs) (auto simp: py_linebreak_def)
    then have "cons_head x (splitlines_keep (xs @ [10]) @ splitlines_keep rest) = cons_head x (splitlines_keep (xs @ [10])) @ splitlines_keep rest"
      by (cases "splitlines_keep (xs @ [10])") auto
    ultimately show ?thesis using False 2 by (cases xs) auto
  qed
qed

text \<open>The text the Core renders for one Episode, with or without its actors
  (renderConsolidationWindow in src/internal/storage/postgres/consolidation.go).\<close>

record rendered_source =
  rs_role :: pystr
  rs_actor_kind :: pystr
  rs_actor :: pystr
  rs_ref :: pystr
  rs_text :: pystr

definition actor_line :: "rendered_source \<Rightarrow> pystr" where
  "actor_line s = lit ''ACTOR '' @ rs_actor_kind s @ lit '' '' @ rs_actor s"

definition source_text :: "bool \<Rightarrow> rendered_source \<Rightarrow> pystr" where
  "source_text include_actors s = nl (rs_role s) @ (if include_actors then nl (actor_line s) else []) @
     nl (lit ''SOURCE '' @ rs_ref s) @ nl (rs_text s)"

definition episode_text :: "bool \<Rightarrow> pystr \<Rightarrow> pystr \<Rightarrow> rendered_source list \<Rightarrow> pystr" where
  "episode_text include_actors episode session sources =
     nl (lit ''EPISODE '' @ episode) @ nl (lit ''SESSION '' @ session) @ concat (map (source_text include_actors) sources)"

definition well_rendered :: "rendered_source \<Rightarrow> bool" where
  "well_rendered s \<longleftrightarrow> rs_role s \<in> source_roles \<and> no_breaks (rs_actor_kind s) \<and> 32 \<notin> set (rs_actor_kind s) \<and>
     no_breaks (rs_actor s) \<and> no_breaks (rs_ref s)"

definition plain_head :: "pystr list \<Rightarrow> bool" where
  "plain_head ls \<longleftrightarrow> ls = [] \<or> \<not> startswith (hd ls) (lit ''ACTOR '') \<and> \<not> startswith (hd ls) (lit ''SOURCE '')"

lemma project_source_append: "plain_head ys \<Longrightarrow> project_source (xs @ ys) = project_source xs @ ys"
  by (cases xs; cases ys) (auto simp: plain_head_def)

lemma project_actor_append: "plain_head ys \<Longrightarrow> project_actor (xs @ ys) = project_actor xs @ ys"
  by (cases xs; cases ys) (auto simp: plain_head_def project_source_append split: option.splits)

lemma project_roles_append: "plain_head ys \<Longrightarrow> project_roles (xs @ ys) = project_roles xs @ project_roles ys"
  by (induction xs rule: project_roles.induct) (auto simp: project_actor_append)

lemma no_breaks_last: "no_breaks l \<Longrightarrow> l = [] \<or> last l \<noteq> 13 \<and> last l \<noteq> 10"
proof (cases l rule: rev_cases)
  case (snoc xs c)
  moreover assume "no_breaks l"
  ultimately have "\<not> py_linebreak c" by simp
  then have "c \<noteq> 13 \<and> c \<noteq> 10" by (auto simp: py_linebreak_def)
  with snoc show ?thesis by simp
qed simp

lemma rstrip_crlf_nl: "no_breaks l \<Longrightarrow> rstrip_crlf (nl l) = l"
  using no_breaks_last [of l] by (auto simp: rstrip_crlf_def nl_def intro: rstrip_on_id)

lemma replace_line_nl: "no_breaks l \<Longrightarrow> replace_line (nl l) v = nl v"
proof -
  assume l: "no_breaks l"
  have "\<not> endswith (nl l) [13, 10]"
    using no_breaks_last [OF l] by (cases l rule: rev_cases) (simp_all add: endswith_def nl_def)
  then show ?thesis by (simp add: replace_line_def endswith_def nl_def)
qed

lemma no_breaks_lit [simp]: "no_breaks (lit s) \<longleftrightarrow> list_all (\<lambda>c. \<not> py_linebreak (of_char c)) s"
  by (auto simp: no_breaks_def lit_def list_all_iff)

lemma split_three_actor:
  "32 \<notin> set kind \<Longrightarrow> split_three 32 (lit ''ACTOR '' @ kind @ lit '' '' @ actor) = Some (lit ''ACTOR'', kind, actor)"
  by (simp add: split_three_def split_once_def lit_def takeWhile_append dropWhile_append)

lemma source_roles_breaks: "r \<in> source_roles \<Longrightarrow> no_breaks r"
  by (auto simp: source_roles_def py_linebreak_def)

text \<open>The projection of one source keeps its role, the kind of its actor and its text.\<close>

definition projected_source :: "bool \<Rightarrow> rendered_source \<Rightarrow> pystr list" where
  "projected_source include_actors s =
     [nl (rs_role s)] @ (if include_actors then [nl (lit ''ACTOR '' @ rs_actor_kind s @ lit '' <actor>'')] else []) @
     [nl (lit ''SOURCE <source>'')] @ project_roles (splitlines_keep (nl (rs_text s)))"

lemma project_roles_plain: "rstrip_crlf l \<notin> source_roles \<Longrightarrow> project_roles (l # ls) = l # project_roles ls"
  by simp

lemma not_role: "no_breaks l \<Longrightarrow> length l > 9 \<Longrightarrow> rstrip_crlf (nl l) \<notin> source_roles"
  by (auto simp: rstrip_crlf_nl source_roles_def)

lemma startswith_nl: "startswith l p \<Longrightarrow> startswith (nl l) p"
  by (auto simp: startswith_iff nl_def)

lemma no_breaks_actor_line: "well_rendered s \<Longrightarrow> no_breaks (actor_line s)"
  by (simp add: well_rendered_def actor_line_def py_linebreak_def)

lemma project_actor_line:
  assumes "well_rendered s"
  shows "project_actor (nl (actor_line s) # ls) = nl (lit ''ACTOR '' @ rs_actor_kind s @ lit '' <actor>'') # project_source ls"
proof -
  have "split_three 32 (actor_line s) = Some (lit ''ACTOR'', rs_actor_kind s, rs_actor s)"
    using assms unfolding actor_line_def well_rendered_def by (intro split_three_actor) simp
  moreover have "startswith (nl (actor_line s)) (lit ''ACTOR '')"
    by (intro startswith_nl) (simp add: actor_line_def)
  ultimately show ?thesis
    using no_breaks_actor_line [OF assms] by (simp add: rstrip_crlf_nl replace_line_nl)
qed

lemma project_source_line:
  assumes "well_rendered s"
  shows "project_source (nl (lit ''SOURCE '' @ rs_ref s) # ls) = nl (lit ''SOURCE <source>'') # ls"
proof -
  have "no_breaks (lit ''SOURCE '' @ rs_ref s)" using assms by (simp add: well_rendered_def py_linebreak_def)
  moreover have "startswith (nl (lit ''SOURCE '' @ rs_ref s)) (lit ''SOURCE '')" by (intro startswith_nl) simp
  ultimately show ?thesis by (simp add: replace_line_nl)
qed

lemma project_actor_source_line:
  assumes "well_rendered s"
  shows "project_actor (nl (lit ''SOURCE '' @ rs_ref s) # ls) = nl (lit ''SOURCE <source>'') # ls"
proof -
  have "\<not> startswith (nl (lit ''SOURCE '' @ rs_ref s)) (lit ''ACTOR '')" by (simp add: startswith_def nl_def lit_def)
  then show ?thesis using project_source_line [OF assms] by simp
qed

lemma source_lines:
  assumes "well_rendered s"
  shows "splitlines_keep (source_text include_actors s @ rest) =
    [nl (rs_role s)] @ (if include_actors then [nl (actor_line s)] else []) @ [nl (lit ''SOURCE '' @ rs_ref s)] @
    splitlines_keep (nl (rs_text s)) @ splitlines_keep rest"
proof -
  have breaks: "no_breaks (rs_role s)" "no_breaks (actor_line s)" "no_breaks (lit ''SOURCE '' @ rs_ref s)"
    using assms no_breaks_actor_line source_roles_breaks by (auto simp: well_rendered_def py_linebreak_def)
  have body: "splitlines_keep (nl (rs_text s) @ rest) = splitlines_keep (nl (rs_text s)) @ splitlines_keep rest"
    unfolding nl_def by (rule splitlines_keep_append)
  show ?thesis
    using breaks by (simp add: source_text_def splitlines_keep_line body)
qed

lemma plain_head_role: "well_rendered s \<Longrightarrow> plain_head (nl (rs_role s) # ls)"
  by (auto simp: plain_head_def well_rendered_def source_roles_def startswith_def nl_def lit_def)

lemma rendered_lines:
  assumes "list_all well_rendered sources"
  shows "plain_head (splitlines_keep (concat (map (source_text include_actors) sources))) \<and>
    project_roles (splitlines_keep (concat (map (source_text include_actors) sources))) =
      concat (map (projected_source include_actors) sources)"
  using assms
proof (induction sources)
  case Nil
  then show ?case by (simp add: plain_head_def)
next
  case (Cons s sources)
  let ?rest = "splitlines_keep (concat (map (source_text include_actors) sources))"
  let ?body = "splitlines_keep (nl (rs_text s))"
  from Cons have s: "well_rendered s" and IH: "plain_head ?rest"
    "project_roles ?rest = concat (map (projected_source include_actors) sources)" by simp_all
  have role: "rstrip_crlf (nl (rs_role s)) \<in> source_roles"
    using s source_roles_breaks by (simp add: well_rendered_def rstrip_crlf_nl)
  have source: "rstrip_crlf (nl (lit ''SOURCE <source>'')) \<notin> source_roles"
    by (intro not_role) (simp_all add: py_linebreak_def)
  have actor: "rstrip_crlf (nl (lit ''ACTOR '' @ rs_actor_kind s @ lit '' <actor>'')) \<notin> source_roles"
    using s by (intro not_role) (simp_all add: well_rendered_def py_linebreak_def)
  have text_lines: "project_roles (?body @ ?rest) = project_roles ?body @ project_roles ?rest"
    using IH(1) by (rule project_roles_append)
  show ?case
    using role source actor text_lines IH s
    by (cases include_actors) (simp_all add: source_lines plain_head_role projected_source_def [of _ s] project_actor_line
        project_source_line project_actor_source_line del: project_actor.simps project_source.simps)
qed

lemma episode_header:
  assumes "no_breaks episode" "no_breaks session"
  shows "splitlines_keep (episode_text include_actors episode session sources) =
    nl (lit ''EPISODE '' @ episode) # nl (lit ''SESSION '' @ session) #
    splitlines_keep (concat (map (source_text include_actors) sources))"
  using assms by (simp add: episode_text_def splitlines_keep_line py_linebreak_def)

lemma without_line_end_nl: "no_breaks l \<Longrightarrow> without_line_end (nl l) = l"
  using no_breaks_last [of l]
  by (cases l rule: rev_cases) (auto simp: without_line_end_def removesuffix_def nl_def endswith_def)

text \<open>The projection of a rendered Episode, written out.\<close>

lemma semantic_episode_text:
  assumes "no_breaks episode" "no_breaks session" "list_all well_rendered sources"
  shows "semantic_index_text KIND_EPISODE (episode_text include_actors episode session sources) =
    concat (nl (lit ''EPISODE <episode>'') # nl (lit ''SESSION <session>'') # concat (map (projected_source include_actors) sources))"
proof -
  let ?rest = "splitlines_keep (concat (map (source_text include_actors) sources))"
  have breaks: "no_breaks (lit ''EPISODE '' @ episode)" "no_breaks (lit ''SESSION '' @ session)"
    using assms by (simp_all add: py_linebreak_def)
  have "rstrip_crlf (nl (lit ''EPISODE <episode>'')) \<notin> source_roles" "rstrip_crlf (nl (lit ''SESSION <session>'')) \<notin> source_roles"
    by (intro not_role; simp add: py_linebreak_def)+
  moreover have "is_episode (splitlines_keep (episode_text include_actors episode session sources))"
    using breaks assms by (simp add: is_episode_def episode_header without_line_end_nl)
  ultimately show ?thesis
    using breaks assms rendered_lines [OF assms(3)]
    by (simp add: semantic_index_text_def Let_def episode_header replace_line_nl)
qed

text \<open>What a source says, without who said it.\<close>

definition content_of :: "rendered_source \<Rightarrow> pystr \<times> pystr \<times> pystr" where
  "content_of s = (rs_role s, rs_actor_kind s, rs_text s)"

text \<open>A session ref with a line break, which the Core accepts (ValidStableRef of src/internal/core/ledger/ledger.go), stays
  in the projection from its second line on.\<close>

lemma session_line_break_stays:
  "semantic_index_text KIND_EPISODE (episode_text True (lit ''e'') (lit ''s'' @ 10 # lit ''t'') []) =
    lit ''EPISODE <episode>'' @ 10 # lit ''SESSION <session>'' @ 10 # lit ''t'' @ [10]"
  by (simp add: semantic_index_text_def episode_text_def nl_def is_episode_def without_line_end_def removesuffix_def endswith_def
      startswith_def replace_line_def rstrip_crlf_def rstrip_on_def source_roles_def KIND_EPISODE_def py_linebreak_def Let_def lit_def)

text \<open>C34: The embedded projection of an Episode depends on its content only, for refs that the projection can tell
  from the text: Episode and session refs hold no line break, source refs and actor refs hold none, an actor ref
  comes with a kind of actor without a space, and a source names one of the three roles (\<open>well_rendered\<close>). For such refs,
  two Episodes whose sources have the same roles, kinds of actor and texts are projected to the same text, whatever
  their refs are. The texts themselves are arbitrary. (The Core accepts refs with line breaks: see
  \<open>session_line_break_stays\<close>.)\<close>

theorem semantic_text_forgets_identity:
  assumes "no_breaks episode" "no_breaks session" "list_all well_rendered sources"
    and "no_breaks episode'" "no_breaks session'" "list_all well_rendered sources'"
    and "map content_of sources = map content_of sources'"
  shows "semantic_index_text KIND_EPISODE (episode_text include_actors episode session sources) =
    semantic_index_text KIND_EPISODE (episode_text include_actors episode' session' sources')"
proof -
  define project where "project = (\<lambda>(role, kind, t). projected_source include_actors
    \<lparr>rs_role = role, rs_actor_kind = kind, rs_actor = [], rs_ref = [], rs_text = t\<rparr>)"
  have "projected_source include_actors s = project (content_of s)" for s
    by (simp add: project_def content_of_def projected_source_def)
  then have "projected_source include_actors = project \<circ> content_of" by (simp add: fun_eq_iff)
  with assms(7) have "map (projected_source include_actors) sources = map (projected_source include_actors) sources'"
    by (metis list.map_comp)
  with assms show ?thesis by (simp add: semantic_episode_text)
qed

definition owned_source :: "pystr \<Rightarrow> pystr \<Rightarrow> rendered_source" where
  "owned_source actor ref = \<lparr>rs_role = lit ''SITUATION'', rs_actor_kind = lit ''user'', rs_actor = actor, rs_ref = ref,
     rs_text = lit ''I need a moment.''\<rparr>"

lemma semantic_text_forgets_identity_witness:
  "semantic_index_text KIND_EPISODE (episode_text True (lit ''e1'') (lit ''s1'') [owned_source (lit ''ann'') (lit ''x:1'')]) =
   semantic_index_text KIND_EPISODE (episode_text True (lit ''e2'') (lit ''s2'') [owned_source (lit ''bob'') (lit ''y:7'')]) \<and>
   episode_text True (lit ''e1'') (lit ''s1'') [owned_source (lit ''ann'') (lit ''x:1'')] \<noteq>
   episode_text True (lit ''e2'') (lit ''s2'') [owned_source (lit ''bob'') (lit ''y:7'')]"
proof
  have ok: "well_rendered (owned_source a r)" if "no_breaks a" "no_breaks r" for a r
    using that by (simp add: well_rendered_def owned_source_def source_roles_def py_linebreak_def) (simp add: lit_def)
  show "semantic_index_text KIND_EPISODE (episode_text True (lit ''e1'') (lit ''s1'') [owned_source (lit ''ann'') (lit ''x:1'')]) =
   semantic_index_text KIND_EPISODE (episode_text True (lit ''e2'') (lit ''s2'') [owned_source (lit ''bob'') (lit ''y:7'')])"
    by (rule semantic_text_forgets_identity)
      (simp_all add: ok py_linebreak_def, simp add: content_of_def owned_source_def)
  show "episode_text True (lit ''e1'') (lit ''s1'') [owned_source (lit ''ann'') (lit ''x:1'')] \<noteq>
   episode_text True (lit ''e2'') (lit ''s2'') [owned_source (lit ''bob'') (lit ''y:7'')]" by code_simp
qed

end
