(* ===== verification/Index_Ranking.thy ===== *)
theory Index_Ranking
  imports Eval_Index
begin

text \<open>
  The ranking of the local MemoryIndex against its reference: every identity once, by the distance of its
  best chunk.
\<close>

section \<open>Ranking\<close>

text \<open>The chunks of one identity with their distances, and what the ranking holds after some chunks: one
  entry for each identity, with its best distance and the hash of all its chunks.\<close>

definition entries_of :: "(chunk_metadata \<times> real) list \<Rightarrow> identity_key \<Rightarrow> (chunk_metadata \<times> real) list" where
  "entries_of entries key = filter (\<lambda>e. key_of (fst e) = key) entries"

definition best_entry :: "(chunk_metadata \<times> real) list \<Rightarrow> identity_key \<Rightarrow> (real \<times> pystr) option" where
  "best_entry entries key = (case entries_of entries key of
     [] \<Rightarrow> None | e # es \<Rightarrow> Some (Min (snd ` set (e # es)), md_semantic (fst e)))"

definition one_hash :: "chunk_metadata set \<Rightarrow> bool" where
  "one_hash ms \<longleftrightarrow> (\<forall>m \<in> ms. \<forall>m' \<in> ms. key_of m = key_of m' \<longrightarrow> md_semantic m = md_semantic m')"

lemma entries_of_append [simp]: "entries_of (xs @ ys) key = entries_of xs key @ entries_of ys key"
  by (simp add: entries_of_def)

lemma entries_of_single: "entries_of [e] key = (if key_of (fst e) = key then [e] else [])"
  by (simp add: entries_of_def)

lemma entries_of_head: "entries_of es key = x # xs \<Longrightarrow> x \<in> set es \<and> key_of (fst x) = key"
proof -
  assume "entries_of es key = x # xs"
  then have "x \<in> set (entries_of es key)" by simp
  then show ?thesis by (simp add: entries_of_def)
qed

lemma best_entry_None: "best_entry es key = None \<longleftrightarrow> entries_of es key = []"
  by (simp add: best_entry_def split: list.splits)

lemma best_entry_first: "entries_of es (key_of (fst e)) = [] \<Longrightarrow>
    best_entry (es @ [e]) key = (if key = key_of (fst e) then Some (snd e, md_semantic (fst e)) else best_entry es key)"
  by (auto simp: best_entry_def entries_of_single)

lemma best_entry_again:
  assumes "best_entry es (key_of (fst e)) = Some (d, h)"
  shows "best_entry (es @ [e]) key = (if key = key_of (fst e) then Some (min d (snd e), h) else best_entry es key)"
proof -
  from assms obtain x xs where x: "entries_of es (key_of (fst e)) = x # xs" "d = Min (snd ` set (x # xs))" "h = md_semantic (fst x)"
    by (auto simp: best_entry_def split: list.splits)
  then have "Min (snd ` set ((x # xs) @ [e])) = min d (snd e)"
    by (simp add: min.commute insert_commute Min_insert)
  with x show ?thesis by (auto simp: best_entry_def entries_of_single split: list.splits)
qed

lemma best_entry_hash:
  assumes "best_entry es (key_of m) = Some (d, h)" "one_hash (insert m (fst ` set es))"
  shows "md_semantic m = h"
proof -
  from assms(1) obtain x xs where "entries_of es (key_of m) = x # xs" "h = md_semantic (fst x)"
    by (auto simp: best_entry_def split: list.splits)
  then have "x \<in> set es" "key_of (fst x) = key_of m" "h = md_semantic (fst x)"
    using entries_of_head by blast+
  with assms(2) show ?thesis unfolding one_hash_def by (metis image_eqI insertI1 insertI2)
qed

lemma rank_chunk_step:
  assumes "distinct (map fst best)" "map_of best = best_entry es" "one_hash (insert (fst e) (fst ` set es))"
  obtains best' where "rank_chunk e best = Inr best'" "distinct (map fst best')" "map_of best' = best_entry (es @ [e])"
proof (cases "best_entry es (key_of (fst e))")
  case None
  then have "best_entry (es @ [e]) = (best_entry es)(key_of (fst e) \<mapsto> (snd e, md_semantic (fst e)))"
    by (auto simp: fun_eq_iff best_entry_None best_entry_first)
  then show ?thesis using None assms
    by (intro that [of "AList.update (key_of (fst e)) (snd e, md_semantic (fst e)) best"])
      (auto simp: rank_chunk_def update_conv' distinct_update split: prod.splits)
next
  case (Some v)
  obtain d h where v: "v = (d, h)" by (cases v)
  with Some assms best_entry_hash have h: "md_semantic (fst e) = h" by blast
  have after: "best_entry (es @ [e]) = (best_entry es)(key_of (fst e) \<mapsto> (min d (snd e), h))"
    using best_entry_again Some v by (auto simp: fun_eq_iff)
  show ?thesis
  proof (cases "snd e < d")
    case True
    with Some v h after assms show ?thesis
      by (intro that [of "AList.update (key_of (fst e)) (snd e, md_semantic (fst e)) best"])
        (auto simp: rank_chunk_def update_conv' distinct_update min_def split: prod.splits)
  next
    case False
    with Some v after have "best_entry (es @ [e]) = best_entry es" by (auto simp: min_def fun_eq_iff)
    with False Some v h assms show ?thesis
      by (intro that [of best]) (auto simp: rank_chunk_def split: prod.splits)
  qed
qed

lemma zip_strict_fold: "length xs = length ys \<Longrightarrow> zip_strict f xs ys s = foldr_r f (zip xs ys) s"
proof (induction xs ys arbitrary: s rule: list_induct2)
  case (Cons x xs y ys)
  then show ?case by (cases "f (x, y) s") simp_all
qed simp

lemma rank_chunks:
  assumes "distinct (map fst best)" "map_of best = best_entry es" "one_hash (fst ` set (es @ entries))"
  obtains best' where "foldr_r rank_chunk entries best = Inr best'" "distinct (map fst best')"
    "map_of best' = best_entry (es @ entries)"
  using assms
proof (induction entries arbitrary: es best thesis)
  case Nil
  then show ?case by simp
next
  case (Cons e entries)
  have "one_hash (insert (fst e) (fst ` set es))"
    using Cons.prems(4) by (simp add: one_hash_def)
  with Cons.prems(2,3) obtain best1 where best1: "rank_chunk e best = Inr best1" "distinct (map fst best1)"
    "map_of best1 = best_entry (es @ [e])" by (rule rank_chunk_step)
  with Cons.prems(4) Cons.IH [of best1 "es @ [e]"] obtain best2 where
    "foldr_r rank_chunk entries best1 = Inr best2" "distinct (map fst best2)" "map_of best2 = best_entry ((es @ [e]) @ entries)"
    by auto
  with best1 show ?case by (intro Cons.prems(1) [of best2]) simp_all
qed

text \<open>The reference: every identity once, with its best distance, in the order of distance, hash, kind and ref.\<close>

definition candidates_of :: "(chunk_metadata \<times> real) list \<Rightarrow> (real \<times> pystr \<times> int \<times> pystr) set" where
  "candidates_of entries =
     (\<lambda>(m, _). (Min {d. \<exists>m'. (m', d) \<in> set entries \<and> key_of m' = key_of m}, md_semantic m, md_kind m, md_ref m)) ` set entries"

lemma best_entry_Some:
  assumes "one_hash (fst ` set entries)" "(m, d) \<in> set entries"
  shows "best_entry entries (key_of m) = Some (Min {d. \<exists>m'. (m', d) \<in> set entries \<and> key_of m' = key_of m}, md_semantic m)"
proof -
  have "(m, d) \<in> set (entries_of entries (key_of m))" using assms(2) by (simp add: entries_of_def)
  then obtain x xs where x: "entries_of entries (key_of m) = x # xs" by (cases "entries_of entries (key_of m)") auto
  then have "x \<in> set entries" "key_of (fst x) = key_of m"
    using entries_of_head by blast+
  then have "md_semantic (fst x) = md_semantic m"
    using assms unfolding one_hash_def by (metis fst_conv image_eqI)
  moreover have "snd ` set (x # xs) = {d. \<exists>m'. (m', d) \<in> set entries \<and> key_of m' = key_of m}"
    unfolding x [symmetric] entries_of_def by force
  ultimately show ?thesis by (simp add: best_entry_def x del: set_simps image_insert)
qed

lemma rank_unique_candidates_run:
  assumes "one_hash (set ms)" "length ms = length ds"
  shows "rank_unique_candidates [ms] [ds] limit =
    Inr (map (\<lambda>(distance, _, kind, ref). (distance, kind, ref)) (take (nat limit) (sorted_list_of_set (candidates_of (zip ms ds)))))"
proof (cases "limit \<le> 0")
  case True
  then show ?thesis by (simp add: rank_unique_candidates_def)
next
  case False
  let ?es = "zip ms ds" let ?f = "\<lambda>((kind, ref), distance, semantic). (distance, semantic, kind, ref)"
  from assms have hashes: "one_hash (fst ` set ?es)" by (metis map_fst_zip set_map)
  have "map_of [] = best_entry []" by (simp add: fun_eq_iff best_entry_def entries_of_def)
  with hashes rank_chunks [of "[]" "[]" ?es] obtain best where best: "foldr_r rank_chunk ?es [] = Inr best"
    "distinct (map fst best)" "map_of best = best_entry ?es" by auto
  have "inj_on ?f (set best)" by (auto simp: inj_on_def)
  with best(2) have "distinct (map ?f best)" by (simp add: distinct_map)
  moreover have "set (map ?f best) = candidates_of ?es"
  proof -
    have mem: "((kind, ref), d, h) \<in> set best \<longleftrightarrow> best_entry ?es (kind, ref) = Some (d, h)" for kind ref d h
      using best by (simp add: map_of_eq_Some_iff [symmetric])
    show ?thesis
    proof (intro equalityI subsetI)
      fix x assume "x \<in> set (map ?f best)"
      then obtain kind ref d h where x: "x = (d, h, kind, ref)" "best_entry ?es (kind, ref) = Some (d, h)"
        by (auto simp: mem)
      then obtain e where "e \<in> set ?es" "key_of (fst e) = (kind, ref)"
        using entries_of_head by (fastforce simp: best_entry_def split: list.splits)
      with x best_entry_Some [OF hashes, of "fst e" "snd e"] show "x \<in> candidates_of ?es"
        unfolding candidates_of_def by (intro image_eqI [of _ _ e]; cases e) (auto simp: key_of_def)
    next
      fix x assume "x \<in> candidates_of ?es"
      then obtain m d' where m: "(m, d') \<in> set ?es"
        "x = (Min {d. \<exists>m'. (m', d) \<in> set ?es \<and> key_of m' = key_of m}, md_semantic m, md_kind m, md_ref m)"
        by (auto simp: candidates_of_def)
      with best_entry_Some [OF hashes m(1)] have "((md_kind m, md_ref m), fst x, md_semantic m) \<in> set best"
        by (simp add: mem key_of_def)
      with m show "x \<in> set (map ?f best)" by force
    qed
  qed
  ultimately have "sort (map ?f best) = sorted_list_of_set (candidates_of ?es)"
    by (metis sorted_list_of_set_sort_remdups remdups_id_iff_distinct)
  with False best show ?thesis
    by (simp add: rank_unique_candidates_def zip_strict_fold assms(2) Let_def)
qed

text \<open>C33: Ranking chunks whose identities have one hash each does not fail, and returns the first \<open>limit\<close> of
  the identities in the order of their best distance, then of the hash, the kind and the ref: every
  identity at most once, none that is farther than one left out.\<close>

theorem rank_unique_candidates_best:
  assumes "one_hash (set ms)" "length ms = length ds"
  shows "rank_unique_candidates [ms] [ds] limit =
    Inr (map (\<lambda>(distance, _, kind, ref). (distance, kind, ref)) (take (nat limit) (sorted_list_of_set (candidates_of (zip ms ds)))))"
  using assms by (rule rank_unique_candidates_run)

text \<open>Three chunks of two Episodes.\<close>

definition example_scope :: index_scope where
  "example_scope = \<lparr>sc_tenant = lit ''t'', sc_agent = lit ''a'', sc_relationship = lit ''r''\<rparr>"

definition example_chunk :: "string \<Rightarrow> nat \<Rightarrow> chunk_metadata" where
  "example_chunk ref i = \<lparr>md_scope = example_scope, md_kind = 1, md_ref = lit ref, md_chunk = i, md_semantic = lit (ref @ ''#'')\<rparr>"

lemma rank_unique_candidates_best_witness:
  "rank_unique_candidates [[example_chunk ''b'' 0, example_chunk ''a'' 0, example_chunk ''b'' 1]] [[3, 2, 1]] 5 =
     Inr [(1, 1, lit ''b''), (2, 1, lit ''a'')] \<and>
   map (\<lambda>(distance, _, kind, ref). (distance, kind, ref)) (take 5 (sorted_list_of_set (candidates_of
     (zip [example_chunk ''b'' 0, example_chunk ''a'' 0, example_chunk ''b'' 1] [3, 2, 1])))) =
     [(1, 1, lit ''b''), (2, 1, lit ''a'')]"
proof -
  let ?ms = "[example_chunk ''b'' 0, example_chunk ''a'' 0, example_chunk ''b'' 1]"
  have run: "rank_unique_candidates [?ms] [[3, 2, 1]] 5 = Inr [(1, 1, lit ''b''), (2, 1, lit ''a'')]"
    by (simp add: rank_unique_candidates_def rank_chunk_def example_chunk_def key_of_def insort_key.simps)
  have "one_hash (set ?ms)" by (auto simp: one_hash_def example_chunk_def key_of_def)
  from rank_unique_candidates_best [OF this, of "[3, 2, 1]" 5] run show ?thesis by simp
qed

end
