(* ===== verification/Index_Laws.thy ===== *)
theory Index_Laws
  imports Index_Text Index_Ranking
begin

text \<open>
  The handlers of the local MemoryIndex on the collection they keep: every call is a step of an abstract
  index, no identity is ever stored with two projections, a search stays in its scope, an upsert replaces
  what was stored, and a call without the token changes nothing.
\<close>

section \<open>The collection\<close>

text \<open>A stored row: its id, its metadata and its embedding. What the documentation of a Chroma collection
  promises, in terms of the rows it holds: \<open>get\<close> returns the matching rows once, in some order; \<open>delete\<close>
  removes them; \<open>upsert\<close> replaces the rows with the given ids; a call that fails has changed at most rows it
  was asked to change. The log file does not touch the collection.\<close>

type_synonym index_row = "pystr \<times> chunk_metadata \<times> embedding"

definition row_metadata :: "index_row \<Rightarrow> chunk_metadata" where
  "row_metadata row = fst (snd row)"

definition matches :: "pydict \<Rightarrow> chunk_metadata \<Rightarrow> bool" where
  "matches conditions m \<longleftrightarrow> (\<forall>(k, v) \<in> set conditions. map_of (chunk_dict m) k = Some v)"

definition matching :: "pydict \<Rightarrow> index_row set \<Rightarrow> index_row set" where
  "matching conditions stored = {row \<in> stored. matches conditions (row_metadata row)}"

definition found_in :: "found_rows \<Rightarrow> index_row set \<Rightarrow> bool" where
  "found_in found stored \<longleftrightarrow> (\<exists>rs. distinct rs \<and> set rs = stored \<and> fr_ids found = map fst rs \<and>
     fr_metadatas found = Some (map row_metadata rs) \<and> fr_embeddings found = Some (map (snd \<circ> snd) rs))"

definition documented_get :: "'w memory_index \<Rightarrow> ('w \<Rightarrow> index_row set) \<Rightarrow> bool" where
  "documented_get self rows \<longleftrightarrow> (\<forall>conditions w r w'. mi_get self (index_where conditions) w = (r, w') \<longrightarrow>
     rows w' = rows w \<and> (\<forall>found. r = Inr found \<longrightarrow> found_in found (matching conditions (rows w))))"

definition documented_delete :: "'w memory_index \<Rightarrow> ('w \<Rightarrow> index_row set) \<Rightarrow> bool" where
  "documented_delete self rows \<longleftrightarrow> (\<forall>conditions w r w'. mi_delete self (index_where conditions) w = (r, w') \<longrightarrow>
     rows w' \<subseteq> rows w \<and> (r = Inr () \<longrightarrow> rows w' = rows w - matching conditions (rows w)))"

definition documented_upsert :: "'w memory_index \<Rightarrow> ('w \<Rightarrow> index_row set) \<Rightarrow> bool" where
  "documented_upsert self rows \<longleftrightarrow> (\<forall>ids documents embeddings metadatas w r w'.
     mi_upsert self ids documents embeddings metadatas w = (r, w') \<longrightarrow>
     rows w' \<subseteq> rows w \<union> set (zip ids (zip metadatas embeddings)) \<and>
     (r = Inr () \<longrightarrow> length embeddings = length ids \<and>
        rows w' = {row \<in> rows w. fst row \<notin> set ids} \<union> set (zip ids (zip metadatas embeddings))))"

definition documented_reset :: "'w memory_index \<Rightarrow> ('w \<Rightarrow> index_row set) \<Rightarrow> bool" where
  "documented_reset self rows \<longleftrightarrow>
     (\<forall>w r w'. mi_drop self w = (r, w') \<longrightarrow> rows w' \<subseteq> rows w \<and> (r = Inr () \<longrightarrow> rows w' = {})) \<and>
     (\<forall>w. rows (snd (mi_create self w)) = rows w) \<and> (\<forall>entry w. rows (snd (mi_log self entry w)) = rows w)"

definition documented_collection :: "'w memory_index \<Rightarrow> ('w \<Rightarrow> index_row set) \<Rightarrow> bool" where
  "documented_collection self rows \<longleftrightarrow>
     documented_get self rows \<and> documented_delete self rows \<and> documented_upsert self rows \<and> documented_reset self rows"

text \<open>The abstract index: the set of identities that are present. In the collection an identity may have
  several rows, all with one hash.\<close>

definition identity_of :: "chunk_metadata \<Rightarrow> index_metadata" where
  "identity_of m = index_metadata.truncate m"

definition present :: "index_row set \<Rightarrow> index_metadata set" where
  "present stored = (identity_of \<circ> row_metadata) ` stored"

definition consistent :: "index_row set \<Rightarrow> bool" where
  "consistent stored \<longleftrightarrow> (\<forall>x \<in> stored. \<forall>y \<in> stored. identity_of (row_metadata x) = identity_of (row_metadata y) \<longrightarrow>
     md_semantic (row_metadata x) = md_semantic (row_metadata y))"

lemma matches_scope: "matches (scope_dict scope) m \<longleftrightarrow> md_scope m = scope"
  by (cases scope; cases "md_scope m") (auto simp: matches_def chunk_dict_def metadata_dict_def scope_dict_def)

lemma matches_append: "matches (xs @ ys) m \<longleftrightarrow> matches xs m \<and> matches ys m"
  by (auto simp: matches_def)

lemma matches_key: "matches [(lit ''kind'', PInt kind), (lit ''ref'', PStr ref)] m \<longleftrightarrow> md_kind m = kind \<and> md_ref m = ref"
  by (auto simp: matches_def chunk_dict_def metadata_dict_def scope_dict_def)

lemma matches_metadata: "matches (metadata_dict i) m \<longleftrightarrow> identity_of m = i" for i :: index_metadata
proof -
  have "matches (metadata_dict i) m \<longleftrightarrow> md_scope m = md_scope i \<and> md_kind m = md_kind i \<and> md_ref m = md_ref i"
    unfolding metadata_dict_def by (simp add: matches_append matches_scope matches_key)
  then show ?thesis by (cases i) (auto simp: identity_of_def index_metadata.truncate_def)
qed

lemma empty_index [simp]: "consistent {}" "present {} = {}"
  by (simp_all add: consistent_def present_def)

lemma consistent_subset: "consistent stored \<Longrightarrow> stored' \<subseteq> stored \<Longrightarrow> consistent stored'"
  unfolding consistent_def by blast

lemma present_subset: "stored' \<subseteq> stored \<Longrightarrow> present stored' \<subseteq> present stored"
  unfolding present_def by blast

lemma present_without: "present (stored - matching (metadata_dict i) stored) = present stored - {i}"
  by (auto simp: present_def matching_def matches_metadata)

section \<open>Triples\<close>

text \<open>From a state that satisfies \<open>P\<close>, a computation ends with a result and a state that satisfy \<open>Q\<close>.\<close>

definition ends :: "('w \<Rightarrow> bool) \<Rightarrow> ('w, 'a) io \<Rightarrow> ('a result \<Rightarrow> 'w \<Rightarrow> bool) \<Rightarrow> bool" where
  "ends P m Q \<longleftrightarrow> (\<forall>w. P w \<longrightarrow> (case m w of (r, w') \<Rightarrow> Q r w'))"

lemma ends_pure: "(\<And>w. P w \<Longrightarrow> Q r w) \<Longrightarrow> ends P (pure_call r) Q"
  by (simp add: ends_def pure_call_def)

lemma endsD: "ends P m Q \<Longrightarrow> P w \<Longrightarrow> m w = (r, w') \<Longrightarrow> Q r w'"
  unfolding ends_def by fastforce

lemma endsI: "(\<And>w r w'. P w \<Longrightarrow> m w = (r, w') \<Longrightarrow> Q r w') \<Longrightarrow> ends P m Q"
  unfolding ends_def by (simp split: prod.split)

lemma ends_bind:
  assumes "ends P m (\<lambda>r w. case r of Inl e \<Rightarrow> Q (Inl e) w | Inr x \<Rightarrow> R x w)" and "\<And>x. ends (R x) (f x) Q"
  shows "ends P (bind_call m f) Q"
proof (rule endsI)
  fix w r w' assume P: "P w" and run: "bind_call m f w = (r, w')"
  obtain r1 w1 where m: "m w = (r1, w1)" by (cases "m w")
  from endsD [OF assms(1) P m] show "Q r w'"
    using run endsD [OF assms(2)] by (cases r1) (auto simp: bind_call_def m)
qed

lemma ends_conseq:
  assumes "ends P m Q" "\<And>w. P' w \<Longrightarrow> P w" "\<And>r w. Q r w \<Longrightarrow> Q' r w"
  shows "ends P' m Q'"
proof (rule endsI)
  fix w r w' assume "P' w" "m w = (r, w')"
  then show "Q' r w'" using endsD [OF assms(1)] assms(2,3) by blast
qed

lemma ends_bind_pure: "(\<And>e w. r = Inl e \<Longrightarrow> P w \<Longrightarrow> Q (Inl e) w) \<Longrightarrow> (\<And>x. r = Inr x \<Longrightarrow> ends P (f x) Q) \<Longrightarrow>
    ends P (bind_call (pure_call r) f) Q"
  by (cases r) (simp_all add: ends_def bind_call_def pure_call_def)

lemma ends_for_each: "(\<And>x. x \<in> set xs \<Longrightarrow> ends P (f x) (\<lambda>_. P)) \<Longrightarrow> ends P (for_each f xs) (\<lambda>_. P)"
proof (induction xs)
  case Nil
  then show ?case by (simp add: ends_pure)
next
  case (Cons x xs)
  have "ends P (f x) (\<lambda>_. P)" by (rule Cons.prems) simp
  moreover have "ends P (for_each f xs) (\<lambda>_. P)" by (rule Cons.IH) (simp add: Cons.prems)
  ultimately show ?case
    by (auto intro!: ends_bind [where R = "\<lambda>_. P"] elim!: ends_conseq split: sum.splits)
qed

section \<open>The handlers on the collection\<close>

definition stored_ok :: "('w \<Rightarrow> index_row set) \<Rightarrow> index_metadata set \<Rightarrow> 'w \<Rightarrow> bool" where
  "stored_ok rows S w \<longleftrightarrow> consistent (rows w) \<and> present (rows w) \<subseteq> S"

lemma ends_log:
  assumes "documented_collection self rows"
  shows "ends (\<lambda>w. Q (rows w)) (mi_log self entry) (\<lambda>_ w. Q (rows w))"
proof (rule endsI)
  fix w r w' assume "Q (rows w)" "mi_log self entry w = (r, w')"
  moreover from assms have "rows (snd (mi_log self entry w)) = rows w" by (simp add: documented_collection_def documented_reset_def)
  ultimately show "Q (rows w')" by simp
qed

lemma chunk_rows_identity: "m \<in> set (chunk_rows p) \<Longrightarrow> identity_of m = pd_metadata p \<and> md_semantic m = pd_hash p"
  by (auto simp: chunk_rows_def identity_of_def index_metadata.defs chunk_metadata.defs)

lemma ends_delete:
  assumes "documented_collection self rows"
  shows "ends (\<lambda>w. rows w = stored) (mi_delete self (index_where conditions))
    (\<lambda>r w. rows w \<subseteq> stored \<and> (r = Inr () \<longrightarrow> rows w = stored - matching conditions stored))"
proof (rule endsI)
  fix w r w' assume "rows w = stored" "mi_delete self (index_where conditions) w = (r, w')"
  moreover have "documented_delete self rows" using assms by (simp add: documented_collection_def)
  ultimately show "rows w' \<subseteq> stored \<and> (r = Inr () \<longrightarrow> rows w' = stored - matching conditions stored)"
    unfolding documented_delete_def by metis
qed

lemma ends_upsert:
  assumes "documented_collection self rows"
  shows "ends (\<lambda>w. rows w = stored) (mi_upsert self ids documents embeddings metadatas)
    (\<lambda>r w. rows w \<subseteq> stored \<union> set (zip ids (zip metadatas embeddings)) \<and>
       (r = Inr () \<longrightarrow> length embeddings = length ids \<and>
          rows w = {row \<in> stored. fst row \<notin> set ids} \<union> set (zip ids (zip metadatas embeddings))))"
proof (rule endsI)
  fix w r w' assume w: "rows w = stored" and run: "mi_upsert self ids documents embeddings metadatas w = (r, w')"
  have "documented_upsert self rows" using assms by (simp add: documented_collection_def)
  from this [unfolded documented_upsert_def, rule_format, OF run] w
  show "rows w' \<subseteq> stored \<union> set (zip ids (zip metadatas embeddings)) \<and>
       (r = Inr () \<longrightarrow> length embeddings = length ids \<and>
          rows w' = {row \<in> stored. fst row \<notin> set ids} \<union> set (zip ids (zip metadatas embeddings)))"
    by simp
qed

text \<open>New rows of one identity with one hash, when the collection holds none of that identity.\<close>

lemma new_rows:
  assumes "consistent stored" "i \<notin> present stored" "present stored \<subseteq> S" "i \<in> S"
    and "\<And>x. x \<in> new \<Longrightarrow> identity_of (row_metadata x) = i \<and> md_semantic (row_metadata x) = h"
    and "stored' \<subseteq> stored \<union> new"
  shows "consistent stored' \<and> present stored' \<subseteq> S"
proof -
  have "identity_of (row_metadata x) \<noteq> i" if "x \<in> stored" for x
    using assms(2) that by (auto simp: present_def)
  with assms(1,5) have "consistent (stored \<union> new)" unfolding consistent_def by (metis UnE)
  moreover have "present (stored \<union> new) \<subseteq> S" using assms(3-5) by (fastforce simp: present_def)
  ultimately show ?thesis using consistent_subset present_subset assms(6) by (metis subset_trans)
qed

lemma row_of_zip: "x \<in> set (zip ids (zip ms es)) \<Longrightarrow> row_metadata x \<in> set ms"
  by (cases x) (auto simp: row_metadata_def elim: in_set_zipE)

lemma store_document_ok:
  assumes law: "documented_collection self rows" and p: "pd_metadata p \<in> S"
  shows "ends (stored_ok rows S) (store_document self p) (\<lambda>_. stored_ok rows S)"
proof (rule endsI)
  fix w r w' assume ok: "stored_ok rows S w" and run: "store_document self p w = (r, w')"
  let ?i = "pd_metadata p"
  define stored where "stored = rows w"
  let ?clear = "\<lambda>v. stored_ok rows S v \<and> ?i \<notin> present (rows v)"
  have delete: "ends (\<lambda>w. rows w = stored) (mi_delete self (index_where (metadata_dict ?i)))
      (\<lambda>r v. case r of Inl e \<Rightarrow> stored_ok rows S v | Inr x \<Rightarrow> ?clear v)"
    using ok consistent_subset [of stored] present_subset [of _ stored]
    by (intro ends_conseq [OF ends_delete [OF law]])
      (auto simp: stored_ok_def stored_def present_without split: sum.splits)
  have upsert: "ends ?clear (mi_upsert self ids documents embeddings (chunk_rows p)) (\<lambda>_. stored_ok rows S)" for ids documents embeddings
  proof (rule endsI)
    fix v r v' assume v: "?clear v" and up: "mi_upsert self ids documents embeddings (chunk_rows p) v = (r, v')"
    from endsD [OF ends_upsert [OF law] refl up]
    have "rows v' \<subseteq> rows v \<union> set (zip ids (zip (chunk_rows p) embeddings))" by blast
    then show "stored_ok rows S v'"
      using v p new_rows [of "rows v" ?i S "set (zip ids (zip (chunk_rows p) embeddings))" "pd_hash p" "rows v'"]
        row_of_zip chunk_rows_identity by (metis stored_ok_def)
  qed
  have "ends (\<lambda>w. rows w = stored) (store_document self p) (\<lambda>_. stored_ok rows S)"
    unfolding store_document_def Let_def
    apply (rule ends_bind [OF delete])
    apply (rule ends_bind [where R = "\<lambda>_. stored_ok rows S"])
    apply (rule ends_conseq [OF upsert])
    using ends_log [OF law, of "\<lambda>stored. consistent stored \<and> present stored \<subseteq> S"]
    by (auto simp: stored_ok_def [abs_def] split: sum.splits)
  with run show "stored_ok rows S w'" by (auto simp: stored_def dest: endsD)
qed

text \<open>What a search may answer: identities of one scope, each once, as many as there are up to the limit.\<close>

definition scope_keys :: "index_metadata set \<Rightarrow> index_scope \<Rightarrow> identity_key set" where
  "scope_keys S scope = (\<lambda>i. (md_kind i, md_ref i)) ` {i \<in> S. md_scope i = scope}"

definition full_answer :: "identity_key set \<Rightarrow> int \<Rightarrow> identity_key list \<Rightarrow> bool" where
  "full_answer keys limit answer \<longleftrightarrow> distinct answer \<and> set answer \<subseteq> keys \<and> length answer = min (nat limit) (card keys)"

definition candidate_key :: "real \<times> pystr \<times> int \<times> pystr \<Rightarrow> identity_key" where
  "candidate_key = (\<lambda>(_, _, kind, ref). (kind, ref))"

lemma candidates_keys:
  assumes "one_hash (set ms)" "length ms = length ds"
  shows "inj_on candidate_key (candidates_of (zip ms ds))" "candidate_key ` candidates_of (zip ms ds) = key_of ` set ms"
proof -
  show "inj_on candidate_key (candidates_of (zip ms ds))"
  proof (rule inj_onI)
    fix x y assume "x \<in> candidates_of (zip ms ds)" "y \<in> candidates_of (zip ms ds)" and keys: "candidate_key x = candidate_key y"
    then obtain m d m' d' where m: "(m, d) \<in> set (zip ms ds)" "(m', d') \<in> set (zip ms ds)"
      and x: "x = (Min {d. \<exists>m'. (m', d) \<in> set (zip ms ds) \<and> key_of m' = key_of m}, md_semantic m, md_kind m, md_ref m)"
      and y: "y = (Min {d. \<exists>m''. (m'', d) \<in> set (zip ms ds) \<and> key_of m'' = key_of m'}, md_semantic m', md_kind m', md_ref m')"
      by (auto simp: candidates_of_def)
    from keys x y have k: "key_of m = key_of m'" by (simp add: candidate_key_def key_of_def)
    moreover from this m assms(1) have "md_semantic m = md_semantic m'"
      unfolding one_hash_def by (metis set_zip_leftD)
    ultimately show "x = y" using x y by (simp add: key_of_def)
  qed
  have "fst ` set (zip ms ds) = set ms" using assms(2) by (metis map_fst_zip set_map)
  moreover have "candidate_key ` candidates_of (zip ms ds) = key_of ` fst ` set (zip ms ds)"
    by (auto simp: candidates_of_def candidate_key_def key_of_def image_image split_def)
  ultimately show "candidate_key ` candidates_of (zip ms ds) = key_of ` set ms" by simp
qed

lemma rank_unique_answer:
  assumes "one_hash (set ms)" "length ms = length ds" "rank_unique_candidates [ms] [ds] limit = Inr ranking"
  shows "full_answer (key_of ` set ms) limit (map (\<lambda>(_, kind, ref). (kind, ref)) ranking)"
proof -
  let ?C = "candidates_of (zip ms ds)"
  have fin: "finite ?C" by (simp add: candidates_of_def)
  note keys = candidates_keys [OF assms(1,2)]
  have answer: "map (\<lambda>(_, kind, ref). (kind, ref)) ranking = map candidate_key (take (nat limit) (sorted_list_of_set ?C))"
    using assms(3) by (auto simp: rank_unique_candidates_run [OF assms(1,2)] candidate_key_def)
  have sub: "set (take (nat limit) (sorted_list_of_set ?C)) \<subseteq> ?C" using fin by (auto dest: in_set_takeD)
  have "distinct (map candidate_key (take (nat limit) (sorted_list_of_set ?C)))"
    using keys(1) sub by (simp add: distinct_map inj_on_subset)
  moreover have "card ?C = card (key_of ` set ms)" using keys card_image by metis
  ultimately show ?thesis using sub keys(2) fin unfolding full_answer_def answer by (auto simp: min_def)
qed

lemma rank_exact_answer:
  assumes "one_hash (set ms)" "rank_exact_cosine_candidates (Some stored) (Some ms) queries limit = Inr ranking"
  shows "full_answer (key_of ` set ms) limit (map (\<lambda>(_, kind, ref). (kind, ref)) ranking)"
proof (cases "limit \<le> 0 \<or> ms = []")
  case True
  with assms(2) have "ranking = []" by (auto simp: rank_exact_cosine_candidates_def split: if_splits)
  with True show ?thesis by (auto simp: full_answer_def)
next
  case False
  with assms(2) have "length stored = length ms" "rank_unique_candidates [ms]
      [map (best_distance (finite_rows queries)) (finite_rows stored)] limit = Inr ranking"
    by (auto simp: rank_exact_cosine_candidates_def bindr_Inr_iff as_matrix_def split: if_splits)
  with assms(1) show ?thesis
    by (intro rank_unique_answer [where ds = "map (best_distance (finite_rows queries)) (finite_rows stored)"])
      (simp_all add: finite_rows_def)
qed

definition answering :: "index_query \<Rightarrow> bool" where
  "answering query \<longleftrightarrow> 0 < iq_limit query \<and> strip (iq_text query) \<noteq> []"

lemma rank_query_answer:
  assumes found: "found_in found (matching (scope_dict (iq_scope query)) stored)" and "consistent stored"
    and run: "rank_query self found query = Inr ranking"
  shows "full_answer (scope_keys (present stored) (iq_scope query)) (if answering query then iq_limit query else 0)
    (map (\<lambda>(_, kind, ref). (kind, ref)) ranking)"
proof -
  from found obtain rs where rs: "set rs = matching (scope_dict (iq_scope query)) stored" "fr_ids found = map fst rs"
    "fr_metadatas found = Some (map row_metadata rs)" "fr_embeddings found = Some (map (snd \<circ> snd) rs)"
    by (auto simp: found_in_def)
  let ?ms = "map row_metadata rs"
  have scoped: "x \<in> stored \<and> md_scope (row_metadata x) = iq_scope query" if "x \<in> set rs" for x
    using that rs(1) by (simp add: matching_def matches_scope)
  have identity: "identity_of m = \<lparr>md_scope = md_scope m, md_kind = md_kind m, md_ref = md_ref m\<rparr>" for m
    by (simp add: identity_of_def index_metadata.truncate_def)
  have hashes: "one_hash (set ?ms)"
    unfolding one_hash_def
  proof (intro ballI impI)
    fix m m' assume "m \<in> set ?ms" "m' \<in> set ?ms" and k: "key_of m = key_of m'"
    then obtain x x' where x: "x \<in> set rs" "m = row_metadata x" "x' \<in> set rs" "m' = row_metadata x'" by auto
    with scoped k have "identity_of m = identity_of m'" by (simp add: identity key_of_def)
    with assms(2) x scoped show "md_semantic m = md_semantic m'" unfolding consistent_def by blast
  qed
  have keys: "key_of ` set ?ms = scope_keys (present stored) (iq_scope query)"
  proof -
    have "scope_keys (present stored) (iq_scope query) =
        (\<lambda>x. key_of (row_metadata x)) ` {x \<in> stored. md_scope (row_metadata x) = iq_scope query}"
      by (force simp: scope_keys_def present_def identity key_of_def)
    moreover have "{x \<in> stored. md_scope (row_metadata x) = iq_scope query} = set rs"
      using rs(1) by (simp add: matching_def matches_scope)
    ultimately show ?thesis by (simp add: image_image)
  qed
  show ?thesis
  proof (cases "fr_ids found \<noteq> [] \<and> answering query")
    case True
    with run rs obtain queries where
      "rank_exact_cosine_candidates (Some (map (snd \<circ> snd) rs)) (Some ?ms) queries (iq_limit query) = Inr ranking"
      by (auto simp: rank_query_def answering_def bindr_Inr_iff)
    from rank_exact_answer [OF hashes this] True show ?thesis unfolding keys by simp
  next
    case False
    with run have "ranking = []" by (auto simp: rank_query_def answering_def split: if_splits)
    moreover have "scope_keys (present stored) (iq_scope query) = {}" if "answering query"
      using False that rs(2) keys by auto
    ultimately show ?thesis by (auto simp: full_answer_def)
  qed
qed

section \<open>The abstract index\<close>

datatype index_call =
    UpsertCall "index_document list"
  | SearchCall index_query
  | DeleteCall index_scope "identity_key list"
  | ResetCall

text \<open>An RPC with its invocation metadata; only a search has an answer.\<close>

definition index_step :: "'w memory_index \<Rightarrow> (pystr \<times> pystr) list \<Rightarrow> index_call \<Rightarrow> ('w, identity_key list) io" where
  "index_step self invocation_metadata call = (case call of
     UpsertCall documents \<Rightarrow> bind_call (Upsert self invocation_metadata documents) (\<lambda>_. pure_call (Inr []))
   | SearchCall query \<Rightarrow> Search self invocation_metadata query
   | DeleteCall scope candidates \<Rightarrow> bind_call (Delete self invocation_metadata scope candidates) (\<lambda>_. pure_call (Inr []))
   | ResetCall \<Rightarrow> bind_call (Reset self invocation_metadata) (\<lambda>_. pure_call (Inr [])))"

definition document_identity :: "index_document \<Rightarrow> index_metadata" where
  "document_identity d = \<lparr>md_scope = id_scope d, md_kind = id_kind d, md_ref = id_ref d\<rparr>"

definition named :: "index_scope \<Rightarrow> identity_key list \<Rightarrow> index_metadata set" where
  "named scope candidates = (\<lambda>c. \<lparr>md_scope = scope, md_kind = fst c, md_ref = snd c\<rparr>) ` set candidates"

text \<open>The steps of the abstract index, a set of identities: what a call may do to it and answer.\<close>

fun index_spec :: "index_metadata set \<Rightarrow> index_call \<Rightarrow> identity_key list result \<Rightarrow> index_metadata set \<Rightarrow> bool" where
  "index_spec S (UpsertCall documents) r S' \<longleftrightarrow> S' \<subseteq> S \<union> document_identity ` set documents"
| "index_spec S (SearchCall query) r S' \<longleftrightarrow> S' = S \<and>
     (\<forall>answer. r = Inr answer \<longrightarrow>
        full_answer (scope_keys S (iq_scope query)) (if answering query then iq_limit query else 0) answer)"
| "index_spec S (DeleteCall scope candidates) r S' \<longleftrightarrow> S' \<subseteq> S \<and> (\<forall>a. r = Inr a \<longrightarrow> S' = S - named scope candidates)"
| "index_spec S ResetCall r S' \<longleftrightarrow> S' \<subseteq> S \<and> (\<forall>a. r = Inr a \<longrightarrow> S' = {})"

lemma prepare_document_identity: "prepare_document self d = Inr p \<Longrightarrow> pd_metadata p = document_identity d"
  by (auto simp: prepare_document_def document_identity_def bindr_Inr_iff Let_def)

lemma prepare_documents_identities:
  "prepare_documents self ds = Inr ps \<Longrightarrow> pd_metadata ` set ps \<subseteq> document_identity ` set ds"
proof (induction ds arbitrary: ps)
  case (Cons d ds)
  then obtain p ps' where "prepare_document self d = Inr p" "prepare_documents self ds = Inr ps'" "ps = p # ps'"
    by (auto simp: bindr_Inr_iff)
  with Cons.IH [of ps'] prepare_document_identity [of self d p] show ?case by auto
qed simp

lemma reported_Inr [simp]: "map_sum id (\<lambda>_. []) r = Inr a \<longleftrightarrow> r = Inr () \<and> a = []" for r :: "unit result"
  by (cases r) auto

lemma ends_reported:
  assumes "ends P m (\<lambda>r w. Q (map_sum id (\<lambda>_. []) r) w)"
  shows "ends P (bind_call m (\<lambda>_. pure_call (Inr []))) Q"
proof (rule ends_bind [where R = "\<lambda>_. Q (Inr [])"])
  show "ends P m (\<lambda>r w. case r of Inl e \<Rightarrow> Q (Inl e) w | Inr x \<Rightarrow> Q (Inr []) w)"
    by (rule ends_conseq [OF assms]) (auto split: sum.split)
qed (simp add: ends_pure)

lemma ends_upsert_call:
  assumes "documented_collection self rows"
  shows "ends (\<lambda>w. consistent (rows w) \<and> present (rows w) = S) (Upsert self imd documents)
    (\<lambda>_ w. consistent (rows w) \<and> present (rows w) \<subseteq> S \<union> document_identity ` set documents)"
proof -
  let ?S = "S \<union> document_identity ` set documents"
  have "ends (stored_ok rows ?S) (for_each (store_document self) prepared) (\<lambda>_. stored_ok rows ?S)"
    if "prepare_documents self documents = Inr prepared" for prepared
    using prepare_documents_identities [OF that] by (intro ends_for_each store_document_ok [OF assms]) blast
  then have "ends (stored_ok rows ?S) (Upsert self imd documents) (\<lambda>_. stored_ok rows ?S)"
    unfolding Upsert_def by (intro ends_bind_pure) simp_all
  then show ?thesis by (rule ends_conseq) (auto simp: stored_ok_def)
qed

lemma ends_delete_candidate:
  assumes law: "documented_collection self rows"
  shows "ends (\<lambda>w. consistent (rows w) \<and> present (rows w) = S) (delete_candidate self scope c)
    (\<lambda>r w. consistent (rows w) \<and> (if r = Inr () then present (rows w) = S - named scope [c] else present (rows w) \<subseteq> S))"
proof (rule endsI)
  fix w r w' assume w: "consistent (rows w) \<and> present (rows w) = S" and run: "delete_candidate self scope c w = (r, w')"
  define stored where "stored = rows w"
  let ?gone = "\<lambda>w. consistent (rows w) \<and> present (rows w) = S - named scope [c]"
  have "ends (\<lambda>w. rows w = stored) (delete_candidate self scope c)
    (\<lambda>r w. consistent (rows w) \<and> (if r = Inr () then present (rows w) = S - named scope [c] else present (rows w) \<subseteq> S))"
    unfolding delete_candidate_def Let_def
  proof (rule ends_bind [where R = "\<lambda>_. ?gone"])
    show "ends (\<lambda>w. rows w = stored)
      (mi_delete self (index_where (metadata_dict \<lparr>md_scope = scope, md_kind = fst c, md_ref = snd c\<rparr>)))
      (\<lambda>r w. case r of Inl e \<Rightarrow> consistent (rows w) \<and>
           (if Inl e = Inr () then present (rows w) = S - named scope [c] else present (rows w) \<subseteq> S) | Inr x \<Rightarrow> ?gone w)"
      using w consistent_subset [of stored] present_subset [of _ stored]
      by (intro ends_conseq [OF ends_delete [OF law]])
        (auto simp: stored_def present_without named_def split: sum.splits)
    show "ends ?gone (mi_log self entry)
      (\<lambda>r w. consistent (rows w) \<and> (if r = Inr () then present (rows w) = S - named scope [c] else present (rows w) \<subseteq> S))" for entry
      by (rule ends_conseq [OF ends_log [OF law, of "\<lambda>stored. consistent stored \<and> present stored = S - named scope [c]"]]) auto
  qed
  from endsD [OF this _ run]
  show "consistent (rows w') \<and> (if r = Inr () then present (rows w') = S - named scope [c] else present (rows w') \<subseteq> S)"
    by (simp add: stored_def)
qed

lemma named_Cons: "named scope (c # cs) = named scope [c] \<union> named scope cs"
  by (auto simp: named_def)

lemma ends_delete_candidates:
  assumes law: "documented_collection self rows"
  shows "ends (\<lambda>w. consistent (rows w) \<and> present (rows w) = S) (for_each (delete_candidate self scope) cs)
    (\<lambda>r w. consistent (rows w) \<and> (if r = Inr () then present (rows w) = S - named scope cs else present (rows w) \<subseteq> S))"
proof (induction cs arbitrary: S)
  case Nil
  then show ?case by (simp add: ends_pure named_def)
next
  case (Cons c cs)
  have rest: "ends (\<lambda>w. consistent (rows w) \<and> present (rows w) = S - named scope [c]) (for_each (delete_candidate self scope) cs)
    (\<lambda>r w. consistent (rows w) \<and> (if r = Inr () then present (rows w) = S - named scope (c # cs) else present (rows w) \<subseteq> S))"
  proof (rule ends_conseq [OF Cons.IH])
    fix r w
    assume "consistent (rows w) \<and> (if r = Inr () then present (rows w) = S - named scope [c] - named scope cs
      else present (rows w) \<subseteq> S - named scope [c])"
    moreover have "S - named scope [c] - named scope cs = S - named scope (c # cs)"
      by (subst named_Cons) blast
    ultimately show "consistent (rows w) \<and> (if r = Inr () then present (rows w) = S - named scope (c # cs) else present (rows w) \<subseteq> S)"
      by (cases "r = Inr ()") auto
  qed
  show ?case
    unfolding for_each.simps
  proof (rule ends_bind [where R = "\<lambda>_ w. consistent (rows w) \<and> present (rows w) = S - named scope [c]"])
    show "ends (\<lambda>w. consistent (rows w) \<and> present (rows w) = S) (delete_candidate self scope c)
      (\<lambda>r w. case r of
         Inl e \<Rightarrow> consistent (rows w) \<and>
           (if Inl e = Inr () then present (rows w) = S - named scope (c # cs) else present (rows w) \<subseteq> S)
       | Inr x \<Rightarrow> consistent (rows w) \<and> present (rows w) = S - named scope [c])"
      by (rule ends_conseq [OF ends_delete_candidate [OF law]]) (auto split: sum.split if_split_asm)
  qed (rule rest)
qed

lemma ends_delete_call:
  assumes "documented_collection self rows"
  shows "ends (\<lambda>w. consistent (rows w) \<and> present (rows w) = S) (Delete self imd scope cs)
    (\<lambda>r w. consistent (rows w) \<and> (if r = Inr () then present (rows w) = S - named scope cs else present (rows w) \<subseteq> S))"
  unfolding Delete_def by (intro ends_bind_pure ends_delete_candidates [OF assms]) simp

lemma ends_reset_call:
  assumes law: "documented_collection self rows"
  shows "ends (\<lambda>w. consistent (rows w) \<and> present (rows w) = S) (Reset self imd)
    (\<lambda>r w. consistent (rows w) \<and> (if r = Inr () then present (rows w) = {} else present (rows w) \<subseteq> S))"
    (is "ends ?P _ ?Q")
proof -
  have reset: "documented_reset self rows" using law by (simp add: documented_collection_def)
  have drop: "ends ?P (mi_drop self) (\<lambda>r w. case r of Inl e \<Rightarrow> ?Q (Inl e) w | Inr x \<Rightarrow> rows w = {})"
  proof (rule endsI)
    fix w r w' assume w: "?P w" and run: "mi_drop self w = (r, w')"
    then have "rows w' \<subseteq> rows w \<and> (r = Inr () \<longrightarrow> rows w' = {})" using reset unfolding documented_reset_def by blast
    then show "case r of Inl e \<Rightarrow> ?Q (Inl e) w' | Inr x \<Rightarrow> rows w' = {}"
      using w consistent_subset present_subset [of "rows w'" "rows w"] by (auto split: sum.splits)
  qed
  have create: "ends (\<lambda>w. rows w = {}) (mi_create self) (\<lambda>_ w. rows w = {})"
  proof (rule endsI)
    fix w r w' assume "rows w = {}" "mi_create self w = (r, w')"
    moreover have "rows (snd (mi_create self w)) = rows w" using reset by (simp add: documented_reset_def)
    ultimately show "rows w' = {}" by simp
  qed
  have tail: "ends (\<lambda>w. rows w = {}) (bind_call (mi_create self) (\<lambda>_. mi_log self ResetRecord)) ?Q"
    by (rule ends_bind [where R = "\<lambda>_ w. rows w = {}"])
      (auto intro!: ends_conseq [OF create] ends_conseq [OF ends_log [OF law, of "\<lambda>stored. stored = {}"]] split: sum.splits)
  show ?thesis unfolding Reset_def
    by (intro ends_bind_pure ends_bind [where R = "\<lambda>_ w. rows w = {}"] drop tail) simp
qed

lemma ends_search_call:
  assumes law: "documented_collection self rows"
  shows "ends (\<lambda>w. rows w = stored \<and> consistent stored) (Search self imd query)
    (\<lambda>r w. rows w = stored \<and> (\<forall>answer. r = Inr answer \<longrightarrow> full_answer (scope_keys (present stored) (iq_scope query))
       (if answering query then iq_limit query else 0) answer))" (is "ends ?P _ ?Q")
proof -
  have getting: "documented_get self rows" using law by (simp add: documented_collection_def)
  let ?found = "\<lambda>found w. ?P w \<and> found_in found (matching (scope_dict (iq_scope query)) stored)"
  have get: "ends ?P (mi_get self (index_where (scope_dict (iq_scope query))))
      (\<lambda>r w. case r of Inl e \<Rightarrow> ?Q (Inl e) w | Inr found \<Rightarrow> ?found found w)"
  proof (rule endsI)
    fix w r w' assume "?P w" "mi_get self (index_where (scope_dict (iq_scope query))) w = (r, w')"
    then show "case r of Inl e \<Rightarrow> ?Q (Inl e) w' | Inr found \<Rightarrow> ?found found w'"
      using getting unfolding documented_get_def by (auto split: sum.splits)
  qed
  have answer: "ends (?found found) (bind_call (pure_call (rank_query self found query)) (\<lambda>ranked.
      bind_call (mi_log self (SearchRecord (iq_scope query) (iq_text query) (iq_limit query) (length (fr_ids found)) ranked))
        (\<lambda>_. pure_call (Inr (map (\<lambda>(_, kind, ref). (kind, ref)) ranked))))) ?Q" for found
  proof (rule ends_bind_pure)
    fix ranked assume ranked: "rank_query self found query = Inr ranked"
    let ?R = "\<lambda>stored'. stored' = stored \<and> consistent stored \<and> found_in found (matching (scope_dict (iq_scope query)) stored)"
    show "ends (?found found) (bind_call (mi_log self (SearchRecord (iq_scope query) (iq_text query) (iq_limit query) (length (fr_ids found)) ranked))
        (\<lambda>_. pure_call (Inr (map (\<lambda>(_, kind, ref). (kind, ref)) ranked)))) ?Q"
    proof (rule ends_bind [where R = "\<lambda>_ w. ?R (rows w)"])
      show "ends (?found found) (mi_log self (SearchRecord (iq_scope query) (iq_text query) (iq_limit query) (length (fr_ids found)) ranked))
          (\<lambda>r w. case r of Inl e \<Rightarrow> ?Q (Inl e) w | Inr x \<Rightarrow> ?R (rows w))"
        by (rule ends_conseq [OF ends_log [OF law, of ?R]]) (auto split: sum.splits)
    qed (rule ends_pure, use rank_query_answer ranked in blast)
  qed simp
  show ?thesis unfolding Search_def
    by (intro ends_bind_pure ends_bind [where R = ?found] get answer) simp
qed

text \<open>C31: Under the documented behaviour of the collection, every RPC of the index, whether it succeeds or fails
  at any point, is a step of the abstract index, and keeps all rows of one identity on one hash. An upsert
  adds no identity but those of its documents, a delete that succeeds removes exactly those it names, a
  reset that succeeds empties the index, and a search changes nothing and answers identities of its own scope
  only: each once, and all of them when the limit allows it.\<close>

theorem index_refines:
  assumes "documented_collection self rows" "consistent (rows w)" "index_step self imd call w = (r, w')"
  shows "consistent (rows w') \<and> index_spec (present (rows w)) call r (present (rows w'))"
proof (cases call)
  case (UpsertCall documents)
  have "ends (\<lambda>v. consistent (rows v) \<and> present (rows v) = present (rows w)) (index_step self imd call)
    (\<lambda>r v. consistent (rows v) \<and> index_spec (present (rows w)) call r (present (rows v)))"
    using ends_upsert_call [OF assms(1)] by (auto simp: index_step_def UpsertCall intro!: ends_reported)
  from endsD [OF this _ assms(3)] assms(2) show ?thesis by simp
next
  case (SearchCall query)
  have "ends (\<lambda>v. rows v = rows w \<and> consistent (rows w)) (index_step self imd call)
    (\<lambda>r v. consistent (rows v) \<and> index_spec (present (rows w)) call r (present (rows v)))"
    unfolding index_step_def SearchCall index_call.case
    by (rule ends_conseq [OF ends_search_call [OF assms(1)]]) (use assms(2) in auto)
  from endsD [OF this _ assms(3)] assms(2) show ?thesis by simp
next
  case (DeleteCall scope candidates)
  have "ends (\<lambda>v. consistent (rows v) \<and> present (rows v) = present (rows w)) (index_step self imd call)
    (\<lambda>r v. consistent (rows v) \<and> index_spec (present (rows w)) call r (present (rows v)))"
    unfolding index_step_def DeleteCall index_call.case
    by (intro ends_reported ends_conseq [OF ends_delete_call [OF assms(1)]]) (auto split: if_splits sum.splits)
  from endsD [OF this _ assms(3)] assms(2) show ?thesis by simp
next
  case ResetCall
  have "ends (\<lambda>v. consistent (rows v) \<and> present (rows v) = present (rows w)) (index_step self imd call)
    (\<lambda>r v. consistent (rows v) \<and> index_spec (present (rows w)) call r (present (rows v)))"
    unfolding index_step_def ResetCall index_call.case
    by (intro ends_reported ends_conseq [OF ends_reset_call [OF assms(1)]]) (auto split: if_splits sum.splits)
  from endsD [OF this _ assms(3)] assms(2) show ?thesis by simp
qed

text \<open>A collection that is a list of rows, for examples; the log is the second part of the state.\<close>

type_synonym list_index = "index_row list \<times> index_record list"

definition list_conditions :: "pyval \<Rightarrow> pydict" where
  "list_conditions clause = (case clause of
     PDict [(_, PList cs)] \<Rightarrow> List.map_filter (\<lambda>c. case c of PDict [(k, PDict [(_, v)])] \<Rightarrow> Some (k, v) | _ \<Rightarrow> None) cs
   | _ \<Rightarrow> [])"

definition list_index :: "(pystr \<Rightarrow> (nat \<times> nat) list result) \<Rightarrow> (pystr list \<Rightarrow> embedding list result) \<Rightarrow> list_index memory_index" where
  "list_index offsets encoder = \<lparr>mi_token = [], mi_offsets = offsets, mi_encoder = encoder, mi_sha256 = (\<lambda>t. t),
     mi_get = (\<lambda>clause (stored, log). let rs = filter (\<lambda>row. matches (list_conditions clause) (row_metadata row)) (remdups stored) in
       (Inr \<lparr>fr_ids = map fst rs, fr_metadatas = Some (map row_metadata rs), fr_embeddings = Some (map (snd \<circ> snd) rs)\<rparr>, stored, log)),
     mi_delete = (\<lambda>clause (stored, log). (Inr (), filter (\<lambda>row. \<not> matches (list_conditions clause) (row_metadata row)) stored, log)),
     mi_upsert = (\<lambda>ids documents embeddings metadatas (stored, log).
       if length embeddings = length ids
       then (Inr (), filter (\<lambda>row. fst row \<notin> set ids) stored @ zip ids (zip metadatas embeddings), log)
       else (Inl (ValueError (lit ''lengths'')), stored, log)),
     mi_drop = (\<lambda>(stored, log). (Inr (), [], log)), mi_create = (\<lambda>w. (Inr (), w)),
     mi_log = (\<lambda>entry (stored, log). (Inr (), stored, log @ [entry]))\<rparr>"

lemma list_conditions_where: "list_conditions (index_where conditions) = conditions"
proof -
  have "List.map_filter (\<lambda>c. case c of PDict [(k, PDict [(_, v)])] \<Rightarrow> Some (k, v) | _ \<Rightarrow> None)
      (map (\<lambda>(k, v). PDict [(k, PDict [(lit ''$eq'', v)])]) conditions) = conditions"
    by (induction conditions) (auto simp: List.map_filter_simps)
  then show ?thesis by (simp add: list_conditions_def index_where_def)
qed

lemma list_index_documented: "documented_collection (list_index offsets encoder) (\<lambda>w. set (fst w))"
proof -
  have "documented_get (list_index offsets encoder) (\<lambda>w. set (fst w))"
    unfolding documented_get_def found_in_def
    by (auto simp: list_index_def list_conditions_where matching_def Let_def
        intro!: exI [of _ "filter (\<lambda>row. matches conditions (row_metadata row)) (remdups stored)" for conditions stored])
  moreover have "documented_delete (list_index offsets encoder) (\<lambda>w. set (fst w))"
    unfolding documented_delete_def by (auto simp: list_index_def list_conditions_where matching_def)
  moreover have "documented_upsert (list_index offsets encoder) (\<lambda>w. set (fst w))"
    unfolding documented_upsert_def by (auto simp: list_index_def split: if_splits)
  moreover have "documented_reset (list_index offsets encoder) (\<lambda>w. set (fst w))"
    unfolding documented_reset_def by (auto simp: list_index_def)
  ultimately show ?thesis by (simp add: documented_collection_def)
qed

text \<open>Every word is one token, and every chunk has one embedding.\<close>

definition example_index :: "list_index memory_index" where
  "example_index = list_index word_tokens (\<lambda>chunks. Inr (map (\<lambda>c. [Some (real (length c)), Some 1]) chunks))"

definition example_document :: index_document where
  "example_document = \<lparr>id_kind = KIND_RECOLLECTION, id_ref = lit ''r1'', id_scope = example_scope, id_text = lit ''peanuts''\<rparr>"

lemma example_upsert:
  "fst (index_step example_index [] (UpsertCall [example_document]) ([], [])) = Inr [] \<and>
   present (set (fst (snd (index_step example_index [] (UpsertCall [example_document]) ([], []))))) = {document_identity example_document}"
proof -
  have "chunk_text word_tokens (lit ''peanuts'') CHUNK_TOKENS OVERLAP_TOKENS = Inr [lit ''peanuts'']" by code_simp
  then have chunks: "index_chunks example_index (lit ''peanuts'') = Inr [lit ''peanuts'']"
    by (simp add: index_chunks_def example_index_def list_index_def)
  have "strip (lit ''peanuts'') \<noteq> []" "\<not> list_ex py_surrogate (lit ''peanuts'')"
    by (simp_all add: strip_def strip_on_def rstrip_on_def py_isspace_def py_surrogate_def lit_def)
  then have "prepare_document example_index example_document = Inr \<lparr>pd_metadata = document_identity example_document,
      pd_chunks = [lit ''peanuts''], pd_vectors = [[Some 7, Some 1]], pd_hash = lit ''peanuts''\<rparr>"
    using chunks
    by (simp add: prepare_document_def example_document_def document_identity_def semantic_index_text_def
        KIND_EPISODE_def KIND_RECOLLECTION_def)
      (simp add: example_index_def list_index_def Let_def raise_if_def)
  then show ?thesis
    by (simp add: index_step_def Upsert_def authorize_def bind_call_def pure_call_def store_document_def Let_def
        example_index_def list_index_def chunk_rows_def present_def row_metadata_def identity_of_def
        index_metadata.defs chunk_metadata.defs document_identity_def)
qed

lemma index_refines_witness:
  "consistent (set (fst (snd (index_step example_index [] (UpsertCall [example_document]) ([], []))))) \<and>
   index_spec {} (UpsertCall [example_document]) (Inr [])
     (present (set (fst (snd (index_step example_index [] (UpsertCall [example_document]) ([], [])))))) \<and>
   present (set (fst (snd (index_step example_index [] (UpsertCall [example_document]) ([], []))))) = {document_identity example_document}"
proof -
  let ?run = "index_step example_index [] (UpsertCall [example_document]) ([], [])"
  have "documented_collection example_index (\<lambda>w. set (fst w))"
    unfolding example_index_def by (rule list_index_documented)
  note step = index_refines [OF this, of "([], [])" "[]" "UpsertCall [example_document]" "fst ?run" "snd ?run"]
  have "?run = (fst ?run, snd ?run)" by (rule surjective_pairing)
  from step [OF _ this] have "consistent (set (fst (snd ?run))) \<and>
      index_spec (present (set (fst ([], [])))) (UpsertCall [example_document]) (fst ?run) (present (set (fst (snd ?run))))"
    by (simp only: fst_conv list.set empty_index)
  then show ?thesis unfolding conjunct1 [OF example_upsert] using example_upsert by (simp only: fst_conv list.set empty_index)
qed

section \<open>Authentication\<close>

text \<open>With a token configured, a call that does not carry exactly that token is refused before anything else:
  it fails, and neither the collection nor the log has changed. Of several values for the token's key the
  last one counts. A call that carries the token, or any call when none is configured, is let through.\<close>

lemma unauthenticated_untouched:
  assumes "is_ascii (mi_token self)"
  shows "(if mi_token self = [] \<or> map_of (rev imd) TOKEN_METADATA_KEY = Some (mi_token self)
     then authorize self imd = Inr ()
     else \<exists>e. index_step self imd call w = (Inl e, w) \<and>
       (e = abort (lit ''UNAUTHENTICATED'') (lit ''invalid MemoryIndex token'') \<or>
        (\<exists>v message. map_of (rev imd) TOKEN_METADATA_KEY = Some v \<and> \<not> is_ascii v \<and> e = TypeError message)))"
proof (cases "mi_token self = [] \<or> map_of (rev imd) TOKEN_METADATA_KEY = Some (mi_token self)")
  case True
  with assms show ?thesis by (auto simp: authorize_def compare_digest_def raise_if_def)
next
  case False
  have refused: "index_step self imd call w = (Inl e, w)" if "authorize self imd = Inl e" for e
    using that by (cases call) (simp_all add: index_step_def Upsert_def Search_def Delete_def Reset_def bind_call_def pure_call_def)
  have "is_ascii []" by (simp add: is_ascii_def)
  with False assms have "\<exists>e. authorize self imd = Inl e \<and>
      (e = abort (lit ''UNAUTHENTICATED'') (lit ''invalid MemoryIndex token'') \<or>
        (\<exists>v message. map_of (rev imd) TOKEN_METADATA_KEY = Some v \<and> \<not> is_ascii v \<and> e = TypeError message))"
    by (cases "map_of (rev imd) TOKEN_METADATA_KEY") (auto simp: authorize_def compare_digest_def raise_if_def)
  with False refused show ?thesis by auto
qed

lemma unauthenticated_untouched_witness:
  "\<exists>e. index_step (example_index\<lparr>mi_token := lit ''secret''\<rparr>) [] ResetCall w = (Inl e, w)"
proof -
  have "is_ascii (mi_token (example_index\<lparr>mi_token := lit ''secret''\<rparr>))" by (simp add: is_ascii_def lit_def)
  from unauthenticated_untouched [OF this, of "[]" ResetCall w] show ?thesis by auto
qed

section \<open>Replacing a document\<close>

lemma chunk_loop_not_Nil: "offsets \<noteq> [] \<Longrightarrow> 0 < step \<Longrightarrow> chunk_loop t offsets chunk step 0 \<noteq> []"
  by (subst chunk_loop.simps) (simp add: Let_def)

lemma chunk_text_not_Nil: "chunk_text encode t chunk_tokens overlap_tokens = Inr chunks \<Longrightarrow> chunks \<noteq> []"
  by (auto simp: chunk_text_def bindr_Inr_iff chunk_loop_not_Nil split: if_splits)

text \<open>The rows after one document is stored.\<close>

definition row_ids :: "'w memory_index \<Rightarrow> prepared_document \<Rightarrow> pystr list" where
  "row_ids self p = map (\<lambda>i. root_id (mi_sha256 self) (pd_metadata p) @ lit '':'' @ digits i) [0..<length (pd_chunks p)]"

definition row_set :: "'w memory_index \<Rightarrow> prepared_document \<Rightarrow> index_row set" where
  "row_set self p = set (zip (row_ids self p) (zip (chunk_rows p) (pd_vectors p)))"

lemma row_set_facts:
  assumes "x \<in> row_set self p"
  shows "identity_of (row_metadata x) = pd_metadata p" and "fst x \<in> set (row_ids self p)"
proof -
  show "identity_of (row_metadata x) = pd_metadata p"
    using row_of_zip [OF assms [unfolded row_set_def]] chunk_rows_identity by blast
  show "fst x \<in> set (row_ids self p)" using assms by (cases x) (auto simp: row_set_def elim: in_set_zipE)
qed

lemma row_ids_apart:
  assumes "root_id (mi_sha256 self) (pd_metadata p) \<noteq> root_id (mi_sha256 self) (pd_metadata q)"
  shows "set (row_ids self p) \<inter> set (row_ids self q) = {}"
proof -
  have "takeWhile (\<lambda>c. c \<noteq> 58) (rev (r @ lit '':'' @ digits i)) = rev (digits i)" for r i
  proof -
    have "\<forall>c \<in> set (rev (digits i)). c \<noteq> 58" using digits_range by fastforce
    then show ?thesis by (simp add: lit_def takeWhile_append)
  qed
  then have "r = r'" if "r @ lit '':'' @ digits i = r' @ lit '':'' @ digits j" for r r' i j
    using that by (metis append_same_eq rev_rev_ident)
  with assms show ?thesis by (auto simp: row_ids_def)
qed

lemma store_document_rows:
  assumes law: "documented_collection self rows" and store: "store_document self p w = (Inr (), w')"
  shows "length (pd_vectors p) = length (row_ids self p)"
    and "rows w' = {row \<in> rows w. identity_of (row_metadata row) \<noteq> pd_metadata p \<and> fst row \<notin> set (row_ids self p)} \<union> row_set self p"
proof -
  from store obtain w1 w2 where w1: "mi_delete self (index_where (metadata_dict (pd_metadata p))) w = (Inr (), w1)"
    and w2: "mi_upsert self (row_ids self p) (pd_chunks p) (pd_vectors p) (chunk_rows p) w1 = (Inr (), w2)"
    and w3: "mi_log self (UpsertRecord (pd_metadata p) (length (pd_chunks p)) (pd_hash p)) w2 = (Inr (), w')"
    by (auto simp: store_document_def row_ids_def Let_def bind_call_Inr)
  have r1: "rows w1 = rows w - matching (metadata_dict (pd_metadata p)) (rows w)"
    using endsD [OF ends_delete [OF law] refl w1] by simp
  have r2: "length (pd_vectors p) = length (row_ids self p)" "rows w2 = {row \<in> rows w1. fst row \<notin> set (row_ids self p)} \<union> row_set self p"
    using endsD [OF ends_upsert [OF law] refl w2] by (simp_all add: row_set_def)
  have r3: "rows w' = rows w2"
    using endsD [OF ends_log [OF law, of "\<lambda>stored. stored = rows w2"] refl w3] .
  show "length (pd_vectors p) = length (row_ids self p)" by (fact r2(1))
  show "rows w' = {row \<in> rows w. identity_of (row_metadata row) \<noteq> pd_metadata p \<and> fst row \<notin> set (row_ids self p)} \<union> row_set self p"
    unfolding r3 r2(2) r1 by (auto simp: matching_def matches_metadata)
qed

text \<open>Documents of other identities, stored later, leave the rows of an identity alone; no document brings rows of an
  identity other than its own.\<close>

lemma later_documents:
  assumes law: "documented_collection self rows" and "for_each (store_document self) ps w = (Inr (), w')"
    and "\<forall>q \<in> set ps. pd_metadata q \<noteq> pd_metadata p \<and> root_id (mi_sha256 self) (pd_metadata q) \<noteq> root_id (mi_sha256 self) (pd_metadata p)"
    and "{row \<in> rows w. identity_of (row_metadata row) = pd_metadata p} = row_set self p"
  shows "{row \<in> rows w'. identity_of (row_metadata row) = pd_metadata p} = row_set self p"
  using assms(2-4)
proof (induction ps arbitrary: w)
  case (Cons q ps)
  then obtain w1 where one: "store_document self q w = (Inr (), w1)" and rest: "for_each (store_document self) ps w1 = (Inr (), w')"
    by (auto simp: bind_call_Inr)
  have q: "pd_metadata q \<noteq> pd_metadata p" "set (row_ids self p) \<inter> set (row_ids self q) = {}"
    using Cons.prems(2) row_ids_apart [of self p q] by (auto simp: eq_commute)
  have "row \<in> rows w1 \<longleftrightarrow> row \<in> rows w" if row: "identity_of (row_metadata row) = pd_metadata p" for row
  proof -
    have "fst row \<notin> set (row_ids self q)" if "row \<in> rows w"
    proof -
      from that row Cons.prems(3) have "row \<in> row_set self p" by blast
      with row_set_facts(2) q(2) show ?thesis by blast
    qed
    moreover have "row \<notin> row_set self q" using row_set_facts(1) [of row self q] row q(1) by auto
    ultimately show ?thesis unfolding store_document_rows(2) [OF law one] using row q(1) by auto
  qed
  then have "{row \<in> rows w1. identity_of (row_metadata row) = pd_metadata p} = {row \<in> rows w. identity_of (row_metadata row) = pd_metadata p}"
    by blast
  with Cons.IH [OF rest] Cons.prems show ?case by simp
qed (simp add: pure_call_def)

lemma other_rows:
  assumes law: "documented_collection self rows"
  shows "for_each (store_document self) ps w = (Inr (), w') \<Longrightarrow>
    {row \<in> rows w'. identity_of (row_metadata row) \<notin> pd_metadata ` set ps} \<subseteq> rows w"
proof (induction ps arbitrary: w)
  case (Cons q ps)
  then obtain w1 where one: "store_document self q w = (Inr (), w1)" and rest: "for_each (store_document self) ps w1 = (Inr (), w')"
    by (auto simp: bind_call_Inr)
  show ?case using Cons.IH [OF rest] row_set_facts(1) [of _ self q] unfolding store_document_rows(2) [OF law one] by auto
qed (simp add: pure_call_def)

lemma prepare_documents_append:
  "prepare_documents self (xs @ d # ys) = Inr ps \<Longrightarrow>
    \<exists>px p py. prepare_document self d = Inr p \<and> prepare_documents self ys = Inr py \<and> ps = px @ p # py"
proof (induction xs arbitrary: ps)
  case Nil
  then show ?case by (auto simp: bindr_Inr_iff)
next
  case (Cons x xs)
  then obtain q qs where "prepare_documents self (xs @ d # ys) = Inr qs" "ps = q # qs" by (auto simp: bindr_Inr_iff)
  with Cons.IH [of qs] show ?case by (metis append_Cons)
qed

lemma for_each_append: "for_each f (xs @ ys) st = bind_call (for_each f xs) (\<lambda>_. for_each f ys) st"
  by (induction xs arbitrary: st) (auto simp: bind_call_def pure_call_def split: prod.splits sum.splits)

text \<open>C32: After an upsert of any number of documents that succeeds, the rows of an identity of the batch are exactly
  the rows of the text of its last document, at least one, each with the hash of the projected text; nothing of what was
  stored under the identity before, or by an earlier document of the batch, is left. No rows of identities that
  are not in the batch appear. The hypotheses: the collection does what its documentation says, and the hash gives the
  documents stored after that one row ids of their own.\<close>

theorem upsert_replaces:
  assumes "documented_collection self rows" "Upsert self imd ds w = (Inr (), w')"
    and "ds = before @ d # after" and "document_identity d \<notin> document_identity ` set after"
    and "root_id (mi_sha256 self) (document_identity d) \<notin> root_id (mi_sha256 self) ` document_identity ` set after"
  shows "(\<exists>p. prepare_document self d = Inr p \<and> pd_chunks p \<noteq> [] \<and>
      row_metadata ` {row \<in> rows w'. identity_of (row_metadata row) = document_identity d} = set (chunk_rows p) \<and>
      (\<forall>m \<in> set (chunk_rows p). md_semantic m = mi_sha256 self (semantic_index_text (id_kind d) (id_text d)))) \<and>
    {row \<in> rows w'. identity_of (row_metadata row) \<notin> document_identity ` set ds} \<subseteq> rows w"
proof -
  from assms(2) obtain ps where ps: "prepare_documents self ds = Inr ps" and run: "for_each (store_document self) ps w = (Inr (), w')"
    by (auto simp: Upsert_def bind_call_Inr pure_call_def)
  from ps obtain px p py where p: "prepare_document self d = Inr p" and py: "prepare_documents self after = Inr py" and split: "ps = px @ p # py"
    unfolding assms(3) using prepare_documents_append by blast
  from run obtain w1 w2 where store: "store_document self p w1 = (Inr (), w2)" and later: "for_each (store_document self) py w2 = (Inr (), w')"
    by (auto simp: split for_each_append bind_call_Inr)
  have i: "pd_metadata p = document_identity d" "pd_chunks p \<noteq> []"
      "pd_hash p = mi_sha256 self (semantic_index_text (id_kind d) (id_text d))"
    using p chunk_text_not_Nil
    by (auto simp: prepare_document_def bindr_Inr_iff Let_def index_chunks_def document_identity_def)
  have others: "\<forall>q \<in> set py. pd_metadata q \<noteq> pd_metadata p \<and> root_id (mi_sha256 self) (pd_metadata q) \<noteq> root_id (mi_sha256 self) (pd_metadata p)"
  proof
    fix q assume "q \<in> set py"
    with prepare_documents_identities [OF py] obtain e where "e \<in> set after" "pd_metadata q = document_identity e" by blast
    with assms(4,5) show "pd_metadata q \<noteq> pd_metadata p \<and> root_id (mi_sha256 self) (pd_metadata q) \<noteq> root_id (mi_sha256 self) (pd_metadata p)"
      unfolding i(1) by (metis imageI)
  qed
  have "{row \<in> rows w2. identity_of (row_metadata row) = pd_metadata p} = row_set self p"
    unfolding store_document_rows(2) [OF assms(1) store] using row_set_facts(1) by blast
  from later_documents [OF assms(1) later others this]
  have mine: "{row \<in> rows w'. identity_of (row_metadata row) = document_identity d} = row_set self p" by (simp add: i(1))
  have len: "length (chunk_rows p) = length (row_ids self p)" by (simp add: chunk_rows_def row_ids_def)
  have "map row_metadata (zip (row_ids self p) (zip (chunk_rows p) (pd_vectors p))) = map fst (map snd (zip (row_ids self p) (zip (chunk_rows p) (pd_vectors p))))"
    by (simp add: row_metadata_def)
  also have "\<dots> = chunk_rows p"
    using store_document_rows(1) [OF assms(1) store] len by (simp only: map_snd_zip map_fst_zip length_zip min.idem)
  finally have "row_metadata ` row_set self p = set (chunk_rows p)" unfolding row_set_def by (simp only: set_map [symmetric])
  moreover have "\<forall>m \<in> set (chunk_rows p). md_semantic m = pd_hash p" using chunk_rows_identity by blast
  moreover have "{row \<in> rows w'. identity_of (row_metadata row) \<notin> document_identity ` set ds} \<subseteq> rows w"
    using other_rows [OF assms(1) run] prepare_documents_identities [OF ps] by blast
  ultimately show ?thesis using p i mine by simp
qed

text \<open>A batch with two versions of one document and another document.\<close>

definition batch_document :: "string \<Rightarrow> string \<Rightarrow> index_document" where
  "batch_document ref txt = \<lparr>id_kind = KIND_RECOLLECTION, id_ref = lit ref, id_scope = example_scope, id_text = lit txt\<rparr>"

definition batch_prepared :: "string \<Rightarrow> string \<Rightarrow> prepared_document" where
  "batch_prepared ref txt = \<lparr>pd_metadata = document_identity (batch_document ref txt), pd_chunks = [lit txt],
     pd_vectors = [[Some 7, Some 1]], pd_hash = lit txt\<rparr>"

lemma batch_prepares:
  assumes "ref \<noteq> []" and "txt = ''peanuts'' \<or> txt = ''cashews''"
  shows "prepare_document example_index (batch_document ref txt) = Inr (batch_prepared ref txt)"
proof -
  have "chunk_text word_tokens (lit ''peanuts'') CHUNK_TOKENS OVERLAP_TOKENS = Inr [lit ''peanuts'']"
    "chunk_text word_tokens (lit ''cashews'') CHUNK_TOKENS OVERLAP_TOKENS = Inr [lit ''cashews'']" by code_simp+
  then have "index_chunks example_index (lit txt) = Inr [lit txt]"
    using assms(2) by (auto simp: index_chunks_def example_index_def list_index_def)
  moreover have "strip (lit txt) \<noteq> []" "\<not> list_ex py_surrogate (lit txt)" "length txt = 7"
    using assms(2) by (auto simp: strip_def strip_on_def rstrip_on_def py_isspace_def py_surrogate_def lit_def)
  ultimately show ?thesis
    using assms(1)
    by (simp add: prepare_document_def batch_document_def batch_prepared_def document_identity_def semantic_index_text_def
        KIND_EPISODE_def KIND_RECOLLECTION_def)
      (simp add: example_index_def list_index_def Let_def raise_if_def lit_def)
qed

lemma batch_stored: "\<exists>w'. store_document example_index (batch_prepared ref txt) w = (Inr (), w')"
  by (cases w) (simp add: store_document_def batch_prepared_def example_index_def list_index_def Let_def bind_call_def)

lemma batch_upsert:
  "\<exists>w'. Upsert example_index [] [batch_document ''r1'' ''cashews'', batch_document ''r1'' ''peanuts'', batch_document ''r2'' ''cashews''] w = (Inr (), w')"
proof -
  obtain w1 where "store_document example_index (batch_prepared ''r1'' ''cashews'') w = (Inr (), w1)" using batch_stored by blast
  moreover obtain w2 where "store_document example_index (batch_prepared ''r1'' ''peanuts'') w1 = (Inr (), w2)" using batch_stored by blast
  moreover obtain w3 where "store_document example_index (batch_prepared ''r2'' ''cashews'') w2 = (Inr (), w3)" using batch_stored by blast
  moreover have "authorize example_index [] = Inr ()" by (simp add: authorize_def example_index_def list_index_def)
  ultimately show ?thesis
    by (simp add: Upsert_def bind_call_def pure_call_def batch_prepares)
qed

theorem upsert_replaces_witness:
  "\<exists>w'. Upsert example_index [] [batch_document ''r1'' ''cashews'', batch_document ''r1'' ''peanuts'', batch_document ''r2'' ''cashews'']
       ([], []) = (Inr (), w') \<and>
     row_metadata ` {row \<in> set (fst w'). identity_of (row_metadata row) = document_identity (batch_document ''r1'' ''peanuts'')} =
       set (chunk_rows (batch_prepared ''r1'' ''peanuts''))"
proof -
  let ?d = "batch_document ''r1'' ''peanuts''" and ?e = "batch_document ''r2'' ''cashews''"
  have law: "documented_collection example_index (\<lambda>w. set (fst w))"
    unfolding example_index_def by (rule list_index_documented)
  obtain w' where run: "Upsert example_index [] ([batch_document ''r1'' ''cashews''] @ ?d # [?e]) ([], []) = (Inr (), w')"
    using batch_upsert [of "([], [])"] by auto
  have other: "document_identity ?d \<notin> document_identity ` set [?e]" by (simp add: document_identity_def batch_document_def)
  have "root_id (\<lambda>t. t) (document_identity ?d) \<noteq> root_id (\<lambda>t. t) (document_identity ?e)" by code_simp
  then have roots: "root_id (mi_sha256 example_index) (document_identity ?d) \<notin> root_id (mi_sha256 example_index) ` document_identity ` set [?e]"
    by (simp add: example_index_def list_index_def)
  have prepared: "prepare_document example_index ?d = Inr (batch_prepared ''r1'' ''peanuts'')" by (simp add: batch_prepares)
  show ?thesis using upsert_replaces [OF law run refl other roots] run prepared by auto
qed

end
