(* ===== verification/Eval_Runner.thy ===== *)
theory Eval_Runner
  imports Py_Json Py_Effects
begin

text \<open>
  src/eval/python/src/memory_core_eval/runner_protocol.py: one request and one response as lines of JSON,
  the text model that runs a command and reads its one line, and the runner at the other end. The
  process, the handler and the rendering of an exception as text are parameters. A text that cannot be
  encoded as UTF-8 holds a lone surrogate.
\<close>

section \<open>Messages\<close>

definition protocol_error :: "pystr \<Rightarrow> py_error" where
  "protocol_error message = OtherError (lit ''RunnerProtocolError'') message"

record runner_request =
  rq_model :: pystr
  rq_instructions :: pystr
  rq_input_text :: pystr
  rq_max_output_tokens :: int

fun request_text :: "pystr \<Rightarrow> pyval \<Rightarrow> pystr result" where
  "request_text field_name (PStr v) =
     (if strip v = [] then Inl (protocol_error (field_name @ lit '' must be nonblank text'')) else Inr v)"
| "request_text field_name _ = Inl (protocol_error (field_name @ lit '' must be nonblank text''))"

fun request_tokens :: "pyval \<Rightarrow> int result" where
  "request_tokens (PInt i) = (if i \<le> 0 then Inl (protocol_error (lit ''max_output_tokens must be a positive integer'')) else Inr i)"
| "request_tokens _ = Inl (protocol_error (lit ''max_output_tokens must be a positive integer''))"

text \<open>The constructor with \<open>__post_init__\<close>, on values of any type.\<close>

definition make_request :: "pyval \<Rightarrow> pyval \<Rightarrow> pyval \<Rightarrow> pyval \<Rightarrow> runner_request result" where
  "make_request model instructions input_text max_output_tokens =
     bindr (request_text (lit ''model'') model) (\<lambda>m.
     bindr (request_text (lit ''instructions'') instructions) (\<lambda>i.
     bindr (request_text (lit ''input_text'') input_text) (\<lambda>t.
     bindr (request_tokens max_output_tokens) (\<lambda>n.
     Inr \<lparr>rq_model = m, rq_instructions = i, rq_input_text = t, rq_max_output_tokens = n\<rparr>))))"

definition request_dict :: "runner_request \<Rightarrow> pydict" where
  "request_dict r = [(lit ''model'', PStr (rq_model r)), (lit ''instructions'', PStr (rq_instructions r)),
     (lit ''input_text'', PStr (rq_input_text r)), (lit ''max_output_tokens'', PInt (rq_max_output_tokens r))]"

definition request_line :: "runner_request \<Rightarrow> pystr" where
  "request_line r = json_dumps False (sort_keys (PDict (request_dict r))) @ [10]"

definition request_fields :: "pystr list" where
  "request_fields = [lit ''model'', lit ''instructions'', lit ''input_text'', lit ''max_output_tokens'']"

definition parse_request :: "(pystr \<Rightarrow> pyval) \<Rightarrow> (pystr \<Rightarrow> pystr) \<Rightarrow> pystr \<Rightarrow> runner_request result" where
  "parse_request float_of decode_error line = (case json_loads float_of line of
     None \<Rightarrow> Inl (protocol_error (lit ''invalid runner request JSON: '' @ decode_error line))
   | Some v \<Rightarrow> (case as_mapping v of
       None \<Rightarrow> Inl (protocol_error (lit ''runner request must be a JSON object''))
     | Some d \<Rightarrow>
         if fst ` set d \<noteq> set request_fields
         then Inl (protocol_error (lit ''runner request fields must equal ['input_text', 'instructions', 'max_output_tokens', 'model']''))
         else make_request (get d (lit ''model'')) (get d (lit ''instructions'')) (get d (lit ''input_text''))
           (get d (lit ''max_output_tokens''))))"

record runner_response =
  rs_output_text :: pyval
  rs_error :: pyval

definition make_response :: "pyval \<Rightarrow> pyval \<Rightarrow> runner_response result" where
  "make_response output_text error =
     (if nonblank_text output_text = nonblank_text error
      then Inl (protocol_error (lit ''runner response must contain exactly one nonblank output_text or error''))
      else Inr \<lparr>rs_output_text = output_text, rs_error = error\<rparr>)"

definition response_line :: "runner_response \<Rightarrow> pystr" where
  "response_line r = json_dumps False (sort_keys (PDict
     (if rs_output_text r \<noteq> PNone then [(lit ''output_text'', rs_output_text r)] else [(lit ''error'', rs_error r)]))) @ [10]"

definition parse_response :: "(pystr \<Rightarrow> pyval) \<Rightarrow> (pystr \<Rightarrow> pystr) \<Rightarrow> pystr \<Rightarrow> runner_response result" where
  "parse_response float_of decode_error line = (case json_loads float_of line of
     None \<Rightarrow> Inl (protocol_error (lit ''invalid runner response JSON: '' @ decode_error line))
   | Some v \<Rightarrow> (case as_mapping v of
       Some d \<Rightarrow>
         if fst ` set d \<in> {{lit ''output_text''}, {lit ''error''}}
         then make_response (get d (lit ''output_text'')) (get d (lit ''error''))
         else Inl (protocol_error (lit ''runner response must be an object with output_text or error''))
     | None \<Rightarrow> Inl (protocol_error (lit ''runner response must be an object with output_text or error''))))"

section \<open>The caller\<close>

record stdio_model =
  sm_command :: "pystr list"
  sm_model :: pystr

definition stdio_text_model :: "pystr list \<Rightarrow> pystr \<Rightarrow> stdio_model result" where
  "stdio_text_model command model =
     bindr (raise_if (command = [] \<or> list_ex (\<lambda>part. part = []) command) (ValueError (lit ''runner command must be non-empty''))) (\<lambda>_.
     bindr (raise_if (strip model = []) (ValueError (lit ''model must be nonblank''))) (\<lambda>_.
     Inr \<lparr>sm_command = command, sm_model = model\<rparr>))"

text \<open>What a finished process leaves; \<open>decode()\<close> of its streams may fail.\<close>

record process_result =
  pr_stdout :: "pystr result"
  pr_stderr :: "pystr result"
  pr_returncode :: int

definition encoded :: "pystr \<Rightarrow> pystr result" where
  "encoded s = (if list_ex py_surrogate s then Inl UnicodeEncodeError else Inr s)"

text \<open>\<open>stderr.decode().strip() or fallback\<close>.\<close>

definition detail_or :: "pystr result \<Rightarrow> pystr \<Rightarrow> pystr result" where
  "detail_or stream fallback = bindr stream (\<lambda>t. Inr (if strip t = [] then fallback else strip t))"

definition output_lines :: "pystr \<Rightarrow> pystr list" where
  "output_lines stdout = filter (\<lambda>line. strip line \<noteq> []) (splitlines stdout)"

definition read_process :: "(pystr \<Rightarrow> pyval) \<Rightarrow> (pystr \<Rightarrow> pystr) \<Rightarrow> (int \<Rightarrow> pystr) \<Rightarrow> process_result \<Rightarrow> pyval result" where
  "read_process float_of decode_error str_of process =
     bindr (pr_stdout process) (\<lambda>stdout.
     case output_lines stdout of
       [line] \<Rightarrow>
         bindr (parse_response float_of decode_error line) (\<lambda>response.
         case rs_error response of
           PStr message \<Rightarrow> Inl (protocol_error message)
         | PNone \<Rightarrow>
             if pr_returncode process \<noteq> 0
             then bindr (detail_or (pr_stderr process) (lit ''exit '' @ str_of (pr_returncode process))) (\<lambda>detail.
                  Inl (protocol_error (lit ''runner failed: '' @ detail)))
             else Inr (rs_output_text response)
         | _ \<Rightarrow> Inl (protocol_error []))
     | ls \<Rightarrow>
         bindr (detail_or (pr_stderr process) (strip stdout)) (\<lambda>detail.
         Inl (protocol_error (lit ''runner returned '' @ digits (length ls) @ lit '' response lines: '' @ detail))))"

definition stdio_complete ::
    "(pystr \<Rightarrow> pyval) \<Rightarrow> (pystr \<Rightarrow> pystr) \<Rightarrow> (int \<Rightarrow> pystr) \<Rightarrow> (pystr list \<Rightarrow> pystr \<Rightarrow> ('w, process_result) io) \<Rightarrow>
     stdio_model \<Rightarrow> pystr \<Rightarrow> pystr \<Rightarrow> int \<Rightarrow> ('w, pyval) io" where
  "stdio_complete float_of decode_error str_of run_process self instructions input_text max_output_tokens =
     bind_call (pure_call (make_request (PStr (sm_model self)) (PStr instructions) (PStr input_text) (PInt max_output_tokens))) (\<lambda>request.
     bind_call (pure_call (encoded (request_line request))) (\<lambda>stdin.
     bind_call (run_process (sm_command self) stdin) (\<lambda>process.
     pure_call (read_process float_of decode_error str_of process))))"

section \<open>The runner\<close>

text \<open>The body of the \<open>try\<close>, then its \<open>except\<close>: the response and the exit code.\<close>

definition run_handler ::
    "(pystr \<Rightarrow> pyval) \<Rightarrow> (pystr \<Rightarrow> pystr) \<Rightarrow> (runner_request \<Rightarrow> ('w, pyval) io) \<Rightarrow> pystr \<Rightarrow> ('w, runner_response) io" where
  "run_handler float_of decode_error handler stdin =
     bind_call (pure_call (parse_request float_of decode_error (readline stdin))) (\<lambda>request.
     bind_call (handler request) (\<lambda>output. pure_call (make_response output PNone)))"

definition error_response :: "(py_error \<Rightarrow> pystr) \<Rightarrow> (py_error \<Rightarrow> pystr) \<Rightarrow> py_error \<Rightarrow> runner_response result" where
  "error_response class_name message e = make_response PNone (PStr (class_name e @ lit '': '' @ message e))"

definition run_stdio_once ::
    "(pystr \<Rightarrow> pyval) \<Rightarrow> (pystr \<Rightarrow> pystr) \<Rightarrow> (py_error \<Rightarrow> pystr) \<Rightarrow> (py_error \<Rightarrow> pystr) \<Rightarrow>
     (runner_request \<Rightarrow> ('w, pyval) io) \<Rightarrow> pystr \<Rightarrow> ('w, pystr \<times> int) io" where
  "run_stdio_once float_of decode_error class_name message handler stdin st =
     (case run_handler float_of decode_error handler stdin st of
        (Inr response, st') \<Rightarrow> (bindr (encoded (response_line response)) (\<lambda>line. Inr (line, 0)), st')
      | (Inl e, st') \<Rightarrow>
          (bindr (error_response class_name message e) (\<lambda>response.
             bindr (encoded (response_line response)) (\<lambda>line. Inr (line, 1))), st'))"

end
