(* ===== verification/Runner_Laws.thy ===== *)
theory Runner_Laws
  imports Eval_Runner
begin

text \<open>
  Properties of the runner protocol: a request survives its line of JSON, and the text model connected to a
  runner returns what the runner's handler answered, as long as the answer holds none of the three
  separators that \<open>str.splitlines\<close> splits at and JSON does not escape.
\<close>

section \<open>One line\<close>

lemma hex_digit_printable: "32 \<le> hex_digit n"
  by (simp add: hex_digit_def)

lemma json_char_printable: "x \<in> set (json_char False c) \<Longrightarrow> 32 \<le> x"
  by (auto simp: json_char_def unicode_escape_def hex_digit_printable split: if_splits)

lemma json_string_printable: "x \<in> set (json_string False s) \<Longrightarrow> 32 \<le> x"
  using json_char_printable by (auto simp: json_string_def)

lemma lit_printable: "list_all (\<lambda>c. 32 \<le> (of_char c :: nat)) s \<Longrightarrow> x \<in> set (lit s) \<Longrightarrow> 32 \<le> x"
  by (auto simp: lit_def list_all_iff)

lemma digits_printable: "x \<in> set (digits n) \<Longrightarrow> 32 \<le> x"
  using digits_range by fastforce

lemma readline_line: "\<forall>c \<in> set s. 32 \<le> c \<Longrightarrow> readline (s @ 10 # rest) = s @ [10]"
proof -
  assume s: "\<forall>c \<in> set s. 32 \<le> c"
  have "universal_newlines (s @ 10 # rest) = s @ 10 # universal_newlines rest"
    using s by (induction s) auto
  moreover have "takeWhile (\<lambda>c. c \<noteq> 10) (s @ 10 # universal_newlines rest) = s"
    using s by (subst takeWhile_append2) auto
  ultimately show ?thesis by (simp add: readline_def Let_def)
qed

lemma sorted_request:
  "sort_keys (PDict (request_dict r)) = PDict [(lit ''input_text'', PStr (rq_input_text r)), (lit ''instructions'', PStr (rq_instructions r)),
     (lit ''max_output_tokens'', PInt (rq_max_output_tokens r)), (lit ''model'', PStr (rq_model r))]"
  by (simp add: request_dict_def lit_def)

lemma request_line_printable: "\<exists>s. request_line r = s @ [10] \<and> (\<forall>c \<in> set s. 32 \<le> c)"
proof -
  let ?s = "json_dumps False (sort_keys (PDict (request_dict r)))"
  have "\<forall>c \<in> set ?s. 32 \<le> c"
    unfolding sorted_request using digits_printable json_string_printable
    by (auto simp: json_int_def lit_def split: if_splits)
  then show ?thesis by (auto simp: request_line_def)
qed

section \<open>Requests\<close>

lemma request_text_Inr: "request_text f v = Inr s \<longleftrightarrow> v = PStr s \<and> strip s \<noteq> []"
  by (cases v) auto

lemma request_tokens_Inr: "request_tokens v = Inr n \<longleftrightarrow> v = PInt n \<and> 0 < n"
  by (cases v) auto

lemma make_request_Inr:
  "make_request m i t n = Inr r \<longleftrightarrow> m = PStr (rq_model r) \<and> i = PStr (rq_instructions r) \<and> t = PStr (rq_input_text r) \<and>
     n = PInt (rq_max_output_tokens r) \<and> strip (rq_model r) \<noteq> [] \<and> strip (rq_instructions r) \<noteq> [] \<and>
     strip (rq_input_text r) \<noteq> [] \<and> 0 < rq_max_output_tokens r"
  by (cases r) (auto simp: make_request_def bindr_Inr_iff request_text_Inr request_tokens_Inr)

lemma loads_line: "exact_value v \<Longrightarrow> json_loads float_of (json_dumps False v @ [10]) = Some v"
  by (rule json_loads_dumps) (simp_all add: number_end_def digit_def skip_space_def json_space_def)

lemma parse_request_line:
  assumes "make_request m i t n = Inr r"
  shows "parse_request float_of decode_error (request_line r) = Inr r"
proof -
  have "exact_value (sort_keys (PDict (request_dict r)))" unfolding sorted_request by simp
  from loads_line [OF this] have "json_loads float_of (request_line r) = Some (sort_keys (PDict (request_dict r)))"
    by (simp add: request_line_def)
  then show ?thesis
    using assms unfolding sorted_request parse_request_def
    by (auto simp: request_fields_def get_def get_or_def make_request_Inr)
qed

text \<open>A request that its constructor accepts is written as one line, and the runner that reads that line from
  its standard input, whatever follows it, constructs the same request.\<close>

lemma request_roundtrip:
  assumes "make_request m i t n = Inr r"
  shows "parse_request float_of decode_error (readline (request_line r @ rest)) = Inr r"
proof -
  obtain s where "request_line r = s @ [10]" "\<forall>c \<in> set s. 32 \<le> c" using request_line_printable by blast
  then have "readline (request_line r @ rest) = request_line r" by (simp add: readline_line)
  with parse_request_line [OF assms] show ?thesis by simp
qed

section \<open>Responses\<close>

text \<open>The characters that end a line for \<open>str.splitlines\<close> and stand unescaped in a line of JSON.\<close>

definition raw_break :: "nat \<Rightarrow> bool" where
  "raw_break c \<longleftrightarrow> c = 133 \<or> c = 8232 \<or> c = 8233"

lemma printable_break: "32 \<le> c \<Longrightarrow> py_linebreak c \<longleftrightarrow> raw_break c"
  by (auto simp: py_linebreak_def raw_break_def)

definition field_line :: "string \<Rightarrow> pystr \<Rightarrow> pystr" where
  "field_line name t = 123 # json_string False (lit name) @ lit '': '' @ json_string False t @ [125]"

lemma response_line_output: "response_line \<lparr>rs_output_text = PStr t, rs_error = PNone\<rparr> = field_line ''output_text'' t @ [10]"
  by (simp add: response_line_def field_line_def)

lemma response_line_error: "response_line \<lparr>rs_output_text = PNone, rs_error = PStr t\<rparr> = field_line ''error'' t @ [10]"
  by (simp add: response_line_def field_line_def)

lemma loads_field_line: "json_loads float_of (field_line name t) = Some (PDict [(lit name, PStr t)])"
  using json_loads_dumps [of "PDict [(lit name, PStr t)]" "[]" float_of]
  by (simp add: field_line_def number_end_def skip_space_def)

lemma json_char_break: "raw_break c \<Longrightarrow> json_char False c = [c]"
  by (auto simp: raw_break_def json_char_def)

lemma json_char_raw: "x \<in> set (json_char False c) \<Longrightarrow> raw_break x \<Longrightarrow> raw_break c"
  by (auto simp: json_char_def raw_break_def unicode_escape_def hex_digit_def split: if_splits)

lemma field_line_printable: "name \<in> {''output_text'', ''error''} \<Longrightarrow> x \<in> set (field_line name t) \<Longrightarrow> 32 \<le> x"
  using json_string_printable by (auto simp: field_line_def lit_def)

lemma field_line_breaks:
  assumes "name \<in> {''output_text'', ''error''}"
  shows "no_breaks (field_line name t) \<longleftrightarrow> (\<forall>c \<in> set t. \<not> raw_break c)"
proof -
  have name: "\<not> raw_break c" if "c \<in> set (json_string False (lit name))" for c
    using assms that by (auto simp: json_string_def json_char_def raw_break_def lit_def)
  have body: "(\<exists>c \<in> set (json_string False t). raw_break c) \<longleftrightarrow> (\<exists>c \<in> set t. raw_break c)"
  proof
    assume "\<exists>c \<in> set (json_string False t). raw_break c"
    then obtain x where x: "x \<in> set (json_string False t)" "raw_break x" by blast
    then have "x \<noteq> 34" by (auto simp: raw_break_def)
    with x(1) obtain c where "c \<in> set t" "x \<in> set (json_char False c)" by (auto simp: json_string_def)
    with x(2) json_char_raw show "\<exists>c \<in> set t. raw_break c" by blast
  next
    assume "\<exists>c \<in> set t. raw_break c"
    then obtain c where c: "c \<in> set t" "raw_break c" by blast
    then have "c \<in> set (concat (map (json_char False) t))" using json_char_break [OF c(2)] by force
    with c(2) show "\<exists>c \<in> set (json_string False t). raw_break c" by (auto simp: json_string_def)
  qed
  have "(\<exists>c \<in> set (field_line name t). raw_break c) \<longleftrightarrow> (\<exists>c \<in> set (json_string False t). raw_break c)"
    using name by (auto simp: field_line_def raw_break_def lit_def)
  moreover have "py_linebreak c \<longleftrightarrow> raw_break c" if "c \<in> set (field_line name t)" for c
    using field_line_printable [OF assms that] by (rule printable_break)
  ultimately show ?thesis using body unfolding no_breaks_def by blast
qed

lemma nonblank_strip: "c \<in> set l \<Longrightarrow> \<not> py_isspace c \<Longrightarrow> strip l \<noteq> []"
  by (auto simp: strip_def strip_on_eq_Nil)

lemma set_cons_head: "(\<exists>l \<in> set (cons_head x ls). c \<in> set l) \<longleftrightarrow> c = x \<or> (\<exists>l \<in> set ls. c \<in> set l)"
  by (cases ls) auto

lemma splitlines_from_keeps: "c \<in> set s \<Longrightarrow> \<not> py_linebreak c \<Longrightarrow> \<exists>l \<in> set (splitlines_from cr s). c \<in> set l"
proof (induction s arbitrary: cr)
  case (Cons x xs)
  then consider "c = x" | "\<And>cr. \<exists>l \<in> set (splitlines_from cr xs). c \<in> set l" by auto
  then show ?case
  proof cases
    case 1
    then have "\<not> (cr \<and> x = 10)" using Cons.prems by (auto simp: py_linebreak_def)
    with 1 Cons.prems show ?thesis by (auto simp: set_cons_head)
  next
    case 2
    then show ?thesis by (simp add: set_cons_head)
  qed
qed simp

lemma splitlines_break:
  assumes "no_breaks a" "py_linebreak c" "c \<noteq> 13"
  shows "splitlines (a @ c # b) = a # splitlines b"
  using assms by (induction a) (auto simp: splitlines_def)

lemma isspace_braces: "\<not> py_isspace 123" "\<not> py_isspace 125" "\<not> py_linebreak 125"
  by (simp_all add: py_isspace_def py_linebreak_def)

lemma one_output_line:
  assumes "name \<in> {''output_text'', ''error''}" "\<forall>c \<in> set t. \<not> raw_break c"
  shows "output_lines (field_line name t @ [10]) = [field_line name t]"
proof -
  have "no_breaks (field_line name t)" using assms field_line_breaks by blast
  moreover have "strip (field_line name t) \<noteq> []"
    by (rule nonblank_strip [of 123]) (simp_all add: field_line_def isspace_braces)
  ultimately show ?thesis by (simp add: output_lines_def splitlines_line_nl)
qed

lemma many_output_lines:
  assumes "name \<in> {''output_text'', ''error''}" "\<exists>c \<in> set t. raw_break c"
  shows "2 \<le> length (output_lines (field_line name t @ [10]))"
proof -
  let ?f = "field_line name t"
  define a where "a = takeWhile (\<lambda>c. \<not> py_linebreak c) ?f"
  have breaks: "\<not> no_breaks ?f" using assms field_line_breaks by blast
  then have "dropWhile (\<lambda>c. \<not> py_linebreak c) ?f \<noteq> []" by (auto simp: no_breaks_def dropWhile_eq_Nil_conv)
  then obtain c b where cb: "dropWhile (\<lambda>c. \<not> py_linebreak c) ?f = c # b" by (cases "dropWhile (\<lambda>c. \<not> py_linebreak c) ?f") auto
  then have c: "py_linebreak c" by (metis hd_dropWhile list.distinct(1) list.sel(1))
  have f: "?f = a @ c # b" unfolding a_def cb [symmetric] by simp
  then have "c \<in> set ?f" by simp
  then have "32 \<le> c" by (rule field_line_printable [OF assms(1)])
  have "no_breaks a" by (auto simp: a_def no_breaks_def dest: set_takeWhileD)
  then have lines: "splitlines (?f @ [10]) = a # splitlines (b @ [10])"
    using c \<open>32 \<le> c\<close> by (simp add: f splitlines_break)
  have ends: "hd (a @ c # b) = 123" "last (a @ c # b) = 125" unfolding f [symmetric] by (simp_all add: field_line_def)
  have "\<not> py_linebreak 123" by (simp add: py_linebreak_def)
  with ends(1) c have "a \<noteq> []" "hd a = 123" by (cases a; auto)+
  moreover from ends(2) c isspace_braces(3) have "b \<noteq> []" "last b = 125" by (cases b rule: rev_cases; auto)+
  ultimately have "123 \<in> set a" "125 \<in> set b" using hd_in_set last_in_set by metis+
  then have "strip a \<noteq> []" and "\<exists>l \<in> set (splitlines (b @ [10])). strip l \<noteq> []"
    using nonblank_strip isspace_braces splitlines_from_keeps [of 125 "b @ [10]"]
    by (blast, fastforce simp: splitlines_def)
  then show ?thesis
    unfolding output_lines_def lines by (auto simp: Suc_le_eq filter_empty_conv)
qed

section \<open>The two ends together\<close>

text \<open>A process that runs \<open>run_stdio_once\<close> on its pipes. An exception that leaves it is a traceback on the standard
  error and an exit code of one.\<close>

definition runner_process ::
    "(pystr \<Rightarrow> pyval) \<Rightarrow> (pystr \<Rightarrow> pystr) \<Rightarrow> (py_error \<Rightarrow> pystr) \<Rightarrow> (py_error \<Rightarrow> pystr) \<Rightarrow> (runner_request \<Rightarrow> ('w, pyval) io) \<Rightarrow>
     pystr list \<Rightarrow> pystr \<Rightarrow> ('w, process_result) io" where
  "runner_process float_of decode_error class_name message handler command stdin st =
     (case run_stdio_once float_of decode_error class_name message handler stdin st of
        (Inr (line, code), st') \<Rightarrow> (Inr \<lparr>pr_stdout = Inr line, pr_stderr = Inr [], pr_returncode = code\<rparr>, st')
      | (Inl e, st') \<Rightarrow> (Inr \<lparr>pr_stdout = Inr [], pr_stderr = Inr (class_name e @ lit '': '' @ message e), pr_returncode = 1\<rparr>, st'))"

lemma json_char_wide: "x \<in> set (json_char False c) \<Longrightarrow> 128 \<le> x \<Longrightarrow> x = c"
  by (auto simp: json_char_def unicode_escape_def hex_digit_def split: if_splits)

lemma encodable_chars:
  assumes "\<not> list_ex py_surrogate t"
  shows "\<not> list_ex py_surrogate (field_line name t @ [10])"
proof -
  have "\<not> py_surrogate x" if x: "x \<in> set (concat (map (json_char False) s))" and s: "\<not> list_ex py_surrogate s" for x s
  proof
    assume sur: "py_surrogate x"
    from x obtain c where "c \<in> set s" "x \<in> set (json_char False c)" by auto
    moreover from sur have "128 \<le> x" by (simp add: py_surrogate_def)
    ultimately have "x \<in> set s" using json_char_wide by blast
    with s sur show False by (auto simp: list_ex_iff)
  qed
  then have "\<not> list_ex py_surrogate (concat (map (json_char False) s))" if "\<not> list_ex py_surrogate s" for s
    using that unfolding list_ex_iff by blast
  moreover have ascii: "\<not> py_surrogate 34" "\<not> py_surrogate 123" "\<not> py_surrogate 125" "\<not> py_surrogate 10"
    by (simp_all add: py_surrogate_def)
  ultimately have quoted: "\<not> list_ex py_surrogate (json_string False s)" if "\<not> list_ex py_surrogate s" for s
    using that by (simp add: json_string_def)
  have lits: "\<not> list_ex py_surrogate (lit s)" for s
    using lit_ascii [of _ s] by (fastforce simp: list_ex_iff py_surrogate_def)
  show ?thesis
    using quoted [OF lits [of name]] quoted [OF assms] lits ascii by (simp add: field_line_def)
qed

lemma read_one_line:
  assumes "pr_stdout process = Inr (field_line name t @ [10])" "name \<in> {''output_text'', ''error''}"
    and "\<forall>c \<in> set t. \<not> raw_break c"
  shows "read_process float_of decode_error str_of process =
    bindr (parse_response float_of decode_error (field_line name t)) (\<lambda>response.
         case rs_error response of
           PStr message \<Rightarrow> Inl (protocol_error message)
         | PNone \<Rightarrow>
             if pr_returncode process \<noteq> 0
             then bindr (detail_or (pr_stderr process) (lit ''exit '' @ str_of (pr_returncode process))) (\<lambda>detail.
                  Inl (protocol_error (lit ''runner failed: '' @ detail)))
             else Inr (rs_output_text response)
         | _ \<Rightarrow> Inl (protocol_error []))"
  using one_output_line [OF assms(2,3)] assms(1) by (simp add: read_process_def)

lemma parse_output_line:
  assumes "strip t \<noteq> []"
  shows "parse_response float_of decode_error (field_line ''output_text'' t) = Inr \<lparr>rs_output_text = PStr t, rs_error = PNone\<rparr>"
    and "parse_response float_of decode_error (field_line ''error'' t) = Inr \<lparr>rs_output_text = PNone, rs_error = PStr t\<rparr>"
  using assms loads_field_line [of float_of "''output_text''" t] loads_field_line [of float_of "''error''" t]
  by (simp_all add: parse_response_def get_def get_or_def make_response_def)

text \<open>C37: A text model connected to a runner. Suppose that the request is valid and holds no lone surrogate. When the
  handler of the runner answers a text that is not blank and holds no lone surrogate, the model returns exactly that
  text if and only if the text has none of the separators U+0085, U+2028 and U+2029; with one of them it raises,
  because the response no longer reads as one line. When the handler fails, and the class and message of the failure
  hold neither a lone surrogate nor one of these separators, the model raises an error with that class and message.
  Nothing is said of blank answers, of values that are no strings, and of texts that cannot be encoded.\<close>

theorem runner_delivers:
  fixes handler :: "runner_request \<Rightarrow> ('w, pyval) io"
  assumes "make_request (PStr (sm_model self)) (PStr instructions) (PStr input_text) (PInt max_output_tokens) = Inr request"
    and "\<not> list_ex py_surrogate (request_line request)" and "handler request st = (r, st')"
  shows "(\<forall>t. r = Inr (PStr t) \<and> strip t \<noteq> [] \<and> \<not> list_ex py_surrogate t \<longrightarrow>
      (\<exists>r'. stdio_complete float_of decode_error str_of (runner_process float_of decode_error class_name message handler)
          self instructions input_text max_output_tokens st = (r', st') \<and>
        (if \<forall>c \<in> set t. \<not> raw_break c then r' = Inr (PStr t) else \<exists>m. r' = Inl (protocol_error m)))) \<and>
    (\<forall>e. r = Inl e \<and> \<not> list_ex py_surrogate (class_name e @ lit '': '' @ message e) \<and>
        (\<forall>c \<in> set (class_name e @ lit '': '' @ message e). \<not> raw_break c) \<longrightarrow>
      stdio_complete float_of decode_error str_of (runner_process float_of decode_error class_name message handler)
          self instructions input_text max_output_tokens st = (Inl (protocol_error (class_name e @ lit '': '' @ message e)), st'))"
proof -
  let ?run = "runner_process float_of decode_error class_name message handler"
  let ?complete = "stdio_complete float_of decode_error str_of ?run self instructions input_text max_output_tokens st"
  have read: "parse_request float_of decode_error (readline (request_line request)) = Inr request"
    using parse_request_line [OF assms(1)] request_line_printable [of request] readline_line [of _ "[]"] by auto
  have complete: "?complete = (case ?run (sm_command self) (request_line request) st of
      (Inl e, st1) \<Rightarrow> (Inl e, st1) | (Inr process, st1) \<Rightarrow> (read_process float_of decode_error str_of process, st1))"
    using assms(1,2) by (simp add: stdio_complete_def bind_call_def pure_call_def [abs_def] encoded_def)
  have handled: "run_handler float_of decode_error handler (request_line request) st =
      (case r of Inl e \<Rightarrow> (Inl e, st') | Inr output \<Rightarrow> (make_response output PNone, st'))"
    using read assms(3) by (simp add: run_handler_def bind_call_def pure_call_def split: sum.splits)
  show ?thesis
  proof (intro conjI allI impI)
    fix t assume t: "r = Inr (PStr t) \<and> strip t \<noteq> [] \<and> \<not> list_ex py_surrogate t"
    let ?process = "\<lparr>pr_stdout = Inr (field_line ''output_text'' t @ [10]), pr_stderr = Inr [], pr_returncode = 0\<rparr>"
    have "\<not> list_ex py_surrogate (field_line ''output_text'' t @ [10])" using t encodable_chars by blast
    then have run: "?run (sm_command self) (request_line request) st = (Inr ?process, st')"
      using t handled by (simp add: runner_process_def run_stdio_once_def make_response_def response_line_output encoded_def)
    have result: "?complete = (read_process float_of decode_error str_of ?process, st')" by (simp add: complete run)
    show "\<exists>r'. ?complete = (r', st') \<and>
        (if \<forall>c \<in> set t. \<not> raw_break c then r' = Inr (PStr t) else \<exists>m. r' = Inl (protocol_error m))"
    proof (cases "\<forall>c \<in> set t. \<not> raw_break c")
      case True
      then show ?thesis
        using t result read_one_line [of ?process "''output_text''" t] parse_output_line by simp
    next
      case False
      then have "2 \<le> length (output_lines (field_line ''output_text'' t @ [10]))" by (intro many_output_lines) auto
      then have "\<exists>m. read_process float_of decode_error str_of ?process = Inl (protocol_error m)"
        by (auto simp: read_process_def detail_or_def split: list.splits)
      with False result show ?thesis by auto
    qed
  next
    fix e assume e: "r = Inl e \<and> \<not> list_ex py_surrogate (class_name e @ lit '': '' @ message e) \<and>
        (\<forall>c \<in> set (class_name e @ lit '': '' @ message e). \<not> raw_break c)"
    let ?t = "class_name e @ lit '': '' @ message e"
    let ?process = "\<lparr>pr_stdout = Inr (field_line ''error'' ?t @ [10]), pr_stderr = Inr [], pr_returncode = 1\<rparr>"
    have nonblank: "strip ?t \<noteq> []" by (rule nonblank_strip [of 58]) (simp_all add: lit_def py_isspace_def)
    have "\<not> list_ex py_surrogate (field_line ''error'' ?t @ [10])" using e encodable_chars by blast
    then have "?run (sm_command self) (request_line request) st = (Inr ?process, st')"
      using e handled nonblank
      by (simp add: runner_process_def run_stdio_once_def error_response_def make_response_def response_line_error encoded_def)
    then have "?complete = (read_process float_of decode_error str_of ?process, st')" by (simp add: complete)
    then show "?complete = (Inl (protocol_error ?t), st')"
      using e read_one_line [of ?process "''error''" ?t] parse_output_line(2) [OF nonblank] by simp
  qed
qed

section \<open>Examples\<close>

definition example_model :: stdio_model where
  "example_model = \<lparr>sm_command = [lit ''runner''], sm_model = lit ''m''\<rparr>"

definition example_request :: runner_request where
  "example_request = \<lparr>rq_model = lit ''m'', rq_instructions = lit ''i'', rq_input_text = lit ''t'', rq_max_output_tokens = 64\<rparr>"

lemma example_request_made: "make_request (PStr (sm_model example_model)) (PStr (lit ''i'')) (PStr (lit ''t'')) (PInt 64) = Inr example_request"
proof -
  have "strip (lit ''m'') \<noteq> []" "strip (lit ''i'') \<noteq> []" "strip (lit ''t'') \<noteq> []"
    by (simp_all add: strip_def strip_on_eq_Nil lit_def py_isspace_def)
  then show ?thesis by (simp add: make_request_Inr example_request_def example_model_def)
qed

lemma request_roundtrip_witness:
  "parse_request PFloat (\<lambda>_. []) (readline (request_line example_request @ lit ''more'')) = Inr example_request"
  by (rule request_roundtrip [OF example_request_made])

lemma example_request_encodable: "\<not> list_ex py_surrogate (request_line example_request)"
proof -
  have "digits 64 = [54, 52]" by (simp add: digits.simps)
  then show ?thesis
    unfolding request_line_def sorted_request
    by (simp add: example_request_def json_string_def json_char_def json_int_def lit_def py_surrogate_def)
qed

text \<open>The same runner answers one word, and two words with a line separator between them.\<close>

definition answering_with :: "pystr \<Rightarrow> pystr \<Rightarrow> (unit, pyval) io" where
  "answering_with answer instructions = stdio_complete PFloat (\<lambda>_. []) (\<lambda>_. [])
     (runner_process PFloat (\<lambda>_. []) (\<lambda>_. []) (\<lambda>_. []) (\<lambda>_. pure_call (Inr (PStr answer)))) example_model instructions (lit ''t'') 64"

lemma runner_delivers_witness:
  "answering_with (lit ''hi'') (lit ''i'') () = (Inr (PStr (lit ''hi'')), ()) \<and>
   (\<exists>m. answering_with (lit ''hi'' @ [8232] @ lit ''ho'') (lit ''i'') () = (Inl (protocol_error m), ()))"
proof -
  note law = runner_delivers [OF example_request_made example_request_encodable, THEN conjunct1, rule_format,
      of "\<lambda>_. pure_call (Inr (PStr t))" "()" "Inr (PStr t)" "()" t PFloat "\<lambda>_. []" "\<lambda>_. []" "\<lambda>_. []" "\<lambda>_. []" for t]
  have blank: "strip (lit ''hi'') \<noteq> []" "strip (lit ''hi'' @ [8232] @ lit ''ho'') \<noteq> []"
    by (rule nonblank_strip [of 104]; simp add: lit_def py_isspace_def)+
  have "\<not> list_ex py_surrogate (lit ''hi'')" "\<not> list_ex py_surrogate (lit ''hi'' @ [8232] @ lit ''ho'')"
    "\<forall>c \<in> set (lit ''hi''). \<not> raw_break c" "\<exists>c \<in> set (lit ''hi'' @ [8232] @ lit ''ho''). raw_break c"
    by (simp_all add: lit_def py_surrogate_def raw_break_def)
  with law [of "lit ''hi''"] law [of "lit ''hi'' @ [8232] @ lit ''ho''"] blank show ?thesis
    by (auto simp: answering_with_def pure_call_def split: if_splits)
qed

end
