(* ===== verification/Eval_Suite.thy ===== *)
theory Eval_Suite
  imports Eval_Reference Py_Json
begin

text \<open>
  src/eval/python/src/memory_core_eval/cli.py and matrix.py: the readers of an evaluation profile, of the
  environment and of a file of scenarios, the suite that runs every scenario in every mode, and the matrix
  that runs the suite for several harness drivers. The file system, the conversion of floats, the text of
  a JSON syntax error and the measured durations are parameters.
\<close>

section \<open>Readers\<close>

definition ConfigError :: "pystr \<Rightarrow> py_error" where
  "ConfigError message = OtherError (lit ''ConfigError'') message"

definition required_text :: "pydict \<Rightarrow> pystr \<Rightarrow> pystr result" where
  "required_text value key = (case get value key of
     PStr t \<Rightarrow> if strip t = [] then Inl (ValueError (key @ lit '' must be nonblank text'')) else Inr (strip t)
   | _ \<Rightarrow> Inl (ValueError (key @ lit '' must be nonblank text'')))"

definition optional_text :: "pydict \<Rightarrow> pystr \<Rightarrow> pystr option result" where
  "optional_text value key = (case get value key of
     PNone \<Rightarrow> Inr None
   | PStr t \<Rightarrow> if strip t = [] then Inl (ValueError (key @ lit '' must be nonblank text when present'')) else Inr (Some (strip t))
   | _ \<Rightarrow> Inl (ValueError (key @ lit '' must be nonblank text when present'')))"

definition load_turn :: "pyval \<Rightarrow> historical_turn result" where
  "load_turn value = (case as_mapping value of
     None \<Rightarrow> Inl (ValueError (lit ''history item must be an object''))
   | Some d \<Rightarrow>
       bindr (required_text d (lit ''situation'')) (\<lambda>situation.
       bindr (required_text d (lit ''agent_act'')) (\<lambda>agent_act.
       bindr (optional_text d (lit ''outcome'')) (\<lambda>outcome.
       Inr \<lparr>ht_situation = situation, ht_agent_act = agent_act, ht_outcome = outcome\<rparr>))))"

text \<open>\<open>str\<close> of a caught \<open>ValueError\<close>.\<close>

fun error_message :: "py_error \<Rightarrow> pystr" where
  "error_message (ValueError m) = m"
| "error_message _ = []"

text \<open>One line of the file, given the refs seen before it. \<open>decode_error\<close> is the text of a syntax error.\<close>

definition load_scenario ::
    "(pystr \<Rightarrow> pyval) \<Rightarrow> (pystr \<Rightarrow> pystr) \<Rightarrow> (pystr \<Rightarrow> pystr) \<Rightarrow> pystr set \<Rightarrow> pystr \<Rightarrow> scenario result" where
  "load_scenario float_of decode_error repr seen_refs raw_line = (case json_loads float_of raw_line of
     None \<Rightarrow> Inl (ValueError (decode_error raw_line))
   | Some value \<Rightarrow> (case as_mapping value of
       None \<Rightarrow> Inl (ValueError (lit ''case must be an object''))
     | Some d \<Rightarrow>
         bindr (required_text d (lit ''scenario_ref'')) (\<lambda>scenario_ref.
         bindr (raise_if (scenario_ref \<in> seen_refs) (ValueError (lit ''duplicate scenario_ref '' @ repr scenario_ref))) (\<lambda>_.
         case as_sequence (get d (lit ''history'')) of
           None \<Rightarrow> Inl (ValueError (lit ''history must be a list''))
         | Some history_value \<Rightarrow>
             bindr (map_r load_turn history_value) (\<lambda>history.
             bindr (optional_text d (lit ''query_outcome'')) (\<lambda>query_outcome.
             bindr (required_text d (lit ''query'')) (\<lambda>query.
             bindr (required_text d (lit ''expected_output'')) (\<lambda>expected_output.
             Inr \<lparr>scenario_ref = scenario_ref, sc_history = history, sc_query = query, sc_expected_output = expected_output,
                  sc_query_outcome = query_outcome\<rparr>))))))))"

fun load_lines ::
    "(pystr \<Rightarrow> pyval) \<Rightarrow> (pystr \<Rightarrow> pystr) \<Rightarrow> (pystr \<Rightarrow> pystr) \<Rightarrow> nat \<Rightarrow> pystr set \<Rightarrow> pystr list \<Rightarrow> scenario list result" where
  "load_lines float_of decode_error repr line_number seen_refs [] = Inr []"
| "load_lines float_of decode_error repr line_number seen_refs (raw_line # lines) =
     (if strip raw_line = [] then load_lines float_of decode_error repr (line_number + 1) seen_refs lines
      else case load_scenario float_of decode_error repr seen_refs raw_line of
        Inl e \<Rightarrow> Inl (ValueError (lit ''invalid scenario at line '' @ digits line_number @ lit '': '' @ error_message e))
      | Inr s \<Rightarrow> bindr (load_lines float_of decode_error repr (line_number + 1) (insert (scenario_ref s) seen_refs) lines) (\<lambda>ss.
          Inr (s # ss)))"

definition load_scenarios ::
    "(pystr \<Rightarrow> pyval) \<Rightarrow> (pystr \<Rightarrow> pystr) \<Rightarrow> (pystr \<Rightarrow> pystr) \<Rightarrow> pystr result \<Rightarrow> scenario list result" where
  "load_scenarios float_of decode_error repr file =
     bindr file (\<lambda>contents.
     bindr (load_lines float_of decode_error repr 1 {} (stream_lines contents)) (\<lambda>scenarios.
     if scenarios = [] then Inl (ValueError (lit ''scenario file contains no cases'')) else Inr scenarios))"

record eval_profile =
  ep_profile_version :: pystr
  ep_scenario_set :: pystr
  ep_scenarios :: pystr
  ep_prompt_version :: pystr
  ep_instructions :: pystr
  ep_constitution_memory_ref :: pystr
  ep_constitution_text :: pystr
  ep_max_output_tokens :: int
  ep_episode_rag_top_k :: int
  ep_modes :: "pystr list"

definition eval_modes :: "eval_mode list" where
  "eval_modes = [NONE, EPISODE_RAG, RECOLLECTION_ONLY, FULL_CORE]"

definition positive_int :: "pydict \<Rightarrow> pystr \<Rightarrow> int result" where
  "positive_int value key = (case get value key of
     PInt i \<Rightarrow> if i \<le> 0 then Inl (ValueError (key @ lit '' must be a positive integer'')) else Inr i
   | _ \<Rightarrow> Inl (ValueError (key @ lit '' must be a positive integer'')))"

fun as_text :: "pyval \<Rightarrow> pystr option" where
  "as_text (PStr t) = Some t"
| "as_text _ = None"

definition profile_modes :: "pydict \<Rightarrow> pystr list result" where
  "profile_modes value = (case as_sequence (get value (lit ''modes'')) of
     None \<Rightarrow> Inl (ValueError (lit ''modes must be a list of strings''))
   | Some raw_modes \<Rightarrow>
       if list_ex (\<lambda>mode. as_text mode = None) raw_modes then Inl (ValueError (lit ''modes must be a list of strings''))
       else let modes = map (\<lambda>mode. the (as_text mode)) raw_modes in
         if modes \<noteq> map mode_value eval_modes
         then Inl (ValueError (lit ''modes must equal ('none', 'episode_rag', 'recollection_only', 'full_core')''))
         else Inr modes)"

text \<open>The body of the \<open>try\<close>; \<open>resolve\<close> gives the path of a file beside the profile.\<close>

definition read_profile :: "(pystr \<Rightarrow> pystr) \<Rightarrow> (pystr \<Rightarrow> bool) \<Rightarrow> pydict \<Rightarrow> eval_profile result" where
  "read_profile resolve is_file value =
     bindr (required_text value (lit ''scenario_file'')) (\<lambda>scenario_file.
     let scenarios = resolve scenario_file in
     bindr (raise_if (\<not> is_file scenarios) (ValueError (lit ''scenario file does not exist: '' @ scenarios))) (\<lambda>_.
     bindr (positive_int value (lit ''max_output_tokens'')) (\<lambda>max_output_tokens.
     bindr (positive_int value (lit ''episode_rag_top_k'')) (\<lambda>top_k.
     bindr (profile_modes value) (\<lambda>modes.
     bindr (required_text value (lit ''profile_version'')) (\<lambda>version.
     bindr (required_text value (lit ''scenario_set'')) (\<lambda>scenario_set.
     bindr (required_text value (lit ''prompt_version'')) (\<lambda>prompt_version.
     bindr (required_text value (lit ''instructions'')) (\<lambda>instructions.
     bindr (required_text value (lit ''constitution_memory_ref'')) (\<lambda>memory_ref.
     bindr (required_text value (lit ''constitution_text'')) (\<lambda>constitution_text.
     Inr \<lparr>ep_profile_version = version, ep_scenario_set = scenario_set, ep_scenarios = scenarios,
          ep_prompt_version = prompt_version, ep_instructions = instructions, ep_constitution_memory_ref = memory_ref,
          ep_constitution_text = constitution_text, ep_max_output_tokens = max_output_tokens, ep_episode_rag_top_k = top_k,
          ep_modes = modes\<rparr>)))))))))))"

text \<open>\<open>read_text\<close> either fails as an \<open>OSError\<close> with a message, fails otherwise, or gives the text.\<close>

datatype file_outcome = OsError pystr | ReadFailed py_error | ReadText pystr

definition load_eval_profile ::
    "(pystr \<Rightarrow> pyval) \<Rightarrow> (pystr \<Rightarrow> pystr) \<Rightarrow> (pystr \<Rightarrow> pystr) \<Rightarrow> (pystr \<Rightarrow> bool) \<Rightarrow> pystr \<Rightarrow> file_outcome \<Rightarrow> eval_profile result" where
  "load_eval_profile float_of decode_error resolve is_file path outcome = (case outcome of
     OsError m \<Rightarrow> Inl (ConfigError (lit ''cannot load eval profile '' @ path @ lit '': '' @ m))
   | ReadFailed e \<Rightarrow> Inl e
   | ReadText t \<Rightarrow> (case json_loads float_of t of
       None \<Rightarrow> Inl (ConfigError (lit ''cannot load eval profile '' @ path @ lit '': '' @ decode_error t))
     | Some value \<Rightarrow> (case as_mapping value of
         None \<Rightarrow> Inl (ConfigError (lit ''eval profile must be a JSON object''))
       | Some d \<Rightarrow> (case read_profile resolve is_file d of
           Inl e \<Rightarrow> Inl (ConfigError (lit ''invalid eval profile '' @ path @ lit '': '' @ error_message e))
         | Inr profile \<Rightarrow> Inr profile))))"

record live_config =
  lv_endpoint :: pystr
  lv_token :: pystr
  lv_model :: pystr
  lv_scenarios :: pystr
  lv_api_key :: pystr
  lv_base_url :: "pystr option"
  lv_evaluation_ref :: pystr
  lv_tenant_ref :: pystr
  lv_agent_ref :: pystr
  lv_relationship_ref :: pystr
  lv_user_ref :: pystr

definition REQUIRED_LIVE_ENV :: "pystr list" where
  "REQUIRED_LIVE_ENV = [lit ''MEMORY_CORE_ENDPOINT'', lit ''MEMORY_CORE_TOKEN'', lit ''MEMORY_EVAL_MODEL'', lit ''MEMORY_EVAL_SCENARIOS'',
     lit ''OPENAI_API_KEY'']"

definition environ_get :: "(pystr \<Rightarrow> pystr option) \<Rightarrow> pystr \<Rightarrow> pystr \<Rightarrow> pystr" where
  "environ_get environ key default_value = (case environ key of None \<Rightarrow> default_value | Some v \<Rightarrow> v)"

text \<open>\<open>fresh\<close> is a new random hexadecimal ref.\<close>

definition load_live_config ::
    "(pystr \<Rightarrow> pystr) \<Rightarrow> (pystr \<Rightarrow> bool) \<Rightarrow> pystr \<Rightarrow> (pystr \<Rightarrow> pystr option) \<Rightarrow> live_config result" where
  "load_live_config expanduser is_file fresh environ =
     (let value = (\<lambda>key. strip (environ_get environ key []));
          missing = filter (\<lambda>key. value key = []) REQUIRED_LIVE_ENV in
      bindr (raise_if (missing \<noteq> []) (ConfigError (lit ''missing required environment: '' @ py_join (lit '', '') missing))) (\<lambda>_.
      let scenarios = expanduser (environ_get environ (lit ''MEMORY_EVAL_SCENARIOS'') []) in
      bindr (raise_if (\<not> is_file scenarios) (ConfigError (lit ''scenario file does not exist: '' @ scenarios))) (\<lambda>_.
      Inr \<lparr>lv_endpoint = value (lit ''MEMORY_CORE_ENDPOINT''), lv_token = value (lit ''MEMORY_CORE_TOKEN''),
           lv_model = value (lit ''MEMORY_EVAL_MODEL''), lv_scenarios = scenarios, lv_api_key = value (lit ''OPENAI_API_KEY''),
           lv_base_url = (if value (lit ''OPENAI_BASE_URL'') = [] then None else Some (value (lit ''OPENAI_BASE_URL''))),
           lv_evaluation_ref = (if value (lit ''MEMORY_EVAL_REF'') = [] then fresh else value (lit ''MEMORY_EVAL_REF'')),
           lv_tenant_ref = strip (environ_get environ (lit ''MEMORY_EVAL_TENANT_REF'') (lit ''memory-core-eval'')),
           lv_agent_ref = strip (environ_get environ (lit ''MEMORY_EVAL_AGENT_REF'') (lit ''reference-agent'')),
           lv_relationship_ref = strip (environ_get environ (lit ''MEMORY_EVAL_RELATIONSHIP_REF'') (lit ''reference-relationship'')),
           lv_user_ref = strip (environ_get environ (lit ''MEMORY_EVAL_USER_REF'') (lit ''reference-user''))\<rparr>)))"

section \<open>Suites\<close>

type_synonym 'w suite_state = "'w \<times> (completion, pystr dyn) event list"

fun run_cases ::
    "(eval_mode \<Rightarrow> scenario \<Rightarrow> 'w suite_state \<Rightarrow> 'd eval_result \<times> 'w suite_state) \<Rightarrow> (scenario \<times> eval_mode) list \<Rightarrow>
     'w suite_state \<Rightarrow> 'd eval_result list \<times> 'w suite_state" where
  "run_cases run_one [] st = ([], st)"
| "run_cases run_one ((scenario, mode) # cases) st =
     (case run_one mode scenario st of (result, st1) \<Rightarrow>
      case run_cases run_one cases st1 of (results, st2) \<Rightarrow> (result # results, st2))"

text \<open>The two nested loops; \<open>elapsed\<close> is the measured duration of each run.\<close>

definition run_suite ::
    "(nat \<Rightarrow> pystr) \<Rightarrow> (nat \<Rightarrow> bool) \<Rightarrow> (py_error \<Rightarrow> pystr) \<Rightarrow> (eval_mode \<Rightarrow> scenario \<Rightarrow> 'd) \<Rightarrow> 'w harness \<Rightarrow> scenario list \<Rightarrow>
     'w suite_state \<Rightarrow> 'd eval_result list \<times> 'w suite_state" where
  "run_suite casefold isalnum describe elapsed harness scenarios =
     run_cases (\<lambda>mode scenario. run casefold isalnum describe (elapsed mode scenario) harness mode scenario)
       (List.product scenarios eval_modes)"

definition results_exit_code :: "'d eval_result list \<Rightarrow> int" where
  "results_exit_code results = (if list_ex (\<lambda>result. er_error result \<noteq> None) results then 1 else 0)"

section \<open>The matrix\<close>

record harness_driver =
  hd_harness :: pystr
  hd_version :: pystr
  hd_command :: "pystr list"

definition driver_post_init :: "harness_driver \<Rightarrow> harness_driver result" where
  "driver_post_init self =
     bindr (raise_if (strip (hd_harness self) = []) (ValueError (lit ''harness must be nonblank''))) (\<lambda>_.
     bindr (raise_if (strip (hd_version self) = []) (ValueError (lit ''version must be nonblank''))) (\<lambda>_.
     bindr (raise_if (hd_command self = [] \<or> list_ex (\<lambda>part. part = []) (hd_command self)) (ValueError (lit ''command must be non-empty''))) (\<lambda>_.
     Inr self)))"

record matrix_identity =
  mi_evaluation_ref :: pystr
  mi_model :: pystr
  mi_tenant_ref :: pystr
  mi_agent_ref :: pystr
  mi_relationship_ref :: pystr
  mi_user_ref :: pystr

definition identity_post_init :: "matrix_identity \<Rightarrow> matrix_identity result" where
  "identity_post_init self =
     bindr (check_all (\<lambda>(field_name, value). raise_if (strip value = []) (ValueError (field_name @ lit '' must be nonblank'')))
       [(lit ''evaluation_ref'', mi_evaluation_ref self), (lit ''model'', mi_model self), (lit ''tenant_ref'', mi_tenant_ref self),
        (lit ''agent_ref'', mi_agent_ref self), (lit ''relationship_ref'', mi_relationship_ref self), (lit ''user_ref'', mi_user_ref self)]) (\<lambda>_.
     Inr self)"

definition matrix_profile :: "eval_profile \<Rightarrow> matrix_identity \<Rightarrow> harness_driver \<Rightarrow> harness_profile" where
  "matrix_profile shared ident driver =
     \<lparr>evaluation_ref = mi_evaluation_ref ident, hp_harness = hd_harness driver, harness_version = hd_version driver,
      hp_model = mi_model ident, profile_version = ep_profile_version shared, prompt_version = ep_prompt_version shared,
      scenario_set = ep_scenario_set shared, hp_instructions = ep_instructions shared, hp_tenant_ref = mi_tenant_ref ident,
      hp_agent_ref = mi_agent_ref ident, hp_relationship_ref = mi_relationship_ref ident, hp_user_ref = mi_user_ref ident,
      hp_constitution = \<lparr>con_memory_ref = ep_constitution_memory_ref shared, con_text = ep_constitution_text shared\<rparr>,
      hp_max_output_tokens = ep_max_output_tokens shared, episode_rag_top_k = ep_episode_rag_top_k shared\<rparr>"

text \<open>The loop over the drivers: an exception of a profile or of the factory ends it. \<open>suite\<close> runs a harness.\<close>

fun run_drivers ::
    "('w harness \<Rightarrow> 'w suite_state \<Rightarrow> 'd eval_result list \<times> 'w suite_state) \<Rightarrow> 'w memory_client \<Rightarrow> ('w, unit) io \<Rightarrow>
     (harness_driver \<Rightarrow> (completion \<Rightarrow> ('w, pystr dyn) io) result) \<Rightarrow> eval_profile \<Rightarrow> matrix_identity \<Rightarrow> harness_driver list \<Rightarrow>
     'w suite_state \<Rightarrow> 'd eval_result list result \<times> 'w suite_state" where
  "run_drivers suite memory settle create_model shared ident [] st = (Inr [], st)"
| "run_drivers suite memory settle create_model shared ident (driver # drivers) st =
     (case bindr (post_init (matrix_profile shared ident driver)) (\<lambda>profile.
          bindr (create_model driver) (\<lambda>model.
          Inr \<lparr>ha_memory = Some memory, ha_model = model, ha_profile = profile, ha_settle = settle\<rparr>)) of
        Inl e \<Rightarrow> (Inl e, st)
      | Inr harness \<Rightarrow> (case suite harness st of (results, st1) \<Rightarrow>
          (case run_drivers suite memory settle create_model shared ident drivers st1 of
             (Inl e, st2) \<Rightarrow> (Inl e, st2) | (Inr rest, st2) \<Rightarrow> (Inr (results @ rest), st2))))"

definition run_matrix ::
    "('w harness \<Rightarrow> 'w suite_state \<Rightarrow> 'd eval_result list \<times> 'w suite_state) \<Rightarrow> 'w memory_client \<Rightarrow> ('w, unit) io \<Rightarrow>
     (harness_driver \<Rightarrow> (completion \<Rightarrow> ('w, pystr dyn) io) result) \<Rightarrow> eval_profile \<Rightarrow> matrix_identity \<Rightarrow> harness_driver list \<Rightarrow>
     'w suite_state \<Rightarrow> 'd eval_result list result \<times> 'w suite_state" where
  "run_matrix suite memory settle create_model shared ident drivers st =
     (if drivers = [] then (Inl (ValueError (lit ''matrix requires at least one harness driver'')), st)
      else if \<not> distinct (map hd_harness drivers) then (Inl (ValueError (lit ''matrix harness names must be unique'')), st)
      else run_drivers suite memory settle create_model shared ident drivers st)"

end
