(* ===== verification/Suite_Laws.thy ===== *)
theory Suite_Laws
  imports Eval_Suite Eval_Harness Runner_Laws
begin

text \<open>
  Properties of the suite and of the matrix: the readers accept a scenario file only when its refs are
  distinct, a suite gives one result for each scenario and mode in order, and the requests of a whole
  suite, and of a whole matrix of harnesses whose names have no colon, have distinct idempotency keys.
\<close>

section \<open>The keys of a run\<close>

definition run_keys :: "harness_profile \<Rightarrow> eval_mode \<Rightarrow> scenario \<Rightarrow> pystr set" where
  "run_keys profile mode scenario = (\<lambda>(t, k). identity profile mode scenario t k) ` (turn_refs \<times> request_kinds)"

lemma colon_last_inject:
  assumes "58 \<notin> set u" and "58 \<notin> set v" and "xs @ 58 # u = ys @ 58 # (v :: pystr)"
  shows "xs = ys \<and> u = v"
proof -
  have "takeWhile (\<lambda>c. c \<noteq> 58) (w @ 58 # zs) = w" if "58 \<notin> set w" for zs w :: pystr
    using that by (induction w) auto
  then have "takeWhile (\<lambda>c. c \<noteq> 58) (rev (zs @ 58 # w)) = rev w" if "58 \<notin> set w" for zs w :: pystr
    using that by simp
  with assms have "rev u = rev v" by metis
  with assms(3) show ?thesis by simp
qed

lemma colon_first_inject:
  assumes "58 \<notin> set u" and "58 \<notin> set v" and "u @ 58 # xs = v @ 58 # (ys :: pystr)"
  shows "u = v \<and> xs = ys"
proof -
  have "takeWhile (\<lambda>c. c \<noteq> 58) (w @ 58 # zs) = w" if "58 \<notin> set w" for w zs :: pystr
    using that by (induction w) auto
  with assms have "u = v" by metis
  with assms(3) show ?thesis by simp
qed

lemma mode_value_plain: "58 \<notin> set (mode_value m)"
  by (cases m) (simp_all add: lit_def)

lemma mode_value_inject: "mode_value m = mode_value m' \<longleftrightarrow> m = m'"
  by (cases m; cases m') (simp_all add: lit_def)

lemma identity_split:
  "identity p m s t k = lit ''eval:'' @ evaluation_ref p @ 58 # hp_harness p @ 58 # scenario_ref s @ 58 # mode_value m @ 58 # t @ 58 # k"
  by (simp add: identity_def lit_def)

text \<open>From the right the fields of a key are determined up to the harness and the scenario ref.\<close>

lemma identity_fields:
  assumes "t \<in> turn_refs" and "t' \<in> turn_refs" and "k \<in> request_kinds" and "k' \<in> request_kinds"
    and "identity p m s t k = identity p' m' s' t' k'"
  shows "evaluation_ref p @ 58 # hp_harness p @ 58 # scenario_ref s = evaluation_ref p' @ 58 # hp_harness p' @ 58 # scenario_ref s'"
    and "m = m'" and "t = t'" and "k = k'"
proof -
  let ?h = "evaluation_ref p @ 58 # hp_harness p @ 58 # scenario_ref s"
    and ?h' = "evaluation_ref p' @ 58 # hp_harness p' @ 58 # scenario_ref s'"
  have "(?h @ 58 # mode_value m @ 58 # t) @ 58 # k = (?h' @ 58 # mode_value m' @ 58 # t') @ 58 # k'"
    using assms(5) by (simp add: identity_split)
  from colon_last_inject [OF request_kinds_plain [OF assms(3)] request_kinds_plain [OF assms(4)] this]
  have k: "k = k'" and "(?h @ 58 # mode_value m) @ 58 # t = (?h' @ 58 # mode_value m') @ 58 # t'" by simp_all
  from colon_last_inject [OF turn_refs_plain [OF assms(1)] turn_refs_plain [OF assms(2)] this(2)]
  have t: "t = t'" and "?h @ 58 # mode_value m = ?h' @ 58 # mode_value m'" by simp_all
  from colon_last_inject [OF mode_value_plain mode_value_plain this(2)] k t
  show "?h = ?h'" "m = m'" "t = t'" "k = k'" by (simp_all add: mode_value_inject)
qed

lemma run_keys_inject:
  assumes "x \<in> run_keys p m s" and "x \<in> run_keys p m' s'"
  shows "scenario_ref s = scenario_ref s' \<and> m = m'"
proof -
  obtain t k t' k' where tags: "t \<in> turn_refs" "k \<in> request_kinds" "t' \<in> turn_refs" "k' \<in> request_kinds"
    and "identity p m s t k = identity p m' s' t' k'" using assms unfolding run_keys_def by fastforce
  from identity_fields(1,2) [OF tags(1,3,2,4) this(5)] show ?thesis by simp
qed

lemma run_keys_harness:
  assumes "x \<in> run_keys p m s" and "x \<in> run_keys p' m' s'" and "evaluation_ref p = evaluation_ref p'"
    and "58 \<notin> set (hp_harness p)" and "58 \<notin> set (hp_harness p')"
  shows "hp_harness p = hp_harness p'"
proof -
  obtain t k t' k' where tags: "t \<in> turn_refs" "k \<in> request_kinds" "t' \<in> turn_refs" "k' \<in> request_kinds"
    and "identity p m s t k = identity p' m' s' t' k'" using assms(1,2) unfolding run_keys_def by fastforce
  from identity_fields(1) [OF tags(1,3,2,4) this(5)] assms(3)
  have "hp_harness p @ 58 # scenario_ref s = hp_harness p' @ 58 # scenario_ref s'" by simp
  from colon_first_inject [OF assms(4,5) this] show ?thesis by simp
qed

section \<open>Computations that log events with fresh keys\<close>

definition fresh_keys :: "pystr set \<Rightarrow> ('m, 'o) event list \<Rightarrow> bool" where
  "fresh_keys K es \<longleftrightarrow> distinct (log_keys es) \<and> set (log_keys es) \<subseteq> K"

definition logs :: "('w \<times> 'e list \<Rightarrow> 'x \<times> 'w \<times> 'e list) \<Rightarrow> ('x \<Rightarrow> 'e list \<Rightarrow> bool) \<Rightarrow> bool" where
  "logs m P \<longleftrightarrow> (\<forall>w sofar. \<exists>x w' es. m (w, sofar) = (x, w', sofar @ es) \<and> P x es)"

lemma logsD:
  assumes "logs m P" and "m (w, sofar) = (x, w', events)"
  shows "\<exists>es. events = sofar @ es \<and> P x es"
proof -
  obtain x2 w2 es where "m (w, sofar) = (x2, w2, sofar @ es)" "P x2 es" using assms(1) unfolding logs_def by blast
  with assms(2) show ?thesis by auto
qed

lemma logs_conseq: "logs m P \<Longrightarrow> (\<And>x es. P x es \<Longrightarrow> Q x es) \<Longrightarrow> logs m Q"
  unfolding logs_def by blast

lemma logs_return: "P x [] \<Longrightarrow> logs (Pair x) P"
  unfolding logs_def by auto

lemma logs_then:
  assumes "logs m P" and "logs n Q" and "\<And>x y es fs. P x es \<Longrightarrow> Q y fs \<Longrightarrow> R (h x y) (es @ fs)"
  shows "logs (\<lambda>st. case m st of (x, st1) \<Rightarrow> case n st1 of (y, st2) \<Rightarrow> (h x y, st2)) R"
  unfolding logs_def
proof (intro allI)
  fix w sofar
  obtain x w1 es where m: "m (w, sofar) = (x, w1, sofar @ es)" "P x es" using assms(1) unfolding logs_def by blast
  obtain y w2 fs where n: "n (w1, sofar @ es) = (y, w2, (sofar @ es) @ fs)" "Q y fs" using assms(2) unfolding logs_def by blast
  from m n assms(3) show "\<exists>z w' gs. (case m (w, sofar) of (x, st1) \<Rightarrow> case n st1 of (y, st2) \<Rightarrow> (h x y, st2)) = (z, w', sofar @ gs) \<and> R z gs"
    by (auto intro!: exI [of _ "es @ fs"])
qed

lemma fresh_keys_Nil [simp]: "fresh_keys K []"
  by (simp add: fresh_keys_def)

lemma fresh_keys_append: "fresh_keys K es \<Longrightarrow> fresh_keys L fs \<Longrightarrow> K \<inter> L = {} \<Longrightarrow> fresh_keys (K \<union> L) (es @ fs)"
  by (auto simp: fresh_keys_def)

lemma fresh_keys_mono: "fresh_keys K es \<Longrightarrow> K \<subseteq> L \<Longrightarrow> fresh_keys L es"
  by (auto simp: fresh_keys_def)

lemma keyed_fresh:
  assumes "keyed (identity p m s) (turn_refs \<times> request_kinds) es"
  shows "fresh_keys (run_keys p m s) es"
proof -
  from assms obtain tags where tags: "log_keys es = map (\<lambda>(t, k). identity p m s t k) tags" "distinct tags"
    "set tags \<subseteq> turn_refs \<times> request_kinds" by (auto simp: keyed_def)
  have "inj_on (\<lambda>(t, k). identity p m s t k) (turn_refs \<times> request_kinds)"
    by (rule inj_onI) (auto dest: identity_fields(3,4) [rotated 4])
  then have "inj_on (\<lambda>(t, k). identity p m s t k) (set tags)" using tags(3) by (rule inj_on_subset)
  with tags show ?thesis by (auto simp: fresh_keys_def run_keys_def distinct_map)
qed

lemma run_body_keyed:
  "traces (run_body casefold isalnum self mode scenario) (\<lambda>es r. fresh_keys (run_keys (ha_profile self) mode scenario) es)"
proof -
  have "fresh_keys K es" if "list_all is_run es" for K and es :: "(completion, pystr dyn) event list"
  proof -
    have "log_keys es = []" using that
    proof (induction es)
      case (Cons ev es)
      then show ?case by (cases ev) simp_all
    qed simp
    then show ?thesis by (simp add: fresh_keys_def)
  qed
  then have "traces (run_baseline casefold isalnum self mode scenario) (\<lambda>es r. fresh_keys (run_keys (ha_profile self) mode scenario) es)"
    by (intro traces_conseq [OF baseline_without_memory]) blast
  moreover have "traces (run_core client self mode scenario) (\<lambda>es r. fresh_keys (run_keys (ha_profile self) mode scenario) es)" for client
    by (rule traces_conseq [OF run_core_keyed keyed_fresh])
  ultimately show ?thesis by (auto simp: run_body_def intro: traces_pure split: option.splits)
qed

section \<open>The suite\<close>

text \<open>What a result says of its case.\<close>

definition case_tag :: "harness_profile \<Rightarrow> scenario \<times> eval_mode \<Rightarrow> harness_profile \<times> pystr \<times> pystr" where
  "case_tag profile scenario_mode = (profile, scenario_ref (fst scenario_mode), mode_value (snd scenario_mode))"

definition result_tag :: "'d eval_result \<Rightarrow> harness_profile \<times> pystr \<times> pystr" where
  "result_tag result = (er_profile result, er_scenario_ref result, er_mode result)"

lemma run_logs:
  "logs (run casefold isalnum describe elapsed self mode scenario) (\<lambda>result es.
     fresh_keys (run_keys (ha_profile self) mode scenario) es \<and>
     result_tag result = case_tag (ha_profile self) (scenario, mode))"
  unfolding logs_def
proof (intro allI)
  fix w sofar
  obtain r w' locals' es where "run_body casefold isalnum self mode scenario ((w, \<lparr>injected_text = [], run_output = []\<rparr>), sofar) =
      (r, (w', locals'), sofar @ es)" "fresh_keys (run_keys (ha_profile self) mode scenario) es"
    using run_body_keyed unfolding traces_def by (metis surj_pair)
  then show "\<exists>result w' es. run casefold isalnum describe elapsed self mode scenario (w, sofar) = (result, w', sofar @ es) \<and>
      fresh_keys (run_keys (ha_profile self) mode scenario) es \<and>
      result_tag result = case_tag (ha_profile self) (scenario, mode)"
    by (simp add: run_def Let_def result_tag_def case_tag_def)
qed

definition suite_keys :: "harness_profile \<Rightarrow> (scenario \<times> eval_mode) set \<Rightarrow> pystr set" where
  "suite_keys profile cases = (\<Union>(scenario, mode) \<in> cases. run_keys profile mode scenario)"

lemma run_cases_logs:
  assumes "distinct (map (\<lambda>(s, m). (scenario_ref s, m)) cases)"
  shows "logs (run_cases (\<lambda>mode scenario. run casefold isalnum describe (elapsed mode scenario) self mode scenario) cases) (\<lambda>results es.
     fresh_keys (suite_keys (ha_profile self) (set cases)) es \<and> map result_tag results = map (case_tag (ha_profile self)) cases)"
  using assms
proof (induction cases)
  case Nil
  then show ?case by (simp add: logs_def)
next
  case (Cons c cases)
  obtain s m where c: "c = (s, m)" by (cases c)
  let ?p = "ha_profile self"
  have apart: "run_keys ?p m s \<inter> suite_keys ?p (set cases) = {}"
  proof -
    have False if "x \<in> run_keys ?p m s" "(s', m') \<in> set cases" "x \<in> run_keys ?p m' s'" for x s' m'
    proof -
      have "(scenario_ref s, m) = (\<lambda>(s, m). (scenario_ref s, m)) (s', m')" using run_keys_inject [OF that(1,3)] by simp
      then show False using Cons.prems that(2) unfolding c by (metis (mono_tags, lifting) case_prod_conv distinct.simps(2) image_eqI list.map(2) set_map)
    qed
    then show ?thesis by (auto simp: suite_keys_def)
  qed
  have "suite_keys ?p (set (c # cases)) = run_keys ?p m s \<union> suite_keys ?p (set cases)" by (simp add: suite_keys_def c)
  then have "logs (\<lambda>st. case run casefold isalnum describe (elapsed m s) self m s st of (result, st1) \<Rightarrow>
      case run_cases (\<lambda>mode scenario. run casefold isalnum describe (elapsed mode scenario) self mode scenario) cases st1 of
        (results, st2) \<Rightarrow> (result # results, st2)) (\<lambda>results es.
      fresh_keys (suite_keys ?p (set (c # cases))) es \<and> map result_tag results = map (case_tag ?p) (c # cases))"
    by (intro logs_then [where h = Cons, OF run_logs Cons.IH])
      (use Cons.prems apart in \<open>simp_all add: c fresh_keys_append\<close>)
  then show ?case by (simp add: c)
qed

section \<open>The scenario file\<close>

lemma load_scenario_new:
  "load_scenario float_of decode_error repr seen line = Inr s \<Longrightarrow> scenario_ref s \<notin> seen"
  by (auto simp: load_scenario_def bindr_Inr_iff raise_if_def split: option.splits)

lemma load_lines_distinct:
  "load_lines float_of decode_error repr n seen lines = Inr ss \<Longrightarrow>
     distinct (map scenario_ref ss) \<and> scenario_ref ` set ss \<inter> seen = {}"
proof (induction float_of decode_error repr n seen lines arbitrary: ss rule: load_lines.induct)
  case (2 float_of decode_error repr n seen line lines)
  show ?case
  proof (cases "strip line = []")
    case True
    with 2 show ?thesis by simp
  next
    case False
    with 2(3) obtain s ss' where s: "load_scenario float_of decode_error repr seen line = Inr s"
      and ss': "load_lines float_of decode_error repr (n + 1) (insert (scenario_ref s) seen) lines = Inr ss'" "ss = s # ss'"
      by (auto simp: bindr_Inr_iff split: sum.splits)
    from 2(2) [OF False s ss'(1)] load_scenario_new [OF s] show ?thesis by (auto simp: ss'(2))
  qed
qed simp

lemma load_scenarios_distinct:
  "load_scenarios float_of decode_error repr file = Inr scenarios \<Longrightarrow> distinct (map scenario_ref scenarios)"
  by (auto simp: load_scenarios_def bindr_Inr_iff split: if_splits dest: load_lines_distinct)

lemma map_case_tags:
  "map (case_tag p) (List.product ss ms) = map (Pair p) (List.product (map scenario_ref ss) (map mode_value ms))"
  by (induction ss) (simp_all add: case_tag_def comp_def)

lemma distinct_cases:
  fixes scenarios :: "scenario list"
  assumes "distinct (map scenario_ref scenarios)"
  shows "distinct (map (\<lambda>(s, m). (scenario_ref s, m)) (List.product scenarios eval_modes))"
proof -
  have "map (\<lambda>(s, m). (scenario_ref s, m)) (List.product ss ms) = List.product (map scenario_ref ss) ms" for ss :: "scenario list" and ms :: "eval_mode list"
    by (induction ss) (simp_all add: comp_def)
  note swap = this
  show ?thesis unfolding swap using assms by (intro distinct_product) (simp_all add: eval_modes_def)
qed

lemma run_suite_logs:
  assumes "distinct (map scenario_ref scenarios)"
  shows "logs (run_suite casefold isalnum describe elapsed self scenarios) (\<lambda>results es.
     fresh_keys (suite_keys (ha_profile self) (set (List.product scenarios eval_modes))) es \<and>
     map result_tag results = map (case_tag (ha_profile self)) (List.product scenarios eval_modes))"
  using run_cases_logs [OF distinct_cases [OF assms]] by (simp add: run_suite_def)

text \<open>The requests of a whole suite. When a scenario file loads, running the harness on every scenario in
  every mode gives one result for each, in the order of the loops, and all requests of the run that change the
  memory carry different idempotency keys, whatever the memory, the model and earlier errors do.\<close>

lemma suite_keys_distinct:
  assumes "load_scenarios float_of decode_error repr file = Inr scenarios"
    and "run_suite casefold isalnum describe elapsed self scenarios (w, sofar) = (results, w', events)"
  shows "\<exists>es. events = sofar @ es \<and> distinct (log_keys es) \<and>
    map (\<lambda>result. (er_scenario_ref result, er_mode result)) results = List.product (map scenario_ref scenarios) (map mode_value eval_modes)"
proof -
  note refs = load_scenarios_distinct [OF assms(1)]
  obtain es where es: "events = sofar @ es" "fresh_keys (suite_keys (ha_profile self) (set (List.product scenarios eval_modes))) es"
    and tags: "map result_tag results = map (case_tag (ha_profile self)) (List.product scenarios eval_modes)"
    using logsD [OF run_suite_logs [OF refs] assms(2)] by blast
  have "map snd (map result_tag results) = List.product (map scenario_ref scenarios) (map mode_value eval_modes)"
    unfolding tags map_case_tags by (simp add: comp_def)
  then show ?thesis using es by (auto simp: fresh_keys_def result_tag_def comp_def)
qed

section \<open>The matrix\<close>

text \<open>The profiles of a matrix differ only in the harness and its version.\<close>

lemma matrix_profile_simps [simp]:
  "evaluation_ref (matrix_profile shared ident driver) = mi_evaluation_ref ident"
  "hp_harness (matrix_profile shared ident driver) = hd_harness driver"
  by (simp_all add: matrix_profile_def)

lemma post_init_same: "post_init p = Inr q \<Longrightarrow> q = p"
  by (auto simp: post_init_def bindr_Inr_iff)

definition driver_keys :: "eval_profile \<Rightarrow> matrix_identity \<Rightarrow> scenario list \<Rightarrow> harness_driver \<Rightarrow> pystr set" where
  "driver_keys shared ident scenarios driver = suite_keys (matrix_profile shared ident driver) (set (List.product scenarios eval_modes))"

lemma driver_keys_apart:
  assumes "58 \<notin> set (hd_harness d)" and "58 \<notin> set (hd_harness d')" and "hd_harness d \<noteq> hd_harness d'"
  shows "driver_keys shared ident scenarios d \<inter> driver_keys shared ident scenarios d' = {}"
proof -
  have False if "x \<in> run_keys (matrix_profile shared ident d) m s" "x \<in> run_keys (matrix_profile shared ident d') m' s'" for x m s m' s'
    using run_keys_harness [OF that] assms by simp
  then show ?thesis by (auto simp: driver_keys_def suite_keys_def)
qed

lemma map_sum_eq_Inr: "map_sum f g r = Inr y \<longleftrightarrow> (\<exists>x. r = Inr x \<and> y = g x)"
  by (cases r) auto

lemma run_drivers_logs:
  fixes elapsed :: "'w harness \<Rightarrow> eval_mode \<Rightarrow> scenario \<Rightarrow> 'd"
  assumes "distinct (map scenario_ref scenarios)" and "distinct (map hd_harness drivers)" and "list_all (\<lambda>d. 58 \<notin> set (hd_harness d)) drivers"
  shows "logs (run_drivers (\<lambda>harness. run_suite casefold isalnum describe (elapsed harness) harness scenarios) memory settle create_model
     shared ident drivers) (\<lambda>r es.
     fresh_keys (\<Union>(driver_keys shared ident scenarios ` set drivers)) es \<and>
     (\<forall>results. r = Inr results \<longrightarrow> map result_tag results =
        concat (map (\<lambda>d. map (case_tag (matrix_profile shared ident d)) (List.product scenarios eval_modes)) drivers)))"
  using assms(2,3)
proof (induction drivers)
  case Nil
  then show ?case by (simp add: logs_def)
next
  case (Cons d drivers)
  let ?p = "matrix_profile shared ident d" and ?suite = "\<lambda>harness. run_suite casefold isalnum describe (elapsed harness) harness scenarios"
  let ?rest = "run_drivers ?suite memory settle create_model shared ident drivers"
  let ?tags = "\<lambda>d. map (case_tag (matrix_profile shared ident d)) (List.product scenarios eval_modes)"
  have apart: "driver_keys shared ident scenarios d \<inter> \<Union>(driver_keys shared ident scenarios ` set drivers) = {}"
  proof -
    have "driver_keys shared ident scenarios d \<inter> driver_keys shared ident scenarios d' = {}" if "d' \<in> set drivers" for d'
      by (rule driver_keys_apart) (use Cons.prems that in \<open>auto simp: list_all_iff\<close>)
    then show ?thesis by blast
  qed
  show ?case
  proof (cases "bindr (post_init ?p) (\<lambda>profile. bindr (create_model d) (\<lambda>model.
      Inr \<lparr>ha_memory = Some memory, ha_model = model, ha_profile = profile, ha_settle = settle\<rparr>))")
    case (Inl e)
    then show ?thesis by (simp add: logs_def)
  next
    case (Inr harness)
    then have profile: "ha_profile harness = ?p" by (auto simp: bindr_Inr_iff dest: post_init_same)
    have "logs (\<lambda>st. case ?suite harness st of (results, st1) \<Rightarrow> case ?rest st1 of (r, st2) \<Rightarrow> (map_sum id ((@) results) r, st2))
       (\<lambda>r es. fresh_keys (\<Union>(driver_keys shared ident scenarios ` set (d # drivers))) es \<and>
          (\<forall>results. r = Inr results \<longrightarrow> map result_tag results = concat (map ?tags (d # drivers))))"
    proof (rule logs_then [where h = "\<lambda>results. map_sum id ((@) results)", OF run_suite_logs [OF assms(1)] Cons.IH])
      fix results :: "'d eval_result list" and r :: "'d eval_result list result" and es fs :: "(completion, pystr dyn) event list"
      assume first: "fresh_keys (suite_keys (ha_profile harness) (set (List.product scenarios eval_modes))) es \<and>
          map result_tag results = map (case_tag (ha_profile harness)) (List.product scenarios eval_modes)"
        and later: "fresh_keys (\<Union>(driver_keys shared ident scenarios ` set drivers)) fs \<and>
          (\<forall>results. r = Inr results \<longrightarrow> map result_tag results = concat (map ?tags drivers))"
      have "fresh_keys (driver_keys shared ident scenarios d \<union> \<Union>(driver_keys shared ident scenarios ` set drivers)) (es @ fs)"
        by (rule fresh_keys_append [OF _ _ apart]) (use first later profile in \<open>simp_all add: driver_keys_def\<close>)
      then show "fresh_keys (\<Union>(driver_keys shared ident scenarios ` set (d # drivers))) (es @ fs) \<and>
          (\<forall>all_results. map_sum id ((@) results) r = Inr all_results \<longrightarrow> map result_tag all_results = concat (map ?tags (d # drivers)))"
        using first later by (auto simp: profile map_sum_eq_Inr)
    qed (use Cons.prems in simp_all)
    moreover have "run_drivers ?suite memory settle create_model shared ident (d # drivers) =
        (\<lambda>st. case ?suite harness st of (results, st1) \<Rightarrow> case ?rest st1 of (r, st2) \<Rightarrow> (map_sum id ((@) results) r, st2))"
      by (rule ext) (simp add: Inr split: prod.splits sum.splits)
    ultimately show ?thesis by simp
  qed
qed

lemma run_matrix_logs:
  assumes "distinct (map scenario_ref scenarios)" and "list_all (\<lambda>d. 58 \<notin> set (hd_harness d)) drivers"
  shows "logs (run_matrix (\<lambda>harness. run_suite casefold isalnum describe (elapsed harness) harness scenarios) memory settle create_model
     shared ident drivers) (\<lambda>r es. distinct (log_keys es) \<and>
     (\<forall>results. r = Inr results \<longrightarrow> drivers \<noteq> [] \<and> distinct (map hd_harness drivers) \<and> map result_tag results =
        concat (map (\<lambda>d. map (case_tag (matrix_profile shared ident d)) (List.product scenarios eval_modes)) drivers)))"
proof (cases "drivers = [] \<or> \<not> distinct (map hd_harness drivers)")
  case True
  then show ?thesis by (auto simp: logs_def run_matrix_def)
next
  case False
  then have "run_matrix suite memory settle create_model shared ident drivers = run_drivers suite memory settle create_model shared ident drivers" for suite
    by (simp add: run_matrix_def fun_eq_iff)
  note same = this
  have "distinct (map hd_harness drivers)" using False by blast
  note logs = run_drivers_logs [OF assms(1) this assms(2)]
  show ?thesis
    unfolding same by (rule logs_conseq [OF logs]) (use False in \<open>simp add: fresh_keys_def\<close>)
qed

text \<open>C36: The requests of a whole matrix. When no harness name has a colon, all requests that change the memory, over all
  harnesses, scenarios and modes, carry different idempotency keys, also when the matrix stops with an exception.
  When it returns, there were drivers with different names, and there is one result for each driver, scenario and mode in order.\<close>

theorem matrix_keys_distinct:
  assumes "load_scenarios float_of decode_error repr file = Inr scenarios"
    and "list_all (\<lambda>d. 58 \<notin> set (hd_harness d)) drivers"
    and "run_matrix (\<lambda>harness. run_suite casefold isalnum describe (elapsed harness) harness scenarios) memory settle create_model
      shared ident drivers (w, sofar) = (r, w', events)"
  shows "\<exists>es. events = sofar @ es \<and> distinct (log_keys es) \<and>
    (\<forall>results. r = Inr results \<longrightarrow> drivers \<noteq> [] \<and> distinct (map hd_harness drivers) \<and>
       map (\<lambda>result. (er_profile result, er_scenario_ref result, er_mode result)) results =
         List.product (map (matrix_profile shared ident) drivers) (List.product (map scenario_ref scenarios) (map mode_value eval_modes)))"
proof -
  let ?tags = "concat (map (\<lambda>d. map (case_tag (matrix_profile shared ident d)) (List.product scenarios eval_modes)) drivers)"
  obtain es where es: "events = sofar @ es" "distinct (log_keys es)"
    and results: "\<And>results. r = Inr results \<Longrightarrow> drivers \<noteq> [] \<and> distinct (map hd_harness drivers) \<and> map result_tag results = ?tags"
    using logsD [OF run_matrix_logs [OF load_scenarios_distinct [OF assms(1)] assms(2)] assms(3)] by blast
  have "?tags = List.product (map (matrix_profile shared ident) drivers) (List.product (map scenario_ref scenarios) (map mode_value eval_modes))"
    by (induction drivers) (simp_all add: map_case_tags)
  with es results show ?thesis unfolding result_tag_def by simp
qed

text \<open>Without that condition two runs of a matrix can share their keys and their memory: the harness \<open>a:b\<close> on the scenario
  \<open>c\<close> and the harness \<open>a\<close> on the scenario \<open>b:c\<close>.\<close>

lemma colon_collision:
  assumes "hp_harness p' = hp_harness p @ lit '':'' @ b" and "p = p'\<lparr>hp_harness := hp_harness p\<rparr>" and "scenario_ref s = b @ lit '':'' @ scenario_ref s'"
  shows "identity p m s t k = identity p' m s' t k \<and> harness_scope p m s = harness_scope p' m s'"
proof -
  have "evaluation_ref p = evaluation_ref p'" "hp_tenant_ref p = hp_tenant_ref p'" "hp_agent_ref p = hp_agent_ref p'"
    "hp_relationship_ref p = hp_relationship_ref p'"
    by (subst assms(2), simp)+
  then show ?thesis using assms(1,3) by (simp add: identity_split harness_scope_def lit_def)
qed

section \<open>Writing a scenario file\<close>

text \<open>A file that loads: one line of JSON for each scenario.\<close>

definition turn_value :: "historical_turn \<Rightarrow> pyval" where
  "turn_value turn = PDict [(lit ''situation'', PStr (ht_situation turn)), (lit ''agent_act'', PStr (ht_agent_act turn)),
     (lit ''outcome'', case ht_outcome turn of None \<Rightarrow> PNone | Some t \<Rightarrow> PStr t)]"

definition scenario_value :: "scenario \<Rightarrow> pyval" where
  "scenario_value s = PDict [(lit ''scenario_ref'', PStr (scenario_ref s)), (lit ''history'', PList (map turn_value (sc_history s))),
     (lit ''query'', PStr (sc_query s)), (lit ''expected_output'', PStr (sc_expected_output s)),
     (lit ''query_outcome'', case sc_query_outcome s of None \<Rightarrow> PNone | Some t \<Rightarrow> PStr t)]"

definition scenario_line :: "scenario \<Rightarrow> pystr" where
  "scenario_line s = json_dumps False (scenario_value s)"

definition trimmed :: "pystr \<Rightarrow> bool" where
  "trimmed t \<longleftrightarrow> t \<noteq> [] \<and> strip t = t"

definition trimmed_turn :: "historical_turn \<Rightarrow> bool" where
  "trimmed_turn turn \<longleftrightarrow> trimmed (ht_situation turn) \<and> trimmed (ht_agent_act turn) \<and> pred_option trimmed (ht_outcome turn)"

definition trimmed_scenario :: "scenario \<Rightarrow> bool" where
  "trimmed_scenario s \<longleftrightarrow> trimmed (scenario_ref s) \<and> list_all trimmed_turn (sc_history s) \<and> trimmed (sc_query s) \<and>
     trimmed (sc_expected_output s) \<and> pred_option trimmed (sc_query_outcome s)"

lemma required_text_trimmed: "get d k = PStr t \<Longrightarrow> trimmed t \<Longrightarrow> required_text d k = Inr t"
  by (simp add: required_text_def trimmed_def)

lemma optional_text_trimmed:
  "get d k = (case t of None \<Rightarrow> PNone | Some u \<Rightarrow> PStr u) \<Longrightarrow> pred_option trimmed t \<Longrightarrow> optional_text d k = Inr t"
  by (cases t) (auto simp: optional_text_def trimmed_def)

lemma load_turn_value: "trimmed_turn turn \<Longrightarrow> load_turn (turn_value turn) = Inr turn"
  by (simp add: load_turn_def turn_value_def trimmed_turn_def required_text_trimmed optional_text_trimmed get_def get_or_def lit_def)

lemma load_history_values: "list_all trimmed_turn turns \<Longrightarrow> map_r load_turn (map turn_value turns) = Inr turns"
  by (induction turns) (simp_all add: load_turn_value)

lemma exact_scenario: "exact_value (scenario_value s)"
  by (auto simp: scenario_value_def turn_value_def list_all_iff lit_def split: option.splits)

lemma load_scenario_line:
  assumes "trimmed_scenario s" and "scenario_ref s \<notin> seen"
  shows "load_scenario float_of decode_error repr seen (scenario_line s @ [10]) = Inr s"
proof -
  have "json_loads float_of (scenario_line s @ [10]) = Some (scenario_value s)"
    unfolding scenario_line_def by (rule json_loads_dumps [OF exact_scenario]) (simp_all add: number_end_def digit_def skip_space_def json_space_def)
  moreover have "get d (lit ''history'') = PList (map turn_value (sc_history s))" "get d (lit ''scenario_ref'') = PStr (scenario_ref s)"
    "get d (lit ''query'') = PStr (sc_query s)" "get d (lit ''expected_output'') = PStr (sc_expected_output s)"
    "get d (lit ''query_outcome'') = (case sc_query_outcome s of None \<Rightarrow> PNone | Some t \<Rightarrow> PStr t)"
    if "scenario_value s = PDict d" for d
    using that by (auto simp: scenario_value_def get_def get_or_def lit_def)
  moreover obtain d where "scenario_value s = PDict d" by (simp add: scenario_value_def)
  ultimately show ?thesis
    using assms by (simp add: load_scenario_def trimmed_scenario_def required_text_trimmed optional_text_trimmed load_history_values raise_if_def)
qed

lemma set_py_join: "x \<in> set (py_join sep xs) \<Longrightarrow> x \<in> set sep \<or> (\<exists>y \<in> set xs. x \<in> set y)"
  by (induction sep xs rule: py_join.induct) auto

lemma dumps_printable: "exact_value v \<Longrightarrow> x \<in> set (json_dumps False v) \<Longrightarrow> 32 \<le> x"
proof (induction v arbitrary: x)
  case (PInt i)
  then show ?case using digits_printable by (auto simp: json_int_def split: if_splits)
next
  case (PStr s)
  then show ?case using json_string_printable by simp
next
  case (PList vs)
  then show ?case by (auto simp: list_all_iff lit_def dest!: set_py_join)
next
  case (PDict d)
  then show ?case using json_string_printable by (fastforce simp: list_all_iff lit_def dest!: set_py_join)
qed (auto simp: lit_def split: if_splits)

text \<open>Lines of printable characters.\<close>

lemma stream_lines_line: "\<forall>c \<in> set l. 32 \<le> c \<Longrightarrow> stream_lines (l @ 10 # rest) = (l @ [10]) # stream_lines rest"
proof -
  assume l: "\<forall>c \<in> set l. 32 \<le> c"
  then have "universal_newlines (l @ 10 # rest) = l @ 10 # universal_newlines rest" by (induction l) auto
  moreover have "lines_keep (l @ 10 # rest') = (l @ [10]) # lines_keep rest'" for rest'
    using l by (induction l) auto
  ultimately show ?thesis by (simp add: stream_lines_def)
qed

definition scenario_file :: "scenario list \<Rightarrow> pystr" where
  "scenario_file scenarios = concat (map (\<lambda>s. scenario_line s @ [10]) scenarios)"

lemma stream_scenario_file: "stream_lines (scenario_file scenarios) = map (\<lambda>s. scenario_line s @ [10]) scenarios"
proof (induction scenarios)
  case (Cons s scenarios)
  have "\<forall>c \<in> set (scenario_line s). 32 \<le> c" using dumps_printable [OF exact_scenario] by (simp add: scenario_line_def)
  from stream_lines_line [OF this] Cons.IH show ?case by (simp add: scenario_file_def)
qed (simp add: scenario_file_def stream_lines_def)

lemma scenario_line_nonblank: "strip (scenario_line s @ [10]) \<noteq> []"
  by (rule nonblank_strip [of 123]) (simp_all add: scenario_line_def scenario_value_def isspace_braces)

lemma load_lines_written:
  assumes "list_all trimmed_scenario scenarios" and "distinct (map scenario_ref scenarios)" and "scenario_ref ` set scenarios \<inter> seen = {}"
  shows "load_lines float_of decode_error repr n seen (map (\<lambda>s. scenario_line s @ [10]) scenarios) = Inr scenarios"
  using assms by (induction scenarios arbitrary: n seen) (simp_all add: scenario_line_nonblank load_scenario_line)

text \<open>A file written from trimmed scenarios with distinct refs loads as these scenarios.\<close>

lemma load_scenarios_written:
  assumes "list_all trimmed_scenario scenarios" and "distinct (map scenario_ref scenarios)" and "scenarios \<noteq> []"
  shows "load_scenarios float_of decode_error repr (Inr (scenario_file scenarios)) = Inr scenarios"
  using load_lines_written [OF assms(1,2), of "{}"] assms(3) by (simp add: load_scenarios_def stream_scenario_file)

section \<open>Examples\<close>

definition second_scenario :: scenario where
  "second_scenario = example_scenario\<lparr>scenario_ref := lit ''two''\<rparr>"

lemma example_scenarios_load:
  "load_scenarios PFloat (\<lambda>_. []) id (Inr (scenario_file [example_scenario, second_scenario])) = Inr [example_scenario, second_scenario]"
proof (rule load_scenarios_written)
  have "trimmed (lit ''one'')" "trimmed (lit ''two'')" "trimmed (lit ''I froze.'')" "trimmed (lit ''We paused.'')"
    "trimmed (lit ''It helped.'')" "trimmed (lit ''Hi'')" "trimmed (lit ''Hello.'')"
    by (simp_all add: trimmed_def strip_eval)
  then show "list_all trimmed_scenario [example_scenario, second_scenario]"
    by (simp add: trimmed_scenario_def trimmed_turn_def example_scenario_def second_scenario_def)
qed (simp_all add: example_scenario_def second_scenario_def lit_def)

lemma suite_keys_distinct_witness:
  "\<exists>results w es. run_suite (\<lambda>c. [c]) (\<lambda>_. True) (\<lambda>_. []) (\<lambda>_ _. 0 :: nat) example_harness [example_scenario, second_scenario] ((), []) = (results, w, es) \<and>
     length results = 8 \<and> distinct (log_keys es)"
proof -
  obtain results w es where run: "run_suite (\<lambda>c. [c]) (\<lambda>_. True) (\<lambda>_. []) (\<lambda>_ _. 0 :: nat) example_harness [example_scenario, second_scenario] ((), []) =
      (results, w, es)" by (metis surj_pair)
  from suite_keys_distinct [OF example_scenarios_load run] have "distinct (log_keys es)"
    and "length (map (\<lambda>result. (er_scenario_ref result, er_mode result)) results) = 8" by (auto simp: eval_modes_def)
  with run show ?thesis by auto
qed

abbreviation "example_drivers \<equiv> [\<lparr>hd_harness = lit ''a'', hd_version = lit ''1'', hd_command = [lit ''run'']\<rparr>,
  \<lparr>hd_harness = lit ''b'', hd_version = lit ''1'', hd_command = [lit ''run'']\<rparr>]"

definition example_shared :: eval_profile where
  "example_shared = \<lparr>ep_profile_version = lit ''1'', ep_scenario_set = lit ''s'', ep_scenarios = lit ''f'', ep_prompt_version = lit ''1'',
     ep_instructions = lit ''Answer.'', ep_constitution_memory_ref = lit ''k'', ep_constitution_text = lit ''Be kind.'',
     ep_max_output_tokens = 9, ep_episode_rag_top_k = 1, ep_modes = map mode_value eval_modes\<rparr>"

definition example_identity :: matrix_identity where
  "example_identity = \<lparr>mi_evaluation_ref = lit ''v'', mi_model = lit ''m'', mi_tenant_ref = lit ''t'', mi_agent_ref = lit ''g'',
     mi_relationship_ref = lit ''r'', mi_user_ref = lit ''u''\<rparr>"

definition example_matrix ::
    "(unit harness \<Rightarrow> unit suite_state \<Rightarrow> nat eval_result list \<times> unit suite_state) \<Rightarrow> nat eval_result list result \<times> unit suite_state" where
  "example_matrix suite = run_matrix suite example_harness_client (\<lambda>w. (Inr (), w)) (\<lambda>_. Inr (\<lambda>_ w. (Inr (Val (lit ''Hello.'')), w)))
     example_shared example_identity example_drivers ((), [])"

lemma example_matrix_returns: "\<exists>results w es. example_matrix suite = (Inr results, w, es)"
proof -
  have "strip (lit ''v'') \<noteq> []" "strip (lit ''a'') \<noteq> []" "strip (lit ''b'') \<noteq> []" "strip (lit ''1'') \<noteq> []" "strip (lit ''m'') \<noteq> []"
    "strip (lit ''s'') \<noteq> []" "strip (lit ''t'') \<noteq> []" "strip (lit ''g'') \<noteq> []" "strip (lit ''r'') \<noteq> []" "strip (lit ''u'') \<noteq> []"
    by (simp_all add: strip_eval)
  then have "post_init (matrix_profile example_shared example_identity d) = Inr (matrix_profile example_shared example_identity d)"
    if "d \<in> set example_drivers" for d
    using that by (auto simp: post_init_def matrix_profile_def example_shared_def example_identity_def raise_if_def)
  moreover have "lit ''a'' \<noteq> lit ''b''" by (simp add: lit_def)
  ultimately show ?thesis
    by (simp add: example_matrix_def run_matrix_def split: prod.splits)
qed

lemma matrix_keys_distinct_witness:
  "\<exists>results w es. example_matrix (\<lambda>harness. run_suite (\<lambda>c. [c]) (\<lambda>_. True) (\<lambda>_. []) (\<lambda>_ _. 0) harness [example_scenario, second_scenario]) =
     (Inr results, w, es) \<and> length results = 16 \<and> distinct (log_keys es)"
proof -
  obtain results w es where run: "example_matrix (\<lambda>harness. run_suite (\<lambda>c. [c]) (\<lambda>_. True) (\<lambda>_. []) (\<lambda>_ _. 0) harness
      [example_scenario, second_scenario]) = (Inr results, w, es)" using example_matrix_returns by blast
  have "list_all (\<lambda>d. 58 \<notin> set (hd_harness d)) example_drivers" by (simp add: lit_def)
  from matrix_keys_distinct [OF example_scenarios_load this, where elapsed = "\<lambda>_ _ _. 0", OF run [unfolded example_matrix_def]]
  have "distinct (log_keys es)" and "map (\<lambda>result. (er_profile result, er_scenario_ref result, er_mode result)) results =
      List.product (map (matrix_profile example_shared example_identity) example_drivers)
        (List.product (map scenario_ref [example_scenario, second_scenario]) (map mode_value eval_modes))" by auto
  moreover from arg_cong [OF this(2), where f = length] have "length results = 16" by (simp add: eval_modes_def)
  ultimately show ?thesis using run by blast
qed

end
