(* ===== verification/Eval_Delayed_Run.thy ===== *)
theory Eval_Delayed_Run
  imports Eval_Delayed Eval_Lifecycle Py_Json
begin

text \<open>
  src/eval/python/src/memory_core_eval/delayed_seed_runner.py: one instance of the delayed evaluation from
  its history to the judged result. The history is replayed one session at a time, one probe selects the
  memory, the four arms are answered, and later the answers are judged in both orders. The memory client,
  the wait for the memory to settle, the models, the token counter and SHA-256 are parameters; \<open>sha256\<close>
  gives the bytes of the digest of a text. Files are a map from paths to what they hold.
\<close>

section \<open>Digests\<close>

definition hexdigest :: "nat list \<Rightarrow> pystr" where
  "hexdigest bytes = concat (map (\<lambda>b. [hex_digit (b div 16 mod 16), hex_digit (b mod 16)]) bytes)"

definition text_digest :: "(pystr \<Rightarrow> nat list) \<Rightarrow> pystr \<Rightarrow> pystr result" where
  "text_digest sha256 text = bindr (raise_if (list_ex py_surrogate text) UnicodeEncodeError) (\<lambda>_. Inr (hexdigest (sha256 text)))"

definition opaque_ref :: "(pystr \<Rightarrow> nat list) \<Rightarrow> pystr \<Rightarrow> pystr result" where
  "opaque_ref sha256 reference = bindr (nonblank (PStr reference) (lit ''reference'')) (text_digest sha256)"

text \<open>\<open>json.dumps\<close> with the separators \<open>,\<close> and \<open>:\<close>.\<close>

fun compact_dumps :: "pyval \<Rightarrow> pystr" where
  "compact_dumps (PList vs) = 91 # py_join [44] (map compact_dumps vs) @ [93]"
| "compact_dumps (PDict d) = 123 # py_join [44] (map (\<lambda>(k, v). json_string False k @ 58 # compact_dumps v) d) @ [125]"
| "compact_dumps v = json_dumps False v"

definition request_sha256 :: "(pystr \<Rightarrow> nat list) \<Rightarrow> completion \<Rightarrow> pystr result" where
  "request_sha256 sha256 = (\<lambda>(instructions, input_text, max_output_tokens).
     text_digest sha256 (compact_dumps (sort_keys (PDict [(lit ''instructions'', PStr instructions), (lit ''input_text'', PStr input_text),
       (lit ''max_output_tokens'', PInt max_output_tokens)]))))"

definition session_value :: "delayed_session \<Rightarrow> pyval" where
  "session_value session = PDict [(lit ''session_ref'', PStr (dn_session_ref session)), (lit ''situation'', PStr (dn_situation session)),
     (lit ''agent_act'', PStr (dn_agent_act session)), (lit ''outcome'', PStr (dn_outcome session))]"

definition delayed_instance_request_sha256 :: "(pystr \<Rightarrow> nat list) \<Rightarrow> delayed_instance \<Rightarrow> pystr result" where
  "delayed_instance_request_sha256 sha256 inst =
     text_digest sha256 (compact_dumps (sort_keys (PDict [(lit ''instance_ref'', PStr (di_instance_ref inst)),
       (lit ''pattern_ref'', PStr (di_pattern_ref inst)), (lit ''persona_text'', PStr (di_persona_text inst)),
       (lit ''history_sessions'', PList (map session_value (di_history_sessions inst))),
       (lit ''current_request'', PStr (di_current_request inst))])))"

fun require_positive :: "pyval \<Rightarrow> pystr \<Rightarrow> int result" where
  "require_positive (PInt n) label = (if n \<le> 0 then Inl (ValueError (label @ lit '' must be a positive integer'')) else Inr n)"
| "require_positive _ label = Inl (ValueError (label @ lit '' must be a positive integer''))"

section \<open>The history\<close>

record 'w delayed_env =
  de_memory :: "'w memory_client"
  de_settle :: "memory_scope \<Rightarrow> nat \<Rightarrow> ('w, pydict) io"
  de_model :: "completion \<Rightarrow> ('w, pyval) io"
  de_token_count :: token_counter
  de_sha256 :: "pystr \<Rightarrow> nat list"

type_synonym ('w, 'a) delayed_session_io = "('w, completion, pyval, 'a) session"

definition delayed_scope :: "pystr \<Rightarrow> pystr \<Rightarrow> pystr \<Rightarrow> memory_scope" where
  "delayed_scope evaluation opaque suffix_ref =
     \<lparr>tenant_ref = lit ''seed-essential-delayed-v1-eval'', agent_ref = lit ''delayed-reference-agent'',
      relationship_ref = evaluation @ lit '':instance:'' @ opaque, session_ref = evaluation @ lit '':'' @ opaque @ lit '':'' @ suffix_ref,
      scope_kind = MEMORY_SCOPE_KIND_RELATIONSHIP\<rparr>"

definition history_run_ref :: "pystr \<Rightarrow> pystr \<Rightarrow> nat \<Rightarrow> pystr" where
  "history_run_ref evaluation opaque index = evaluation @ lit '':'' @ opaque @ lit '':history:'' @ digits index @ lit '':run''"

definition session_observation ::
  "memory_scope \<Rightarrow> pystr \<Rightarrow> pystr \<times> pystr \<times> int \<times> pystr \<times> int \<Rightarrow> observe_request result" where
  "session_observation scope run_name = (\<lambda>(source_ref, text, actor_kind, actor, role).
     bindr (nonblank (PStr text) (lit ''source text'')) (\<lambda>text.
     Inr \<lparr>ob_idempotency_key = source_ref @ lit '':observe'',
      ob_source_event = \<lparr>sv_scope = scope, sv_text = text, sv_source_ref = source_ref, sv_actor_kind = actor_kind,
        sv_actor_ref = actor, sv_constitution = None\<rparr>,
      ob_episode_binding = Some \<lparr>eb_run_ref = run_name, eb_source_group_ref = run_name, eb_role = role\<rparr>\<rparr>))"

definition session_outcome :: "memory_scope \<Rightarrow> pystr \<Rightarrow> pystr \<Rightarrow> pystr \<Rightarrow> outcome_request result" where
  "session_outcome scope run_name opaque text =
     bindr (nonblank (PStr text) (lit ''outcome'')) (\<lambda>text.
     Inr \<lparr>or_idempotency_key = run_name @ lit '':outcome:report'', or_scope = scope, or_run_ref = run_name, or_source_group_ref = run_name, or_text = text,
      or_delivery_refs = [], or_related_refs = [run_name @ lit '':situation'', run_name @ lit '':agent-act''], or_source_ref = run_name @ lit '':outcome'',
      or_actor_kind = SOURCE_ACTOR_KIND_USER, or_actor_ref = lit ''delayed-user:'' @ opaque, or_constitution = None\<rparr>)"

definition observe_session ::
  "'w memory_client \<Rightarrow> delayed_session \<Rightarrow> nat \<Rightarrow> pystr \<Rightarrow> pystr \<Rightarrow> memory_scope \<Rightarrow> ('w, unit) delayed_session_io" where
  "observe_session memory session index evaluation opaque scope =
     (let run_name = history_run_ref evaluation opaque index in
      bind_call (for_each (\<lambda>source. bind_call (pure_call (session_observation scope run_name source)) (\<lambda>request.
          bind_call (observing memory request) (\<lambda>_. pure_call (Inr ()))))
        [(run_name @ lit '':situation'', dn_situation session, SOURCE_ACTOR_KIND_USER, lit ''delayed-user:'' @ opaque, EPISODE_SOURCE_ROLE_SITUATION),
         (run_name @ lit '':agent-act'', dn_agent_act session, SOURCE_ACTOR_KIND_AGENT, lit ''delayed-reference-agent'', EPISODE_SOURCE_ROLE_AGENT_ACT)]) (\<lambda>_.
      bind_call (pure_call (session_outcome scope run_name opaque (dn_outcome session))) (\<lambda>request.
      bind_call (reporting memory request) (\<lambda>_. pure_call (Inr ())))))"

text \<open>The loop over the sessions: the state after each.\<close>

fun replay_sessions ::
  "'w delayed_env \<Rightarrow> pystr \<Rightarrow> pystr \<Rightarrow> nat \<Rightarrow> delayed_session list \<Rightarrow> ('w, pydict list) delayed_session_io" where
  "replay_sessions env evaluation opaque index [] = pure_call (Inr [])"
| "replay_sessions env evaluation opaque index (session # sessions) =
     bind_call (pure_call (opaque_ref (de_sha256 env) (dn_session_ref session))) (\<lambda>ref.
     let scope = delayed_scope evaluation opaque (lit ''history:'' @ digits index @ lit '':'' @ take 16 ref) in
     bind_call (observe_session (de_memory env) session index evaluation opaque scope) (\<lambda>_.
     bind_call (logged (\<lambda>_. Settle) (de_settle env scope (index + 1))) (\<lambda>state.
     bind_call (replay_sessions env evaluation opaque (index + 1) sessions) (\<lambda>states.
     pure_call (Inr (state # states))))))"

record prepared_instance =
  pd_memory_context :: memory_context
  pd_states :: "pydict list"
  pd_expected_episodes :: nat

definition probe_observation :: "pystr \<Rightarrow> pystr \<Rightarrow> pystr \<Rightarrow> observe_request result" where
  "probe_observation evaluation opaque text =
     (let source_ref = evaluation @ lit '':'' @ opaque @ lit '':probe:situation'' in
      bindr (nonblank (PStr text) (lit ''current_request'')) (\<lambda>text.
      Inr \<lparr>ob_idempotency_key = source_ref @ lit '':observe'',
       ob_source_event = \<lparr>sv_scope = delayed_scope evaluation opaque (lit ''probe''), sv_text = text, sv_source_ref = source_ref,
         sv_actor_kind = SOURCE_ACTOR_KIND_USER, sv_actor_ref = lit ''delayed-user:'' @ opaque, sv_constitution = None\<rparr>,
       ob_episode_binding = None\<rparr>))"

definition probe_select :: "pystr \<Rightarrow> pystr \<Rightarrow> source_event_receipt \<Rightarrow> select_request" where
  "probe_select evaluation opaque receipt =
     \<lparr>sq_scope = delayed_scope evaluation opaque (lit ''probe''), sq_run_ref = evaluation @ lit '':'' @ opaque @ lit '':probe:select'',
      sq_situation_refs = [sr_source_event_ref receipt], sq_constitution = None, sq_evidence_max_bytes = 0\<rparr>"

definition prepare_delayed_instance :: "'w delayed_env \<Rightarrow> delayed_instance \<Rightarrow> pyval \<Rightarrow> ('w, prepared_instance) delayed_session_io" where
  "prepare_delayed_instance env inst evaluation_arg =
     bind_call (pure_call (nonblank evaluation_arg (lit ''evaluation_ref''))) (\<lambda>evaluation.
     bind_call (pure_call (opaque_ref (de_sha256 env) (di_instance_ref inst))) (\<lambda>opaque.
     bind_call (replay_sessions env evaluation opaque 0 (di_history_sessions inst)) (\<lambda>states.
     bind_call (pure_call (probe_observation evaluation opaque (di_current_request inst))) (\<lambda>request.
     bind_call (observing (de_memory env) request) (\<lambda>receipt.
     bind_call (selecting (de_memory env) (probe_select evaluation opaque receipt)) (\<lambda>selected.
     pure_call (Inr \<lparr>pd_memory_context = selected, pd_states = states, pd_expected_episodes = length states\<rparr>)))))))"

section \<open>The answers\<close>

definition answer_record :: "delayed_context \<Rightarrow> pyval \<Rightarrow> pystr \<Rightarrow> pydict result" where
  "answer_record context_of_arm output digest =
     bindr (nonblank output (lit ''answer output'')) (\<lambda>answer.
     Inr [(lit ''mode'', PStr (arm_value (dx_mode context_of_arm))), (lit ''output'', PStr answer), (lit ''error'', PStr []),
       (lit ''memory_refs'', refs_value (dx_memory_refs context_of_arm)),
       (lit ''selected_recollection_refs'', refs_value (dx_selected_recollection_refs context_of_arm)),
       (lit ''selected_disposition_refs'', refs_value (dx_selected_disposition_refs context_of_arm)),
       (lit ''rendered_recollection_refs'', refs_value (dx_recollection_refs context_of_arm)),
       (lit ''rendered_disposition_refs'', refs_value (dx_disposition_refs context_of_arm)),
       (lit ''memory_tokens'', PInt (dx_memory_tokens context_of_arm)), (lit ''memory_budget'', PInt (dx_memory_budget context_of_arm)),
       (lit ''answer_request_sha256'', PStr digest)])"

definition arm_in :: "delayed_context list \<Rightarrow> delayed_mode \<Rightarrow> delayed_context" where
  "arm_in contexts mode = the (find (\<lambda>x. dx_mode x = mode) contexts)"

definition answer_arm ::
  "'w delayed_env \<Rightarrow> delayed_instance \<Rightarrow> delayed_context list \<Rightarrow> int \<Rightarrow> delayed_mode \<Rightarrow> ('w, pydict) delayed_session_io" where
  "answer_arm env inst contexts max_output_tokens mode =
     bind_call (pure_call (build_answer_prompt (PStr (di_persona_text inst)) (PStr (di_current_request inst)) (dx_text (arm_in contexts mode)))) (\<lambda>(instructions, input_text).
     bind_call (running (de_model env) (instructions, input_text, max_output_tokens)) (\<lambda>output.
     bind_call (pure_call (request_sha256 (de_sha256 env) (instructions, input_text, max_output_tokens))) (\<lambda>digest.
     pure_call (answer_record (arm_in contexts mode) output digest))))"

fun answer_arms ::
  "'w delayed_env \<Rightarrow> delayed_instance \<Rightarrow> delayed_context list \<Rightarrow> int \<Rightarrow> delayed_mode list \<Rightarrow> ('w, (delayed_mode \<times> pydict) list) delayed_session_io" where
  "answer_arms env inst contexts max_output_tokens [] = pure_call (Inr [])"
| "answer_arms env inst contexts max_output_tokens (mode # modes) =
     bind_call (answer_arm env inst contexts max_output_tokens mode) (\<lambda>answer.
     bind_call (answer_arms env inst contexts max_output_tokens modes) (\<lambda>answers. pure_call (Inr ((mode, answer) # answers))))"

text \<open>\<open>_active_disposition_count\<close> and \<open>_active_recollection_count\<close>.\<close>

definition is_active :: "pyval \<Rightarrow> bool" where
  "is_active record = (case as_mapping record of None \<Rightarrow> False | Some entry \<Rightarrow> get entry (lit ''status'') = PStr (lit ''active''))"

definition active_count :: "string \<Rightarrow> pydict \<Rightarrow> int" where
  "active_count name state = (case as_sequence (get_or state (lit name) (PList [])) of
       None \<Rightarrow> 0 | Some records \<Rightarrow> int (length (filter is_active records)))"

definition delayed_diagnostic :: "prepared_instance \<Rightarrow> delayed_context \<Rightarrow> pydict" where
  "delayed_diagnostic prepared learned =
     (let final_state = (if pd_states prepared = [] then [] else last (pd_states prepared)) in
      [(lit ''expected_episodes'', PInt (int (pd_expected_episodes prepared))),
       (lit ''settled_active_dispositions'', PList (map (\<lambda>state. PInt (active_count ''dispositions'' state)) (pd_states prepared))),
       (lit ''active_dispositions'', PInt (active_count ''dispositions'' final_state)),
       (lit ''active_recollections'', PInt (active_count ''recollections'' final_state)),
       (lit ''selected_disposition_refs'', refs_value (dx_selected_disposition_refs learned)),
       (lit ''rendered_disposition_refs'', refs_value (dx_disposition_refs learned))])"

definition delayed_result :: "delayed_instance \<Rightarrow> pystr \<Rightarrow> (delayed_mode \<times> pydict) list \<Rightarrow> pydict \<Rightarrow> pydict" where
  "delayed_result inst digest answers diagnostic =
     [(lit ''protocol'', PStr PROTOCOL), (lit ''instance_ref'', PStr (di_instance_ref inst)), (lit ''pattern_ref'', PStr (di_pattern_ref inst)),
      (lit ''request_sha256'', PStr digest), (lit ''persona_text'', PStr (di_persona_text inst)),
      (lit ''current_request'', PStr (di_current_request inst)),
      (lit ''answers'', PList (map (\<lambda>mode. PDict (the (map_of answers mode))) delayed_modes)), (lit ''diagnostic'', PDict diagnostic)]"

definition generate_delayed_answers ::
  "'w delayed_env \<Rightarrow> delayed_instance \<Rightarrow> delayed_counterfactual \<Rightarrow> pyval \<Rightarrow> pyval \<Rightarrow> pyval \<Rightarrow> ('w, pydict) delayed_session_io" where
  "generate_delayed_answers env inst counterfactual evaluation_arg memory_tokens max_output_tokens =
     bind_call (pure_call (raise_if (dc_instance_ref counterfactual \<noteq> di_instance_ref inst)
       (ValueError (lit ''delayed Seed counterfactual identity drift'')))) (\<lambda>_.
     bind_call (pure_call (require_positive max_output_tokens (lit ''max_output_tokens''))) (\<lambda>max_tokens.
     bind_call (prepare_delayed_instance env inst evaluation_arg) (\<lambda>prepared.
     bind_call (pure_call (build_delayed_contexts (pd_memory_context prepared) counterfactual memory_tokens (de_token_count env))) (\<lambda>contexts.
     bind_call (pure_call (answer_arm_order (de_sha256 env) (PStr (di_instance_ref inst)))) (\<lambda>modes.
     bind_call (answer_arms env inst contexts max_tokens modes) (\<lambda>answers.
     bind_call (pure_call (delayed_instance_request_sha256 (de_sha256 env) inst)) (\<lambda>digest.
     pure_call (Inr (delayed_result inst digest answers (delayed_diagnostic prepared (arm_in contexts LEARNED_SEED)))))))))))"

section \<open>The judgement\<close>

definition answer_by_mode :: "pyval \<Rightarrow> (delayed_mode \<times> pydict) list \<Rightarrow> (delayed_mode \<times> pydict) list result" where
  "answer_by_mode v answers =
     bindr (mapping_or v ''delayed Seed answer must be an object'') (\<lambda>raw.
     case arm_of (get raw (lit ''mode'')) of None \<Rightarrow> Inl (ValueError (lit ''delayed Seed answer mode is invalid''))
     | Some mode \<Rightarrow>
         bindr (raise_if (mode \<in> fst ` set answers) (ValueError (lit ''delayed Seed answer mode is duplicated''))) (\<lambda>_.
         bindr (nonblank (get raw (lit ''output'')) (lit ''answer output'')) (\<lambda>_.
         Inr (answers @ [(mode, raw)]))))"

definition answers_by_mode :: "pyval \<Rightarrow> (delayed_mode \<times> pydict) list result" where
  "answers_by_mode v = (case as_sequence v of
       None \<Rightarrow> Inl (ValueError (lit ''delayed Seed result requires four answer arms''))
     | Some items \<Rightarrow> bindr (foldr_r answer_by_mode items []) (\<lambda>answers.
         if fst ` set answers \<noteq> set delayed_modes then Inl (ValueError (lit ''delayed Seed result requires exactly four modes'')) else Inr answers))"

type_synonym judge_task = "pystr \<times> pystr \<times> delayed_mode \<times> delayed_mode"

definition pair_jobs :: "delayed_mode \<times> delayed_mode \<Rightarrow> judge_task list" where
  "pair_jobs = (\<lambda>(left, right).
     [(comparison_name (left, right), lit ''forward'', left, right), (comparison_name (left, right), lit ''reverse'', right, left)])"

definition judge_jobs :: "(pystr \<Rightarrow> nat list) \<Rightarrow> pystr \<Rightarrow> judge_task list result" where
  "judge_jobs sha256 instance_ref =
     bindr (raise_if (list_ex py_surrogate instance_ref) UnicodeEncodeError) (\<lambda>_.
     Inr (sort_key (\<lambda>(comparison, direction, _, _).
         sha256 (lit ''delayed-seed-judge-v1:'' @ instance_ref @ lit '':'' @ comparison @ lit '':'' @ direction))
       (concat (map pair_jobs PAIRWISE_COMPARISONS))))"

definition answer_output :: "(delayed_mode \<times> pydict) list \<Rightarrow> delayed_mode \<Rightarrow> pystr \<Rightarrow> pystr result" where
  "answer_output answers mode name = nonblank (get (the (map_of answers mode)) (lit ''output'')) name"

definition judge_prompt ::
  "pystr \<Rightarrow> pystr \<Rightarrow> delayed_label \<Rightarrow> (delayed_mode \<times> pydict) list \<Rightarrow> delayed_mode \<Rightarrow> delayed_mode \<Rightarrow> (pystr \<times> pystr) result" where
  "judge_prompt persona request label answers a_mode b_mode =
     bindr (answer_output answers a_mode (lit ''response_a'')) (\<lambda>response_a.
     bindr (answer_output answers b_mode (lit ''response_b'')) (\<lambda>response_b.
     build_pairwise_prompt (PStr persona) (PStr request) (PStr (dl_target_behavior label)) (PStr response_a) (PStr response_b)))"

definition judge_job ::
  "(pystr \<Rightarrow> nat list) \<Rightarrow> (completion \<Rightarrow> ('w, pyval) io) \<Rightarrow> pystr \<Rightarrow> pystr \<Rightarrow> delayed_label \<Rightarrow> (delayed_mode \<times> pydict) list \<Rightarrow> int \<Rightarrow>
    judge_task \<Rightarrow> ('w, pydict) delayed_session_io" where
  "judge_job sha256 judge_model persona request label answers max_tokens = (\<lambda>(comparison, direction, a_mode, b_mode).
     bind_call (pure_call (judge_prompt persona request label answers a_mode b_mode)) (\<lambda>(instructions, input_text).
     bind_call (running judge_model (instructions, input_text, max_tokens)) (\<lambda>output.
     bind_call (pure_call (parse_pairwise_token output)) (\<lambda>token.
     bind_call (pure_call (request_sha256 sha256 (instructions, input_text, max_tokens))) (\<lambda>digest.
     pure_call (Inr [(lit ''comparison'', PStr comparison), (lit ''direction'', PStr direction), (lit ''a_mode'', PStr (arm_value a_mode)),
       (lit ''b_mode'', PStr (arm_value b_mode)), (lit ''judge_output'', PStr token), (lit ''judge_request_sha256'', PStr digest)]))))))"

fun judge_all_jobs :: "(judge_task \<Rightarrow> ('w, pydict) delayed_session_io) \<Rightarrow> judge_task list \<Rightarrow> ('w, pydict list) delayed_session_io" where
  "judge_all_jobs judge [] = pure_call (Inr [])"
| "judge_all_jobs judge (job # jobs) =
     bind_call (judge job) (\<lambda>record. bind_call (judge_all_jobs judge jobs) (\<lambda>records. pure_call (Inr (record # records))))"

definition judge_delayed_answers ::
  "(pystr \<Rightarrow> nat list) \<Rightarrow> (completion \<Rightarrow> ('w, pyval) io) \<Rightarrow> pydict \<Rightarrow> delayed_label \<Rightarrow> pyval \<Rightarrow> ('w, pydict) delayed_session_io" where
  "judge_delayed_answers sha256 judge_model result label max_judge_tokens =
     bind_call (pure_call (require_positive max_judge_tokens (lit ''max_judge_tokens''))) (\<lambda>max_tokens.
     let judged = the (as_mapping (sort_keys (PDict result))) in
     bind_call (pure_call (raise_if (get judged (lit ''protocol'') \<noteq> PStr PROTOCOL \<or> get judged (lit ''instance_ref'') \<noteq> PStr (dl_instance_ref label) \<or>
         get judged (lit ''pattern_ref'') \<noteq> PStr (dl_pattern_ref label))
       (ValueError (lit ''delayed Seed result and scorer label identity drift'')))) (\<lambda>_.
     bind_call (pure_call (raise_if (lit ''pairwise'' \<in> fst ` set judged) (ValueError (lit ''delayed Seed result was already judged'')))) (\<lambda>_.
     bind_call (pure_call (answers_by_mode (get judged (lit ''answers'')))) (\<lambda>answers.
     bind_call (pure_call (nonblank (get judged (lit ''persona_text'')) (lit ''persona_text''))) (\<lambda>persona.
     bind_call (pure_call (nonblank (get judged (lit ''current_request'')) (lit ''current_request''))) (\<lambda>request.
     bind_call (pure_call (judge_jobs sha256 (dl_instance_ref label))) (\<lambda>jobs.
     bind_call (judge_all_jobs (judge_job sha256 judge_model persona request label answers max_tokens) jobs) (\<lambda>records.
     pure_call (Inr (AList.update (lit ''pairwise'') (PList (map PDict records)) judged))))))))))"

section \<open>Frozen results\<close>

text \<open>Equality of JSON data, where the order of a dict is irrelevant, and \<open>True\<close> equals 1. Whether a float equals a
  number is a parameter.\<close>

fun as_number :: "pyval \<Rightarrow> int option" where
  "as_number (PInt i) = Some i"
| "as_number (PBool b) = Some (if b then 1 else 0)"
| "as_number _ = None"

fun py_equal :: "(pyval \<Rightarrow> pyval \<Rightarrow> bool) \<Rightarrow> pyval \<Rightarrow> pyval \<Rightarrow> bool" where
  "py_equal float_equal (PList vs) w = (case w of PList ws \<Rightarrow> list_all2 (\<lambda>v w. py_equal float_equal v w) vs ws | _ \<Rightarrow> False)"
| "py_equal float_equal (PDict d) w = (case w of
     PDict e \<Rightarrow> length d = length e \<and>
       list_all (\<lambda>(k, v). case map_of e k of None \<Rightarrow> False | Some w \<Rightarrow> py_equal float_equal v w) d
   | _ \<Rightarrow> False)"
| "py_equal float_equal PNone w \<longleftrightarrow> w = PNone"
| "py_equal float_equal (PStr s) w \<longleftrightarrow> w = PStr s"
| "py_equal float_equal (PFloat r) w \<longleftrightarrow> float_equal (PFloat r) w"
| "py_equal float_equal v w = (case w of PFloat _ \<Rightarrow> float_equal v w | _ \<Rightarrow> as_number w = as_number v)"

text \<open>Writing opens the file before the text is encoded, so a text that cannot be encoded leaves an empty \<open>.part\<close> file.\<close>

definition write_frozen :: "pystr \<Rightarrow> pydict \<Rightarrow> files \<Rightarrow> unit result \<times> files" where
  "write_frozen path entry files =
     (if encodable (PDict entry) then (Inr (), files(path @ lit ''.part'' := None, path \<mapsto> Val (sort_keys (PDict entry))))
      else (Inl UnicodeEncodeError, files(path @ lit ''.part'' \<mapsto> OtherType)))"

definition freeze_result :: "(pyval \<Rightarrow> pyval \<Rightarrow> bool) \<Rightarrow> pystr \<Rightarrow> pydict \<Rightarrow> files \<Rightarrow> unit result \<times> files" where
  "freeze_result float_equal path entry files = (case files path of
       Some OtherType \<Rightarrow> (Inl (OtherError (lit ''JSONDecodeError'') path), files)
     | Some (Val current) \<Rightarrow>
         (if py_equal float_equal current (sort_keys (PDict entry)) then Inr () else Inl (ValueError (lit ''delayed Seed result drift on resume'')), files)
     | None \<Rightarrow> write_frozen path entry files)"

definition load_frozen_result :: "pystr \<Rightarrow> pystr \<Rightarrow> files \<Rightarrow> pydict option result" where
  "load_frozen_result path instance_ref files = (case files path of
       None \<Rightarrow> Inr None
     | Some OtherType \<Rightarrow> Inl (OtherError (lit ''JSONDecodeError'') path)
     | Some (Val v) \<Rightarrow> (case as_mapping v of
         None \<Rightarrow> Inl (ValueError (lit ''delayed Seed result identity drift on resume''))
       | Some entry \<Rightarrow>
           if get entry (lit ''protocol'') \<noteq> PStr PROTOCOL \<or> get entry (lit ''instance_ref'') \<noteq> PStr instance_ref
           then Inl (ValueError (lit ''delayed Seed result identity drift on resume'')) else Inr (Some entry)))"

end
