(* ===== verification/Delayed_Laws.thy ===== *)
theory Delayed_Laws
  imports Eval_Delayed
begin

text \<open>
  Properties of the delayed evaluation: the four arms differ in their Dispositions only and share one
  budget, no scoring text reaches an answer prompt, a judge's position cannot win a comparison, and the
  counts of a summary are those of its rows.
\<close>

section \<open>The four arms\<close>

lemma append_item_refs:
  assumes "foldr_r (append_item sec scoped) items acc = Inr acc'"
  shows "map ri_memory_ref (fst acc') = map ri_memory_ref (fst acc) @ map mi_memory_ref (with_text items)"
proof -
  have "map ri_memory_ref (fst t) = map ri_memory_ref (fst s) @ (if strip (mi_text x) = [] then [] else [mi_memory_ref x])"
    if "append_item sec scoped x s = Inr t" for x s t
    using that by (auto simp: append_item_def bindr_Inr_iff Let_def split: if_splits option.splits)
  from foldr_r_accumulate [OF assms, of "\<lambda>acc. map ri_memory_ref (fst acc)", OF this]
  have "map ri_memory_ref (fst acc') = map ri_memory_ref (fst acc) @ concat (map (\<lambda>x. if strip (mi_text x) = [] then [] else [mi_memory_ref x]) items)" .
  also have "concat (map (\<lambda>x. if strip (mi_text x) = [] then [] else [mi_memory_ref x]) items) = map mi_memory_ref (with_text items)"
    by (induction items) (simp_all add: with_text_def)
  finally show ?thesis .
qed

lemma filtered_refs:
  assumes "validated_items (arm_filtered selected cf mode) = Inr items"
  shows "map ri_memory_ref items = map mi_memory_ref (with_text (mc_recollections selected)) @
    map mi_memory_ref (with_text (arm_dispositions selected cf mode))"
proof -
  have "strip [] = []" by (simp add: strip_def strip_on_def rstrip_on_def)
  then have "append_item (lit ''CONSTITUTION'') False (constitution_item empty_constitution) ([], {}) = Inr ([], {})"
    by (simp add: append_item_def constitution_item_def empty_constitution_def Let_def)
  with assms obtain b c where
    b: "foldr_r (append_item (lit ''RECOLLECTIONS'') True) (with_text (mc_recollections selected)) ([], {}) = Inr b"
    and c: "foldr_r (append_item (lit ''DISPOSITIONS'') True) (arm_dispositions selected cf mode) b = Inr c" and "items = fst c"
    by (auto simp: validated_items_def arm_filtered_def empty_context_def bindr_Inr_iff)
  then show ?thesis using append_item_refs [OF b] append_item_refs [OF c] by (simp add: with_text_def)
qed

lemma subseq_filter: "subseq xs ys \<Longrightarrow> distinct ys \<Longrightarrow> xs = filter (\<lambda>y. y \<in> set xs) ys"
proof (induction rule: list_emb.induct)
  case (list_emb_Cons xs ys y)
  moreover have "y \<notin> set xs" using list_emb_Cons by (auto dest: list_emb_set)
  ultimately show ?case by simp
next
  case (list_emb_Cons2 x y xs ys)
  then have "xs = filter (\<lambda>z. z \<in> set xs) ys" and "x \<notin> set ys" by auto
  then have "filter (\<lambda>z. z = x \<or> z \<in> set xs) ys = xs" by (metis (mono_tags, lifting) filter_cong)
  with list_emb_Cons2.hyps(1) show ?case by simp
qed simp

text \<open>What an arm shows.\<close>

definition arm_shows :: "memory_context \<Rightarrow> delayed_counterfactual \<Rightarrow> int \<Rightarrow> delayed_context \<Rightarrow> bool" where
  "arm_shows selected cf m x \<longleftrightarrow>
     dx_memory_refs x = dx_recollection_refs x @ dx_disposition_refs x \<and> dx_memory_tokens x \<le> m \<and> dx_memory_budget x = m \<and>
     subseq (dx_recollection_refs x) (map mi_memory_ref (with_text (mc_recollections selected))) \<and>
     subseq (dx_disposition_refs x) (map mi_memory_ref (arm_dispositions selected cf (dx_mode x)))"

lemma arm_context_shows:
  assumes "arm_context selected cf m token_count mode = Inr x"
    and "strip (dc_oracle_disposition cf) \<noteq> []" and "strip (dc_anti_disposition cf) \<noteq> []"
  shows "dx_mode x = mode \<and> arm_shows selected cf m x"
proof -
  let ?recs = "map mi_memory_ref (with_text (mc_recollections selected))" and ?disps = "map mi_memory_ref (arm_dispositions selected cf mode)"
  from assms(1) obtain rendered where r: "render_memory_context (arm_filtered selected cf mode) (Some (Val m)) (Some (Val token_count)) = Inr rendered"
    and x: "dx_mode x = mode" "dx_memory_refs x = rendered_refs rendered" "dx_memory_tokens x \<le> m" "dx_memory_budget x = m"
      "dx_recollection_refs x = filter (\<lambda>ref. ref \<in> set (rendered_refs rendered)) ?recs"
      "dx_disposition_refs x = filter (\<lambda>ref. ref \<in> set (rendered_refs rendered)) ?disps"
    by (auto simp: arm_context_def bindr_Inr_iff Let_def arm_filtered_def)
  from r obtain items ks where items: "validated_items (arm_filtered selected cf mode) = Inr items"
    and refs: "rendered_refs rendered = map ri_memory_ref (picked ks items)" by (rule render_Inr)
  have "with_text (arm_dispositions selected cf mode) = arm_dispositions selected cf mode"
    using assms(2,3) by (cases mode) (simp_all add: with_text_def arm_dispositions_def)
  with filtered_refs [OF items] have all: "map ri_memory_ref items = ?recs @ ?disps" by simp
  have "distinct (map ri_memory_ref items)" using validated_items_Inr [OF items] by blast
  moreover have "subseq (rendered_refs rendered) (map ri_memory_ref items)" unfolding refs by (rule subseq_map [OF subseq_picked])
  ultimately have "rendered_refs rendered = filter (\<lambda>ref. ref \<in> set (rendered_refs rendered)) (?recs @ ?disps)"
    using subseq_filter all by metis
  then show ?thesis using x by (simp add: arm_shows_def)
qed

text \<open>The recollections of an arm are those of a rendering of the selected recollections alone: the Dispositions come
  after them, so they cannot crowd one out.\<close>

lemma append_with_text: "foldr_r (append_item sec scoped) (with_text items) acc = foldr_r (append_item sec scoped) items acc"
proof (induction items arbitrary: acc)
  case (Cons item items)
  then have "foldr_r (append_item sec scoped) (with_text items) = foldr_r (append_item sec scoped) items" by (intro ext)
  then show ?case by (cases "strip (mi_text item) = []") (simp_all add: with_text_def, simp add: append_item_def)
qed (simp add: with_text_def)

lemma append_more: "foldr_r (append_item sec scoped) items acc = Inr acc' \<Longrightarrow> \<exists>more. fst acc' = fst acc @ more"
proof (induction items arbitrary: acc)
  case (Cons item items)
  then obtain mid where "append_item sec scoped item acc = Inr mid" "foldr_r (append_item sec scoped) items mid = Inr acc'"
    by (auto simp: bindr_Inr_iff)
  with Cons.IH [of mid] show ?case by (fastforce simp: append_item_def bindr_Inr_iff Let_def split: if_splits option.splits)
qed simp

lemma no_constitution: "append_item sec scoped (constitution_item empty_constitution) acc = Inr acc"
proof -
  have "strip [] = []" by (simp add: strip_def strip_on_def rstrip_on_def)
  then show ?thesis by (simp add: append_item_def constitution_item_def empty_constitution_def)
qed

lemma render_more:
  assumes "foldr_r (render_step max_tokens token_count) items acc = Inr acc'"
  shows "\<exists>refs. snd acc' = snd acc @ refs \<and> set refs \<subseteq> set (map ri_memory_ref items)"
  using assms
proof (induction items arbitrary: acc)
  case (Cons item items)
  then obtain mid where "render_step max_tokens token_count item acc = Inr mid" "foldr_r (render_step max_tokens token_count) items mid = Inr acc'"
    by (auto simp: bindr_Inr_iff)
  with Cons.IH [of mid] show ?case by (fastforce simp: render_step_Inr split: if_splits)
qed simp

definition recollections_alone :: "memory_context \<Rightarrow> memory_context" where
  "recollections_alone selected = empty_context\<lparr>mc_recollections := mc_recollections selected\<rparr>"

lemma arm_recollections:
  assumes "arm_context selected cf m token_count mode = Inr x"
  shows "\<exists>alone. render_memory_context (recollections_alone selected) (Some (Val m)) (Some (Val token_count)) = Inr alone \<and>
    dx_recollection_refs x = rendered_refs alone"
proof -
  let ?recs = "map mi_memory_ref (with_text (mc_recollections selected))"
  from assms obtain rendered where r: "render_memory_context (arm_filtered selected cf mode) (Some (Val m)) (Some (Val token_count)) = Inr rendered"
    and x: "dx_recollection_refs x = filter (\<lambda>ref. ref \<in> set (rendered_refs rendered)) ?recs"
    by (auto simp: arm_context_def bindr_Inr_iff Let_def)
  from r obtain items acc where valid: "validate_budget_options (Some (Val m)) (Some (Val token_count)) = Inr ()"
    and items: "validated_items (arm_filtered selected cf mode) = Inr items"
    and loop: "foldr_r (render_step (Some (Val m)) (Some (Val token_count))) items ([], []) = Inr acc" and refs: "rendered_refs rendered = snd acc"
    by (auto simp: render_memory_context_def bindr_Inr_iff)
  from items obtain b c where
    b: "foldr_r (append_item (lit ''RECOLLECTIONS'') True) (mc_recollections selected) ([], {}) = Inr b"
    and c: "foldr_r (append_item (lit ''DISPOSITIONS'') True) (arm_dispositions selected cf mode) b = Inr c" and fst_c: "items = fst c"
    by (auto simp: validated_items_def arm_filtered_def empty_context_def bindr_Inr_iff append_with_text no_constitution)
  have alone: "validated_items (recollections_alone selected) = Inr (fst b)"
    by (simp add: validated_items_def recollections_alone_def empty_context_def b no_constitution)
  have recs: "map ri_memory_ref (fst b) = ?recs" using append_item_refs [OF b] by simp
  from append_more [OF c] fst_c obtain more where split: "items = fst b @ more" by blast
  from loop obtain mid where mid: "foldr_r (render_step (Some (Val m)) (Some (Val token_count))) (fst b) ([], []) = Inr mid"
    and rest: "foldr_r (render_step (Some (Val m)) (Some (Val token_count))) more mid = Inr acc"
    by (auto simp: split foldr_r_append bindr_Inr_iff)
  have "distinct (map ri_memory_ref items)" using validated_items_Inr [OF items] by blast
  then have apart: "set ?recs \<inter> set (map ri_memory_ref more) = {}" and "distinct ?recs" unfolding split recs [symmetric] by auto
  have "subseq (snd mid) ?recs"
    using render_loop [OF mid] subseq_map [OF subseq_picked] recs by metis
  then have "filter (\<lambda>ref. ref \<in> set (snd mid)) ?recs = snd mid"
    using \<open>distinct ?recs\<close> by (rule subseq_filter [symmetric])
  moreover have "filter (\<lambda>ref. ref \<in> set (snd acc)) ?recs = filter (\<lambda>ref. ref \<in> set (snd mid)) ?recs"
  proof -
    from render_more [OF rest] obtain later where "snd acc = snd mid @ later" "set later \<subseteq> set (map ri_memory_ref more)" by blast
    with apart have "ref \<in> set (snd acc) \<longleftrightarrow> ref \<in> set (snd mid)" if "ref \<in> set ?recs" for ref using that by (auto simp only: set_append Un_iff)
    then show ?thesis by (rule filter_cong [OF refl])
  qed
  ultimately have "dx_recollection_refs x = snd mid" using x refs by simp
  then show ?thesis using valid alone mid by (simp add: render_memory_context_def)
qed


section \<open>The judgement of a pair\<close>

lemma arm_value_inject [simp]: "arm_value a = arm_value b \<longleftrightarrow> a = b"
  by (cases a; cases b) simp_all

lemma arm_value_other [simp]: "arm_value a \<noteq> lit ''tie''" "arm_value a \<noteq> lit ''inconsistent''" "lit ''tie'' \<noteq> arm_value a" "lit ''inconsistent'' \<noteq> arm_value a"
  by (cases a; simp)+

lemma pairwise_tokens: "parse_pairwise_token v = Inr t \<Longrightarrow> t \<in> {lit ''A'', lit ''B'', lit ''TIE''}"
  by (auto simp: parse_pairwise_token_def Let_def split: pyval.splits if_splits)

text \<open>
  C29: no win by position. For two tokens the judge can give, the consensus names an arm exactly when it was
  preferred in both orders; it is a tie exactly when both are ties, and a judge that prefers the first (or
  the second) place in both orders gives an inconsistent result. Exchanging the two arms with the two
  judgements changes nothing.
\<close>

theorem pair_consensus_unbiased:
  assumes "parse_pairwise_token forward = Inr f" and "parse_pairwise_token backward = Inr b" and "left \<noteq> right"
  shows "pair_consensus forward backward left right = pair_consensus backward forward right left \<and>
    (pair_consensus forward backward left right = Inr (arm_value left) \<longleftrightarrow> f = lit ''A'' \<and> b = lit ''B'') \<and>
    (pair_consensus forward backward left right = Inr (arm_value right) \<longleftrightarrow> f = lit ''B'' \<and> b = lit ''A'') \<and>
    (pair_consensus forward backward left right = Inr (lit ''tie'') \<longleftrightarrow> f = lit ''TIE'' \<and> b = lit ''TIE'') \<and>
    (f = b \<and> f \<noteq> lit ''TIE'' \<longrightarrow> pair_consensus forward backward left right = Inr (lit ''inconsistent''))"
  using pairwise_tokens [OF assms(1)] pairwise_tokens [OF assms(2)] assms
  by (auto simp: pair_consensus_def logical_winner_def Let_def)

section \<open>The data\<close>

text \<open>An instance, its counterfactual and its label, as the loops gather them: no scoring text in what the model
  gets to see.\<close>

definition sealed :: "gathered \<Rightarrow> bool" where
  "sealed g \<longleftrightarrow> (case g of (instances, counterfactuals, labels) \<Rightarrow>
     distinct (map di_instance_ref instances) \<and> map fst counterfactuals = map di_instance_ref instances \<and>
     map fst labels = map di_instance_ref instances \<and>
     (\<forall>i < length instances. let shown = di_persona_text (instances ! i) @ [10] @ di_current_request (instances ! i);
          cf = snd (counterfactuals ! i); label = snd (labels ! i) in
        dl_pattern_ref label = di_pattern_ref (instances ! i) \<and> dc_oracle_disposition cf \<noteq> dc_anti_disposition cf \<and>
        \<not> contains (dl_target_behavior label) shown \<and> \<not> contains (dc_oracle_disposition cf) shown \<and> \<not> contains (dc_anti_disposition cf) shown))"

lemma load_probe_sealed:
  assumes "load_probe persona pattern_ref target oracle anti sessions raw g = Inr g'" and "sealed g" and "oracle \<noteq> anti"
  shows "sealed g'"
proof -
  obtain instances counterfactuals labels where g: "g = (instances, counterfactuals, labels)" by (cases g)
  from assms(2) have same: "fst ` set labels = di_instance_ref ` set instances" "length labels = length instances"
    "length counterfactuals = length instances"
    unfolding g sealed_def by (auto simp: set_map [symmetric] dest: map_eq_imp_length_eq simp del: set_map)
  from assms(1) g obtain ref request where "ref \<notin> fst ` set labels" "\<not> list_ex (\<lambda>v. contains v (persona @ [10] @ request)) [target, oracle, anti]"
    "g' = (instances @ [\<lparr>di_instance_ref = ref, di_pattern_ref = pattern_ref, di_persona_text = persona,
            di_history_sessions = sessions, di_current_request = request\<rparr>],
          counterfactuals @ [(ref, \<lparr>dc_instance_ref = ref, dc_oracle_disposition = oracle, dc_anti_disposition = anti\<rparr>)],
          labels @ [(ref, \<lparr>dl_instance_ref = ref, dl_pattern_ref = pattern_ref, dl_target_behavior = target\<rparr>)])"
    by (auto simp: load_probe_def bindr_Inr_iff)
  with assms(2,3) same show ?thesis
    unfolding g sealed_def by (auto simp: nth_append less_Suc_eq Let_def)
qed

lemma load_pattern_sealed:
  assumes "load_pattern persona raw (refs, g) = Inr (refs', g')" and "sealed g"
  shows "sealed g'"
proof -
  from assms(1) obtain pattern_ref target best anti sessions raw_probes where "best \<noteq> anti"
    and probes: "foldr_r (load_probe persona pattern_ref target best anti sessions) raw_probes g = Inr g'"
    by (auto simp: load_pattern_def bindr_Inr_iff)
  then show ?thesis by (intro foldr_r_invariant [where P = sealed, OF probes assms(2)]) (auto intro: load_probe_sealed)
qed

text \<open>
  C28: scoring text stays out of persona and request. A data set that loads has eight instances with different refs,
  and each has a label of its own pattern and two different counterfactual statements; neither the target behaviour
  nor a counterfactual statement of an instance occurs, as it is written, in its persona text and current request
  joined by a line feed. Nothing is said of its history sessions, nor of the memory texts of the arms, two of which
  show a counterfactual statement on purpose.
\<close>

theorem delayed_data_sealed:
  assumes "load_delayed_seed digest raw = Inr data"
  shows "length (dd_instances data) = 8 \<and> sealed (dd_instances data, dd_counterfactuals data, dd_labels data)"
proof -
  from assms obtain persona patterns refs where
    loop: "foldr_r (load_pattern persona) patterns ({}, [], [], []) = Inr (refs, dd_instances data, dd_counterfactuals data, dd_labels data)"
    and eight: "length (dd_instances data) = 8"
    by (auto simp: load_delayed_seed_def bindr_Inr_iff split: prod.splits)
  have "sealed (snd (refs, dd_instances data, dd_counterfactuals data, dd_labels data))"
  proof (rule foldr_r_invariant [OF loop])
    show "sealed (snd ({}, [], [], []))" by (simp add: sealed_def)
    fix x s s' assume "sealed (snd s)" "load_pattern persona x s = Inr s'"
    then show "sealed (snd s')" using load_pattern_sealed by (metis prod.collapse)
  qed
  with eight show ?thesis by simp
qed

section \<open>The counts\<close>

text \<open>The number of rows with a given consensus on a comparison.\<close>

definition verdicts :: "delayed_row list \<Rightarrow> delayed_mode \<times> delayed_mode \<Rightarrow> pystr \<Rightarrow> nat" where
  "verdicts rows pair outcome = length (filter (\<lambda>row. map_of (dw_consensus row) (comparison_name pair) = Some outcome) rows)"

definition outcomes :: "delayed_mode \<times> delayed_mode \<Rightarrow> pystr list" where
  "outcomes pair = [arm_value (fst pair), arm_value (snd pair), lit ''tie'', lit ''inconsistent'']"

definition counts_of :: "delayed_row list \<Rightarrow> counts" where
  "counts_of rows = map (\<lambda>pair. (comparison_name pair, map (\<lambda>outcome. (outcome, verdicts rows pair outcome)) (outcomes pair))) PAIRWISE_COMPARISONS"

lemma comparison_names [simp]:
  "comparison_name (ORACLE_SEED, RAG) = lit ''oracle_seed_vs_rag''" "comparison_name (LEARNED_SEED, RAG) = lit ''learned_seed_vs_rag''"
  "comparison_name (ORACLE_SEED, LEARNED_SEED) = lit ''oracle_seed_vs_learned_seed''"
  "comparison_name (ORACLE_SEED, ANTI_SEED) = lit ''oracle_seed_vs_anti_seed''"
  by (simp_all add: comparison_name_def flip: lit_append)

lemma consensus_outcome: "pair_consensus f r a b = Inr u \<Longrightarrow> u \<in> set (outcomes (a, b))"
  by (auto simp: pair_consensus_def bindr_Inr_iff Let_def logical_winner_def outcomes_def split: if_splits)

text \<open>Every comparison is judged once for a result.\<close>

lemma judge_pairs:
  assumes "foldr_r (judge_pair records) PAIRWISE_COMPARISONS (counts, []) = Inr (counts', consensuses)"
  obtains u1 u2 u3 u4 where
    "u1 \<in> set (outcomes (ORACLE_SEED, RAG))" "u2 \<in> set (outcomes (LEARNED_SEED, RAG))"
    "u3 \<in> set (outcomes (ORACLE_SEED, LEARNED_SEED))" "u4 \<in> set (outcomes (ORACLE_SEED, ANTI_SEED))"
    "consensuses = [(lit ''oracle_seed_vs_rag'', u1), (lit ''learned_seed_vs_rag'', u2), (lit ''oracle_seed_vs_learned_seed'', u3),
       (lit ''oracle_seed_vs_anti_seed'', u4)]"
    "counts' = bump (lit ''oracle_seed_vs_anti_seed'') u4 (bump (lit ''oracle_seed_vs_learned_seed'') u3
       (bump (lit ''learned_seed_vs_rag'') u2 (bump (lit ''oracle_seed_vs_rag'') u1 counts)))"
  using assms by (auto simp: PAIRWISE_COMPARISONS_def judge_pair_def bindr_Inr_iff Let_def dest!: consensus_outcome)

lemma verdicts_snoc: "verdicts (rows @ [row]) pair u = verdicts rows pair u + (if map_of (dw_consensus row) (comparison_name pair) = Some u then 1 else 0)"
  by (simp add: verdicts_def)

lemma bump_map:
  "bump n u (map (\<lambda>pair. (comparison_name pair, map (\<lambda>v. (v, f pair v)) (outcomes pair))) pairs) =
     map (\<lambda>pair. (comparison_name pair, map (\<lambda>v. (v, f pair v + of_bool (comparison_name pair = n \<and> v = u))) (outcomes pair))) pairs"
  by (simp add: bump_def)

lemma counts_snoc:
  assumes "dw_consensus row = [(lit ''oracle_seed_vs_rag'', u1), (lit ''learned_seed_vs_rag'', u2), (lit ''oracle_seed_vs_learned_seed'', u3),
       (lit ''oracle_seed_vs_anti_seed'', u4)]"
  shows "counts_of (rows @ [row]) = bump (lit ''oracle_seed_vs_anti_seed'') u4 (bump (lit ''oracle_seed_vs_learned_seed'') u3
       (bump (lit ''learned_seed_vs_rag'') u2 (bump (lit ''oracle_seed_vs_rag'') u1 (counts_of rows))))"
  unfolding counts_of_def bump_map
proof (rule map_cong [OF refl])
  fix pair assume "pair \<in> set PAIRWISE_COMPARISONS"
  then have "pair \<in> {(ORACLE_SEED, RAG), (LEARNED_SEED, RAG), (ORACLE_SEED, LEARNED_SEED), (ORACLE_SEED, ANTI_SEED)}"
    by (simp add: PAIRWISE_COMPARISONS_def)
  then have "verdicts (rows @ [row]) pair v = verdicts rows pair v +
      of_bool (comparison_name pair = lit ''oracle_seed_vs_rag'' \<and> v = u1) + of_bool (comparison_name pair = lit ''learned_seed_vs_rag'' \<and> v = u2) +
      of_bool (comparison_name pair = lit ''oracle_seed_vs_learned_seed'' \<and> v = u3) +
      of_bool (comparison_name pair = lit ''oracle_seed_vs_anti_seed'' \<and> v = u4)" for v
    by (auto simp: verdicts_snoc assms)
  then show "(comparison_name pair, map (\<lambda>v. (v, verdicts (rows @ [row]) pair v)) (outcomes pair)) =
      (comparison_name pair, map (\<lambda>v. (v, verdicts rows pair v +
      of_bool (comparison_name pair = lit ''oracle_seed_vs_rag'' \<and> v = u1) + of_bool (comparison_name pair = lit ''learned_seed_vs_rag'' \<and> v = u2) +
      of_bool (comparison_name pair = lit ''oracle_seed_vs_learned_seed'' \<and> v = u3) +
      of_bool (comparison_name pair = lit ''oracle_seed_vs_anti_seed'' \<and> v = u4))) (outcomes pair))" by simp
qed

text \<open>Each row gives each comparison one of its outcomes.\<close>

definition judged :: "delayed_row \<Rightarrow> bool" where
  "judged row \<longleftrightarrow> list_all (\<lambda>pair. \<exists>u \<in> set (outcomes pair). map_of (dw_consensus row) (comparison_name pair) = Some u) PAIRWISE_COMPARISONS"

lemma verdicts_total:
  assumes "list_all judged rows" and "pair \<in> set PAIRWISE_COMPARISONS"
  shows "sum_list (map (verdicts rows pair) (outcomes pair)) = length rows"
  using assms(1)
proof (induction rows rule: rev_induct)
  case Nil
  then show ?case by (simp add: verdicts_def outcomes_def)
next
  case (snoc row rows)
  have "fst pair \<noteq> snd pair" using assms(2) by (auto simp: PAIRWISE_COMPARISONS_def)
  moreover obtain u where "u \<in> set (outcomes pair)" "map_of (dw_consensus row) (comparison_name pair) = Some u"
    using snoc.prems assms(2) by (auto simp: judged_def list_all_iff)
  ultimately show ?case using snoc by (auto simp: verdicts_snoc outcomes_def)
qed

lemma tally_invariant:
  assumes "foldr_r (tally_result by_ref) labels \<lparr>dt_counts = initial_counts, dt_rows = []\<rparr> = Inr tally"
  shows "dt_counts tally = counts_of (dt_rows tally) \<and> list_all judged (dt_rows tally) \<and> map dw_instance_ref (dt_rows tally) = map fst labels"
proof -
  let ?P = "\<lambda>t. dt_counts t = counts_of (dt_rows t) \<and> list_all judged (dt_rows t)"
  have step: "?P t' \<and> map dw_instance_ref (dt_rows t') = map dw_instance_ref (dt_rows t) @ [fst entry]"
    if "tally_result by_ref entry t = Inr t'" "?P t" for entry t t'
  proof -
    from that(1) obtain records counts consensuses row where
      "foldr_r (judge_pair records) PAIRWISE_COMPARISONS (dt_counts t, []) = Inr (counts, consensuses)"
      and t': "t' = \<lparr>dt_counts = counts, dt_rows = dt_rows t @ [row]\<rparr>" "dw_instance_ref row = fst entry" and c: "dw_consensus row = consensuses"
      by (fastforce simp: tally_result_def bindr_Inr_iff split: option.splits)
    from judge_pairs [OF this(1)] obtain u1 u2 u3 u4 where u: "u1 \<in> set (outcomes (ORACLE_SEED, RAG))" "u2 \<in> set (outcomes (LEARNED_SEED, RAG))"
      "u3 \<in> set (outcomes (ORACLE_SEED, LEARNED_SEED))" "u4 \<in> set (outcomes (ORACLE_SEED, ANTI_SEED))"
      and cons: "consensuses = [(lit ''oracle_seed_vs_rag'', u1), (lit ''learned_seed_vs_rag'', u2), (lit ''oracle_seed_vs_learned_seed'', u3),
       (lit ''oracle_seed_vs_anti_seed'', u4)]"
      and counts: "counts = bump (lit ''oracle_seed_vs_anti_seed'') u4 (bump (lit ''oracle_seed_vs_learned_seed'') u3
       (bump (lit ''learned_seed_vs_rag'') u2 (bump (lit ''oracle_seed_vs_rag'') u1 (dt_counts t))))" by metis
    have "judged row" using u by (simp add: judged_def PAIRWISE_COMPARISONS_def c cons)
    with counts_snoc [of row u1 u2 u3 u4 "dt_rows t"] that(2) show ?thesis by (simp add: t' counts c cons)
  qed
  have "initial_counts = counts_of []"
    by (simp add: initial_counts_def counts_of_def PAIRWISE_COMPARISONS_def outcomes_def verdicts_def)
  then have start: "?P \<lparr>dt_counts = initial_counts, dt_rows = []\<rparr>" by simp
  have "?P tally \<and> map dw_instance_ref (dt_rows tally) = map dw_instance_ref (dt_rows s) @ map fst labels"
    if "foldr_r (tally_result by_ref) labels s = Inr tally" "?P s" for s
    using that
  proof (induction labels arbitrary: s)
    case (Cons entry labels)
    then obtain s' where "tally_result by_ref entry s = Inr s'" "foldr_r (tally_result by_ref) labels s' = Inr tally" by (auto simp: bindr_Inr_iff)
    with step [OF this(1) Cons.prems(2)] Cons.IH [of s'] show ?case by simp
  qed simp
  from this [OF assms start] show ?thesis by simp
qed

lemma wins_counts_of:
  "wins (counts_of rows) ''learned_seed_vs_rag'' ''learned_seed'' = verdicts rows (LEARNED_SEED, RAG) (arm_value LEARNED_SEED)"
  "wins (counts_of rows) ''learned_seed_vs_rag'' ''rag'' = verdicts rows (LEARNED_SEED, RAG) (arm_value RAG)"
  "wins (counts_of rows) ''oracle_seed_vs_anti_seed'' ''oracle_seed'' = verdicts rows (ORACLE_SEED, ANTI_SEED) (arm_value ORACLE_SEED)"
  "wins (counts_of rows) ''oracle_seed_vs_anti_seed'' ''anti_seed'' = verdicts rows (ORACLE_SEED, ANTI_SEED) (arm_value ANTI_SEED)"
  by (simp_all add: wins_def counts_of_def PAIRWISE_COMPARISONS_def outcomes_def)

text \<open>
  C30: the diagnosis counts its rows. A summary has one row per label, in order; its counts are the numbers of
  rows with each consensus, and those of a comparison add up to the cohort. A learned advantage is
  reported only if at least the required number of rows prefer the learned Seed and none the retrieval
  arm, in both orders, the manipulation check holds in the same way, and as many rows formed, selected and
  rendered a Disposition.
\<close>

theorem delayed_summary_counts:
  assumes "summarize_delayed_seed results labels expected dominance = Inr s"
  shows "map dw_instance_ref (dz_rows s) = map fst labels \<and> dz_comparisons s = counts_of (dz_rows s) \<and>
    list_all (\<lambda>pair. sum_list (map (verdicts (dz_rows s) pair) (outcomes pair)) = length labels) PAIRWISE_COMPARISONS \<and>
    (fst (dz_decision s) = ''preliminary_learned_advantage'' \<longrightarrow>
       dz_minimum_clear_wins s \<le> int (verdicts (dz_rows s) (LEARNED_SEED, RAG) (arm_value LEARNED_SEED)) \<and>
       verdicts (dz_rows s) (LEARNED_SEED, RAG) (arm_value RAG) = 0 \<and>
       dz_minimum_clear_wins s \<le> int (verdicts (dz_rows s) (ORACLE_SEED, ANTI_SEED) (arm_value ORACLE_SEED)) \<and>
       verdicts (dz_rows s) (ORACLE_SEED, ANTI_SEED) (arm_value ANTI_SEED) = 0 \<and>
       list_all (\<lambda>stage. dz_minimum_clear_wins s \<le> int (length (filter stage (dz_rows s)))) [dw_formed, dw_selected, dw_rendered])"
proof -
  from assms obtain by_ref tally minimum where tally: "foldr_r (tally_result by_ref) labels \<lparr>dt_counts = initial_counts, dt_rows = []\<rparr> = Inr tally"
    and s: "dz_rows s = dt_rows tally" "dz_comparisons s = dt_counts tally" "dz_minimum_clear_wins s = minimum"
      "dz_decision s = delayed_decision (dt_counts tally) (funnel (dt_rows tally)) minimum"
    by (auto simp: summarize_delayed_seed_def bindr_Inr_iff)
  note inv = tally_invariant [OF tally]
  then have "length (dt_rows tally) = length labels" by (metis length_map)
  with inv have "list_all (\<lambda>pair. sum_list (map (verdicts (dz_rows s) pair) (outcomes pair)) = length labels) PAIRWISE_COMPARISONS"
    using verdicts_total [of "dt_rows tally"] by (simp add: list_all_iff s)
  moreover have "dominates (dt_counts tally) ''oracle_seed_vs_anti_seed'' ''oracle_seed'' ''anti_seed'' minimum \<and>
      dominates (dt_counts tally) ''learned_seed_vs_rag'' ''learned_seed'' ''rag'' minimum \<and> list_all (\<lambda>(_, n). int n \<ge> minimum) (funnel (dt_rows tally))"
    if "fst (dz_decision s) = ''preliminary_learned_advantage''"
    using that by (auto simp: s delayed_decision_def split: if_splits)
  ultimately show ?thesis using inv by (auto simp: s dominates_def wins_counts_of funnel_def)
qed

section \<open>Examples\<close>

lemma strip_letter: "\<not> py_isspace c \<Longrightarrow> strip [c] = [c]"
  by (simp add: strip_def strip_on_def rstrip_on_def)

lemma letters: "\<not> py_isspace c" if "48 \<le> c" "c < 128"
  using that by (auto simp: py_isspace_def)

lemma judged_letters: "parse_pairwise_token (PStr (lit ''A'')) = Inr (lit ''A'')" "parse_pairwise_token (PStr (lit ''b'')) = Inr (lit ''B'')"
  by (simp_all add: parse_pairwise_token_def lit_def strip_letter letters py_upper_def ascii_upper_def Let_def)

theorem pair_consensus_unbiased_witness:
  "pair_consensus (PStr (lit ''A'')) (PStr (lit ''b'')) LEARNED_SEED RAG = Inr (arm_value LEARNED_SEED)"
  using pair_consensus_unbiased [OF judged_letters, of LEARNED_SEED RAG] by auto

text \<open>One selection and its four arms.\<close>

definition delayed_example :: memory_context where
  "delayed_example = empty_context\<lparr>mc_recollections := [\<lparr>mi_memory_ref = lit ''r'', mi_text = lit ''T'', mi_application_scope = 2\<rparr>],
     mc_dispositions := [\<lparr>mi_memory_ref = lit ''d'', mi_text = lit ''D'', mi_application_scope = 3\<rparr>]\<rparr>"

definition counterfactual_example :: delayed_counterfactual where
  "counterfactual_example = \<lparr>dc_instance_ref = lit ''i'', dc_oracle_disposition = lit ''O'', dc_anti_disposition = lit ''N''\<rparr>"

lemma example_letters: "strip (lit ''T'') = lit ''T''" "strip (lit ''D'') = lit ''D''" "strip (lit ''O'') = lit ''O''" "strip (lit ''N'') = lit ''N''"
    "strip (lit ''r'') = lit ''r''" "strip (lit ''d'') = lit ''d''" "strip (lit ''oracle:i'') = lit ''oracle:i''" "strip (lit ''anti:i'') = lit ''anti:i''"
    "strip [] = []"
  by (simp_all add: strip_eval)

lemma arm_example: "\<exists>x. arm_context delayed_example counterfactual_example 100 length_counter mode = Inr x \<and>
    (mode \<noteq> RAG \<longrightarrow> dx_disposition_refs x \<noteq> [])"
  by (cases mode)
    (simp_all add: arm_context_def arm_filtered_def arm_dispositions_def delayed_example_def counterfactual_example_def empty_context_def
      empty_constitution_def with_text_def example_letters render_memory_context_def validate_budget_options_def validated_items_def
      constitution_item_def append_item_def validate_ref_def render_step_def fits_budget_def with_item_def join_sections_def length_counter_def
      counted_def APPLICATION_SCOPE_LABELS_def Let_def raise_if_def flip: lit_append)


text \<open>A data set of four patterns with letters for texts.\<close>

definition text_dict :: "(string \<times> string) list \<Rightarrow> pyval" where
  "text_dict entries = PDict (map (\<lambda>(k, v). (lit k, PStr (lit v))) entries)"

definition pattern_example :: "string \<Rightarrow> string \<Rightarrow> string \<Rightarrow> pyval" where
  "pattern_example ref one two = PDict [(lit ''pattern_ref'', PStr (lit ref)), (lit ''target_behavior'', PStr (lit ''T'')),
     (lit ''oracle_disposition'', PStr (lit ''O'')), (lit ''anti_disposition'', PStr (lit ''N'')),
     (lit ''history_sessions'', PList (map (\<lambda>s. text_dict [(''session_ref'', s), (''situation'', ''T''), (''agent_act'', ''T''), (''outcome'', ''T'')])
       [''r'', ''d'', ''D''])),
     (lit ''probes'', PList (map (\<lambda>i. text_dict [(''instance_ref'', i), (''current_request'', ''r'')]) [one, two]))]"

definition data_example :: pyval where
  "data_example = PDict [(lit ''schema_version'', PInt 1), (lit ''protocol'', PStr PROTOCOL), (lit ''persona_text'', PStr (lit ''r'')),
     (lit ''patterns'', PList [pattern_example ''a'' ''1'' ''2'', pattern_example ''b'' ''3'' ''4'', pattern_example ''c'' ''5'' ''6'',
       pattern_example ''d'' ''7'' ''8''])]"

lemma strip_one: "48 \<le> (of_char c :: nat) \<Longrightarrow> (of_char c :: nat) < 128 \<Longrightarrow> strip (lit [c]) = lit [c]"
  by (simp add: lit_def strip_letter letters)

lemma no_leak_example: "\<not> contains (lit ''T'') (lit ''r'' @ 10 # lit ''r'')" "\<not> contains (lit ''O'') (lit ''r'' @ 10 # lit ''r'')"
    "\<not> contains (lit ''N'') (lit ''r'' @ 10 # lit ''r'')"
  by (simp_all add: lit_def startswith_def)

lemma pattern_loads:
  assumes "strip (lit ref) = lit ref" "strip (lit one) = lit one" "strip (lit two) = lit two" "ref \<noteq> []" "one \<noteq> []" "two \<noteq> []"
    and "lit ref \<notin> refs" and "lit one \<notin> fst ` set labels" "lit two \<notin> fst ` set labels" "one \<noteq> two"
  shows "\<exists>new cfs. load_pattern (lit ''r'') (pattern_example ref one two) (refs, instances, counterfactuals, labels) =
    Inr (insert (lit ref) refs, instances @ new, counterfactuals @ cfs, labels @
      [(lit one, \<lparr>dl_instance_ref = lit one, dl_pattern_ref = lit ref, dl_target_behavior = lit ''T''\<rparr>),
       (lit two, \<lparr>dl_instance_ref = lit two, dl_pattern_ref = lit ref, dl_target_behavior = lit ''T''\<rparr>)]) \<and> length new = 2"
  using assms
  by (simp add: load_pattern_def pattern_example_def mapping_or_def field_text_def get_def get_or_def example_letters raise_if_def list_of_length_def
      load_session_def load_probe_def text_dict_def no_leak_example)

abbreviation "label_example ref one \<equiv> (lit one, \<lparr>dl_instance_ref = lit one, dl_pattern_ref = lit ref, dl_target_behavior = lit ''T''\<rparr>)"

lemma data_loads: "\<exists>data. load_delayed_seed [] data_example = Inr data"
proof -
  have one: "strip (lit s) = lit s" if "s \<in> {''a'', ''b'', ''c'', ''d'', ''1'', ''2'', ''3'', ''4'', ''5'', ''6'', ''7'', ''8''}" for s
    using that by (auto simp: strip_one)
  let ?l1 = "[label_example ''a'' ''1'', label_example ''a'' ''2'']"
  let ?l2 = "?l1 @ [label_example ''b'' ''3'', label_example ''b'' ''4'']"
  let ?l3 = "?l2 @ [label_example ''c'' ''5'', label_example ''c'' ''6'']"
  obtain n1 c1 where p1: "load_pattern (lit ''r'') (pattern_example ''a'' ''1'' ''2'') ({}, [], [], []) = Inr ({lit ''a''}, n1, c1, ?l1)" "length n1 = 2"
    using pattern_loads [of "''a''" "''1''" "''2''" "{}" "[]" "[]" "[]"] one by auto
  obtain n2 c2 where p2: "load_pattern (lit ''r'') (pattern_example ''b'' ''3'' ''4'') ({lit ''a''}, n1, c1, ?l1) =
      Inr ({lit ''b'', lit ''a''}, n1 @ n2, c1 @ c2, ?l2)" "length n2 = 2"
    using pattern_loads [of "''b''" "''3''" "''4''" "{lit ''a''}" ?l1 n1 c1] one by auto
  obtain n3 c3 where p3: "load_pattern (lit ''r'') (pattern_example ''c'' ''5'' ''6'') ({lit ''b'', lit ''a''}, n1 @ n2, c1 @ c2, ?l2) =
      Inr ({lit ''c'', lit ''b'', lit ''a''}, (n1 @ n2) @ n3, (c1 @ c2) @ c3, ?l3)" "length n3 = 2"
    using pattern_loads [of "''c''" "''5''" "''6''" "{lit ''b'', lit ''a''}" ?l2 "n1 @ n2" "c1 @ c2"] one by auto
  obtain n4 c4 where p4: "load_pattern (lit ''r'') (pattern_example ''d'' ''7'' ''8'') ({lit ''c'', lit ''b'', lit ''a''}, (n1 @ n2) @ n3, (c1 @ c2) @ c3, ?l3) =
      Inr ({lit ''d'', lit ''c'', lit ''b'', lit ''a''}, ((n1 @ n2) @ n3) @ n4, ((c1 @ c2) @ c3) @ c4,
        ?l3 @ [label_example ''d'' ''7'', label_example ''d'' ''8''])" "length n4 = 2"
    using pattern_loads [of "''d''" "''7''" "''8''" "{lit ''c'', lit ''b'', lit ''a''}" ?l3 "(n1 @ n2) @ n3" "(c1 @ c2) @ c3"] one by auto
  show ?thesis
    unfolding load_delayed_seed_def data_example_def
    by (simp add: mapping_or_def get_def get_or_def equals_one_def field_text_def example_letters list_of_length_def p1(1))
      (use p1(2) p2 p3 p4 in \<open>simp add: raise_if_def\<close>)
qed

theorem delayed_data_sealed_witness:
  "\<exists>data. load_delayed_seed [] data_example = Inr data \<and> length (dd_instances data) = 8 \<and>
     sealed (dd_instances data, dd_counterfactuals data, dd_labels data)"
  using data_loads delayed_data_sealed by blast

text \<open>A cohort of one result in which the learned Seed and the oracle win in both orders.\<close>

definition digest_example :: pyval where
  "digest_example = PStr (replicate 64 48)"

definition answer_example :: "delayed_mode \<Rightarrow> pydict" where
  "answer_example mode = [(lit ''mode'', PStr (arm_value mode)), (lit ''output'', PStr (lit ''O'')), (lit ''memory_tokens'', PInt 0),
     (lit ''memory_budget'', PInt 1), (lit ''answer_request_sha256'', digest_example), (lit ''selected_recollection_refs'', PList []),
     (lit ''selected_disposition_refs'', PList []), (lit ''rendered_recollection_refs'', PList []),
     (lit ''rendered_disposition_refs'', PList [PStr (lit ''d'')])]"

definition judgement_example :: "string \<Rightarrow> delayed_mode \<times> delayed_mode \<Rightarrow> pydict" where
  "judgement_example direction pair = [(lit ''comparison'', PStr (comparison_name pair)), (lit ''direction'', PStr (lit direction)),
     (lit ''a_mode'', PStr (arm_value (if direction = ''forward'' then fst pair else snd pair))),
     (lit ''b_mode'', PStr (arm_value (if direction = ''forward'' then snd pair else fst pair))),
     (lit ''judge_output'', PStr (if direction = ''forward'' then lit ''A'' else lit ''b'')), (lit ''judge_request_sha256'', digest_example)]"

definition result_example :: pydict where
  "result_example = [(lit ''instance_ref'', PStr (lit ''1'')), (lit ''protocol'', PStr PROTOCOL), (lit ''pattern_ref'', PStr (lit ''a'')),
     (lit ''answers'', PList (map (\<lambda>mode. PDict (answer_example mode)) delayed_modes)),
     (lit ''diagnostic'', PDict [(lit ''active_dispositions'', PInt 1), (lit ''selected_disposition_refs'', PList [PStr (lit ''d'')]),
       (lit ''rendered_disposition_refs'', PList [PStr (lit ''d'')])]),
     (lit ''pairwise'', PList (concat (map (\<lambda>pair. [PDict (judgement_example ''forward'' pair), PDict (judgement_example ''reverse'' pair)])
       PAIRWISE_COMPARISONS)))]"

lemma digest_ok: "sha256_checked digest_example name = Inr (replicate 64 48)"
  by (simp add: sha256_checked_def digest_example_def list_all_length)

lemma arm_of_value: "arm_of (PStr (arm_value mode)) = Some mode"
  by (cases mode) (simp_all add: arm_of_def delayed_modes_def)

lemma answer_ok:
  "mode \<notin> fst ` set answers \<Longrightarrow> validated_answer (PDict (answer_example mode)) (answers, budgets) =
     Inr (answers @ [(mode, answer_example mode)], insert 1 budgets)"
  by (simp add: validated_answer_def mapping_or_def answer_example_def get_def get_or_def arm_of_value example_letters answer_budget_def
      digest_ok answer_refs_def refs_checked_def raise_if_def)

lemma answers_ok: "validated_answers (PList (map (\<lambda>mode. PDict (answer_example mode)) delayed_modes)) =
    Inr (map (\<lambda>mode. (mode, answer_example mode)) delayed_modes)"
  by (simp add: validated_answers_def delayed_modes_def answer_ok)

lemma judgement_gets:
  "get (judgement_example dir pair) (lit ''comparison'') = PStr (comparison_name pair)"
  "get (judgement_example dir pair) (lit ''direction'') = PStr (lit dir)"
  "get (judgement_example dir pair) (lit ''a_mode'') = PStr (arm_value (if dir = ''forward'' then fst pair else snd pair))"
  "get (judgement_example dir pair) (lit ''b_mode'') = PStr (arm_value (if dir = ''forward'' then snd pair else fst pair))"
  "get (judgement_example dir pair) (lit ''judge_output'') = PStr (if dir = ''forward'' then lit ''A'' else lit ''b'')"
  "get (judgement_example dir pair) (lit ''judge_request_sha256'') = digest_example"
  by (simp_all add: judgement_example_def get_def get_or_def)

definition records_example :: "pyval list" where
  "records_example = concat (map (\<lambda>pair. [PDict (judgement_example ''forward'' pair), PDict (judgement_example ''reverse'' pair)]) PAIRWISE_COMPARISONS)"

lemma comparison_name_eq:
  "p \<in> set PAIRWISE_COMPARISONS \<Longrightarrow> q \<in> set PAIRWISE_COMPARISONS \<Longrightarrow> comparison_name p = comparison_name q \<longleftrightarrow> p = q"
  by (auto simp: PAIRWISE_COMPARISONS_def)

lemma filter_records:
  assumes "dir \<in> {''forward'', ''reverse''}" and "pair \<in> set PAIRWISE_COMPARISONS"
  shows "distinct pairs \<Longrightarrow> set pairs \<subseteq> set PAIRWISE_COMPARISONS \<Longrightarrow>
    filter (\<lambda>d. get d (lit ''comparison'') = PStr (comparison_name pair) \<and> get d (lit ''direction'') = PStr (lit dir))
      (concat (map (\<lambda>p. [judgement_example ''forward'' p, judgement_example ''reverse'' p]) pairs)) =
    (if pair \<in> set pairs then [judgement_example dir pair] else [])"
proof (induction pairs)
  case (Cons p pairs)
  have "comparison_name p = comparison_name pair \<longleftrightarrow> p = pair" using Cons.prems assms(2) by (intro comparison_name_eq) auto
  then have first: "filter (\<lambda>d. get d (lit ''comparison'') = PStr (comparison_name pair) \<and> get d (lit ''direction'') = PStr (lit dir))
      [judgement_example ''forward'' p, judgement_example ''reverse'' p] = (if p = pair then [judgement_example dir pair] else [])"
    using assms(1) by (auto simp: judgement_gets)
  have "distinct pairs" "set pairs \<subseteq> set PAIRWISE_COMPARISONS" using Cons.prems by simp_all
  note rest = Cons.IH [OF this]
  show ?case unfolding list.map concat.simps filter_append first rest using Cons.prems(1) by auto
qed simp

lemma record_found:
  assumes "pair \<in> set PAIRWISE_COMPARISONS" and "dir \<in> {''forward'', ''reverse''}"
  shows "filter (\<lambda>d. get d (lit ''comparison'') = PStr (comparison_name pair) \<and> get d (lit ''direction'') = PStr (lit dir))
    (List.map_filter as_mapping records_example) = [judgement_example dir pair]"
proof -
  have "List.map_filter as_mapping records_example =
      concat (map (\<lambda>p. [judgement_example ''forward'' p, judgement_example ''reverse'' p]) PAIRWISE_COMPARISONS)"
    by (simp add: records_example_def PAIRWISE_COMPARISONS_def List.map_filter_def)
  moreover have "distinct PAIRWISE_COMPARISONS" by (simp add: PAIRWISE_COMPARISONS_def)
  ultimately show ?thesis using filter_records [OF assms(2,1), of PAIRWISE_COMPARISONS] assms(1) by (simp only: order_refl if_True simp_thms)
qed

lemma record_ok:
  assumes "pair \<in> set PAIRWISE_COMPARISONS"
  shows "pair_record records_example (comparison_name pair) ''forward'' (fst pair) (snd pair) = Inr (judgement_example ''forward'' pair)"
    "pair_record records_example (comparison_name pair) ''reverse'' (snd pair) (fst pair) = Inr (judgement_example ''reverse'' pair)"
  unfolding pair_record_def record_found [OF assms insertI1] record_found [OF assms insertI2 [OF singletonI]]
  by (simp_all add: judgement_gets judged_letters digest_ok raise_if_def)

lemma judge_ok: "pair \<in> set PAIRWISE_COMPARISONS \<Longrightarrow> \<exists>acc'. judge_pair records_example pair acc = Inr acc'"
  unfolding judge_pair_def Let_def record_ok bindr_simps judgement_gets
  by (cases acc) (simp add: pair_consensus_def judged_letters Let_def del: if_split)

lemma judge_all: "set pairs \<subseteq> set PAIRWISE_COMPARISONS \<Longrightarrow> \<exists>acc'. foldr_r (judge_pair records_example) pairs acc = Inr acc'"
proof (induction pairs arbitrary: acc)
  case (Cons pair pairs)
  then obtain acc1 where "judge_pair records_example pair acc = Inr acc1" using judge_ok by fastforce
  with Cons show ?case by simp
qed simp

abbreviation "labels_example \<equiv> [label_example ''a'' ''1'']"

lemma delayed_summary_example: "\<exists>s. summarize_delayed_seed [result_example] labels_example (PInt 1) (PInt 1) = Inr s"
proof -
  have "strip (lit ''1'') = lit ''1''" by (simp add: strip_one)
  then have indexed: "index_result result_example [] = Inr [(lit ''1'', result_example)]"
    by (simp add: index_result_def field_text_def result_example_def get_def get_or_def raise_if_def)
  have answers: "get result_example (lit ''answers'') = PList (map (\<lambda>mode. PDict (answer_example mode)) delayed_modes)"
    and others: "get result_example (lit ''protocol'') = PStr PROTOCOL" "get result_example (lit ''pattern_ref'') = PStr (lit ''a'')"
      "get result_example (lit ''pairwise'') = PList records_example"
    by (simp_all add: result_example_def get_def get_or_def records_example_def)
  have "map_of (map (\<lambda>mode. (mode, answer_example mode)) delayed_modes) LEARNED_SEED = Some (answer_example LEARNED_SEED)"
    by (simp add: delayed_modes_def)
  moreover have "get (answer_example LEARNED_SEED) (lit ''rendered_disposition_refs'') = PList [PStr (lit ''d'')]"
    by (simp add: answer_example_def get_def get_or_def)
  ultimately have diagnosed: "read_diagnostic result_example (map (\<lambda>mode. (mode, answer_example mode)) delayed_modes) = Inr (True, True, True)"
    by (simp add: read_diagnostic_def mapping_or_def result_example_def get_def get_or_def refs_checked_def example_letters raise_if_def Let_def)
  have "length records_example = length PAIRWISE_COMPARISONS * 2" by (simp add: records_example_def PAIRWISE_COMPARISONS_def)
  moreover obtain counts consensuses where "foldr_r (judge_pair records_example) PAIRWISE_COMPARISONS (initial_counts, []) = Inr (counts, consensuses)"
    using judge_all [of PAIRWISE_COMPARISONS "(initial_counts, [])"] by fastforce
  ultimately have "\<exists>t. tally_result [(lit ''1'', result_example)] (label_example ''a'' ''1'') \<lparr>dt_counts = initial_counts, dt_rows = []\<rparr> = Inr t"
    by (simp add: tally_result_def answers others answers_ok diagnosed raise_if_def)
  then show ?thesis
    by (auto simp: summarize_delayed_seed_def cohort_bounds_def indexed raise_if_def)
qed

theorem delayed_summary_counts_witness:
  "\<exists>s. summarize_delayed_seed [result_example] labels_example (PInt 1) (PInt 1) = Inr s \<and> map dw_instance_ref (dz_rows s) = [lit ''1''] \<and>
     dz_comparisons s = counts_of (dz_rows s)"
  using delayed_summary_example delayed_summary_counts [of "[result_example]" labels_example "PInt 1" "PInt 1"] by fastforce

end
