(* ===== verification/Delayed_Run_Laws.thy ===== *)
theory Delayed_Run_Laws
  imports Eval_Delayed_Run Delayed_Laws
begin

text \<open>
  Properties of the runner of the delayed evaluation: what it generates and judges is what the summary
  accepts, the answers are generated only after the whole history and one read-only selection, the
  judge sees each pair in both orders, and a frozen result is never overwritten and loads as it was frozen.
\<close>

section \<open>Digests and sorted dicts\<close>

lemma hexdigest_length: "length (hexdigest bytes) = 2 * length bytes"
  by (induction bytes) (simp_all add: hexdigest_def)

lemma hex_digit_range: "n < 16 \<Longrightarrow> 48 \<le> hex_digit n \<and> hex_digit n \<le> 57 \<or> 97 \<le> hex_digit n \<and> hex_digit n \<le> 102"
  by (auto simp: hex_digit_def)

lemma hexdigest_checked: "length bytes = 32 \<Longrightarrow> sha256_checked (PStr (hexdigest bytes)) name = Inr (hexdigest bytes)"
  by (simp add: sha256_checked_def hexdigest_length) (auto simp: hexdigest_def list_all_iff intro!: hex_digit_range)

text \<open>What is assumed of the collaborators: SHA-256 gives 32 bytes, a token counter no negative number.\<close>

definition sha256_sized :: "(pystr \<Rightarrow> nat list) \<Rightarrow> bool" where
  "sha256_sized sha256 \<longleftrightarrow> (\<forall>t. length (sha256 t) = 32)"

definition nonnegative_counter :: "token_counter \<Rightarrow> bool" where
  "nonnegative_counter token_count \<longleftrightarrow> (\<forall>t k. token_count t = Inr (Val k) \<longrightarrow> 0 \<le> k)"

lemma text_digest_checked:
  "text_digest sha256 t = Inr d \<Longrightarrow> sha256_sized sha256 \<Longrightarrow> sha256_checked (PStr d) name = Inr d"
  by (auto simp: text_digest_def sha256_sized_def intro: hexdigest_checked)

definition sorted_dict :: "pydict \<Rightarrow> pydict" where
  "sorted_dict d = sort_key fst (map (\<lambda>(k, v). (k, sort_keys v)) d)"

lemma sort_keys_dict: "sort_keys (PDict d) = PDict (sorted_dict d)"
  by (simp add: sorted_dict_def)

lemma get_sorted_dict:
  assumes "distinct (map fst d)"
  shows "get (sorted_dict d) k = sort_keys (get d k)"
proof -
  from assms obtain d' where "sort_keys (PDict d) = PDict d'" "map_of d' = map_option sort_keys \<circ> map_of d" by (rule get_sort_keys)
  then have "map_of (sorted_dict d) = map_option sort_keys \<circ> map_of d" unfolding sort_keys_dict by simp
  then show ?thesis by (simp add: get_def get_or_def split: option.splits)
qed

lemma keys_sorted_dict: "fst ` set (sorted_dict d) = fst ` set d"
  by (force simp: sorted_dict_def)

lemma sort_keys_refs: "sort_keys (refs_value refs) = refs_value refs"
  by simp

section \<open>Answers the summary accepts\<close>

definition plain_ref :: "pystr \<Rightarrow> bool" where
  "plain_ref r \<longleftrightarrow> r \<noteq> [] \<and> strip r = r"

definition plain_refs :: "pystr list \<Rightarrow> bool" where
  "plain_refs refs \<longleftrightarrow> distinct refs \<and> list_all (\<lambda>r. strip r \<noteq> []) refs \<and> (length refs \<le> 1 \<or> list_all plain_ref refs)"

lemma map_r_nonblank: "list_all (\<lambda>r. strip r \<noteq> []) refs \<Longrightarrow> map_r (\<lambda>item. nonblank item name) (map PStr refs) = Inr (map strip refs)"
  by (induction refs) simp_all

lemma refs_checked_plain:
  assumes "plain_refs refs"
  shows "\<exists>rs. refs_checked (refs_value refs) name = Inr rs \<and> (rs = [] \<longleftrightarrow> refs = [])"
proof -
  have "distinct (map strip refs)"
  proof (cases "length refs \<le> 1")
    case True
    then show ?thesis by (cases refs rule: remdups_adj.cases) auto
  next
    case False
    with assms have "list_all plain_ref refs" by (simp add: plain_refs_def)
    then have "map strip refs = refs" by (induction refs) (simp_all add: plain_ref_def)
    with assms show ?thesis by (simp add: plain_refs_def)
  qed
  with assms show ?thesis by (simp add: refs_checked_def map_r_nonblank plain_refs_def)
qed

definition good_answer :: "int \<Rightarrow> delayed_mode \<Rightarrow> pydict \<Rightarrow> bool" where
  "good_answer m mode d \<longleftrightarrow> get d (lit ''mode'') = PStr (arm_value mode) \<and> get d (lit ''error'') = PStr [] \<and>
     (\<exists>t. get d (lit ''output'') = PStr t \<and> strip t \<noteq> []) \<and>
     (\<exists>k. get d (lit ''memory_tokens'') = PInt k \<and> 0 \<le> k \<and> k \<le> m) \<and> get d (lit ''memory_budget'') = PInt m \<and>
     (\<exists>s. get d (lit ''answer_request_sha256'') = PStr s \<and> (\<forall>name. sha256_checked (PStr s) name = Inr s)) \<and>
     (\<forall>name \<in> set answer_refs. \<exists>refs. get d (lit name) = refs_value refs \<and> plain_refs refs)"

lemma good_answer_sorted:
  assumes "good_answer m mode d" and "distinct (map fst d)"
  shows "good_answer m mode (sorted_dict d)"
proof -
  have "\<exists>refs. sort_keys (get d (lit name)) = refs_value refs \<and> plain_refs refs" if "name \<in> set answer_refs" for name
    using assms(1) that sort_keys_refs unfolding good_answer_def by metis
  note refs = this
  from assms(1) obtain answer k s where fields: "get d (lit ''mode'') = PStr (arm_value mode)" "get d (lit ''error'') = PStr []"
    "get d (lit ''output'') = PStr answer" "strip answer \<noteq> []" "get d (lit ''memory_tokens'') = PInt k" "0 \<le> k" "k \<le> m" "get d (lit ''memory_budget'') = PInt m"
    "get d (lit ''answer_request_sha256'') = PStr s" "\<And>name. sha256_checked (PStr s) name = Inr s"
    unfolding good_answer_def by blast
  show ?thesis unfolding good_answer_def get_sorted_dict [OF assms(2)] using refs by (simp add: fields)
qed

lemma validated_good_answer:
  assumes "good_answer m mode d" and "mode \<notin> fst ` set answers"
  shows "validated_answer (PDict d) (answers, budgets) = Inr (answers @ [(mode, d)], insert m budgets)"
proof -
  have refs: "check_all (\<lambda>name. bindr (refs_checked (get d (lit name)) (lit name)) (\<lambda>_. Inr ())) answer_refs = Inr ()"
    unfolding check_all_Inr
  proof
    fix name assume "name \<in> set answer_refs"
    with assms(1) obtain refs where "get d (lit name) = refs_value refs" "plain_refs refs" unfolding good_answer_def by blast
    with refs_checked_plain [of refs "lit name"] show "bindr (refs_checked (get d (lit name)) (lit name)) (\<lambda>_. Inr ()) = Inr ()" by fastforce
  qed
  from assms(1) obtain answer k s where fields: "get d (lit ''mode'') = PStr (arm_value mode)" "get d (lit ''error'') = PStr []"
    "get d (lit ''output'') = PStr answer" "strip answer \<noteq> []" "get d (lit ''memory_tokens'') = PInt k" "0 \<le> k" "k \<le> m" "get d (lit ''memory_budget'') = PInt m"
    "get d (lit ''answer_request_sha256'') = PStr s" "\<And>name. sha256_checked (PStr s) name = Inr s"
    unfolding good_answer_def by blast
  then show ?thesis
    using assms(2) by (simp add: validated_answer_def mapping_or_def arm_of_value raise_if_def answer_budget_def refs)
qed

lemma validated_good_answers:
  assumes "\<And>mode. good_answer m mode (f mode)"
  shows "validated_answers (PList (map (\<lambda>mode. PDict (f mode)) delayed_modes)) = Inr (map (\<lambda>mode. (mode, f mode)) delayed_modes)"
proof -
  note steps = assms [THEN validated_good_answer]
  show ?thesis
    by (simp add: validated_answers_def delayed_modes_def steps [of RAG] steps [of LEARNED_SEED] steps [of ORACLE_SEED] steps [of ANTI_SEED])
qed

section \<open>What generation produces\<close>

text \<open>The refs of a context are as the Core makes them, without blanks at the ends.\<close>

definition plain_context :: "memory_context \<Rightarrow> bool" where
  "plain_context c \<longleftrightarrow> list_all (\<lambda>i. plain_ref (mi_memory_ref i)) (mc_recollections c @ mc_dispositions c)"

definition plain_memory :: "'w memory_client \<Rightarrow> bool" where
  "plain_memory memory \<longleftrightarrow> (\<forall>q w c w'. select_memory memory q w = (Inr c, w') \<longrightarrow> plain_context c)"

lemma plain_memoryD: "plain_memory memory \<Longrightarrow> select_memory memory q w = (Inr c, w') \<Longrightarrow> plain_context c"
  unfolding plain_memory_def by blast

lemma plain_refs_sub:
  assumes "plain_context c" and "distinct (map mi_memory_ref items)" and "set items \<subseteq> set (mc_recollections c @ mc_dispositions c)"
  shows "plain_refs (filter P (map mi_memory_ref items))"
proof -
  have "list_all plain_ref (filter P (map mi_memory_ref items))" using assms(1,3) by (auto simp: plain_context_def list_all_iff)
  then show ?thesis using assms(2) by (auto simp: plain_refs_def plain_ref_def list_all_iff)
qed

lemma arm_distinct:
  assumes "arm_context c cf m token_count mode = Inr x"
  shows "distinct (map mi_memory_ref (with_text (mc_recollections c)) @ map mi_memory_ref (with_text (arm_dispositions c cf mode)))"
proof -
  from assms obtain rendered where "render_memory_context (arm_filtered c cf mode) (Some (Val m)) (Some (Val token_count)) = Inr rendered"
    by (auto simp: arm_context_def bindr_Inr_iff Let_def)
  then obtain items where "validated_items (arm_filtered c cf mode) = Inr items" by (rule render_Inr)
  from filtered_refs [OF this] validated_items_Inr [OF this] show ?thesis by metis
qed

lemma with_text_idem [simp]: "with_text (with_text items) = with_text items"
  by (simp add: with_text_def)

lemma set_with_text: "set (with_text items) \<subseteq> set items"
  by (auto simp: with_text_def)

definition good_arm :: "int \<Rightarrow> delayed_context \<Rightarrow> bool" where
  "good_arm m x \<longleftrightarrow> 0 \<le> dx_memory_tokens x \<and> dx_memory_tokens x \<le> m \<and> dx_memory_budget x = m \<and>
     plain_refs (dx_selected_recollection_refs x) \<and> plain_refs (dx_selected_disposition_refs x) \<and>
     plain_refs (dx_recollection_refs x) \<and> plain_refs (dx_disposition_refs x)"

lemma counted_Inr: "counted token_count t = Inr k \<longleftrightarrow> token_count t = Inr (Val k)"
  by (cases "token_count t") (auto simp: counted_def split: dyn.splits)

lemma arm_context_good:
  assumes "arm_context c cf m token_count mode = Inr x" and learned: "arm_context c cf m token_count LEARNED_SEED = Inr y"
    and "plain_context c" and "nonnegative_counter token_count"
  shows "dx_mode x = mode \<and> good_arm m x"
proof -
  have recs: "distinct (map mi_memory_ref (with_text (mc_recollections c)))" and disps: "distinct (map mi_memory_ref (with_text (mc_dispositions c)))"
    using arm_distinct [OF learned] by (simp_all add: arm_dispositions_def)
  have rec_refs: "plain_refs (filter P (map mi_memory_ref (with_text (mc_recollections c))))"
    and disp_refs: "plain_refs (filter P (map mi_memory_ref (with_text (mc_dispositions c))))" for P
    by (rule plain_refs_sub [OF assms(3)], use recs disps set_with_text in fastforce, use set_with_text in fastforce)+
  have single: "plain_refs (filter P [lit ''oracle:'' @ r])" "plain_refs (filter P [lit ''anti:'' @ r])" "plain_refs []" for P r
  proof -
    have "strip (lit s @ r) \<noteq> []" if "hd s \<noteq> CHR '' ''" "s \<in> {''oracle:'', ''anti:''}" for s
      using that by (auto simp: strip_def strip_on_eq_Nil lit_def py_isspace_def)
    then show "plain_refs (filter P [lit ''oracle:'' @ r])" "plain_refs (filter P [lit ''anti:'' @ r])" "plain_refs []"
      by (simp_all add: plain_refs_def)
  qed
  from assms(1) obtain rendered where "render_memory_context (arm_filtered c cf mode) (Some (Val m)) (Some (Val token_count)) = Inr rendered"
    by (auto simp: arm_context_def bindr_Inr_iff Let_def)
  with assms(1) obtain tokens where count: "counted token_count (rendered_text rendered) = Inr tokens" "tokens \<le> m"
    and x: "x = \<lparr>dx_mode = mode, dx_text = rendered_text rendered, dx_memory_refs = rendered_refs rendered,
      dx_recollection_refs = filter (\<lambda>ref. ref \<in> set (rendered_refs rendered)) (map mi_memory_ref (with_text (mc_recollections c))),
      dx_disposition_refs = filter (\<lambda>ref. ref \<in> set (rendered_refs rendered)) (map mi_memory_ref (arm_dispositions c cf mode)),
      dx_selected_recollection_refs = map mi_memory_ref (with_text (mc_recollections c)),
      dx_selected_disposition_refs = map mi_memory_ref (with_text (mc_dispositions c)), dx_memory_tokens = tokens, dx_memory_budget = m\<rparr>"
    by (auto simp: arm_context_def bindr_Inr_iff Let_def arm_filtered_def)
  from count(1) have "0 \<le> tokens" using assms(4) by (simp add: counted_Inr nonnegative_counter_def)
  moreover have "plain_refs (dx_disposition_refs x)"
    unfolding x using disp_refs single by (cases mode) (simp_all add: arm_dispositions_def del: filter.simps(2))
  moreover have "plain_refs (dx_selected_recollection_refs x)" "plain_refs (dx_selected_disposition_refs x)"
    using rec_refs [of "\<lambda>_. True"] disp_refs [of "\<lambda>_. True"] by (simp_all add: x)
  ultimately show ?thesis using x count(2) rec_refs by (simp add: good_arm_def)
qed

lemma contexts_good:
  assumes "build_delayed_contexts c cf memory_tokens token_count = Inr contexts" and "plain_context c"
    and "nonnegative_counter token_count"
  shows "\<exists>m. \<forall>mode. dx_mode (arm_in contexts mode) = mode \<and> good_arm m (arm_in contexts mode)"
proof -
  from assms(1) obtain m where built: "map_r (arm_context c cf m token_count) delayed_modes = Inr contexts"
    by (auto simp: build_delayed_contexts_def bindr_Inr_iff split: pyval.splits if_splits)
  then obtain a b d e where contexts: "contexts = [a, b, d, e]" and arms: "arm_context c cf m token_count RAG = Inr a"
    "arm_context c cf m token_count LEARNED_SEED = Inr b" "arm_context c cf m token_count ORACLE_SEED = Inr d"
    "arm_context c cf m token_count ANTI_SEED = Inr e"
    by (auto simp: delayed_modes_def bindr_Inr_iff)
  note good = arms [THEN arm_context_good, OF arms(2) assms(2,3)]
  have "dx_mode (arm_in contexts mode) = mode \<and> good_arm m (arm_in contexts mode)" for mode
    using good by (cases mode) (simp_all add: arm_in_def contexts)
  then show ?thesis by blast
qed

text \<open>The arms of a successful generation.\<close>

lemma map_PStr_inject [simp]: "map PStr a = map PStr b \<longleftrightarrow> a = b"
  by (simp add: inj_map_eq_map inj_on_def)

lemma answer_record_good:
  assumes "answer_record x reply digest = Inr raw" and "dx_mode x = mode" and "good_arm m x" and "\<And>name. sha256_checked (PStr digest) name = Inr digest"
  shows "good_answer m mode raw \<and> get raw (lit ''rendered_disposition_refs'') = refs_value (dx_disposition_refs x) \<and> distinct (map fst raw)"
proof -
  from assms(1) obtain answer where "nonblank reply (lit ''answer output'') = Inr answer" and raw: "raw = the (as_mapping (PDict
      [(lit ''mode'', PStr (arm_value (dx_mode x))), (lit ''output'', PStr answer), (lit ''error'', PStr []),
       (lit ''memory_refs'', refs_value (dx_memory_refs x)),
       (lit ''selected_recollection_refs'', refs_value (dx_selected_recollection_refs x)),
       (lit ''selected_disposition_refs'', refs_value (dx_selected_disposition_refs x)),
       (lit ''rendered_recollection_refs'', refs_value (dx_recollection_refs x)),
       (lit ''rendered_disposition_refs'', refs_value (dx_disposition_refs x)),
       (lit ''memory_tokens'', PInt (dx_memory_tokens x)), (lit ''memory_budget'', PInt (dx_memory_budget x)),
       (lit ''answer_request_sha256'', PStr digest)]))"
    by (auto simp: answer_record_def bindr_Inr_iff)
  then have "strip answer \<noteq> []" by (auto simp: nonblank_Inr)
  then show ?thesis
    using assms(2-4) by (simp add: good_answer_def raw get_def get_or_def answer_refs_def good_arm_def)
qed

lemma answer_arm_good:
  assumes "answer_arm env inst contexts n mode st = (Inr raw, st')" and "dx_mode (arm_in contexts mode) = mode" and "good_arm m (arm_in contexts mode)"
    and "sha256_sized (de_sha256 env)"
  shows "good_answer m mode raw \<and> get raw (lit ''rendered_disposition_refs'') = refs_value (dx_disposition_refs (arm_in contexts mode)) \<and> distinct (map fst raw)"
proof -
  from assms(1) obtain reply digest request where "request_sha256 (de_sha256 env) request = Inr digest"
    and recorded: "answer_record (arm_in contexts mode) reply digest = Inr raw"
    by (auto simp: answer_arm_def bind_call_Inr split: prod.splits)
  then have "sha256_checked (PStr digest) name = Inr digest" for name
    using text_digest_checked [OF _ assms(4)] by (auto simp: request_sha256_def split: prod.splits)
  from answer_record_good [OF recorded assms(2,3) this] show ?thesis .
qed

lemma answer_arms_good:
  assumes "answer_arms env inst contexts n modes st = (Inr answers, st')"
    and "\<And>mode. dx_mode (arm_in contexts mode) = mode \<and> good_arm m (arm_in contexts mode)" and "sha256_sized (de_sha256 env)"
  shows "map fst answers = modes \<and> (\<forall>(mode, raw) \<in> set answers. good_answer m mode raw \<and>
    get raw (lit ''rendered_disposition_refs'') = refs_value (dx_disposition_refs (arm_in contexts mode)) \<and> distinct (map fst raw))"
  using assms(1)
proof (induction modes arbitrary: st answers)
  case (Cons mode modes)
  then obtain raw rest st1 where one: "answer_arm env inst contexts n mode st = (Inr raw, st1)"
    and rest: "answer_arms env inst contexts n modes st1 = (Inr rest, st')" and answers: "answers = (mode, raw) # rest"
    by (auto simp: bind_call_Inr)
  from answer_arm_good [OF one _ _ assms(3), of m] assms(2) Cons.IH [OF rest] show ?case by (simp add: answers)
qed simp

lemma active_count_nonneg: "0 \<le> active_count name state"
  by (simp add: active_count_def split: option.splits)

definition diagnosed_by :: "delayed_context \<Rightarrow> pydict \<Rightarrow> bool" where
  "diagnosed_by learned d \<longleftrightarrow> (\<exists>n. get d (lit ''active_dispositions'') = PInt n \<and> 0 \<le> n) \<and>
     get d (lit ''selected_disposition_refs'') = refs_value (dx_selected_disposition_refs learned) \<and>
     get d (lit ''rendered_disposition_refs'') = refs_value (dx_disposition_refs learned) \<and> distinct (map fst d)"

lemma diagnostic_good: "diagnosed_by learned (delayed_diagnostic prepared learned)"
  by (simp add: diagnosed_by_def delayed_diagnostic_def Let_def get_def get_or_def active_count_nonneg)

text \<open>A result whose answers, diagnostic and identity the summary accepts.\<close>

definition good_result :: "pystr \<Rightarrow> pystr \<Rightarrow> pydict \<Rightarrow> bool" where
  "good_result instance_ref pattern_ref d \<longleftrightarrow> get d (lit ''protocol'') = PStr PROTOCOL \<and>
     get d (lit ''instance_ref'') = PStr instance_ref \<and> strip instance_ref \<noteq> [] \<and> get d (lit ''pattern_ref'') = PStr pattern_ref \<and>
     (\<exists>m f diagnostic learned. get d (lit ''answers'') = PList (map (\<lambda>mode. PDict (f mode)) delayed_modes) \<and>
        (\<forall>mode. good_answer m mode (f mode) \<and> distinct (map fst (f mode))) \<and> get d (lit ''diagnostic'') = PDict diagnostic \<and>
        diagnosed_by learned diagnostic \<and> good_arm m learned \<and>
        get (f LEARNED_SEED) (lit ''rendered_disposition_refs'') = refs_value (dx_disposition_refs learned))"

lemma map_of_all: "map fst answers = modes \<Longrightarrow> set modes = UNIV \<Longrightarrow> \<exists>raw. map_of answers mode = Some raw \<and> (mode, raw) \<in> set answers"
  by (metis UNIV_I list.set_map map_of_SomeD not_Some_eq map_of_eq_None_iff)

lemma answer_arm_order_all: "answer_arm_order sha256 v = Inr modes \<Longrightarrow> set modes = UNIV"
proof -
  have "set delayed_modes = UNIV" unfolding delayed_modes_def using arm_value.cases by auto
  then show "answer_arm_order sha256 v = Inr modes \<Longrightarrow> set modes = UNIV"
    by (auto simp: answer_arm_order_def mode_order_def bindr_Inr_iff)
qed

lemma logged_Inr: "logged e op st = (Inr y, st') \<longleftrightarrow> (\<exists>w'. op (fst st) = (Inr y, w') \<and> st' = (w', snd st @ [e (Inr y)]))"
  by (auto simp: logged_def split: prod.splits)

lemma generated_good:
  assumes "generate_delayed_answers env inst cf evaluation memory_tokens n st = (Inr result, st')"
    and "sha256_sized (de_sha256 env)" and "nonnegative_counter (de_token_count env)"
    and "plain_memory (de_memory env)"
  shows "good_result (di_instance_ref inst) (di_pattern_ref inst) result \<and> distinct (map fst result)"
proof -
  obtain prepared contexts modes answers digest max_tokens st1 st2 st3 where
    prepared: "prepare_delayed_instance env inst evaluation st1 = (Inr prepared, st2)"
    and contexts: "build_delayed_contexts (pd_memory_context prepared) cf memory_tokens (de_token_count env) = Inr contexts"
    and modes: "answer_arm_order (de_sha256 env) (PStr (di_instance_ref inst)) = Inr modes"
    and answers: "answer_arms env inst contexts max_tokens modes st2 = (Inr answers, st3)"
    and result: "result = delayed_result inst digest answers (delayed_diagnostic prepared (arm_in contexts LEARNED_SEED))"
    using assms(1) unfolding generate_delayed_answers_def bind_call_Inr pure_call_Inr sum.inject by blast
  from prepared have plain: "plain_context (pd_memory_context prepared)"
    using assms(4) by (auto simp: prepare_delayed_instance_def bind_call_Inr call_defs logged_Inr dest: plain_memoryD)
  from contexts_good [OF contexts plain assms(3)] obtain m where good: "\<And>mode. dx_mode (arm_in contexts mode) = mode \<and> good_arm m (arm_in contexts mode)" by blast
  note all = answer_arms_good [OF answers good assms(2)]
  have each: "good_answer m mode (the (map_of answers mode)) \<and> distinct (map fst (the (map_of answers mode))) \<and>
      get (the (map_of answers mode)) (lit ''rendered_disposition_refs'') = refs_value (dx_disposition_refs (arm_in contexts mode))" for mode
    using map_of_all [OF _ answer_arm_order_all [OF modes], of answers mode] all by auto
  have "strip (di_instance_ref inst) \<noteq> []" using modes by (auto simp: answer_arm_order_def mode_order_def bindr_Inr_iff nonblank_Inr)
  then have "good_result (di_instance_ref inst) (di_pattern_ref inst) result"
    unfolding good_result_def using each good diagnostic_good
    by (auto simp: result delayed_result_def get_def get_or_def intro!: exI [of _ m] exI [of _ "\<lambda>mode. the (map_of answers mode)"] exI [of _ "arm_in contexts LEARNED_SEED"])
  then show ?thesis by (simp add: result delayed_result_def)
qed

section \<open>What the judgement adds\<close>

definition good_judgement :: "judge_task \<Rightarrow> pydict \<Rightarrow> bool" where
  "good_judgement job d = (case job of (comparison, direction, a, b) \<Rightarrow>
     get d (lit ''comparison'') = PStr comparison \<and> get d (lit ''direction'') = PStr direction \<and>
     get d (lit ''a_mode'') = PStr (arm_value a) \<and> get d (lit ''b_mode'') = PStr (arm_value b) \<and>
     (\<exists>token. get d (lit ''judge_output'') = PStr token \<and> parse_pairwise_token (PStr token) = Inr token) \<and>
     (\<exists>s. get d (lit ''judge_request_sha256'') = PStr s \<and> (\<forall>name. sha256_checked (PStr s) name = Inr s)))"

lemma parse_token_again: "parse_pairwise_token v = Inr token \<Longrightarrow> parse_pairwise_token (PStr token) = Inr token"
proof -
  have "strip (lit ''A'') = lit ''A''" "strip (lit ''B'') = lit ''B''" "strip (lit ''TIE'') = lit ''TIE''" by (simp_all add: strip_eval)
  then have "parse_pairwise_token (PStr t) = Inr t" if "t \<in> {lit ''A'', lit ''B'', lit ''TIE''}" for t
    using that by (auto simp: parse_pairwise_token_def py_upper_def ascii_upper_def lit_def Let_def)
  then show "parse_pairwise_token v = Inr token \<Longrightarrow> parse_pairwise_token (PStr token) = Inr token" using pairwise_tokens by blast
qed

lemma judge_job_good:
  assumes "judge_job sha256 judge_model persona request label answers n job st = (Inr entry, st')" and "sha256_sized sha256"
  shows "good_judgement job entry"
proof -
  obtain comparison direction a b where job: "job = (comparison, direction, a, b)" by (metis prod_cases4)
  from assms(1) obtain v token digest asked where "parse_pairwise_token v = Inr token" "request_sha256 sha256 asked = Inr digest"
    and "entry = the (as_mapping (PDict [(lit ''comparison'', PStr comparison), (lit ''direction'', PStr direction), (lit ''a_mode'', PStr (arm_value a)),
       (lit ''b_mode'', PStr (arm_value b)), (lit ''judge_output'', PStr token), (lit ''judge_request_sha256'', PStr digest)]))"
    by (auto simp: judge_job_def job bind_call_Inr split: prod.splits)
  moreover from this(2) have "sha256_checked (PStr digest) name = Inr digest" for name
    using text_digest_checked [OF _ assms(2)] by (auto simp: request_sha256_def split: prod.splits)
  ultimately show ?thesis by (simp add: good_judgement_def job get_def get_or_def parse_token_again)
qed

lemma judge_all_good:
  assumes "judge_all_jobs (judge_job sha256 judge_model persona request label answers n) jobs st = (Inr records, st')"
    and "sha256_sized sha256"
  shows "list_all2 good_judgement jobs records"
  using assms(1)
proof (induction jobs arbitrary: st records)
  case (Cons job jobs)
  then obtain entry rest st1 where one: "judge_job sha256 judge_model persona request label answers n job st = (Inr entry, st1)"
    and rest: "judge_all_jobs (judge_job sha256 judge_model persona request label answers n) jobs st1 = (Inr rest, st')" and "records = entry # rest"
    by (auto simp: bind_call_Inr)
  moreover have "good_judgement job entry" by (rule judge_job_good [OF one assms(2)])
  ultimately show ?case using Cons.IH [OF rest] by simp
qed simp

lemma filter_related:
  assumes "list_all2 R xs ys" and "\<And>x y. R x y \<Longrightarrow> P x \<longleftrightarrow> Q y"
  shows "list_all2 R (filter P xs) (filter Q ys)"
  using assms(1) by (induction rule: list_all2_induct) (auto simp: assms(2))

lemma filter_sort_single: "filter P xs = [x] \<Longrightarrow> filter P (sort_key f xs) = [x]"
proof -
  have "mset (filter P (sort_key f xs)) = mset (filter P xs)" by simp
  moreover assume "filter P xs = [x]"
  ultimately have "mset (filter P (sort_key f xs)) = {#x#}" by (simp only: mset.simps)
  then show "filter P (sort_key f xs) = [x]" by (simp only: mset_single_iff)
qed

abbreviation "all_jobs \<equiv> concat (map pair_jobs PAIRWISE_COMPARISONS)"

lemma pair_jobs_eq: "pair_jobs p = [(comparison_name p, lit ''forward'', fst p, snd p), (comparison_name p, lit ''reverse'', snd p, fst p)]"
  by (cases p) (simp add: pair_jobs_def)

lemma filter_jobs:
  assumes "pair \<in> set PAIRWISE_COMPARISONS" and "direction \<in> {lit ''forward'', lit ''reverse''}"
  shows "distinct pairs \<Longrightarrow> set pairs \<subseteq> set PAIRWISE_COMPARISONS \<Longrightarrow>
    filter (\<lambda>job. fst job = comparison_name pair \<and> fst (snd job) = direction) (concat (map pair_jobs pairs)) =
    (if pair \<in> set pairs then filter (\<lambda>job. fst (snd job) = direction) (pair_jobs pair) else [])"
proof (induction pairs)
  case (Cons p pairs)
  have "comparison_name p = comparison_name pair \<longleftrightarrow> p = pair" using Cons.prems assms(1) by (intro comparison_name_eq) auto
  then have first: "filter (\<lambda>job. fst job = comparison_name pair \<and> fst (snd job) = direction) (pair_jobs p) =
      (if p = pair then filter (\<lambda>job. fst (snd job) = direction) (pair_jobs pair) else [])"
    using assms(2) unfolding pair_jobs_eq by auto
  have "distinct pairs" "set pairs \<subseteq> set PAIRWISE_COMPARISONS" using Cons.prems by simp_all
  note rest = Cons.IH [OF this]
  show ?case unfolding list.map concat.simps filter_append first rest using Cons.prems(1) by auto
qed simp

lemma job_found:
  assumes "pair \<in> set PAIRWISE_COMPARISONS"
  shows "filter (\<lambda>job. fst job = comparison_name pair \<and> fst (snd job) = lit ''forward'') all_jobs = [(comparison_name pair, lit ''forward'', fst pair, snd pair)]"
    and "filter (\<lambda>job. fst job = comparison_name pair \<and> fst (snd job) = lit ''reverse'') all_jobs = [(comparison_name pair, lit ''reverse'', snd pair, fst pair)]"
proof -
  have "distinct PAIRWISE_COMPARISONS" by (simp add: PAIRWISE_COMPARISONS_def)
  note found = filter_jobs [OF assms _ this order_refl]
  show "filter (\<lambda>job. fst job = comparison_name pair \<and> fst (snd job) = lit ''forward'') all_jobs = [(comparison_name pair, lit ''forward'', fst pair, snd pair)]"
    "filter (\<lambda>job. fst job = comparison_name pair \<and> fst (snd job) = lit ''reverse'') all_jobs = [(comparison_name pair, lit ''reverse'', snd pair, fst pair)]"
    using assms found [of "lit ''forward''"] found [of "lit ''reverse''"] by (simp_all add: pair_jobs_eq)
qed

lemma map_filter_dicts: "List.map_filter as_mapping (map PDict records) = records"
  by (induction records) (simp_all add: List.map_filter_simps)

lemma pair_record_found:
  assumes "list_all2 good_judgement jobs records" and "jobs = sort_key f all_jobs"
    and "filter (\<lambda>job. fst job = comparison \<and> fst (snd job) = lit direction) all_jobs = [(comparison, lit direction, a, b)]"
  shows "\<exists>entry token. pair_record (map PDict records) comparison direction a b = Inr entry \<and>
    get entry (lit ''judge_output'') = PStr token \<and> parse_pairwise_token (PStr token) = Inr token"
proof -
  have "list_all2 good_judgement (filter (\<lambda>job. fst job = comparison \<and> fst (snd job) = lit direction) jobs)
      (filter (\<lambda>d. get d (lit ''comparison'') = PStr comparison \<and> get d (lit ''direction'') = PStr (lit direction)) records)"
    by (rule filter_related [OF assms(1)]) (auto simp: good_judgement_def)
  moreover have "filter (\<lambda>job. fst job = comparison \<and> fst (snd job) = lit direction) jobs = [(comparison, lit direction, a, b)]"
    unfolding assms(2) by (rule filter_sort_single [OF assms(3)])
  ultimately obtain entry where found: "filter (\<lambda>d. get d (lit ''comparison'') = PStr comparison \<and> get d (lit ''direction'') = PStr (lit direction)) records = [entry]"
    and good: "good_judgement (comparison, lit direction, a, b) entry"
    by (auto simp: list_all2_Cons1)
  then show ?thesis
    by (auto simp: pair_record_def map_filter_dicts raise_if_def good_judgement_def)
qed

lemma judge_pair_accepts:
  assumes "list_all2 good_judgement jobs records" and "jobs = sort_key f all_jobs" and "pair \<in> set PAIRWISE_COMPARISONS"
  shows "\<exists>acc'. judge_pair (map PDict records) pair acc = Inr acc'"
proof -
  obtain forward t where "pair_record (map PDict records) (comparison_name pair) ''forward'' (fst pair) (snd pair) = Inr forward"
    "get forward (lit ''judge_output'') = PStr t" "parse_pairwise_token (PStr t) = Inr t"
    using pair_record_found [OF assms(1,2) job_found(1) [OF assms(3)]] by blast
  moreover obtain reverse u where "pair_record (map PDict records) (comparison_name pair) ''reverse'' (snd pair) (fst pair) = Inr reverse"
    "get reverse (lit ''judge_output'') = PStr u" "parse_pairwise_token (PStr u) = Inr u"
    using pair_record_found [OF assms(1,2) job_found(2) [OF assms(3)]] by blast
  ultimately show ?thesis by (cases acc) (simp add: judge_pair_def Let_def pair_consensus_def)
qed

lemma judge_pairs_accept:
  assumes "list_all2 good_judgement jobs records" and "jobs = sort_key f all_jobs"
  shows "set pairs \<subseteq> set PAIRWISE_COMPARISONS \<Longrightarrow> \<exists>acc'. foldr_r (judge_pair (map PDict records)) pairs acc = Inr acc'"
proof (induction pairs arbitrary: acc)
  case (Cons pair pairs)
  then have "pair \<in> set PAIRWISE_COMPARISONS" by simp
  then obtain acc1 where "judge_pair (map PDict records) pair acc = Inr acc1" using judge_pair_accepts [OF assms] by blast
  with Cons show ?case by simp
qed simp

section \<open>The summary accepts what the runner produces\<close>

lemma read_diagnostic_good:
  assumes "get d (lit ''diagnostic'') = PDict diagnostic" and "diagnosed_by learned diagnostic" and "good_arm m learned"
    and "map_of answers LEARNED_SEED = Some raw" and "get raw (lit ''rendered_disposition_refs'') = refs_value (dx_disposition_refs learned)"
  shows "\<exists>n. get diagnostic (lit ''active_dispositions'') = PInt n \<and>
    read_diagnostic d answers = Inr (n \<noteq> 0, dx_selected_disposition_refs learned \<noteq> [], dx_disposition_refs learned \<noteq> [])"
proof -
  obtain selected rendered where "refs_checked (refs_value (dx_selected_disposition_refs learned)) (lit ''selected_disposition_refs'') = Inr selected"
    "selected = [] \<longleftrightarrow> dx_selected_disposition_refs learned = []"
    "refs_checked (refs_value (dx_disposition_refs learned)) (lit ''rendered_disposition_refs'') = Inr rendered"
    "rendered = [] \<longleftrightarrow> dx_disposition_refs learned = []"
    using assms(3) refs_checked_plain unfolding good_arm_def by metis
  moreover obtain n where "get diagnostic (lit ''active_dispositions'') = PInt n" "0 \<le> n" using assms(2) by (auto simp: diagnosed_by_def)
  ultimately show ?thesis
    using assms by (simp add: read_diagnostic_def mapping_or_def diagnosed_by_def raise_if_def Let_def)
qed

definition accepted_result :: "delayed_label \<Rightarrow> pydict \<Rightarrow> bool" where
  "accepted_result label scored \<longleftrightarrow> good_result (dl_instance_ref label) (dl_pattern_ref label) scored \<and>
     (\<exists>(f :: judge_task \<Rightarrow> nat list) jobs records. jobs = sort_key f all_jobs \<and> list_all2 good_judgement jobs records \<and>
        get scored (lit ''pairwise'') = PList (map PDict records))"

lemma tally_accepts:
  assumes "map_of by_ref (fst entry) = Some scored" and "accepted_result (snd entry) scored"
  shows "\<exists>counts row. tally_result by_ref entry tally = Inr \<lparr>dt_counts = counts, dt_rows = dt_rows tally @ [row]\<rparr> \<and> dw_instance_ref row = fst entry"
proof -
  from assms(2) obtain m f diagnostic learned where gets: "get scored (lit ''protocol'') = PStr PROTOCOL"
      "get scored (lit ''pattern_ref'') = PStr (dl_pattern_ref (snd entry))"
    and answers: "get scored (lit ''answers'') = PList (map (\<lambda>mode. PDict (f mode)) delayed_modes)" "\<And>mode. good_answer m mode (f mode)"
    and diagnostic: "get scored (lit ''diagnostic'') = PDict diagnostic" "diagnosed_by learned diagnostic" "good_arm m learned"
      "get (f LEARNED_SEED) (lit ''rendered_disposition_refs'') = refs_value (dx_disposition_refs learned)"
    unfolding accepted_result_def good_result_def by blast
  from assms(2) obtain g :: "judge_task \<Rightarrow> nat list" and jobs records where all: "jobs = sort_key g all_jobs" "list_all2 good_judgement jobs records"
    and pairwise: "get scored (lit ''pairwise'') = PList (map PDict records)"
    unfolding accepted_result_def by (elim conjE exE) (rule that)
  note jobs = all(2,1)
  obtain acc where "foldr_r (judge_pair (map PDict records)) PAIRWISE_COMPARISONS (dt_counts tally, []) = Inr acc"
    using judge_pairs_accept [OF jobs order_refl] by blast
  then obtain counts consensuses where scored: "foldr_r (judge_pair (map PDict records)) PAIRWISE_COMPARISONS (dt_counts tally, []) = Inr (counts, consensuses)"
    by (cases acc) simp
  have "length records = length jobs" using list_all2_lengthD [OF jobs(1)] by simp
  also have "length jobs = length PAIRWISE_COMPARISONS * 2" unfolding jobs(2) length_sort length_concat by (simp add: PAIRWISE_COMPARISONS_def pair_jobs_def)
  finally have length: "length records = length PAIRWISE_COMPARISONS * 2" .
  have learned: "map_of (map (\<lambda>mode. (mode, f mode)) delayed_modes) LEARNED_SEED = Some (f LEARNED_SEED)" by (simp add: delayed_modes_def)
  obtain a b c where "read_diagnostic scored (map (\<lambda>mode. (mode, f mode)) delayed_modes) = Inr (a, b, c)"
    using read_diagnostic_good [OF diagnostic(1-3) learned diagnostic(4)] by blast
  note facts = this assms(1) gets answers(1) validated_good_answers [OF answers(2)] pairwise scored length
  show ?thesis
    unfolding tally_result_def facts by (simp add: facts raise_if_def)
qed

lemma tally_all:
  assumes "\<And>entry. entry \<in> set labels \<Longrightarrow> \<exists>scored. map_of by_ref (fst entry) = Some scored \<and> accepted_result (snd entry) scored"
  shows "\<exists>tally'. foldr_r (tally_result by_ref) labels tally = Inr tally' \<and> map dw_instance_ref (dt_rows tally') = map dw_instance_ref (dt_rows tally) @ map fst labels"
  using assms
proof (induction labels arbitrary: tally)
  case (Cons entry labels)
  then obtain scored where "map_of by_ref (fst entry) = Some scored" "accepted_result (snd entry) scored" by (meson list.set_intros(1))
  from tally_accepts [OF this, of tally] obtain counts row where
    "tally_result by_ref entry tally = Inr \<lparr>dt_counts = counts, dt_rows = dt_rows tally @ [row]\<rparr>" "dw_instance_ref row = fst entry" by blast
  moreover have "\<exists>tally'. foldr_r (tally_result by_ref) labels \<lparr>dt_counts = counts, dt_rows = dt_rows tally @ [row]\<rparr> = Inr tally' \<and>
      map dw_instance_ref (dt_rows tally') = map dw_instance_ref (dt_rows tally @ [row]) @ map fst labels"
    using Cons.IH [of "\<lparr>dt_counts = counts, dt_rows = dt_rows tally @ [row]\<rparr>"] Cons.prems by simp
  ultimately show ?case by auto
qed simp

lemma index_all:
  assumes "list_all2 (\<lambda>entry scored. get scored (lit ''instance_ref'') = PStr (fst entry) \<and> strip (fst entry) = fst entry \<and> fst entry \<noteq> []) labels results"
    and "distinct (map fst acc @ map fst labels)"
  shows "foldr_r index_result results acc = Inr (acc @ zip (map fst labels) results)"
  using assms
proof (induction labels results arbitrary: acc rule: list_all2_induct)
  case (Cons entry labels scored results)
  then have "index_result scored acc = Inr (acc @ [(fst entry, scored)])"
    by (auto simp: index_result_def field_text_def raise_if_def)
  moreover have "foldr_r index_result results (acc @ [(fst entry, scored)]) = Inr ((acc @ [(fst entry, scored)]) @ zip (map fst labels) results)"
    by (rule Cons.IH) (use Cons.prems in auto)
  ultimately show ?case by simp
qed simp

lemma distinct_sorted_dict: "distinct (map fst d) \<Longrightarrow> distinct (map fst (sorted_dict d))"
proof -
  have "mset (map fst (sorted_dict d)) = mset (map fst (map (\<lambda>(k, v). (k, sort_keys v)) d))" by (simp only: sorted_dict_def mset_map mset_sort)
  also have "map fst (map (\<lambda>(k, v). (k, sort_keys v)) d) = map fst d" by (induction d) auto
  finally show "distinct (map fst d) \<Longrightarrow> distinct (map fst (sorted_dict d))" using mset_eq_imp_distinct_iff by blast
qed

lemma diagnosed_sorted: "diagnosed_by learned d \<Longrightarrow> diagnosed_by learned (sorted_dict d)"
proof -
  assume d: "diagnosed_by learned d"
  then have keys: "distinct (map fst d)" by (simp add: diagnosed_by_def)
  from d distinct_sorted_dict [OF keys] show ?thesis unfolding diagnosed_by_def get_sorted_dict [OF keys] by auto
qed

lemma good_answer_rendered:
  "distinct (map fst d) \<Longrightarrow> get d k = refs_value refs \<Longrightarrow> get (sorted_dict d) k = refs_value refs"
  by (simp add: get_sorted_dict)

lemma good_result_sorted:
  assumes "good_result ref pattern_ref d" and "distinct (map fst d)"
  shows "good_result ref pattern_ref (sorted_dict d)"
proof -
  from assms(1) obtain m f diagnostic learned where gets: "get d (lit ''protocol'') = PStr PROTOCOL" "get d (lit ''instance_ref'') = PStr ref" "strip ref \<noteq> []"
      "get d (lit ''pattern_ref'') = PStr pattern_ref"
    and answers: "get d (lit ''answers'') = PList (map (\<lambda>mode. PDict (f mode)) delayed_modes)" "\<And>mode. good_answer m mode (f mode) \<and> distinct (map fst (f mode))"
    and diagnostic: "get d (lit ''diagnostic'') = PDict diagnostic" "diagnosed_by learned diagnostic" "good_arm m learned"
      "get (f LEARNED_SEED) (lit ''rendered_disposition_refs'') = refs_value (dx_disposition_refs learned)"
    unfolding good_result_def by blast
  have sorted: "sort_keys (PList (map (\<lambda>mode. PDict (f mode)) delayed_modes)) = PList (map (\<lambda>mode. PDict (sorted_dict (f mode))) delayed_modes)"
    by (simp add: comp_def sorted_dict_def)
  have rendered: "get (sorted_dict (f LEARNED_SEED)) (lit ''rendered_disposition_refs'') = refs_value (dx_disposition_refs learned)"
    by (rule good_answer_rendered [OF conjunct2 [OF answers(2)] diagnostic(4)])
  have each: "good_answer m mode (sorted_dict (f mode)) \<and> distinct (map fst (sorted_dict (f mode)))" for mode
    using good_answer_sorted [of m mode "f mode"] answers(2) [of mode] distinct_sorted_dict by blast
  show ?thesis
    unfolding good_result_def get_sorted_dict [OF assms(2)] gets answers(1) diagnostic(1) sorted sort_keys_dict
    using gets(3) each rendered diagnosed_sorted [OF diagnostic(2)] diagnostic(3)
    by (auto intro!: exI [of _ m] exI [of _ "\<lambda>mode. sorted_dict (f mode)"] exI [of _ learned])
qed

lemma judged_accepted:
  assumes "judge_delayed_answers sha256 judge_model result label max_judge st = (Inr scored, st')"
    and "good_result ref pattern_ref result" and "distinct (map fst result)" and "sha256_sized sha256"
  shows "accepted_result label scored \<and> dl_instance_ref label = ref \<and> get scored (lit ''instance_ref'') = PStr ref"
proof -
  note sorted = good_result_sorted [OF assms(2,3)]
  have judged_value: "the (as_mapping (sort_keys (PDict result))) = sorted_dict result" by (simp add: sorted_dict_def)
  obtain answers persona request jobs records n st1 st2 where
    ident: "get (sorted_dict result) (lit ''instance_ref'') = PStr (dl_instance_ref label)" "get (sorted_dict result) (lit ''pattern_ref'') = PStr (dl_pattern_ref label)"
    and jobs: "judge_jobs sha256 (dl_instance_ref label) = Inr jobs"
    and records: "judge_all_jobs (judge_job sha256 judge_model persona request label answers n) jobs st1 = (Inr records, st2)"
    and scored: "scored = AList.update (lit ''pairwise'') (PList (map PDict records)) (sorted_dict result)"
    using assms(1) unfolding judge_delayed_answers_def judged_value Let_def bind_call_Inr pure_call_Inr sum.inject raise_if_Inr de_Morgan_disj not_not
    by blast
  have gets: "get scored k = (if k = lit ''pairwise'' then PList (map PDict records) else get (sorted_dict result) k)" for k
    by (simp add: scored get_def get_or_def update_conv')
  from jobs obtain f :: "judge_task \<Rightarrow> nat list" where f: "jobs = sort_key f all_jobs" by (auto simp: judge_jobs_def bindr_Inr_iff)
  have same: "ref = dl_instance_ref label" "pattern_ref = dl_pattern_ref label" using sorted ident by (auto simp: good_result_def)
  have "good_result ref pattern_ref scored" using sorted unfolding good_result_def gets by simp
  moreover have "list_all2 good_judgement jobs records" by (rule judge_all_good [OF records assms(4)])
  ultimately show ?thesis using f ident(1) same unfolding accepted_result_def by (auto simp: gets)
qed

text \<open>A result that the runner generated in some run and judged in another.\<close>

definition produced :: "'w delayed_env \<Rightarrow> (completion \<Rightarrow> ('w, pyval) io) \<Rightarrow> delayed_label \<Rightarrow> pydict \<Rightarrow> bool" where
  "produced env judge_model label result \<longleftrightarrow> (\<exists>inst cf evaluation memory_tokens n max_judge generated st st1 st2 st3.
     generate_delayed_answers env inst cf evaluation memory_tokens n st = (Inr generated, st1) \<and>
     judge_delayed_answers (de_sha256 env) judge_model generated label max_judge st2 = (Inr result, st3))"

lemma produced_accepted:
  assumes "produced env judge_model label result" and "sha256_sized (de_sha256 env)" and "nonnegative_counter (de_token_count env)"
    and "plain_memory (de_memory env)"
  shows "accepted_result label result \<and> get result (lit ''instance_ref'') = PStr (dl_instance_ref label) \<and> dl_instance_ref label \<noteq> []"
proof -
  from assms(1) obtain inst cf evaluation memory_tokens n max_judge generated st st1 st2 st3 where
    generated: "generate_delayed_answers env inst cf evaluation memory_tokens n st = (Inr generated, st1)"
    and scored: "judge_delayed_answers (de_sha256 env) judge_model generated label max_judge st2 = (Inr result, st3)"
    unfolding produced_def by blast
  note good = generated_good [OF generated assms(2-4)]
  have "strip [] = []" by (simp add: example_letters)
  then have "di_instance_ref inst \<noteq> []" using good by (auto simp: good_result_def)
  with judged_accepted [OF scored conjunct1 [OF good] conjunct2 [OF good] assms(2)] show ?thesis by auto
qed

text \<open>C38: The runner and the summary agree. Results that the runner generated and judged, one for each label of a cohort,
  are accepted by the summary, which has one row for each label. It is assumed that a SHA-256 digest has 32 bytes, that the
  token counter gives no negative number and that the Core's refs have no blanks at their ends.\<close>

theorem runner_results_accepted:
  assumes "sha256_sized (de_sha256 env)" and "nonnegative_counter (de_token_count env)" and "plain_memory (de_memory env)"
    and "list_all2 (\<lambda>entry result. produced env judge_model (snd entry) result \<and> fst entry = dl_instance_ref (snd entry) \<and>
      strip (fst entry) = fst entry) labels results"
    and "distinct (map fst labels)" and "0 < minimum_wins" and "minimum_wins \<le> int (length labels)"
  shows "\<exists>summary. summarize_delayed_seed results labels (PInt (int (length labels))) (PInt minimum_wins) = Inr summary \<and>
    map dw_instance_ref (dz_rows summary) = map fst labels"
proof -
  note accepted = produced_accepted [OF _ assms(1-3)]
  have same: "length labels = length results" using assms(4) by (rule list_all2_lengthD)
  have "list_all2 (\<lambda>entry result. get result (lit ''instance_ref'') = PStr (fst entry) \<and> strip (fst entry) = fst entry \<and> fst entry \<noteq> []) labels results"
    using assms(4) by (rule list_all2_mono) (use accepted in auto)
  from index_all [OF this, of "[]"] assms(5)
  have indexed: "foldr_r index_result results [] = Inr (zip (map fst labels) results)" by simp
  have "\<exists>result. map_of (zip (map fst labels) results) (fst entry) = Some result \<and> accepted_result (snd entry) result" if entry: "entry \<in> set labels" for entry
  proof -
    from entry obtain i where i: "i < length labels" "labels ! i = entry" by (auto simp: in_set_conv_nth)
    with same have "map_of (zip (map fst labels) results) (fst entry) = Some (results ! i)"
      using map_of_zip_nth [of "map fst labels" results i] assms(5) by simp
    with i list_all2_nthD [OF assms(4) i(1)] accepted show ?thesis by auto
  qed
  from tally_all [OF this, where tally = "\<lparr>dt_counts = initial_counts, dt_rows = []\<rparr>"] obtain tally where
    tally: "foldr_r (tally_result (zip (map fst labels) results)) labels \<lparr>dt_counts = initial_counts, dt_rows = []\<rparr> = Inr tally"
      "map dw_instance_ref (dt_rows tally) = map fst labels" by auto
  have bounds: "cohort_bounds (PInt (int (length labels))) (PInt minimum_wins) = Inr (length labels, minimum_wins)"
    using assms(6,7) by (auto simp: cohort_bounds_def)
  have "fst ` set (zip (map fst labels) results) = fst ` set labels"
    using same by (metis length_map list.set_map map_fst_zip)
  then show ?thesis
    using tally by (simp add: summarize_delayed_seed_def bounds indexed raise_if_def)
qed

section \<open>The order of the calls\<close>

fun writes_memory :: "('m, 'o) event \<Rightarrow> bool" where
  "writes_memory (Observe _ _) = True"
| "writes_memory (Report _ _) = True"
| "writes_memory Settle = True"
| "writes_memory _ = False"

text \<open>At most \<open>n\<close> writing calls, exactly \<open>n\<close> when the computation returns.\<close>

definition replays :: "nat \<Rightarrow> ('m, 'o) event list \<Rightarrow> 'a result \<Rightarrow> bool" where
  "replays n es r \<longleftrightarrow> list_all writes_memory es \<and> length es \<le> n \<and> (\<forall>x. r = Inr x \<longrightarrow> length es = n)"

lemma replays_pure: "traces (pure_call r) (replays 0)"
  by (rule traces_pure) (simp add: replays_def)

lemma replays_bind:
  fixes m :: "('w, 'm, 'o, 'a) session"
  assumes "traces m (replays k)" and "\<And>x. traces (f x) (replays n)"
  shows "traces (bind_call m f) (replays (k + n))"
proof (rule traces_bind [OF assms(1)])
  fix es :: "('m, 'o) event list" and x :: 'a assume es: "replays k es (Inr x)"
  show "traces (f x) (\<lambda>fs r. replays (k + n) (es @ fs) r)"
    by (rule traces_conseq [OF assms(2)]) (use es in \<open>auto simp: replays_def\<close>)
qed (auto simp: replays_def)

lemma replays_check: "(\<And>x. r = Inr x \<Longrightarrow> traces (f x) (replays n)) \<Longrightarrow> traces (bind_call (pure_call r) f) (replays n)"
  by (rule traces_bind_pure) (auto simp: replays_def)

lemma replays_call: "(\<And>r. writes_memory (e r)) \<Longrightarrow> traces (logged e op) (replays 1)"
  by (rule traces_logged) (simp add: replays_def)

lemma observe_session_replays: "traces (observe_session memory s index evaluation opaque scope) (replays 3)"
proof -
  have source: "traces (bind_call (pure_call (session_observation scope run_name source)) (\<lambda>request.
      bind_call (observing memory request) (\<lambda>_. pure_call (Inr ())))) (replays (1 + 0))" for run_name source
    unfolding observing_def by (intro replays_check replays_bind replays_call replays_pure) simp
  have outcome: "traces (bind_call (pure_call (session_outcome scope run_name opaque text_of)) (\<lambda>request.
      bind_call (reporting memory request) (\<lambda>_. pure_call (Inr ())))) (replays (1 + 0))" for run_name text_of
    unfolding reporting_def by (intro replays_check replays_bind replays_call replays_pure) simp
  have "traces (observe_session memory s index evaluation opaque scope) (replays ((1 + 0) + ((1 + 0) + 0) + (1 + 0)))"
    unfolding observe_session_def Let_def for_each.simps
    by (rule replays_bind [OF replays_bind [OF source replays_bind [OF source replays_pure]] outcome])
  then show ?thesis by (simp add: eval_nat_numeral)
qed

lemma replay_sessions_replays: "traces (replay_sessions env evaluation opaque index sessions) (replays (4 * length sessions))"
proof (induction sessions arbitrary: index)
  case Nil
  then show ?case using replays_pure by simp
next
  case (Cons s sessions)
  have settle: "traces (logged (\<lambda>_. Settle) op) (replays 1)" for op by (rule replays_call) simp
  have rest: "traces (bind_call (replay_sessions env evaluation opaque (index + 1) sessions) (\<lambda>states. pure_call (Inr (state # states)))) (replays (4 * length sessions + 0))" for state
    by (rule replays_bind [OF Cons.IH replays_pure])
  have "traces (replay_sessions env evaluation opaque index (s # sessions)) (replays (3 + (1 + (4 * length sessions + 0))))"
    unfolding replay_sessions.simps Let_def
    by (rule replays_check, rule replays_bind [OF observe_session_replays], rule replays_bind [OF settle], rule rest)
  then show ?case by (simp add: eval_nat_numeral)
qed

text \<open>The calls of the answers: each arm is asked once, with its own memory.\<close>

definition asks :: "delayed_instance \<Rightarrow> delayed_context list \<Rightarrow> int \<Rightarrow> delayed_mode \<Rightarrow> (completion, pyval) event \<Rightarrow> bool" where
  "asks inst contexts n mode ev \<longleftrightarrow> (\<exists>instructions input_text r. ev = Run (instructions, input_text, n) r \<and>
     build_answer_prompt (PStr (di_persona_text inst)) (PStr (di_current_request inst)) (dx_text (arm_in contexts mode)) = Inr (instructions, input_text))"

definition asks_all :: "delayed_instance \<Rightarrow> delayed_context list \<Rightarrow> int \<Rightarrow> delayed_mode list \<Rightarrow> (completion, pyval) event list \<Rightarrow> 'a result \<Rightarrow> bool" where
  "asks_all inst contexts n modes es r \<longleftrightarrow> (\<exists>k \<le> length modes. list_all2 (asks inst contexts n) (take k modes) es \<and>
     (\<forall>x. r = Inr x \<longrightarrow> k = length modes))"

lemma answer_arm_asks:
  "traces (answer_arm env inst contexts n mode) (\<lambda>es r. es = [] \<and> (\<exists>e. r = Inl e) \<or> (\<exists>ev. es = [ev] \<and> asks inst contexts n mode ev))"
  unfolding answer_arm_def running_def
  by (rule traces_bind_pure, blast)
    (auto simp: asks_def split_def intro!: traces_bind_logged traces_bind_pure traces_pure)

lemma answer_arms_ask: "traces (answer_arms env inst contexts n modes) (asks_all inst contexts n modes)"
proof (induction modes)
  case Nil
  then show ?case by (auto simp: asks_all_def intro: traces_pure)
next
  case (Cons mode modes)
  show ?case unfolding answer_arms.simps
  proof (rule traces_bind [OF answer_arm_asks])
    fix es :: "(completion, pyval) event list" and e :: py_error
    assume "es = [] \<and> (\<exists>e'. (Inl e :: pydict result) = Inl e') \<or> (\<exists>ev. es = [ev] \<and> asks inst contexts n mode ev)"
    then show "asks_all inst contexts n (mode # modes) es (Inl e :: (delayed_mode \<times> pydict) list result)"
      by (auto simp: asks_all_def intro: exI [of _ 0] exI [of _ 1])
  next
    fix es :: "(completion, pyval) event list" and x :: pydict
    assume "es = [] \<and> (\<exists>e'. Inr x = Inl e') \<or> (\<exists>ev. es = [ev] \<and> asks inst contexts n mode ev)"
    then obtain ev where ev: "es = [ev]" "asks inst contexts n mode ev" by auto
    have "traces (bind_call (answer_arms env inst contexts n modes) (\<lambda>answers. pure_call (Inr ((mode, x) # answers)))) (asks_all inst contexts n modes)"
      by (rule traces_bind [OF Cons.IH]) (auto simp: asks_all_def intro: traces_pure)
    then show "traces (bind_call (answer_arms env inst contexts n modes) (\<lambda>answers. pure_call (Inr ((mode, x) # answers))))
        (\<lambda>fs r. asks_all inst contexts n (mode # modes) (es @ fs) r)"
    proof (rule traces_conseq)
      fix fs :: "(completion, pyval) event list" and r :: "(delayed_mode \<times> pydict) list result"
      assume "asks_all inst contexts n modes fs r"
      then obtain k where "k \<le> length modes" "list_all2 (asks inst contexts n) (take k modes) fs" "\<forall>x. r = Inr x \<longrightarrow> k = length modes"
        by (auto simp: asks_all_def)
      with ev show "asks_all inst contexts n (mode # modes) (es @ fs) r"
        unfolding asks_all_def by (intro exI [of _ "Suc k"]) simp
    qed
  qed
qed

lemma replays_then:
  fixes m :: "('w, 'm, 'o, 'a) session"
  assumes "traces m (replays k)" and "\<And>hist e. list_all writes_memory hist \<Longrightarrow> S hist (Inl e)"
    and "\<And>hist x. list_all writes_memory hist \<Longrightarrow> length hist = k \<Longrightarrow> traces (f x) (\<lambda>fs r. S (hist @ fs) r)"
  shows "traces (bind_call m f) S"
  by (rule traces_bind [OF assms(1)]) (use assms(2,3) in \<open>auto simp: replays_def\<close>)

text \<open>The calls of the preparation: the writes, then the selection of the memory it returns.\<close>

definition prepares :: "nat \<Rightarrow> (completion, pyval) event list \<Rightarrow> prepared_instance result \<Rightarrow> bool" where
  "prepares n es r \<longleftrightarrow> (\<exists>hist. list_all writes_memory hist \<and>
     (es = hist \<and> (\<exists>e. r = Inl e) \<or> length hist = n \<and> (\<exists>s selected. es = hist @ [Select s selected] \<and>
        ((\<exists>e. selected = Inl e \<and> r = Inl e) \<or> (\<exists>p. selected = Inr (pd_memory_context p) \<and> r = Inr p)))))"

lemma preparesI:
  "list_all writes_memory hist \<Longrightarrow> prepares n hist (Inl e)"
  "list_all writes_memory hist \<Longrightarrow> length hist = n \<Longrightarrow> prepares n (hist @ [Select s (Inl e)]) (Inl e)"
  "list_all writes_memory hist \<Longrightarrow> length hist = n \<Longrightarrow> pd_memory_context p = c \<Longrightarrow> prepares n (hist @ [Select s (Inr c)]) (Inr p)"
  unfolding prepares_def by (intro exI [of _ hist], force)+

lemma prepare_order:
  "traces (prepare_delayed_instance env inst evaluation) (prepares (4 * length (di_history_sessions inst) + 1))"
proof -
  let ?n = "4 * length (di_history_sessions inst)"
  have probe: "traces (bind_call (observing (de_memory env) request) (\<lambda>receipt.
      bind_call (selecting (de_memory env) (probe_select ref opaque receipt)) (\<lambda>selected.
      pure_call (Inr \<lparr>pd_memory_context = selected, pd_states = states, pd_expected_episodes = length states\<rparr>))))
      (\<lambda>fs r. prepares (?n + 1) (hist @ fs) r)" if "list_all writes_memory hist" "length hist = ?n" for request ref opaque states hist
    unfolding observing_def selecting_def
  proof (rule traces_bind_logged, rule preparesI(1))
    fix receipt
    let ?hist = "hist @ [Observe request (Inr receipt)]"
    have h: "list_all writes_memory ?hist" "length ?hist = ?n + 1" using that by simp_all
    show "traces (bind_call (logged (Select (probe_select ref opaque receipt)) (select_memory (de_memory env) (probe_select ref opaque receipt))) (\<lambda>selected.
        pure_call (Inr \<lparr>pd_memory_context = selected, pd_states = states, pd_expected_episodes = length states\<rparr>)))
        (\<lambda>fs r. prepares (?n + 1) (hist @ Observe request (Inr receipt) # fs) r)"
      by (intro traces_bind_logged traces_pure) (use preparesI(2,3) [OF h] in auto)
  qed (use that in simp)
  show ?thesis
    unfolding prepare_delayed_instance_def
    by (rule traces_bind_pure, simp add: preparesI(1), rule traces_bind_pure, simp add: preparesI(1),
        rule replays_then [OF replay_sessions_replays], erule preparesI(1), rule traces_bind_pure, simp add: preparesI(1), erule probe)
qed

lemma answer_arm_order_distinct: "answer_arm_order sha256 v = Inr modes \<Longrightarrow> set modes = UNIV \<and> distinct modes \<and> length modes = 4"
proof -
  assume order: "answer_arm_order sha256 v = Inr modes"
  then have "length modes = 4" "distinct modes"
    by (auto simp: answer_arm_order_def mode_order_def bindr_Inr_iff delayed_modes_def simp del: sort_key_simps)
  with answer_arm_order_all [OF order] show ?thesis by blast
qed

definition generates :: "'w delayed_env \<Rightarrow> delayed_instance \<Rightarrow> delayed_counterfactual \<Rightarrow> pyval \<Rightarrow> (completion, pyval) event list \<Rightarrow> pydict result \<Rightarrow> bool" where
  "generates env inst cf memory_tokens es r \<longleftrightarrow> (\<exists>hist rest. es = hist @ rest \<and> list_all writes_memory hist \<and>
    (rest = [] \<or> length hist = 4 * length (di_history_sessions inst) + 1 \<and> (\<exists>query selected answers. rest = Select query selected # answers \<and>
      (answers = [] \<or> (\<exists>c contexts n modes. selected = Inr c \<and>
         build_delayed_contexts c cf memory_tokens (de_token_count env) = Inr contexts \<and> set modes = UNIV \<and> distinct modes \<and>
         list_all2 (asks inst contexts n) (take (length answers) modes) answers)))) \<and>
    (\<forall>result. r = Inr result \<longrightarrow> length rest = 5))"

lemma generation_traces:
  "traces (generate_delayed_answers env inst cf evaluation memory_tokens max_output_tokens) (generates env inst cf memory_tokens)"
proof -
  let ?n = "4 * length (di_history_sessions inst) + 1"
  have stopped: "generates env inst cf memory_tokens es (Inl e)" if "prepares ?n es (Inl e')" for es e e'
  proof -
    from that obtain hist where "list_all writes_memory hist" "es = hist \<or> length hist = ?n \<and> (\<exists>s e. es = hist @ [Select s e])"
      by (auto simp: prepares_def)
    then show ?thesis unfolding generates_def by (elim disjE conjE exE) (rule exI [of _ hist], force)+
  qed
  have after: "traces (bind_call (pure_call (build_delayed_contexts (pd_memory_context p) cf memory_tokens (de_token_count env))) (\<lambda>contexts.
      bind_call (pure_call (answer_arm_order (de_sha256 env) (PStr (di_instance_ref inst)))) (\<lambda>modes.
      bind_call (answer_arms env inst contexts k modes) (\<lambda>answers.
      bind_call (pure_call (delayed_instance_request_sha256 (de_sha256 env) inst)) (\<lambda>digest.
      pure_call (Inr (delayed_result inst digest answers (delayed_diagnostic p (arm_in contexts LEARNED_SEED)))))))))
      (\<lambda>fs r. generates env inst cf memory_tokens (es @ fs) r)" if "prepares ?n es (Inr p)" for k p es
  proof -
    from that obtain hist s where hist: "list_all writes_memory hist" "length hist = ?n" and es: "es = hist @ [Select s (Inr (pd_memory_context p))]"
      by (auto simp: prepares_def)
    have none: "generates env inst cf memory_tokens (es @ []) (Inl e)" for e
      unfolding generates_def es by (intro exI [of _ hist] exI [of _ "[Select s (Inr (pd_memory_context p))]"]) (use hist in simp)
    have some: "generates env inst cf memory_tokens (es @ fs) r"
      if contexts: "build_delayed_contexts (pd_memory_context p) cf memory_tokens (de_token_count env) = Inr contexts"
        and modes: "answer_arm_order (de_sha256 env) (PStr (di_instance_ref inst)) = Inr modes"
        and asked: "asks_all inst contexts k modes fs (r' :: 'x result)" "\<And>x. r = Inr x \<Longrightarrow> \<exists>y. r' = Inr y" for contexts modes fs r r'
    proof -
      note all = answer_arm_order_distinct [OF modes]
      from asked(1) obtain j where j: "j \<le> length modes" "list_all2 (asks inst contexts k) (take j modes) fs" "\<And>y. r' = Inr y \<Longrightarrow> j = length modes"
        by (auto simp: asks_all_def)
      then have fs: "j = length fs" using list_all2_lengthD [OF j(2)] by simp
      then have "length fs = 4" if "r = Inr x" for x using asked(2) [OF that] j(3) all by auto
      with fs j all contexts hist show ?thesis
        unfolding generates_def es
        by (intro exI [of _ hist] exI [of _ "Select s (Inr (pd_memory_context p)) # fs"]) auto
    qed
    show ?thesis
    proof (intro traces_bind_pure, rule none, rule none)
      fix contexts modes
      assume built: "build_delayed_contexts (pd_memory_context p) cf memory_tokens (de_token_count env) = Inr contexts"
        "answer_arm_order (de_sha256 env) (PStr (di_instance_ref inst)) = Inr modes"
      show "traces (bind_call (answer_arms env inst contexts k modes) (\<lambda>answers.
          bind_call (pure_call (delayed_instance_request_sha256 (de_sha256 env) inst)) (\<lambda>digest.
          pure_call (Inr (delayed_result inst digest answers (delayed_diagnostic p (arm_in contexts LEARNED_SEED)))))))
          (\<lambda>fs r. generates env inst cf memory_tokens (es @ fs) r)"
      proof (rule traces_bind [OF answer_arms_ask])
        fix fs e assume "asks_all inst contexts k modes fs (Inl e :: (delayed_mode \<times> pydict) list result)"
        from some [OF built this, of "Inl e"] show "generates env inst cf memory_tokens (es @ fs) (Inl e)" by simp
      next
        fix fs x assume "asks_all inst contexts k modes fs (Inr x :: (delayed_mode \<times> pydict) list result)"
        from some [OF built this] show "traces (bind_call (pure_call (delayed_instance_request_sha256 (de_sha256 env) inst)) (\<lambda>digest.
            pure_call (Inr (delayed_result inst digest x (delayed_diagnostic p (arm_in contexts LEARNED_SEED))))))
            (\<lambda>gs r. generates env inst cf memory_tokens (es @ fs @ gs) r)"
          by (intro traces_bind_pure traces_pure) auto
      qed
    qed
  qed
  have start: "generates env inst cf memory_tokens [] (Inl e)" for e by (simp add: generates_def)
  show ?thesis
    unfolding generate_delayed_answers_def
    by (rule traces_bind_pure, rule start, rule traces_bind_pure, rule start,
        rule traces_bind [OF prepare_order], erule stopped, erule after)
qed

lemma generation_calls:
  assumes "generate_delayed_answers env inst cf evaluation memory_tokens max_output_tokens (w, sofar) = (r, w', events)"
  shows "\<exists>hist rest. events = sofar @ hist @ rest \<and> list_all writes_memory hist \<and>
    (rest = [] \<or> length hist = 4 * length (di_history_sessions inst) + 1 \<and> (\<exists>query selected answers. rest = Select query selected # answers \<and>
      (answers = [] \<or> (\<exists>c contexts n modes. selected = Inr c \<and>
         build_delayed_contexts c cf memory_tokens (de_token_count env) = Inr contexts \<and> set modes = UNIV \<and> distinct modes \<and>
         list_all2 (asks inst contexts n) (take (length answers) modes) answers)))) \<and>
    (\<forall>result. r = Inr result \<longrightarrow> length rest = 5)"
proof -
  from tracesD [OF generation_traces assms] obtain es where events: "events = sofar @ es" and es: "generates env inst cf memory_tokens es r" by blast
  from es obtain hist rest where "es = hist @ rest" and calls: "list_all writes_memory hist \<and>
    (rest = [] \<or> length hist = 4 * length (di_history_sessions inst) + 1 \<and> (\<exists>query selected answers. rest = Select query selected # answers \<and>
      (answers = [] \<or> (\<exists>c contexts n modes. selected = Inr c \<and>
         build_delayed_contexts c cf memory_tokens (de_token_count env) = Inr contexts \<and> set modes = UNIV \<and> distinct modes \<and>
         list_all2 (asks inst contexts n) (take (length answers) modes) answers)))) \<and>
    (\<forall>result. r = Inr result \<longrightarrow> length rest = 5)"
    unfolding generates_def by (elim exE conjE) (rule that, assumption, intro conjI)
  then have "events = sofar @ hist @ rest" using events by simp
  with calls show ?thesis by (intro exI [of _ hist] exI [of _ rest]) (rule conjI)
qed

text \<open>C39: The history comes first and is only read afterwards. Whatever the result of a generation, its calls are writes to the
  memory, four for each session and one for the probe, then one selection, and then the questions to the model:
  each arm is asked at most once, with the prompt built from its own context of that selection, and nothing is
  written any more. When the generation returns, all four arms were asked.\<close>

theorem generation_order:
  assumes "generate_delayed_answers env inst cf evaluation memory_tokens max_output_tokens (w, sofar) = (r, w', events)"
  shows "\<exists>hist rest. events = sofar @ hist @ rest \<and> list_all writes_memory hist \<and>
    (rest = [] \<or> length hist = 4 * length (di_history_sessions inst) + 1 \<and> (\<exists>query selected answers. rest = Select query selected # answers \<and>
      (answers = [] \<or> (\<exists>c contexts n modes. selected = Inr c \<and>
         build_delayed_contexts c cf memory_tokens (de_token_count env) = Inr contexts \<and> set modes = UNIV \<and> distinct modes \<and>
         list_all2 (asks inst contexts n) (take (length answers) modes) answers)))) \<and>
    (\<forall>result. r = Inr result \<longrightarrow> length rest = 5)"
  using generation_calls [OF assms] .

section \<open>Frozen results\<close>

lemma py_equal_refl: "exact_value v \<Longrightarrow> py_equal float_equal v v"
proof (induction v)
  case (PList vs)
  then show ?case by (auto simp: list_all_iff list_all2_same)
next
  case (PDict d)
  have "case map_of d k of None \<Rightarrow> False | Some w \<Rightarrow> py_equal float_equal v w" if "(k, v) \<in> set d" for k v
    using PDict that by (force simp: list_all_iff)
  then show ?case by (auto simp: list_all_iff)
qed auto

lemma exact_sort_keys: "exact_value v \<Longrightarrow> exact_value (sort_keys v)"
proof (induction v)
  case (PDict d)
  have "list_all (\<lambda>(k, v). exact_value v) (sorted_dict d)" using PDict by (force simp: sorted_dict_def list_all_iff)
  then show ?case using PDict.prems distinct_sorted_dict [of d] unfolding sort_keys_dict by simp
qed (auto simp: list_all_iff)

text \<open>C40: Frozen results stay. Whatever \<open>freeze_result\<close> does for a path, every file keeps its content except the scratch
  file, the path with \<open>.part\<close> appended, which may be overwritten or moved away. When it succeeds, freezing the same
  result again succeeds and changes nothing, and a result that was frozen first loads under its own protocol and
  identity as what was frozen. The result holds no floating point number and no key twice (\<open>exact_value\<close>), as is the
  case for the results of the runner.\<close>

theorem frozen_result_stays:
  assumes "freeze_result float_equal path entry files = (r, files')" and "exact_value (PDict entry)"
  shows "(\<forall>p v. files p = Some v \<and> p \<noteq> path @ lit ''.part'' \<longrightarrow> files' p = Some v) \<and>
    (r = Inr () \<longrightarrow> freeze_result float_equal path entry files' = (Inr (), files') \<and>
      (files path = None \<and> get entry (lit ''protocol'') = PStr PROTOCOL \<and> get entry (lit ''instance_ref'') = PStr instance_ref \<longrightarrow>
        load_frozen_result path instance_ref files' = Inr (Some (sorted_dict entry))))"
proof -
  have "path @ lit ''.part'' \<noteq> path" by simp
  moreover have "py_equal float_equal (sort_keys (PDict entry)) (sort_keys (PDict entry))"
    by (rule py_equal_refl [OF exact_sort_keys [OF assms(2)]])
  moreover have "distinct (map fst entry)" using assms(2) by simp
  ultimately show ?thesis
    using assms(1)
    by (auto simp: freeze_result_def write_frozen_def load_frozen_result_def sort_keys_dict get_sorted_dict
        simp del: sort_keys.simps(2) split: option.splits dyn.splits if_splits)
qed

end
