(* ===== verification/Delayed_Run_Examples.thy ===== *)
theory Delayed_Run_Examples
  imports Delayed_Run_Laws
begin

text \<open>
  Runs of the delayed evaluation on concrete data, where the properties of its runner apply: an instance without
  history, a Core that selects one Recollection and one Disposition, a model and a judge that give letters.
\<close>

section \<open>Texts that can be encoded\<close>

definition plain_text :: "pystr \<Rightarrow> bool" where
  "plain_text t \<longleftrightarrow> \<not> list_ex py_surrogate t"

lemma plain_text_simps [simp]:
  "plain_text []" "plain_text (s @ t) \<longleftrightarrow> plain_text s \<and> plain_text t" "plain_text (c # t) \<longleftrightarrow> \<not> py_surrogate c \<and> plain_text t"
  by (auto simp: plain_text_def)

lemma plain_lit [simp]: "plain_text (lit s)"
proof -
  have "\<not> py_surrogate (of_char c)" for c :: char
    using nat_of_char_less_256 [of c] unfolding py_surrogate_def by linarith
  then show ?thesis by (induction s) (simp_all add: lit_def)
qed

lemma small_codes [simp]: "c < 55296 \<Longrightarrow> \<not> py_surrogate c"
  by (simp add: py_surrogate_def)

lemma plain_strip: "plain_text t \<Longrightarrow> plain_text (strip t)"
  by (auto simp: plain_text_def strip_def list_ex_iff dest: set_strip_on)

lemma plain_join: "plain_text sep \<Longrightarrow> list_all plain_text parts \<Longrightarrow> plain_text (py_join sep parts)"
  by (induction sep parts rule: py_join.induct) simp_all

lemma hex_digit_small: "hex_digit n < 55296" if "n < 16"
  using hex_digit_range [OF that] by linarith

lemma plain_json_string: "plain_text t \<Longrightarrow> plain_text (json_string False t)"
proof -
  have "plain_text (json_char False c)" if "\<not> py_surrogate c" for c
    using that by (simp add: json_char_def unicode_escape_def hex_digit_small)
  then show "plain_text t \<Longrightarrow> plain_text (json_string False t)"
    unfolding json_string_def by (induction t) simp_all
qed

lemma plain_digits: "plain_text (digits n)"
  using digits_range by (fastforce simp: plain_text_def list_ex_iff py_surrogate_def)

lemma plain_dumps: "exact_value v \<Longrightarrow> encodable v \<Longrightarrow> plain_text (compact_dumps v)"
proof (induction v rule: compact_dumps.induct)
  case (1 vs)
  then show ?case by (auto simp: list_all_iff intro!: plain_join)
next
  case (2 d)
  have "plain_text (json_string False k @ 58 # compact_dumps v)" if "(k, v) \<in> set d" for k v
    using 2 that by (force simp: list_all_iff plain_text_def [symmetric] intro: plain_json_string)
  then show ?case by (auto simp: list_all_iff intro!: plain_join)
qed (simp_all add: json_int_def plain_digits plain_json_string plain_text_def [symmetric])

lemma encodable_sorted: "encodable v \<Longrightarrow> encodable (sort_keys v)"
proof (induction v)
  case (PDict d)
  then have "list_all (\<lambda>(k, v). \<not> list_ex py_surrogate k \<and> encodable v) (sorted_dict d)" by (force simp: sorted_dict_def list_all_iff)
  then show ?case unfolding sort_keys_dict by simp
qed (auto simp: list_all_iff)

lemma digest_written: "exact_value v \<Longrightarrow> encodable v \<Longrightarrow> text_digest sha256 (compact_dumps (sort_keys v)) = Inr (hexdigest (sha256 (compact_dumps (sort_keys v))))"
  using plain_dumps [OF exact_sort_keys encodable_sorted] by (simp add: text_digest_def raise_if_def plain_text_def)

text \<open>A request of encodable texts has a digest.\<close>

lemma request_digest: "plain_text s \<Longrightarrow> plain_text t \<Longrightarrow> \<exists>digest. request_sha256 sha256 (s, t, n) = Inr digest"
  unfolding request_sha256_def split by (subst digest_written) (auto simp: lit_def plain_text_def)

section \<open>A run\<close>

definition memory_example :: "unit memory_client" where
  "memory_example = \<lparr>observe_source_event = \<lambda>_ w. (Inr \<lparr>sr_source_event_ref = lit ''s'', sr_episode_ref = []\<rparr>, w),
     select_memory = \<lambda>_ w. (Inr delayed_example, w), record_memory_delivery = \<lambda>_ w. (Inl UnicodeEncodeError, w),
     report_outcome = \<lambda>_ w. (Inl UnicodeEncodeError, w)\<rparr>"

definition env_example :: "unit delayed_env" where
  "env_example = \<lparr>de_memory = memory_example, de_settle = \<lambda>_ _ w. (Inr [], w), de_model = \<lambda>_ w. (Inr (PStr (lit ''O'')), w),
     de_token_count = length_counter, de_sha256 = \<lambda>_. replicate 32 0\<rparr>"

definition instance_example :: delayed_instance where
  "instance_example = \<lparr>di_instance_ref = lit ''i'', di_pattern_ref = lit ''a'', di_persona_text = lit ''D'', di_history_sessions = [],
     di_current_request = lit ''T''\<rparr>"

lemma strip_i: "strip (lit ''i'') = lit ''i''" by (simp add: strip_eval)

lemma env_assumptions: "sha256_sized (de_sha256 env_example)" "nonnegative_counter (de_token_count env_example)"
    "plain_memory (de_memory env_example)"
  by (auto simp: env_example_def memory_example_def sha256_sized_def nonnegative_counter_def length_counter_def plain_memory_def
      plain_context_def delayed_example_def empty_context_def plain_ref_def example_letters)

lemma prepare_example:
  "\<exists>p es. prepare_delayed_instance env_example instance_example (PStr (lit ''D'')) ((), log0) = (Inr p, (), log0 @ es) \<and>
     pd_memory_context p = delayed_example"
  by (simp add: prepare_delayed_instance_def bind_call_def pure_call_def example_letters opaque_ref_def text_digest_def raise_if_def strip_i
      plain_text_def [symmetric] instance_example_def env_example_def probe_observation_def Let_def call_defs logged_def memory_example_def)

lemma contexts_example: "\<exists>contexts. build_delayed_contexts delayed_example counterfactual_example (PInt 100) length_counter = Inr contexts \<and>
    (\<forall>mode. plain_text (dx_text (arm_in contexts mode)))"
proof -
  have "\<exists>x. arm_context delayed_example counterfactual_example 100 length_counter mode = Inr x \<and>
      (mode \<noteq> RAG \<longrightarrow> dx_disposition_refs x \<noteq> []) \<and> dx_mode x = mode \<and> plain_text (dx_text x)" for mode
    by (cases mode)
      (simp_all add: arm_context_def arm_filtered_def arm_dispositions_def delayed_example_def counterfactual_example_def empty_context_def
        empty_constitution_def with_text_def example_letters render_memory_context_def validate_budget_options_def validated_items_def
        constitution_item_def append_item_def validate_ref_def render_step_def fits_budget_def with_item_def join_sections_def length_counter_def
        counted_def APPLICATION_SCOPE_LABELS_def Let_def raise_if_def flip: lit_append)
  then obtain x where x: "\<And>mode. arm_context delayed_example counterfactual_example 100 length_counter mode = Inr (x mode) \<and>
      (mode \<noteq> RAG \<longrightarrow> dx_disposition_refs (x mode) \<noteq> []) \<and> dx_mode (x mode) = mode \<and> plain_text (dx_text (x mode))" by metis
  then have "build_delayed_contexts delayed_example counterfactual_example (PInt 100) length_counter = Inr (map x delayed_modes)"
    by (simp add: build_delayed_contexts_def delayed_modes_def raise_if_def)
  moreover have "arm_in (map x delayed_modes) mode = x mode" for mode
    using x by (cases mode) (simp_all add: arm_in_def delayed_modes_def)
  ultimately show ?thesis using x by auto
qed

text \<open>Every arm is answered, and the answers differ in their arm only.\<close>

definition answer_example :: "delayed_mode \<Rightarrow> pydict \<Rightarrow> bool" where
  "answer_example mode raw \<longleftrightarrow> get raw (lit ''mode'') = PStr (arm_value mode) \<and> get raw (lit ''output'') = PStr (lit ''O'') \<and> distinct (map fst raw)"

lemma answer_arm_example:
  assumes "plain_text (dx_text (arm_in contexts mode))" and "dx_mode (arm_in contexts mode) = mode"
  shows "\<exists>raw es. answer_arm env_example instance_example contexts n mode ((), log0) = (Inr raw, (), log0 @ es) \<and> answer_example mode raw"
proof -
  have "plain_text ANSWER_SYSTEM" unfolding ANSWER_SYSTEM_def by (rule plain_join) simp_all
  then obtain s t where prompt: "build_answer_prompt (PStr (lit ''D'')) (PStr (lit ''T'')) (dx_text (arm_in contexts mode)) = Inr (s, t)"
    and "plain_text s" "plain_text t"
    using plain_strip [OF assms(1)] by (simp add: build_answer_prompt_def example_letters Let_def)
  then obtain digest where "request_sha256 (\<lambda>_. replicate 32 0) (s, t, n) = Inr digest" using request_digest by blast
  with prompt assms(2) show ?thesis
    by (simp add: answer_arm_def bind_call_def pure_call_def instance_example_def env_example_def call_defs logged_def answer_record_def
        example_letters answer_example_def get_def get_or_def)
qed

lemma answer_arms_example:
  assumes "\<And>mode. plain_text (dx_text (arm_in contexts mode))" and "\<And>mode. dx_mode (arm_in contexts mode) = mode"
  shows "\<exists>answers es. answer_arms env_example instance_example contexts n modes ((), log0) = (Inr answers, (), log0 @ es) \<and>
    map fst answers = modes \<and> (\<forall>(mode, raw) \<in> set answers. answer_example mode raw)"
proof (induction modes arbitrary: log0)
  case Nil
  then show ?case by (simp add: pure_call_def)
next
  case (Cons mode modes)
  obtain raw es where "answer_arm env_example instance_example contexts n mode ((), log0) = (Inr raw, (), log0 @ es)" "answer_example mode raw"
    using answer_arm_example [OF assms] by blast
  moreover obtain answers fs where "answer_arms env_example instance_example contexts n modes ((), log0 @ es) = (Inr answers, (), (log0 @ es) @ fs)"
    "map fst answers = modes" "\<forall>(mode, raw) \<in> set answers. answer_example mode raw" using Cons.IH by blast
  ultimately show ?case by (simp add: bind_call_def pure_call_def)
qed

definition example_result :: "pydict \<Rightarrow> bool" where
  "example_result d \<longleftrightarrow> good_result (lit ''i'') (lit ''a'') d \<and> distinct (map fst d) \<and> get d (lit ''persona_text'') = PStr (lit ''D'') \<and>
     get d (lit ''current_request'') = PStr (lit ''T'') \<and> lit ''pairwise'' \<notin> fst ` set d \<and>
     (\<exists>f. get d (lit ''answers'') = PList (map (\<lambda>mode. PDict (f mode)) delayed_modes) \<and> (\<forall>mode. answer_example mode (f mode)))"

lemma generation_example:
  "\<exists>generated es. generate_delayed_answers env_example instance_example counterfactual_example (PStr (lit ''D'')) (PInt 100) (PInt 1) ((), []) =
     (Inr generated, (), es) \<and> example_result generated"
proof -
  obtain p es where prepared: "prepare_delayed_instance env_example instance_example (PStr (lit ''D'')) ((), []) = (Inr p, (), es)"
    "pd_memory_context p = delayed_example" using prepare_example [of "[]"] by auto
  obtain contexts where contexts: "build_delayed_contexts delayed_example counterfactual_example (PInt 100) length_counter = Inr contexts"
    and plain: "\<And>mode. plain_text (dx_text (arm_in contexts mode))" using contexts_example by blast
  have "plain_context delayed_example"
    by (simp add: plain_context_def delayed_example_def empty_context_def plain_ref_def example_letters)
  from contexts_good [OF contexts this] have modes: "\<And>mode. dx_mode (arm_in contexts mode) = mode"
    using env_assumptions(2) by (auto simp: env_example_def)
  obtain order where order: "answer_arm_order (\<lambda>_. replicate 32 0) (PStr (lit ''i'')) = Inr order"
    by (simp add: answer_arm_order_def mode_order_def strip_i raise_if_def plain_text_def [symmetric])
  obtain answers fs where answers: "answer_arms env_example instance_example contexts 1 order ((), es) = (Inr answers, (), es @ fs)"
    "map fst answers = order" "\<forall>(mode, raw) \<in> set answers. answer_example mode raw"
    using answer_arms_example [OF plain modes, of 1 order es] by blast
  have "\<exists>digest. delayed_instance_request_sha256 (\<lambda>_. replicate 32 0) instance_example = Inr digest"
    unfolding delayed_instance_request_sha256_def
    by (rule exI, rule digest_written) (auto simp: instance_example_def lit_def py_surrogate_def)
  then obtain digest where digest: "delayed_instance_request_sha256 (\<lambda>_. replicate 32 0) instance_example = Inr digest" by blast
  have "answer_example mode (the (map_of answers mode))" for mode
    using map_of_all [OF answers(2) answer_arm_order_all [OF order], of mode] answers(3) by auto
  moreover obtain generated where generated: "generate_delayed_answers env_example instance_example counterfactual_example (PStr (lit ''D'')) (PInt 100) (PInt 1) ((), []) =
     (Inr generated, (), es @ fs)" and result: "generated = delayed_result instance_example digest answers (delayed_diagnostic p (arm_in contexts LEARNED_SEED))"
    using prepared contexts order answers(1) digest
    by (simp add: generate_delayed_answers_def bind_call_def pure_call_def raise_if_def env_example_def instance_example_def counterfactual_example_def)
  moreover note generated_good [OF generated env_assumptions]
  ultimately have "example_result generated"
    unfolding example_result_def
    by (auto simp: delayed_result_def instance_example_def get_def get_or_def intro: exI [of _ "\<lambda>mode. the (map_of answers mode)"])
  with generated show ?thesis by blast
qed

section \<open>Its judgement\<close>

definition label_of_example :: delayed_label where
  "label_of_example = \<lparr>dl_instance_ref = lit ''i'', dl_pattern_ref = lit ''a'', dl_target_behavior = lit ''T''\<rparr>"

definition judge_example :: "completion \<Rightarrow> (unit, pyval) io" where
  "judge_example = (\<lambda>_ w. (Inr (PStr (lit ''A'')), w))"

lemma answers_example: "(\<And>mode. answer_example mode (f mode)) \<Longrightarrow>
    answers_by_mode (PList (map (\<lambda>mode. PDict (f mode)) delayed_modes)) = Inr (map (\<lambda>mode. (mode, f mode)) delayed_modes)"
  by (simp add: answers_by_mode_def answer_by_mode_def delayed_modes_def mapping_or_def answer_example_def arm_of_value raise_if_def example_letters
    del: arm_value.simps)

lemma judge_job_example:
  assumes "\<And>mode. answer_example mode (the (map_of answers mode))"
  shows "\<exists>entry es. judge_job (\<lambda>_. replicate 32 0) judge_example (lit ''D'') (lit ''T'') label_of_example answers n job ((), log0) = (Inr entry, (), log0 @ es)"
proof -
  obtain comparison direction a b where job: "job = (comparison, direction, a, b)" by (metis prod_cases4)
  have "plain_text PAIRWISE_SYSTEM" unfolding PAIRWISE_SYSTEM_def by (rule plain_join) simp_all
  then obtain s t where prompt: "judge_prompt (lit ''D'') (lit ''T'') label_of_example answers a b = Inr (s, t)" and "plain_text s" "plain_text t"
    using assms by (simp add: judge_prompt_def answer_output_def answer_example_def build_pairwise_prompt_def label_of_example_def example_letters)
  then obtain digest where "request_sha256 (\<lambda>_. replicate 32 0) (s, t, n) = Inr digest" using request_digest by blast
  with prompt judged_letters(1) show ?thesis
    by (simp add: judge_job_def job bind_call_def pure_call_def call_defs logged_def judge_example_def)
qed

lemma judge_jobs_example:
  assumes "\<And>mode. answer_example mode (the (map_of answers mode))"
  shows "\<exists>records es. judge_all_jobs (judge_job (\<lambda>_. replicate 32 0) judge_example (lit ''D'') (lit ''T'') label_of_example answers n) jobs ((), log0) =
    (Inr records, (), log0 @ es)"
proof (induction jobs arbitrary: log0)
  case (Cons job jobs)
  obtain entry es where "judge_job (\<lambda>_. replicate 32 0) judge_example (lit ''D'') (lit ''T'') label_of_example answers n job ((), log0) = (Inr entry, (), log0 @ es)"
    using judge_job_example [OF assms] by blast
  moreover obtain records fs where "judge_all_jobs (judge_job (\<lambda>_. replicate 32 0) judge_example (lit ''D'') (lit ''T'') label_of_example answers n) jobs ((), log0 @ es) =
    (Inr records, (), (log0 @ es) @ fs)" using Cons.IH by blast
  ultimately show ?case by (simp add: bind_call_def pure_call_def)
qed (simp add: pure_call_def)

lemma sorted_answer_example: "answer_example mode raw \<Longrightarrow> answer_example mode (sorted_dict raw)"
  by (simp add: answer_example_def get_sorted_dict distinct_sorted_dict)

lemma judgement_example:
  assumes "example_result generated"
  shows "\<exists>result st. judge_delayed_answers (\<lambda>_. replicate 32 0) judge_example generated label_of_example (PInt 1) ((), []) = (Inr result, st)"
proof -
  from assms obtain f where answers: "get generated (lit ''answers'') = PList (map (\<lambda>mode. PDict (f mode)) delayed_modes)"
    and each: "\<And>mode. answer_example mode (f mode)" by (auto simp: example_result_def)
  have f: "answer_example mode (sorted_dict (f mode))" for mode by (rule sorted_answer_example [OF each])
  have keys: "distinct (map fst generated)" "lit ''pairwise'' \<notin> fst ` set (sorted_dict generated)"
    and gets: "get (sorted_dict generated) (lit ''protocol'') = PStr PROTOCOL" "get (sorted_dict generated) (lit ''instance_ref'') = PStr (lit ''i'')"
      "get (sorted_dict generated) (lit ''pattern_ref'') = PStr (lit ''a'')"
      "get (sorted_dict generated) (lit ''persona_text'') = PStr (lit ''D'')" "get (sorted_dict generated) (lit ''current_request'') = PStr (lit ''T'')"
      "get (sorted_dict generated) (lit ''answers'') = PList (map (\<lambda>mode. PDict (sorted_dict (f mode))) delayed_modes)"
    using assms answers by (simp_all add: example_result_def good_result_def get_sorted_dict keys_sorted_dict comp_def sorted_dict_def [symmetric])
  let ?answers = "map (\<lambda>mode. (mode, sorted_dict (f mode))) delayed_modes"
  have "the (map_of ?answers mode) = sorted_dict (f mode)" for mode by (cases mode) (simp_all add: delayed_modes_def)
  then have each: "answer_example mode (the (map_of ?answers mode))" for mode using f by simp
  have "the (as_mapping (sort_keys (PDict generated))) = sorted_dict generated" by (simp add: sorted_dict_def)
  moreover obtain jobs where "judge_jobs (\<lambda>_. replicate 32 0) (lit ''i'') = Inr jobs"
    by (simp add: judge_jobs_def raise_if_def plain_text_def [symmetric])
  moreover obtain records es where "judge_all_jobs (judge_job (\<lambda>_. replicate 32 0) judge_example (lit ''D'') (lit ''T'') label_of_example ?answers 1) jobs ((), []) = (Inr records, (), es)"
    using judge_jobs_example [OF each, of 1 jobs "[]"] by auto
  moreover note answers_example [of "\<lambda>mode. sorted_dict (f mode)", OF f]
  ultimately show ?thesis
    using keys(2) by (simp add: judge_delayed_answers_def bind_call_def pure_call_def Let_def gets raise_if_def label_of_example_def example_letters del: sort_keys.simps)
qed

section \<open>Where the properties apply\<close>

theorem runner_results_accepted_witness:
  "\<exists>result summary. produced env_example judge_example label_of_example result \<and>
    summarize_delayed_seed [result] [(lit ''i'', label_of_example)] (PInt 1) (PInt 1) = Inr summary \<and> map dw_instance_ref (dz_rows summary) = [lit ''i'']"
proof -
  obtain generated es where generated: "generate_delayed_answers env_example instance_example counterfactual_example (PStr (lit ''D'')) (PInt 100) (PInt 1) ((), []) =
     (Inr generated, (), es)" "example_result generated" using generation_example by blast
  obtain result st where "judge_delayed_answers (de_sha256 env_example) judge_example generated label_of_example (PInt 1) ((), []) = (Inr result, st)"
    using judgement_example [OF generated(2)] by (auto simp: env_example_def)
  with generated(1) have "produced env_example judge_example label_of_example result" unfolding produced_def by blast
  with runner_results_accepted [OF env_assumptions, of judge_example "[(lit ''i'', label_of_example)]" "[result]" 1] show ?thesis
    by (auto simp: label_of_example_def strip_i)
qed

theorem generation_order_witness:
  "\<exists>generated first query selected answers. generate_delayed_answers env_example instance_example counterfactual_example (PStr (lit ''D'')) (PInt 100) (PInt 1) ((), []) =
     (Inr generated, (), first # Select query selected # answers) \<and> writes_memory first \<and> length answers = 4"
proof -
  obtain generated es where generated: "generate_delayed_answers env_example instance_example counterfactual_example (PStr (lit ''D'')) (PInt 100) (PInt 1) ((), []) =
     (Inr generated, (), es)" using generation_example by blast
  show ?thesis
    using generation_order [OF generated] generated by (auto simp: instance_example_def length_Suc_conv)
qed

theorem frozen_result_stays_witness:
  "\<exists>files. freeze_result (=) (lit ''p'') [(lit ''protocol'', PStr PROTOCOL), (lit ''instance_ref'', PStr (lit ''i''))] (\<lambda>_. None) = (Inr (), files) \<and>
     (\<exists>entry. load_frozen_result (lit ''p'') (lit ''i'') files = Inr (Some entry))"
proof -
  let ?entry = "[(lit ''protocol'', PStr PROTOCOL), (lit ''instance_ref'', PStr (lit ''i''))]"
  have "freeze_result (=) (lit ''p'') ?entry (\<lambda>_. None) = (Inr (), snd (freeze_result (=) (lit ''p'') ?entry (\<lambda>_. None)))"
    by (simp add: freeze_result_def write_frozen_def plain_text_def [symmetric] PROTOCOL_def)
  from frozen_result_stays [OF this] this show ?thesis by (auto simp: get_def get_or_def)
qed

end
