(* ===== verification/Spec2Isabelle.thy ===== *)
theory Spec2Isabelle
  imports Worker_Server Worker_Injection Sdk_System Lifecycle_Laws Index_Laws Runner_Laws Suite_Laws Delayed_Run_Examples
begin

text \<open>
  A verification library of ChoraMem's Python code: the inference worker (src/worker/python), the SDK
  (src/sdk/python) and the parts of the evaluation (src/eval/python) that enforce a rule of the memory.
  Every definition is a translation of the code it is mapped to; collaborators that are not in the
  repository's sources (the text model, the gRPC stubs, the token counter, tokenizers, SHA-256, the
  Unicode tables) are arguments of the definitions that call them.

  \<^bold>\<open>The program.\<close> ChoraMem's Core (Go) keeps episodes, Recollections and Dispositions. For each
  consolidation window it calls the worker, a stateless text processor that asks a language model for
  changes and returns them as tagged text; the Core parses that text and applies what it accepts. An
  Agent uses the memory through the SDK: it observes the situation, selects memory, renders it under a
  budget, records the delivery of exactly what was rendered, runs the model, observes what the Agent
  did, and may report an outcome. The evaluation drives the same lifecycle in fixed experiments and
  judges their results.

  \<^bold>\<open>Shared theories.\<close>
  \<^item> \<^verbatim>\<open>Prelude\<close>, \<^verbatim>\<open>Py_Text\<close>: Python strings as lists of code points; exceptions as values of a sum type;
    split, splitlines, join, strip and the size of the UTF-8 encoding, with round trips and bounds.
  \<^item> \<^verbatim>\<open>Py_Regex\<close>: the fragment of \<^verbatim>\<open>re\<close> the worker uses, as a backtracking matcher.
  \<^item> \<^verbatim>\<open>Py_Data\<close>: values whose type the code tests (\<^verbatim>\<open>isinstance\<close>, \<^verbatim>\<open>is\<close>), JSON objects, \<^verbatim>\<open>isdigit\<close>, \<^verbatim>\<open>upper\<close>.
  \<^item> \<^verbatim>\<open>Py_Json\<close>: \<^verbatim>\<open>json.dumps\<close> and \<^verbatim>\<open>json.loads\<close> with a round trip, and the lines of a text stream.
  \<^item> \<^verbatim>\<open>Py_Effects\<close>: computations that thread a collaborator's state and log its calls; \<^verbatim>\<open>traces\<close> and \<^verbatim>\<open>adds\<close>
    say which logs a computation can add, \<^verbatim>\<open>keeps\<close> which part of the state it leaves alone.

  \<^bold>\<open>Worker\<close> (memory_core_worker).
  \<^item> \<^verbatim>\<open>Wire\<close>: the messages of inference.proto as records.
  \<^item> \<^verbatim>\<open>Tagged_Grammar\<close>, \<^verbatim>\<open>Tagged_Reading\<close>: ParseTaggedText of src/internal/core/consolidation/parser.go, the
    reader of what the worker returns, as a function and as a relation between blocks and changes.
    Every claim about a worker text is a claim about what this parser reads.
  \<^item> \<^verbatim>\<open>Source_Materials\<close> (source_materials.py), \<^verbatim>\<open>Disposition_Materials\<close> (disposition_materials.py):
    validation of the typed evidence, the gate of a formation job, the contexts shown to the model and
    the binders; a bound text is read back as exactly the intended change.
  \<^item> \<^verbatim>\<open>Prompts\<close>: the fixed instruction texts.
  \<^item> \<^verbatim>\<open>Tagged_Passes\<close>, \<^verbatim>\<open>Tagged_Repairs\<close>, \<^verbatim>\<open>Tagged_Append\<close>, \<^verbatim>\<open>Feedback\<close> (the passes of service.py): repairs
    leave accepted texts alone, removal of a lane is a filter of the parsed changes, an appended text
    is read as the concatenation, normalised feedback names only offered targets and refs.
  \<^item> \<^verbatim>\<open>Worker_Service\<close> (InferenceService.ProcessConsolidationWindow with its recovery calls), and its
    laws \<^verbatim>\<open>Worker_Authority\<close> (no response adapts a new Disposition) and \<^verbatim>\<open>Worker_Limits\<close> (size of prompts
    and responses, which errors can leave the handler). The authority law assumes that the refs the worker
    reads from the window are well formed; \<^verbatim>\<open>Worker_Injection\<close> runs the handler on a window whose Outcome
    text imitates feedback offers, where the conclusion fails.
  \<^item> \<^verbatim>\<open>Worker_Server\<close> (server.py, model.py): settings, server life cycle, the end of main after an interrupt
    of the user, the OpenAI text model.

  \<^bold>\<open>SDK\<close> (memory_core).
  \<^item> \<^verbatim>\<open>Memory_Wire\<close>: the messages of memory.proto as records.
  \<^item> \<^verbatim>\<open>Sdk_Rendering\<close> (rendering.py): the greedy rendering under a token budget and the refs it returns.
  \<^item> \<^verbatim>\<open>Causal_Turn\<close>: the public lifecycle as a step relation on logged calls, and the locale
    \<^verbatim>\<open>causal_turn\<close>, the contract of a component that follows it. The locale is interpreted on the
    adapter, on the query turn of the harness and on the feedback turn of the lifecycle evaluation.
  \<^item> \<^verbatim>\<open>Sdk_Adapter\<close> (adapters/openai_agents.py), \<^verbatim>\<open>Sdk_Client\<close> (client.py), and \<^verbatim>\<open>Sdk_System\<close>, the adapter
    over the authenticated client: every RPC carries the token that the provider answered to a question for
    the tenant of the turn; the runner is assumed not to use the client itself.

  \<^bold>\<open>Evaluation\<close> (memory_core_eval).
  \<^item> \<^verbatim>\<open>Eval_Reference\<close>, \<^verbatim>\<open>Eval_Harness\<close> (reference.py): the four modes, the retrieval baseline, identities;
    memory only after its delivery or, in the retrieval mode, from the scenario's own history; distinct
    idempotency keys, best turns selected.
  \<^item> \<^verbatim>\<open>Eval_Lifecycle\<close>, \<^verbatim>\<open>Lifecycle_Laws\<close> (seed_lifecycle.py): formation, the four feedback cases, the
    suite over an output directory that is a map from file names, with the \<^verbatim>\<open>.part\<close> scratch files through
    which it writes, the summary.
  \<^item> \<^verbatim>\<open>Eval_Delayed\<close>, \<^verbatim>\<open>Delayed_Laws\<close> (delayed_seed_data.py, delayed_seed_effect.py): the loader, the four
    arms, the blind judgement in both orders, the diagnosis and its counts.
  \<^item> \<^verbatim>\<open>Eval_Delayed_Run\<close>, \<^verbatim>\<open>Delayed_Run_Laws\<close>, \<^verbatim>\<open>Delayed_Run_Examples\<close> (delayed_seed_runner.py): one
    instance from its history to the judged result and its frozen file; the order of the calls of a generation, that
    the summary accepts what the runner produced, that frozen files stay; and a concrete run.
  \<^item> \<^verbatim>\<open>Eval_Index\<close> (local_memory_index.py) with \<^verbatim>\<open>Index_Text\<close> (chunks cover the tokens, the embedded text
    forgets the identities), \<^verbatim>\<open>Index_Ranking\<close> (the ranking agrees with sorting the best distances) and
    \<^verbatim>\<open>Index_Laws\<close>: every RPC of the index, failing or not, is a step of an abstract set of hashed
    identities, and what a batch of documents leaves of each of its identities. The tokenizer, the encoder, SHA-256 and the Chroma collection are arguments.
  \<^item> \<^verbatim>\<open>Eval_Runner\<close>, \<^verbatim>\<open>Runner_Laws\<close> (runner_protocol.py): one line of JSON each way between a text model and
    a runner process; what reading back a request gives, and which answers of a runner are delivered.
  \<^item> \<^verbatim>\<open>Eval_Suite\<close>, \<^verbatim>\<open>Suite_Laws\<close> (cli.py, matrix.py): the readers of profiles, of the environment and of
    scenario files, the suite over all scenarios and modes and the matrix over harness drivers; the
    idempotency keys of a suite are distinct, those of a matrix when no harness name has a colon.

  \<^bold>\<open>State and effects.\<close> A handler is a function from the state of its collaborators to a result or an
  exception with the state after it; the prompts sent (worker) or the calls made (SDK, evaluation) are
  a log in that state, so that order and number of calls can be stated. Collaborators may fail at every
  call and answer anything; a value whose Python type the code tests may be of the wrong type.

  \<^bold>\<open>Bounds and termination.\<close> No definition uses fuel. The regular-expression matcher, the parser, the
  passes over blocks and the feedback normaliser recurse on what is left of the text, which each round
  shortens, and their termination is proved; the rest recurses on the data. The limits of the
  code (64 KiB of output, the prompt limit, 32 plain recollections, three formation turns) are the
  numbers in the definitions.

  \<^bold>\<open>Not modelled.\<close> Concurrency of several RPCs (the handlers share no state but the closed flag of the
  client and the lazily created model client), measured durations, argument parsing, signals other
  than the effect of SIGINT on the end of main, and logging. In the evaluation: the readers and runners of third-party benchmarks, statistics with a
  random bootstrap, and the command lines. The Go Core is modelled only where it reads tagged text. A
  similarity is an exact quotient, not its nearest float. A JSON document nested deeper than the
  interpreter's recursion limit and an integer of more than 4300 digits are not refused.
\<close>

end
